(* ===== verification/PyTime.thy ===== *)
theory PyTime
  imports Prelude
begin

text \<open>
  The part of Python's \<open>datetime\<close> the program uses: the proleptic Gregorian calendar,
  \<open>strptime\<close> and \<open>strftime\<close> with the bar format \<open>%Y-%m-%dT%H:%M:%S\<close>,
  \<open>datetime.fromisoformat\<close> (CPython 3.12, without week dates) and the arithmetic with
  \<open>timedelta\<close>. An aware UTC datetime is the number of microseconds since
  \<open>0001-01-01T00:00:00\<close>.
\<close>

type_synonym instant = int

section \<open>The calendar\<close>

definition is_leap :: "int \<Rightarrow> bool" where
  "is_leap y \<longleftrightarrow> y mod 4 = 0 \<and> (y mod 100 \<noteq> 0 \<or> y mod 400 = 0)"

definition days_before_year :: "int \<Rightarrow> int" where
  "days_before_year y = (let z = y - 1 in z * 365 + z div 4 - z div 100 + z div 400)"

definition days_in_month :: "int \<Rightarrow> int \<Rightarrow> int" where
  "days_in_month y m = (if m = 2 then (if is_leap y then 29 else 28)
     else if m = 4 \<or> m = 6 \<or> m = 9 \<or> m = 11 then 30 else 31)"

definition days_before_month :: "int \<Rightarrow> int \<Rightarrow> int" where
  "days_before_month y m =
     [0, 31, 59, 90, 120, 151, 181, 212, 243, 273, 304, 334] ! nat (m - 1)
       + (if 2 < m \<and> is_leap y then 1 else 0)"

definition ymd2ord :: "int \<Rightarrow> int \<Rightarrow> int \<Rightarrow> int" where
  "ymd2ord y m d = days_before_year y + days_before_month y m + d"

record fields =
  f_year :: int
  f_month :: int
  f_day :: int
  f_hour :: int
  f_minute :: int
  f_second :: int

definition valid_fields :: "fields \<Rightarrow> bool" where
  "valid_fields f \<longleftrightarrow> 1 \<le> f_year f \<and> f_year f \<le> 9999 \<and> 1 \<le> f_month f \<and> f_month f \<le> 12
     \<and> 1 \<le> f_day f \<and> f_day f \<le> days_in_month (f_year f) (f_month f)
     \<and> 0 \<le> f_hour f \<and> f_hour f \<le> 23 \<and> 0 \<le> f_minute f \<and> f_minute f \<le> 59
     \<and> 0 \<le> f_second f \<and> f_second f \<le> 59"

definition us_per_second :: int where "us_per_second = 1000000"
definition us_per_hour :: int where "us_per_hour = 3600000000"
definition us_per_day :: int where "us_per_day = 86400000000"

definition fields_instant :: "fields \<Rightarrow> instant" where
  "fields_instant f =
     (ymd2ord (f_year f) (f_month f) (f_day f) - 1) * us_per_day
     + (f_hour f * 3600 + f_minute f * 60 + f_second f) * us_per_second"

definition max_instant :: instant where
  "max_instant = 3652059 * us_per_day"

definition add_delta :: "instant \<Rightarrow> int \<Rightarrow> instant result" where
  \<comment> \<open>\<open>datetime + timedelta\<close>: OverflowError outside the years 1 to 9999\<close>
  "add_delta t us = (if 0 \<le> t + us \<and> t + us < max_instant then Inr (t + us) else Inl OverflowError)"

section \<open>Formatting\<close>

definition digit_char :: "int \<Rightarrow> char" where
  "digit_char d = char_of (nat (48 + d))"

definition digit_val :: "char \<Rightarrow> int option" where
  "digit_val c = (let n = (of_char c :: nat) in if 48 \<le> n \<and> n \<le> 57 then Some (int n - 48) else None)"

definition pad2 :: "int \<Rightarrow> string" where
  "pad2 n = [digit_char (n div 10 mod 10), digit_char (n mod 10)]"

definition pad4 :: "int \<Rightarrow> string" where
  "pad4 n = pad2 (n div 100) @ pad2 (n mod 100)"

definition fmt_fields :: "fields \<Rightarrow> string" where
  "fmt_fields f = pad4 (f_year f) @ ''-'' @ pad2 (f_month f) @ ''-'' @ pad2 (f_day f) @ ''T''
     @ pad2 (f_hour f) @ '':'' @ pad2 (f_minute f) @ '':'' @ pad2 (f_second f)"

definition ord2ymd :: "int \<Rightarrow> int \<times> int \<times> int" where
  "ord2ymd ordinal = (let n = ordinal - 1; n400 = n div 146097; n = n mod 146097;
     n100 = n div 36524; n = n mod 36524; n4 = n div 1461; n = n mod 1461;
     n1 = n div 365; n = n mod 365;
     y = n400 * 400 + 1 + n100 * 100 + n4 * 4 + n1
     in if n1 = 4 \<or> n100 = 4 then (y - 1, 12, 31)
        else (let m0 = (n + 50) div 32; m = (if n < days_before_month y m0 then m0 - 1 else m0)
              in (y, m, n - days_before_month y m + 1)))"

definition instant_fields :: "instant \<Rightarrow> fields" where
  "instant_fields t = (case ord2ymd (t div us_per_day + 1) of (y, m, d) \<Rightarrow>
     let s = t mod us_per_day div us_per_second in
     \<lparr>f_year = y, f_month = m, f_day = d, f_hour = s div 3600, f_minute = s mod 3600 div 60,
      f_second = s mod 60\<rparr>)"

definition strftime_bar :: "instant \<Rightarrow> string" where
  \<comment> \<open>with a four-digit year; the C library prints years before 1000 without leading zeros, which the
    program's market data never reaches\<close>
  "strftime_bar t = fmt_fields (instant_fields t)"

section \<open>strptime with the bar format\<close>

fun lit :: "char \<Rightarrow> string \<Rightarrow> string option" where
  "lit c [] = None"
| "lit c (x # xs) = (if x = c then Some xs else None)"

fun num12 :: "string \<Rightarrow> (int \<times> string) option" where
  \<comment> \<open>one or two digits, as many as there are\<close>
  "num12 [] = None"
| "num12 [a] = map_option (\<lambda>x. (x, [])) (digit_val a)"
| "num12 (a # b # cs) = (case digit_val a of None \<Rightarrow> None
     | Some x \<Rightarrow> (case digit_val b of None \<Rightarrow> Some (x, b # cs) | Some y \<Rightarrow> Some (10 * x + y, cs)))"

fun num_exact :: "nat \<Rightarrow> int \<Rightarrow> string \<Rightarrow> (int \<times> string) option" where
  "num_exact 0 acc s = Some (acc, s)"
| "num_exact (Suc k) acc [] = None"
| "num_exact (Suc k) acc (c # cs) = (case digit_val c of None \<Rightarrow> None
     | Some x \<Rightarrow> num_exact k (10 * acc + x) cs)"

fun num_day :: "string \<Rightarrow> (int \<times> string) option" where
  \<comment> \<open>\<open>%d\<close> also matches a blank and one digit\<close>
  "num_day (a # b # cs) = (if a = CHR '' '' then map_option (\<lambda>y. (y, cs)) (digit_val b) else num12 (a # b # cs))"
| "num_day s = num12 s"

definition strptime_fields :: "string \<Rightarrow> fields option" where
  "strptime_fields s = do {
     (y, s) \<leftarrow> num_exact 4 0 s;
     s \<leftarrow> lit CHR ''-'' s;
     (mo, s) \<leftarrow> num12 s;
     s \<leftarrow> lit CHR ''-'' s;
     (d, s) \<leftarrow> num_day s;
     s \<leftarrow> (case s of c # cs \<Rightarrow> if c = CHR ''T'' \<or> c = CHR ''t'' then Some cs else None | [] \<Rightarrow> None);
     (h, s) \<leftarrow> num12 s;
     s \<leftarrow> lit CHR '':'' s;
     (mi, s) \<leftarrow> num12 s;
     s \<leftarrow> lit CHR '':'' s;
     (sec, s) \<leftarrow> num12 s;
     let f = \<lparr>f_year = y, f_month = mo, f_day = d, f_hour = h, f_minute = mi, f_second = sec\<rparr>;
     if s = [] \<and> valid_fields f then Some f else None
   }"

definition strptime_bar :: "string \<Rightarrow> instant option" where
  "strptime_bar s = map_option fields_instant (strptime_fields s)"

definition parse_bar_utc :: "string \<Rightarrow> instant result" where
  "parse_bar_utc ts = (let core = (if ends_with CHR ''Z'' ts then butlast ts else ts)
     in of_option ValueError (strptime_bar core))"

definition canonical_ts :: "string \<Rightarrow> bool" where
  "canonical_ts s \<longleftrightarrow> (case strptime_fields s of None \<Rightarrow> False | Some f \<Rightarrow> fmt_fields f = s)"


section \<open>datetime.fromisoformat\<close>

datatype tzinfo = Naive | Offset int \<comment> \<open>offset from UTC in microseconds\<close>

fun all_digits :: "string \<Rightarrow> bool" where
  "all_digits [] = True"
| "all_digits (c # cs) = (digit_val c \<noteq> None \<and> all_digits cs)"

definition iso_date :: "string \<Rightarrow> (int \<times> int \<times> int) option" where
  \<comment> \<open>\<open>YYYY-MM-DD\<close> or \<open>YYYYMMDD\<close>\<close>
  "iso_date s = do {
     (y, s) \<leftarrow> num_exact 4 0 s;
     let sep = (s \<noteq> [] \<and> hd s = CHR ''-'');
     s \<leftarrow> (if sep then lit CHR ''-'' s else Some s);
     (m, s) \<leftarrow> num_exact 2 0 s;
     s \<leftarrow> (if sep then lit CHR ''-'' s else Some s);
     (d, s) \<leftarrow> num_exact 2 0 s;
     if s = [] then Some (y, m, d) else None
   }"

definition iso_fraction :: "string \<Rightarrow> int option" where
  \<comment> \<open>microseconds: six digits count, fewer are scaled, more are checked and dropped\<close>
  "iso_fraction s = (if s = [] \<or> \<not> all_digits s then None
     else map_option (\<lambda>(n, _). n * 10 ^ (6 - min 6 (length s))) (num_exact (min 6 (length s)) 0 s))"

definition iso_time :: "string \<Rightarrow> (int \<times> int \<times> int \<times> int) option" where
  \<comment> \<open>\<open>HH[:?MM[:?SS[{.,}ffffff]]]\<close>: hour, minute, second, microsecond\<close>
  "iso_time s = do {
     (h, s) \<leftarrow> num_exact 2 0 s;
     let sep = (s \<noteq> [] \<and> hd s = CHR '':'');
     if s = [] then Some (h, 0, 0, 0) else do {
       s \<leftarrow> (if sep then lit CHR '':'' s else Some s);
       (mi, s) \<leftarrow> num_exact 2 0 s;
       if s = [] then Some (h, mi, 0, 0) else do {
         s \<leftarrow> (if sep then lit CHR '':'' s else Some s);
         (sec, s) \<leftarrow> num_exact 2 0 s;
         case s of [] \<Rightarrow> Some (h, mi, sec, 0)
         | c # cs \<Rightarrow> if c = CHR ''.'' \<or> c = CHR '','' then
             map_option (\<lambda>us. (h, mi, sec, us)) (iso_fraction cs) else None
       }
     }
   }"

definition tz_split :: "string \<Rightarrow> string \<times> string" where
  \<comment> \<open>the time of day, and the zone designator with its sign\<close>
  "tz_split s = (takeWhile (\<lambda>c. c \<noteq> CHR ''-'' \<and> c \<noteq> CHR ''+'' \<and> c \<noteq> CHR ''Z'') s, dropWhile (\<lambda>c. c \<noteq> CHR ''-'' \<and> c \<noteq> CHR ''+'' \<and> c \<noteq> CHR ''Z'') s)"

definition iso_zone :: "string \<Rightarrow> tzinfo option" where
  "iso_zone z = (case z of [] \<Rightarrow> Some Naive
     | sg # rest \<Rightarrow> if sg = CHR ''Z'' then (if rest = [] then Some (Offset 0) else None)
       else do {
         (h, mi, sec, us) \<leftarrow> iso_time rest;
         let off = (h * 3600 + mi * 60 + sec) * us_per_second + us;
         if off < us_per_day then Some (Offset (if sg = CHR ''-'' then - off else off)) else None
       })"

definition separator_width :: "string \<Rightarrow> nat" where
  \<comment> \<open>the bytes of the one character between the date and the time\<close>
  "separator_width s = (case s of [] \<Rightarrow> 1 | c # _ \<Rightarrow> (let n = (of_char c :: nat) in
     if n < 128 then 1 else if 224 \<le> n \<and> n < 240 then 3 else if 240 \<le> n then 4 else 2))"

definition fromisoformat :: "string \<Rightarrow> (instant \<times> tzinfo) option" where
  "fromisoformat s = do {
     let n = (if length s > 4 \<and> s ! 4 = CHR ''-'' then 10 else 8);
     (y, m, d) \<leftarrow> iso_date (take n s);
     let tstr = drop (n + separator_width (drop n s)) s;
     let (t, z) = tz_split tstr;
     (h, mi, sec, us) \<leftarrow> (if length s \<le> n + 1 then Some (0, 0, 0, 0) else iso_time t);
     tz \<leftarrow> iso_zone z;
     let f = \<lparr>f_year = y, f_month = m, f_day = d, f_hour = h, f_minute = mi, f_second = sec\<rparr>;
     if valid_fields f then Some (fields_instant f + us, tz) else None
   }"

definition to_utc :: "instant \<times> tzinfo \<Rightarrow> instant result" where
  \<comment> \<open>a naive datetime is taken as UTC; \<open>astimezone(utc)\<close> may leave the years 1 to 9999\<close>
  "to_utc x = (case x of (t, Naive) \<Rightarrow> Inr t | (t, Offset off) \<Rightarrow> add_delta t (- off))"

section \<open>Reading back what was formatted\<close>

lemma digit_val_char [simp]: "0 \<le> d \<Longrightarrow> d \<le> 9 \<Longrightarrow> digit_val (digit_char d) = Some d"
  by (simp add: digit_val_def digit_char_def Let_def of_char_of le_nat_iff nat_le_iff)

lemma less_div_mod_iff:
  assumes "0 < (n::int)"
  shows "a div n < b div n \<or> (a div n = b div n \<and> a mod n < b mod n) \<longleftrightarrow> a < b"
proof -
  have e: "a = n * (a div n) + a mod n" "b = n * (b div n) + b mod n" by simp_all
  have m: "0 \<le> a mod n" "a mod n < n" "0 \<le> b mod n" "b mod n < n" using assms by simp_all
  consider "a div n < b div n" | "a div n = b div n" | "b div n < a div n" by linarith
  then show ?thesis
  proof cases
    case 1
    then have "n * (a div n + 1) \<le> n * (b div n)" using assms by (intro mult_left_mono) simp_all
    moreover have "n * (a div n + 1) = n * (a div n) + n" by (simp add: distrib_left)
    ultimately have "a < b" using e m by linarith
    with 1 show ?thesis by simp
  next
    case 2
    then show ?thesis using e by (metis add_less_cancel_left less_irrefl)
  next
    case 3
    then have "n * (b div n + 1) \<le> n * (a div n)" using assms by (intro mult_left_mono) simp_all
    moreover have "n * (b div n + 1) = n * (b div n) + n" by (simp add: distrib_left)
    ultimately have "b < a" using e m by linarith
    with 3 show ?thesis by simp
  qed
qed

lemma div_pred:
  assumes "0 < (n::int)"
  shows "y div n = (y - 1) div n + (if y mod n = 0 then 1 else 0)"
proof -
  have e: "y = n * (y div n) + y mod n" by simp
  have m: "0 \<le> y mod n" "y mod n < n" using assms by simp_all
  show ?thesis
  proof (cases "y mod n = 0")
    case True
    moreover have "n * (y div n - 1) = n * (y div n) - n" by (simp add: right_diff_distrib)
    ultimately have "y - 1 = n * (y div n - 1) + (n - 1)" using e True by linarith
    then have "(y - 1) div n = y div n - 1" by (rule int_div_pos_eq) (use assms in simp_all)
    then show ?thesis using True by simp
  next
    case False
    then have "y - 1 = n * (y div n) + (y mod n - 1)" using e by simp
    then have "(y - 1) div n = y div n" by (rule int_div_pos_eq) (use m False in simp_all)
    then show ?thesis using False by simp
  qed
qed

lemma digit_char_less:
  "0 \<le> a \<Longrightarrow> a \<le> 9 \<Longrightarrow> 0 \<le> b \<Longrightarrow> b \<le> 9 \<Longrightarrow> digit_char a < digit_char b \<longleftrightarrow> a < b"
  by (auto simp: digit_char_def less_char_def of_char_of)

lemma digit_char_inject:
  "0 \<le> a \<Longrightarrow> a \<le> 9 \<Longrightarrow> 0 \<le> b \<Longrightarrow> b \<le> 9 \<Longrightarrow> digit_char a = digit_char b \<longleftrightarrow> a = b"
  by (metis digit_val_char option.inject)

lemma num12_pad2 [simp]: "0 \<le> n \<Longrightarrow> n < 100 \<Longrightarrow> num12 (pad2 n @ s) = Some (n, s)"
  by (simp add: pad2_def)

lemma num_exact_pad4 [simp]: "0 \<le> n \<Longrightarrow> n < 10000 \<Longrightarrow> num_exact 4 0 (pad4 n @ s) = Some (n, s)"
  by (simp add: pad4_def pad2_def eval_nat_numeral)

lemma pad2_not_blank: "0 \<le> n \<Longrightarrow> n < 100 \<Longrightarrow> num_day (pad2 n @ s) = Some (n, s)"
proof -
  assume n: "0 \<le> n" "n < 100"
  have "0 \<le> n div 10 mod 10" "n div 10 mod 10 \<le> 9" by simp_all
  then have "digit_val (digit_char (n div 10 mod 10)) = Some (n div 10 mod 10)" by simp
  moreover have "digit_val CHR '' '' = None" by (simp add: digit_val_def)
  ultimately have "digit_char (n div 10 mod 10) \<noteq> CHR '' ''" by (metis option.distinct(1))
  then show ?thesis using num12_pad2[OF n, of s] by (simp add: pad2_def)
qed

lemma valid_fields_ranges:
  assumes "valid_fields f"
  shows "0 \<le> f_year f" "f_year f < 10000" "0 \<le> f_month f" "f_month f < 100" "0 \<le> f_day f"
    "f_day f < 100" "0 \<le> f_hour f" "f_hour f < 100" "0 \<le> f_minute f" "f_minute f < 100"
    "0 \<le> f_second f" "f_second f < 100"
  using assms by (auto simp: valid_fields_def days_in_month_def split: if_splits)

lemma strptime_fmt:
  assumes "valid_fields f" shows "strptime_fields (fmt_fields f) = Some f"
proof -
  note r = valid_fields_ranges[OF assms]
  have "num12 (pad2 (f_second f)) = Some (f_second f, [])"
    using num12_pad2[of "f_second f" "[]"] r by simp
  then show ?thesis using r assms
    by (cases f) (simp add: strptime_fields_def fmt_fields_def pad2_not_blank Let_def)
qed

lemma strptime_fields_valid: "strptime_fields s = Some f \<Longrightarrow> valid_fields f"
  by (auto simp: strptime_fields_def Let_def split: bind_splits if_splits prod.splits list.splits)

lemma canonical_ts_iff: "canonical_ts s \<longleftrightarrow> (\<exists>f. valid_fields f \<and> s = fmt_fields f)"
  using strptime_fields_valid by (force simp: canonical_ts_def strptime_fmt split: option.splits)

lemma canonical_tsE:
  assumes "canonical_ts s"
  obtains f where "valid_fields f" "s = fmt_fields f" "strptime_bar s = Some (fields_instant f)"
  using assms by (auto simp: canonical_ts_iff strptime_bar_def strptime_fmt)

section \<open>String order is time order\<close>

definition fields_key :: "fields \<Rightarrow> int list" where
  "fields_key f = [f_year f, f_month f, f_day f, f_hour f, f_minute f, f_second f]"

lemma pad2_less: "0 \<le> a \<Longrightarrow> a < 100 \<Longrightarrow> 0 \<le> b \<Longrightarrow> b < 100 \<Longrightarrow> pad2 a < pad2 b \<longleftrightarrow> a < b"
proof -
  assume a: "0 \<le> a" "a < 100" "0 \<le> b" "b < 100"
  have r: "0 \<le> x div 10" "x div 10 \<le> 9" "x div 10 mod 10 = x div 10" "0 \<le> x mod 10" "x mod 10 \<le> 9"
    if "0 \<le> x" "x < 100" for x :: int
    using that by (simp_all add: mod_pos_pos_trivial)
  have "pad2 a < pad2 b \<longleftrightarrow> a div 10 < b div 10 \<or> (a div 10 = b div 10 \<and> a mod 10 < b mod 10)"
    using r[of a] r[of b] a by (simp add: pad2_def digit_char_less digit_char_inject)
  also have "\<dots> \<longleftrightarrow> a < b" by (rule less_div_mod_iff) simp
  finally show ?thesis .
qed

lemma pad2_inject: "0 \<le> a \<Longrightarrow> a < 100 \<Longrightarrow> 0 \<le> b \<Longrightarrow> b < 100 \<Longrightarrow> pad2 a = pad2 b \<longleftrightarrow> a = b"
  by (metis append_Nil2 num12_pad2 option.inject prod.inject)

lemma length_pad2 [simp]: "length (pad2 n) = 2"
  by (simp add: pad2_def)

lemma length_pad4 [simp]: "length (pad4 n) = 4"
  by (simp add: pad4_def)

lemma pad4_inject: "0 \<le> a \<Longrightarrow> a < 10000 \<Longrightarrow> 0 \<le> b \<Longrightarrow> b < 10000 \<Longrightarrow> pad4 a = pad4 b \<longleftrightarrow> a = b"
  by (metis append_Nil2 num_exact_pad4 option.inject prod.inject)

lemma pad4_less: "0 \<le> a \<Longrightarrow> a < 10000 \<Longrightarrow> 0 \<le> b \<Longrightarrow> b < 10000 \<Longrightarrow> pad4 a < pad4 b \<longleftrightarrow> a < b"
proof -
  assume a: "0 \<le> a" "a < 10000" "0 \<le> b" "b < 10000"
  have r: "0 \<le> x div 100" "x div 100 < 100" "0 \<le> x mod 100" "x mod 100 < 100"
    if "0 \<le> x" "x < 10000" for x :: int
    using that by simp_all
  have "pad4 a < pad4 b \<longleftrightarrow> a div 100 < b div 100 \<or> (a div 100 = b div 100 \<and> a mod 100 < b mod 100)"
    using r[of a] r[of b] a
    by (simp add: pad4_def list_less_append_same_length pad2_less pad2_inject)
  also have "\<dots> \<longleftrightarrow> a < b" by (rule less_div_mod_iff) simp
  finally show ?thesis .
qed

lemma fmt_fields_less_iff:
  assumes "valid_fields f" "valid_fields g"
  shows "fmt_fields f < fmt_fields g \<longleftrightarrow> fields_key f < fields_key g"
  using valid_fields_ranges[OF assms(1)] valid_fields_ranges[OF assms(2)]
  unfolding fmt_fields_def fields_key_def
  by (simp add: list_less_append_same_length pad4_less pad4_inject pad2_less pad2_inject)

lemma days_before_year_step:
  "days_before_year (y + 1) = days_before_year y + (if is_leap y then 366 else 365)"
proof -
  have d4: "y div 4 = (y - 1) div 4 + (if y mod 4 = 0 then 1 else 0)" by (rule div_pred) simp
  have d100: "y div 100 = (y - 1) div 100 + (if y mod 100 = 0 then 1 else 0)" by (rule div_pred) simp
  have d400: "y div 400 = (y - 1) div 400 + (if y mod 400 = 0 then 1 else 0)" by (rule div_pred) simp
  have i1: "y mod 100 = 0 \<longrightarrow> y mod 4 = 0"
    using dvd_trans[of 4 100 y] by (simp add: mod_eq_0_iff_dvd)
  have i2: "y mod 400 = 0 \<longrightarrow> y mod 100 = 0"
    using dvd_trans[of 100 400 y] by (simp add: mod_eq_0_iff_dvd)
  have next_year: "days_before_year (y + 1) = y * 365 + y div 4 - y div 100 + y div 400"
    by (simp add: days_before_year_def)
  have this_year: "days_before_year y = y * 365 - 365 + (y - 1) div 4 - (y - 1) div 100 + (y - 1) div 400"
    by (simp add: days_before_year_def Let_def left_diff_distrib)
  show ?thesis
  proof (cases "is_leap y")
    case True
    then show ?thesis using d4 d100 d400 i2 unfolding next_year this_year is_leap_def by presburger
  next
    case False
    then show ?thesis using d4 d100 d400 i1 i2 unfolding next_year this_year is_leap_def by presburger
  qed
qed

lemma days_before_year_mono: "y \<le> z \<Longrightarrow> days_before_year y \<le> days_before_year z"
proof (induction z rule: int_ge_induct)
  case (step z)
  then show ?case using days_before_year_step[of z] by (auto split: if_splits)
qed simp

lemma month_cases:
  "1 \<le> (m::int) \<Longrightarrow> m \<le> 12 \<Longrightarrow> m = 1 \<or> m = 2 \<or> m = 3 \<or> m = 4 \<or> m = 5 \<or> m = 6 \<or> m = 7 \<or> m = 8
     \<or> m = 9 \<or> m = 10 \<or> m = 11 \<or> m = 12"
  by arith

lemma days_before_month_step:
  assumes "1 \<le> m" "m < 12"
  shows "days_before_month y (m + 1) = days_before_month y m + days_in_month y m"
  using month_cases[of m] assms by (auto simp: days_before_month_def days_in_month_def)

lemma days_before_month_le_year:
  assumes "1 \<le> m" "m \<le> 12"
  shows "days_before_month y m + days_in_month y m \<le> (if is_leap y then 366 else 365)"
  using month_cases[OF assms] by (auto simp: days_before_month_def days_in_month_def)

lemma days_before_month_mono:
  assumes "1 \<le> m" "m < n" "n \<le> 12"
  shows "days_before_month y m + days_in_month y m \<le> days_before_month y n"
  using assms(2,3)
proof (induction n rule: int_gr_induct)
  case base
  then show ?case using days_before_month_step[of m y] assms by simp
next
  case (step k)
  then have "days_before_month y (k + 1) = days_before_month y k + days_in_month y k"
    using assms by (intro days_before_month_step) auto
  then show ?case using step by (auto simp: days_in_month_def split: if_splits)
qed

lemma days_before_month_nonneg: "1 \<le> m \<Longrightarrow> m \<le> 12 \<Longrightarrow> 0 \<le> days_before_month y m"
  using month_cases[of m] by (auto simp: days_before_month_def)

lemma ymd2ord_less:
  assumes "1 \<le> m" "m \<le> 12" "1 \<le> d" "d \<le> days_in_month y m"
    and "1 \<le> m'" "m' \<le> 12" "1 \<le> d'" "d' \<le> days_in_month y' m'"
    and "[y, m, d] < [y', m', d']"
  shows "ymd2ord y m d < ymd2ord y' m' d'"
proof -
  consider "y < y'" | "y = y'" "m < m'" | "y = y'" "m = m'" "d < d'" using assms(9) by auto
  then show ?thesis
  proof cases
    case 1
    have "ymd2ord y m d \<le> days_before_year (y + 1)"
      using days_before_month_le_year[OF assms(1,2), of y] assms(4) days_before_year_step[of y]
      by (simp add: ymd2ord_def)
    also have "\<dots> \<le> days_before_year y'" using 1 by (intro days_before_year_mono) simp
    also have "\<dots> < ymd2ord y' m' d'"
      using days_before_month_nonneg[OF assms(5,6), of y'] assms(7) by (simp add: ymd2ord_def)
    finally show ?thesis .
  next
    case 2
    then show ?thesis using days_before_month_mono[of m m' y] assms by (simp add: ymd2ord_def)
  next
    case 3
    then show ?thesis by (simp add: ymd2ord_def)
  qed
qed

lemma fields_instant_less:
  assumes f: "valid_fields f" and g: "valid_fields g" and lt: "fields_key f < fields_key g"
  shows "fields_instant f < fields_instant g"
proof -
  define a where "a = f_hour f * 3600 + f_minute f * 60 + f_second f"
  define b where "b = f_hour g * 3600 + f_minute g * 60 + f_second g"
  have r: "0 \<le> a" "a < 86400" "0 \<le> b" "b < 86400"
    using f g by (auto simp: valid_fields_def a_def b_def)
  define x where "x = ymd2ord (f_year f) (f_month f) (f_day f)"
  define y where "y = ymd2ord (f_year g) (f_month g) (f_day g)"
  consider "[f_year f, f_month f, f_day f] < [f_year g, f_month g, f_day g]"
    | "[f_year f, f_month f, f_day f] = [f_year g, f_month g, f_day g]"
      "[f_hour f, f_minute f, f_second f] < [f_hour g, f_minute g, f_second g]"
    using lt by (auto simp: fields_key_def)
  then have "x < y \<or> x = y \<and> a < b"
  proof cases
    case 1
    then have "x < y" unfolding x_def y_def
      using f g by (intro ymd2ord_less) (auto simp: valid_fields_def)
    then show ?thesis by simp
  next
    case 2
    then have "x = y" by (simp add: x_def y_def)
    moreover have "a < b" using 2(2) f g by (auto simp: a_def b_def valid_fields_def)
    ultimately show ?thesis by simp
  qed
  then show ?thesis
    using r by (auto simp: fields_instant_def us_per_day_def us_per_second_def
      simp flip: a_def b_def x_def y_def)
qed

text \<open>
  Two canonical bar timestamps compare as strings the way their instants compare: this is what
  makes the engine's string watermark sound.
\<close>

lemma canonical_ts_less_iff:
  assumes "canonical_ts s" "canonical_ts t" "strptime_bar s = Some a" "strptime_bar t = Some b"
  shows "s < t \<longleftrightarrow> a < b"
proof -
  obtain f where f: "valid_fields f" "s = fmt_fields f" "a = fields_instant f"
    using canonical_tsE[OF assms(1)] assms(3) by (metis option.inject)
  obtain g where g: "valid_fields g" "t = fmt_fields g" "b = fields_instant g"
    using canonical_tsE[OF assms(2)] assms(4) by (metis option.inject)
  have "fields_key f < fields_key g \<or> fields_key f = fields_key g \<or> fields_key g < fields_key f"
    by (rule less_linear)
  moreover have "fields_key f = fields_key g \<Longrightarrow> f = g" by (simp add: fields_key_def)
  ultimately show ?thesis
    using fields_instant_less[OF f(1) g(1)] fields_instant_less[OF g(1) f(1)]
      fmt_fields_less_iff[OF f(1) g(1)] f g by force
qed

lemma canonical_ts_eq_iff:
  assumes "canonical_ts s" "canonical_ts t" "strptime_bar s = Some a" "strptime_bar t = Some b"
  shows "s = t \<longleftrightarrow> a = b"
  using canonical_ts_less_iff[OF assms] canonical_ts_less_iff[OF assms(2,1,4,3)] assms(3,4)
  by (metis less_irrefl linorder_less_linear option.inject)


section \<open>fromisoformat on canonical timestamps\<close>

lemma num_exact2_pad2: "0 \<le> n \<Longrightarrow> n < 100 \<Longrightarrow> num_exact 2 0 (pad2 n @ s) = Some (n, s)"
  by (simp add: pad2_def eval_nat_numeral)

lemma digit_char_not_sign:
  assumes "0 \<le> d" "d \<le> 9"
  shows "digit_char d \<noteq> CHR ''-''" "digit_char d \<noteq> CHR ''+''" "digit_char d \<noteq> CHR ''Z''"
    "digit_char d \<noteq> CHR '':''"
proof -
  have "digit_val (digit_char d) \<noteq> None" using assms by simp
  moreover have "digit_val CHR ''-'' = None" "digit_val CHR ''+'' = None" "digit_val CHR ''Z'' = None"
    "digit_val CHR '':'' = None" by (simp_all add: digit_val_def)
  ultimately show "digit_char d \<noteq> CHR ''-''" "digit_char d \<noteq> CHR ''+''" "digit_char d \<noteq> CHR ''Z''"
    "digit_char d \<noteq> CHR '':''" by metis+
qed

lemma pad2_no_sign:
  assumes "0 \<le> n" "n < 100" "c \<in> set (pad2 n)"
  shows "c \<noteq> CHR ''-'' \<and> c \<noteq> CHR ''+'' \<and> c \<noteq> CHR ''Z'' \<and> c \<noteq> CHR '':''"
proof -
  have "0 \<le> n div 10 mod 10" "n div 10 mod 10 \<le> 9" "0 \<le> n mod 10" "n mod 10 \<le> 9" by simp_all
  from digit_char_not_sign[OF this(1,2)] digit_char_not_sign[OF this(3,4)] assms(3)
  show ?thesis by (auto simp: pad2_def)
qed

definition time_of_day :: "fields \<Rightarrow> string" where
  "time_of_day f = pad2 (f_hour f) @ '':'' @ pad2 (f_minute f) @ '':'' @ pad2 (f_second f)"

lemma iso_time_fmt:
  assumes "valid_fields f"
  shows "iso_time (time_of_day f) = Some (f_hour f, f_minute f, f_second f, 0)"
proof -
  have "num_exact 2 0 (pad2 (f_second f)) = Some (f_second f, [])"
    using num_exact2_pad2[of "f_second f" "[]"] valid_fields_ranges[OF assms] by simp
  then show ?thesis using valid_fields_ranges[OF assms]
    by (simp add: iso_time_def time_of_day_def num_exact2_pad2 Let_def)
qed

lemma tz_split_fmt:
  assumes "valid_fields f" "z = [] \<or> hd z = CHR ''Z'' \<or> hd z = CHR ''+'' \<or> hd z = CHR ''-''"
  shows "tz_split (time_of_day f @ z) = (time_of_day f, z)"
proof -
  let ?P = "\<lambda>c. c \<noteq> CHR ''-'' \<and> c \<noteq> CHR ''+'' \<and> c \<noteq> CHR ''Z''"
  note r = valid_fields_ranges[OF assms(1)]
  have P: "?P c" if "c \<in> set (time_of_day f)" for c
    using that pad2_no_sign[OF r(7,8), of c] pad2_no_sign[OF r(9,10), of c] pad2_no_sign[OF r(11,12), of c]
    by (auto simp: time_of_day_def)
  have "takeWhile ?P (time_of_day f @ z) = time_of_day f @ takeWhile ?P z"
    "dropWhile ?P (time_of_day f @ z) = dropWhile ?P z"
    by (rule takeWhile_append2, rule P, assumption) (rule dropWhile_append2, rule P, assumption)
  moreover have "takeWhile ?P z = []" "dropWhile ?P z = z" using assms(2) by (cases z; auto)+
  ultimately show ?thesis by (simp add: tz_split_def)
qed

lemma fromisoformat_fmt:
  assumes "valid_fields f" "z = [] \<or> hd z = CHR ''Z'' \<or> hd z = CHR ''+'' \<or> hd z = CHR ''-''"
    and zn: "iso_zone z = Some tz"
  shows "fromisoformat (fmt_fields f @ z) = Some (fields_instant f, tz)"
proof -
  let ?d = "pad4 (f_year f) @ ''-'' @ pad2 (f_month f) @ ''-'' @ pad2 (f_day f)"
  have s: "fmt_fields f @ z = ?d @ CHR ''T'' # time_of_day f @ z"
    by (simp add: fmt_fields_def time_of_day_def)
  have n: "(?d @ CHR ''T'' # time_of_day f @ z) ! 4 = CHR ''-''"
    by (simp add: nth_append)
  have nd: "num_exact 2 0 (pad2 (f_day f)) = Some (f_day f, [])"
    using num_exact2_pad2[of "f_day f" "[]"] valid_fields_ranges[OF assms(1)] by simp
  have d: "iso_date ?d = Some (f_year f, f_month f, f_day f)"
    using valid_fields_ranges[OF assms(1)] nd
    by (simp add: iso_date_def num_exact2_pad2 Let_def)
  have t: "take 10 (?d @ CHR ''T'' # time_of_day f @ z) = ?d"
    "drop 11 (?d @ CHR ''T'' # time_of_day f @ z) = time_of_day f @ z"
    "separator_width (drop 10 (?d @ CHR ''T'' # time_of_day f @ z)) = 1" by (simp_all add: separator_width_def)
  have ne: "time_of_day f \<noteq> []" by (simp add: time_of_day_def pad2_def)
  have v: "\<lparr>f_year = f_year f, f_month = f_month f, f_day = f_day f, f_hour = f_hour f,
    f_minute = f_minute f, f_second = f_second f\<rparr> = f" by simp
  have "fromisoformat (?d @ CHR ''T'' # time_of_day f @ z) = Some (fields_instant f, tz)"
    unfolding fromisoformat_def n t
    using assms(1) d ne
    by (simp add: t[simplified] tz_split_fmt[OF assms(1,2)] iso_time_fmt zn v Let_def)
  then show ?thesis by (simp only: s)
qed


lemma fromisoformat_naive: "valid_fields f \<Longrightarrow> fromisoformat (fmt_fields f) = Some (fields_instant f, Naive)"
  using fromisoformat_fmt[of f "[]" Naive] by (simp add: iso_zone_def)

lemma fromisoformat_zulu:
  "valid_fields f \<Longrightarrow> fromisoformat (fmt_fields f @ ''+00:00'') = Some (fields_instant f, Offset 0)"
proof -
  assume f: "valid_fields f"
  have "iso_zone ''+00:00'' = Some (Offset 0)" by code_simp
  with f show ?thesis by (intro fromisoformat_fmt) simp_all
qed

lemma fields_instant_range:
  assumes "valid_fields f" shows "0 \<le> fields_instant f" "fields_instant f < max_instant"
proof -
  let ?o = "ymd2ord (f_year f) (f_month f) (f_day f)"
  have "1 \<le> ?o"
    using days_before_year_mono[of 1 "f_year f"] days_before_month_nonneg[of "f_month f" "f_year f"] assms
    by (simp add: ymd2ord_def valid_fields_def days_before_year_def)
  moreover have "?o \<le> 3652059"
  proof -
    have "?o \<le> days_before_year (f_year f + 1)"
      using days_before_month_le_year[of "f_month f" "f_year f"] days_before_year_step[of "f_year f"] assms
      by (simp add: ymd2ord_def valid_fields_def)
    also have "\<dots> \<le> days_before_year 10000"
      using assms by (intro days_before_year_mono) (simp add: valid_fields_def)
    also have "\<dots> = 3652059" by (simp add: days_before_year_def)
    finally show ?thesis .
  qed
  moreover have "0 \<le> f_hour f * 3600 + f_minute f * 60 + f_second f"
    "f_hour f * 3600 + f_minute f * 60 + f_second f < 86400"
    using assms by (auto simp: valid_fields_def)
  ultimately show "0 \<le> fields_instant f" "fields_instant f < max_instant"
    by (simp_all add: fields_instant_def max_instant_def us_per_day_def us_per_second_def)
qed

lemma no_Z_in_fmt:
  assumes "valid_fields f" shows "CHR ''Z'' \<notin> set (fmt_fields f)"
proof -
  note r = valid_fields_ranges[OF assms]
  have y: "0 \<le> f_year f div 100" "f_year f div 100 < 100" "0 \<le> f_year f mod 100" "f_year f mod 100 < 100"
    using r by simp_all
  show ?thesis
    using pad2_no_sign[OF y(1,2), of "CHR ''Z''"] pad2_no_sign[OF y(3,4), of "CHR ''Z''"]
      pad2_no_sign[OF r(3,4), of "CHR ''Z''"] pad2_no_sign[OF r(5,6), of "CHR ''Z''"]
      pad2_no_sign[OF r(7,8), of "CHR ''Z''"] pad2_no_sign[OF r(9,10), of "CHR ''Z''"]
      pad2_no_sign[OF r(11,12), of "CHR ''Z''"]
    by (auto simp: fmt_fields_def pad4_def)
qed

lemma parse_bar_fmt:
  assumes "valid_fields f"
  shows "parse_bar_utc (fmt_fields f) = Inr (fields_instant f)" "parse_bar_utc (fmt_fields f @ ''Z'') = Inr (fields_instant f)"
proof -
  have "\<not> ends_with CHR ''Z'' (fmt_fields f)"
    using no_Z_in_fmt[OF assms] unfolding ends_with_def by (metis last_in_set)
  then show "parse_bar_utc (fmt_fields f) = Inr (fields_instant f)"
    using assms by (simp add: parse_bar_utc_def strptime_bar_def strptime_fmt)
  show "parse_bar_utc (fmt_fields f @ ''Z'') = Inr (fields_instant f)"
    using assms by (simp add: parse_bar_utc_def ends_with_def strptime_bar_def strptime_fmt)
qed

end
