(* ===== verification/Utf8.thy ===== *)
theory Utf8
  imports Prelude
begin

text \<open>
  Python strings. A string of the development is the UTF-8 encoding of a Python \<open>str\<close>, one character
  per byte: concatenation, equality, order, and every operation that looks at ASCII characters only are
  those of the bytes. What looks at a code point decodes first.
\<close>

definition continuation :: "nat \<Rightarrow> bool" where
  "continuation b \<longleftrightarrow> 128 \<le> b \<and> b < 192"

fun utf8_points :: "nat list \<Rightarrow> nat list option" where
  \<comment> \<open>strict: no overlong form, no surrogate, nothing above 1114111\<close>
  "utf8_points [] = Some []"
| "utf8_points (a # bs) = (if a < 128 then map_option ((#) a) (utf8_points bs)
     else if 194 \<le> a \<and> a < 224 then (case bs of
         b # cs \<Rightarrow> if continuation b then map_option ((#) ((a - 192) * 64 + (b - 128))) (utf8_points cs) else None
       | [] \<Rightarrow> None)
     else if 224 \<le> a \<and> a < 240 then (case bs of
         b # c # cs \<Rightarrow> (let n = (a - 224) * 4096 + (b - 128) * 64 + (c - 128) in
           if continuation b \<and> continuation c \<and> 2048 \<le> n \<and> \<not> (55296 \<le> n \<and> n < 57344)
           then map_option ((#) n) (utf8_points cs) else None)
       | _ \<Rightarrow> None)
     else if 240 \<le> a \<and> a < 245 then (case bs of
         b # c # d # cs \<Rightarrow> (let n = (a - 240) * 262144 + (b - 128) * 4096 + (c - 128) * 64 + (d - 128) in
           if continuation b \<and> continuation c \<and> continuation d \<and> 65536 \<le> n \<and> n < 1114112
           then map_option ((#) n) (utf8_points cs) else None)
       | _ \<Rightarrow> None)
     else None)"

definition utf8_bytes :: "nat \<Rightarrow> nat list" where
  "utf8_bytes n = (if n < 128 then [n] else if n < 2048 then [192 + n div 64, 128 + n mod 64]
     else if n < 65536 then [224 + n div 4096, 128 + n div 64 mod 64, 128 + n mod 64]
     else [240 + n div 262144, 128 + n div 4096 mod 64, 128 + n div 64 mod 64, 128 + n mod 64])"

definition utf8_encode :: "nat list \<Rightarrow> string" where
  "utf8_encode ns = map char_of (concat (map utf8_bytes ns))"

definition str_points :: "string \<Rightarrow> nat list" where
  \<comment> \<open>the code points of a string; bytes that are no UTF-8 stand for themselves\<close>
  "str_points s = (case utf8_points (map of_char s) of Some ns \<Rightarrow> ns | None \<Rightarrow> map of_char s)"

definition is_str :: "string \<Rightarrow> bool" where
  "is_str s \<longleftrightarrow> utf8_points (map of_char s) \<noteq> None"

definition scalar_value :: "nat \<Rightarrow> bool" where
  "scalar_value n \<longleftrightarrow> n < 55296 \<or> (57344 \<le> n \<and> n < 1114112)"

section \<open>ASCII\<close>

definition ascii :: "string \<Rightarrow> bool" where
  "ascii s \<longleftrightarrow> list_all (\<lambda>c. of_char c < (128 :: nat)) s"

lemma ascii_simps [simp]: "ascii []" "ascii (c # s) \<longleftrightarrow> of_char c < (128 :: nat) \<and> ascii s" "ascii (s @ t) \<longleftrightarrow> ascii s \<and> ascii t"
  by (simp_all add: ascii_def)

lemma utf8_ascii: "list_all (\<lambda>n. n < 128) ns \<Longrightarrow> utf8_points ns = Some ns"
  by (induction ns) simp_all

lemma ascii_points: "ascii s \<Longrightarrow> utf8_points (map of_char s) = Some (map of_char s)"
  by (intro utf8_ascii) (simp add: ascii_def list_all_iff)

lemma ascii_str [simp]: "ascii s \<Longrightarrow> is_str s"
  by (simp add: is_str_def ascii_points)

lemma str_points_ascii: "ascii s \<Longrightarrow> str_points s = map of_char s"
  by (simp add: str_points_def ascii_points)

section \<open>Encoding and decoding\<close>

lemma utf8_points_bytes:
  assumes "scalar_value n"
  shows "utf8_points (utf8_bytes n @ bs) = map_option ((#) n) (utf8_points bs)"
proof -
  consider "n < 128" | "128 \<le> n" "n < 2048" | "2048 \<le> n" "n < 65536" | "65536 \<le> n" "n < 1114112"
  proof -
    have "n < 1114112" using assms by (auto simp: scalar_value_def)
    then show thesis using that by linarith
  qed
  then show ?thesis
  proof cases
    case 1
    then show ?thesis by (simp add: utf8_bytes_def)
  next
    case 2
    then have "2 \<le> n div 64" "n div 64 < 32" by linarith+
    then show ?thesis using 2 by (simp add: utf8_bytes_def continuation_def)
  next
    case 3
    then have d: "n div 4096 < 16" by linarith
    have e: "n div 4096 * 4096 + n div 64 mod 64 * 64 + n mod 64 = n"
    proof -
      have "n div 64 div 64 = n div 4096" by (simp add: div_mult2_eq[symmetric])
      then show ?thesis using div_mult_mod_eq[of n 64] div_mult_mod_eq[of "n div 64" 64] by linarith
    qed
    have "\<not> (55296 \<le> n \<and> n < 57344)" using assms unfolding scalar_value_def by linarith
    then show ?thesis using 3 d e by (simp add: utf8_bytes_def continuation_def Let_def)
  next
    case 4
    then have d: "n div 262144 < 5" by linarith
    have e: "n div 262144 * 262144 + n div 4096 mod 64 * 4096 + n div 64 mod 64 * 64 + n mod 64 = n"
    proof -
      have "n div 64 div 64 = n div 4096" "n div 4096 div 64 = n div 262144" by (simp_all add: div_mult2_eq[symmetric])
      then show ?thesis using div_mult_mod_eq[of n 64] div_mult_mod_eq[of "n div 64" 64] div_mult_mod_eq[of "n div 4096" 64] by linarith
    qed
    show ?thesis using 4 d e by (simp add: utf8_bytes_def continuation_def Let_def)
  qed
qed

lemma utf8_points_encode: "list_all scalar_value ns \<Longrightarrow> utf8_points (concat (map utf8_bytes ns)) = Some ns"
  by (induction ns) (simp_all add: utf8_points_bytes)

lemma digit64: "(z :: nat) < 64 \<Longrightarrow> (q * 64 + z) div 64 = q" "(z :: nat) < 64 \<Longrightarrow> (q * 64 + z) mod 64 = z"
  by simp_all

lemma bytes2:
  assumes "194 \<le> a" "a < 224" "continuation b"
  shows "utf8_bytes ((a - 192) * 64 + (b - 128)) = [a, b]" "scalar_value ((a - 192) * 64 + (b - 128))"
proof -
  obtain x y where "a = 192 + x" "b = 128 + y" "2 \<le> x" "x < 32" "y < 64"
    using assms that[of "a - 192" "b - 128"] by (auto simp: continuation_def)
  then show "utf8_bytes ((a - 192) * 64 + (b - 128)) = [a, b]" "scalar_value ((a - 192) * 64 + (b - 128))"
    by (simp_all add: utf8_bytes_def scalar_value_def)
qed

lemma bytes3:
  assumes "224 \<le> a" "a < 240" "continuation b" "continuation c" "n = (a - 224) * 4096 + (b - 128) * 64 + (c - 128)" "2048 \<le> n"
  shows "utf8_bytes n = [a, b, c]"
proof -
  obtain x y z where v: "a = 224 + x" "b = 128 + y" "c = 128 + z" "x < 16" "y < 64" "z < 64"
    using assms that[of "a - 224" "b - 128" "c - 128"] by (auto simp: continuation_def)
  then have n: "n = (x * 64 + y) * 64 + z" "n = x * 4096 + (y * 64 + z)" using assms(5) by simp_all
  have "n div 64 = x * 64 + y" "n mod 64 = z" unfolding n(1) using digit64 v by blast+
  moreover have "n div 4096 = x" using n(2) v by simp
  moreover have "n < 65536" "2048 \<le> n" using n(2) v assms(6) by linarith+
  ultimately show ?thesis using v(1-3) digit64(2)[OF v(5), of x] by (simp add: utf8_bytes_def)
qed

lemma bytes4:
  assumes "240 \<le> a" "a < 245" "continuation b" "continuation c" "continuation d"
    "n = (a - 240) * 262144 + (b - 128) * 4096 + (c - 128) * 64 + (d - 128)" "65536 \<le> n"
  shows "utf8_bytes n = [a, b, c, d]"
proof -
  obtain w x y z where v: "a = 240 + w" "b = 128 + x" "c = 128 + y" "d = 128 + z" "w < 5" "x < 64" "y < 64" "z < 64"
    using assms that[of "a - 240" "b - 128" "c - 128" "d - 128"] by (auto simp: continuation_def)
  then have n: "n = ((w * 64 + x) * 64 + y) * 64 + z" "n = (w * 64 + x) * 4096 + (y * 64 + z)"
    "n = w * 262144 + (x * 4096 + y * 64 + z)" using assms(6) by simp_all
  have "n div 64 = (w * 64 + x) * 64 + y" "n mod 64 = z" unfolding n(1) using digit64 v by blast+
  moreover have "n div 4096 = w * 64 + x" using n(2) v by simp
  moreover have "n div 262144 = w" using n(3) v by simp
  ultimately show ?thesis using v(1-4) assms(7) digit64(2)[OF v(6), of w] digit64(2)[OF v(7), of "w * 64 + x"]
    by (simp add: utf8_bytes_def)
qed

lemma utf8_points_sound: "utf8_points bs = Some ns \<Longrightarrow> list_all scalar_value ns \<and> concat (map utf8_bytes ns) = bs"
proof (induction bs arbitrary: ns rule: utf8_points.induct)
  case (2 a bs)
  consider "a < 128" | "194 \<le> a" "a < 224" | "224 \<le> a" "a < 240" | "240 \<le> a" "a < 245"
    using 2(5) by (simp split: if_splits)
  then show ?case
  proof cases
    case 1
    then show ?thesis using 2(1,5) by (auto simp: utf8_bytes_def scalar_value_def)
  next
    case b: 2
    then obtain c cs where bs: "bs = c # cs" "continuation c" using 2(5) by (simp split: list.splits if_splits)
    then show ?thesis using b 2(2)[OF _ _ bs] 2(5) bytes2[OF b bs(2)] by auto
  next
    case b: 3
    then obtain c d cs where bs: "bs = c # d # cs" using 2(5) by (simp split: list.splits)
    let ?n = "(a - 224) * 4096 + (c - 128) * 64 + (d - 128)"
    obtain ms where m: "utf8_points cs = Some ms" "ns = ?n # ms" "continuation c" "continuation d" "2048 \<le> ?n" "\<not> (55296 \<le> ?n \<and> ?n < 57344)"
      using b 2(5) by (auto simp: bs Let_def split: if_splits)
    have "?n < 65536" using b m(3,4) by (auto simp: continuation_def)
    then have "scalar_value ?n" using m(6) unfolding scalar_value_def by linarith
    moreover have "list_all scalar_value ms \<and> concat (map utf8_bytes ms) = cs"
      using b 2(3)[OF _ _ _ bs refl refl] m by simp
    ultimately show ?thesis using bytes3[OF b m(3,4) refl m(5)] by (simp add: m(2) bs)
  next
    case b: 4
    then obtain c d e cs where bs: "bs = c # d # e # cs" using 2(5) by (simp split: list.splits)
    let ?n = "(a - 240) * 262144 + (c - 128) * 4096 + (d - 128) * 64 + (e - 128)"
    obtain ms where m: "utf8_points cs = Some ms" "ns = ?n # ms" "continuation c" "continuation d" "continuation e" "65536 \<le> ?n" "?n < 1114112"
      using b 2(5) by (auto simp: bs Let_def split: if_splits)
    have "scalar_value ?n" using m(6,7) by (simp add: scalar_value_def)
    moreover have "list_all scalar_value ms \<and> concat (map utf8_bytes ms) = cs"
      using b 2(4)[OF _ _ _ _ bs refl refl refl] m by simp
    ultimately show ?thesis using bytes4[OF b m(3-5) refl m(6)] by (simp add: m(2) bs)
  qed
qed simp

lemma str_points_sound: "is_str s \<Longrightarrow> list_all scalar_value (str_points s) \<and> utf8_encode (str_points s) = s"
proof -
  assume "is_str s"
  then obtain ns where ns: "utf8_points (map of_char s) = Some ns" by (auto simp: is_str_def)
  then have "concat (map utf8_bytes ns) = map of_char s" "list_all scalar_value ns" using utf8_points_sound by blast+
  then show ?thesis by (simp add: str_points_def ns utf8_encode_def o_def)
qed

lemma utf8_encode_simps: "utf8_encode [] = []" "utf8_encode (n # ns) = map char_of (utf8_bytes n) @ utf8_encode ns"
  by (simp_all add: utf8_encode_def)

end
