(* ===== verification/PyFloat.thy ===== *)
theory PyFloat
  imports Complex_Main "HOL-Library.Log_Nat"
begin

abbreviation pow2 :: "int \<Rightarrow> rat" where
  "pow2 e \<equiv> 2 powi e"

definition ilog2 :: "rat \<Rightarrow> int" where
  "ilog2 x = (let (n, d) = quotient_of x; k = bitlen n - bitlen d
     in if pow2 k \<le> x then k else k - 1)"

definition round_half_even :: "rat \<Rightarrow> int" where
  "round_half_even x = (let f = \<lfloor>x\<rfloor>; r = x - of_int f
     in if r < 1/2 then f else if 1/2 < r then f + 1 else if even f then f else f + 1)"

definition ulp_exp :: "rat \<Rightarrow> int" where
  "ulp_exp x = (if x = 0 then -1074 else max (ilog2 \<bar>x\<bar> - 52) (-1074))"

definition round_dbl :: "rat \<Rightarrow> rat" where
  "round_dbl x = of_int (round_half_even (x / pow2 (ulp_exp x))) * pow2 (ulp_exp x)"

definition is_dbl :: "rat \<Rightarrow> bool" where
  "is_dbl x \<longleftrightarrow> (\<exists>m e. \<bar>m\<bar> \<le> 2 ^ 53 \<and> -1074 \<le> e \<and> x = of_int m * pow2 e)"

lemma is_dblI: "\<bar>m\<bar> \<le> 2 ^ 53 \<Longrightarrow> -1074 \<le> e \<Longrightarrow> x = of_int m * pow2 e \<Longrightarrow> is_dbl x"
  by (auto simp: is_dbl_def)

lemma pow2_pos [simp]: "0 < pow2 e"
  by simp

lemma pow2_mono: "a \<le> b \<Longrightarrow> pow2 a \<le> pow2 b"
  by (simp add: power_int_increasing)

lemma pow2_nat: "0 \<le> e \<Longrightarrow> pow2 e = of_int (2 ^ nat e)"
  by (simp add: power_int_nonneg_exp)

lemma pow2_add: "pow2 (a + b) = pow2 a * pow2 b"
  by (simp add: power_int_add)

lemma ilog2_bounds:
  assumes "0 < x"
  shows "pow2 (ilog2 x) \<le> x" and "x < pow2 (ilog2 x + 1)"
proof -
  obtain n d where q: "quotient_of x = (n, d)" by (cases "quotient_of x")
  have d: "0 < d" and x: "x = of_int n / of_int d"
    using q by (simp_all add: quotient_of_denom_pos quotient_of_div)
  have n: "0 < n" using assms d x by (simp add: zero_less_divide_iff)
  have bp: "bitlen n \<ge> 1" "bitlen d \<ge> 1"
    using n d bitlen_nonneg[of n] bitlen_nonneg[of d] bitlen_eq_zero_iff[of n] bitlen_eq_zero_iff[of d]
    by linarith+
  have nb: "of_int n < pow2 (bitlen n)" "pow2 (bitlen n - 1) \<le> of_int n"
    using bitlen_bounds[OF n] bp bitlen_nonneg[of n]
    by (simp_all only: pow2_nat of_int_le_iff of_int_less_iff)
  have db: "of_int d < pow2 (bitlen d)" "pow2 (bitlen d - 1) \<le> of_int d"
    using bitlen_bounds[OF d] bp bitlen_nonneg[of d]
    by (simp_all only: pow2_nat of_int_le_iff of_int_less_iff)
  have dpos: "(0::rat) < of_int d" using d by simp
  let ?k = "bitlen n - bitlen d"
  have lo: "pow2 (?k - 1) \<le> x"
  proof -
    have "pow2 (?k - 1) * of_int d \<le> pow2 (?k - 1) * pow2 (bitlen d)"
      using db(1) by simp
    also have "\<dots> = pow2 (bitlen n - 1)" by (simp flip: pow2_add)
    also have "\<dots> \<le> of_int n" by (rule nb)
    finally show ?thesis using dpos x by (simp add: le_divide_eq)
  qed
  have hi: "x < pow2 (?k + 1)"
  proof -
    have "of_int n < pow2 (bitlen n)" by (rule nb)
    also have "\<dots> = pow2 (?k + 1) * pow2 (bitlen d - 1)" by (simp flip: pow2_add)
    also have "\<dots> \<le> pow2 (?k + 1) * of_int d" using db(2) by simp
    finally show ?thesis using dpos x by (simp add: divide_less_eq)
  qed
  show "pow2 (ilog2 x) \<le> x" "x < pow2 (ilog2 x + 1)"
    using lo hi by (auto simp: ilog2_def q Let_def)
qed

lemma ilog2_unique:
  assumes "0 < x" "pow2 k \<le> x" "x < pow2 (k + 1)"
  shows "ilog2 x = k"
proof -
  have "pow2 k < pow2 (ilog2 x + 1)" "pow2 (ilog2 x) < pow2 (k + 1)"
    using ilog2_bounds[OF assms(1)] assms(2,3) by linarith+
  then have "k < ilog2 x + 1" "ilog2 x < k + 1"
    by (metis linorder_not_less pow2_mono)+
  then show ?thesis by simp
qed

lemma ilog2_mono: "0 < x \<Longrightarrow> x \<le> y \<Longrightarrow> ilog2 x \<le> ilog2 y"
proof -
  assume a: "0 < x" "x \<le> y"
  have "pow2 (ilog2 x) < pow2 (ilog2 y + 1)"
    using ilog2_bounds(1)[of x] ilog2_bounds(2)[of y] a by linarith
  then have "ilog2 x < ilog2 y + 1" by (metis linorder_not_less pow2_mono)
  then show ?thesis by simp
qed

lemma round_half_even_of_int [simp]: "round_half_even (of_int n) = n"
  by (simp add: round_half_even_def)

lemma round_half_even_err: "\<bar>of_int (round_half_even x) - x\<bar> \<le> 1/2"
proof -
  have "of_int \<lfloor>x\<rfloor> \<le> x" "x < of_int \<lfloor>x\<rfloor> + 1" by linarith+
  then show ?thesis by (auto simp: round_half_even_def Let_def)
qed

lemma round_half_even_mono: "x \<le> y \<Longrightarrow> round_half_even x \<le> round_half_even y"
proof (cases "\<lfloor>x\<rfloor> = \<lfloor>y\<rfloor>")
  case True
  assume "x \<le> y"
  with True show ?thesis by (auto simp: round_half_even_def Let_def)
next
  case False
  assume "x \<le> y"
  then have "\<lfloor>x\<rfloor> \<le> \<lfloor>y\<rfloor>" by (rule floor_mono)
  with False have "\<lfloor>x\<rfloor> + 1 \<le> \<lfloor>y\<rfloor>" by simp
  then show ?thesis by (auto simp: round_half_even_def Let_def)
qed

lemma round_half_even_minus: "round_half_even (- x) = - round_half_even x"
proof (cases "x = of_int \<lfloor>x\<rfloor>")
  case True
  then obtain n where "x = of_int n" by blast
  then show ?thesis using round_half_even_of_int[of "- n"] by simp
next
  case False
  have f: "\<lfloor>- x\<rfloor> = - \<lfloor>x\<rfloor> - 1"
    using False by (metis add_diff_cancel_left' add_uminus_conv_diff ceiling_altdef diff_minus_eq_add floor_minus minus_diff_eq uminus_add_conv_diff)
  show ?thesis by (auto simp: round_half_even_def Let_def f)
qed


lemma ulp_exp_minus [simp]: "ulp_exp (- x) = ulp_exp x"
  by (simp add: ulp_exp_def)

lemma round_dbl_minus: "round_dbl (- x) = - round_dbl x"
  by (simp add: round_dbl_def round_half_even_minus)

lemma round_dbl_0 [simp]: "round_dbl 0 = 0"
  using round_half_even_of_int[of 0] by (simp add: round_dbl_def)

lemma ulp_exp_ge: "-1074 \<le> ulp_exp x"
  by (simp add: ulp_exp_def)

lemma ulp_exp_mono: "0 < x \<Longrightarrow> x \<le> y \<Longrightarrow> ulp_exp x \<le> ulp_exp y"
  using ilog2_mono[of x y] by (auto simp: ulp_exp_def)

lemma scaled_lt: "0 < x \<Longrightarrow> x / pow2 (ulp_exp x) < of_int (2 ^ 53)"
proof -
  assume x: "0 < x"
  have "x < pow2 (ilog2 x + 1)" by (rule ilog2_bounds(2)[OF x])
  also have "\<dots> \<le> pow2 (ulp_exp x + 53)" by (rule pow2_mono) (use x in \<open>simp add: ulp_exp_def\<close>)
  also have "\<dots> = of_int (2 ^ 53) * pow2 (ulp_exp x)" by (simp add: pow2_add)
  finally show ?thesis by (simp add: divide_less_eq)
qed

lemma scaled_ge:
  assumes "0 < x" "-1074 < ulp_exp x"
  shows "of_int (2 ^ 52) \<le> x / pow2 (ulp_exp x)"
proof -
  have e: "ulp_exp x = ilog2 x - 52" using assms by (auto simp: ulp_exp_def max_def split: if_splits)
  have "of_int (2 ^ 52) * pow2 (ulp_exp x) = pow2 (ilog2 x)"
    using pow2_add[of 52 "ilog2 x - 52"] by (simp add: e)
  also have "\<dots> \<le> x" by (rule ilog2_bounds(1)[OF assms(1)])
  finally show ?thesis by (simp add: le_divide_eq)
qed

lemma round_dbl_pos_upper:
  assumes "0 < x" shows "round_dbl x \<le> pow2 (ulp_exp x + 53)"
proof -
  have "round_half_even (x / pow2 (ulp_exp x)) \<le> 2 ^ 53"
    using round_half_even_mono[OF less_imp_le[OF scaled_lt[OF assms]]]
    by (simp only: round_half_even_of_int)
  then have "(of_int (round_half_even (x / pow2 (ulp_exp x))) :: rat) \<le> of_int (2 ^ 53)"
    by (simp only: of_int_le_iff)
  then have "round_dbl x \<le> of_int (2 ^ 53) * pow2 (ulp_exp x)"
    unfolding round_dbl_def by (intro mult_right_mono) simp_all
  then show ?thesis by (simp add: pow2_add mult.commute)
qed

lemma round_dbl_nonneg: "0 \<le> x \<Longrightarrow> 0 \<le> round_dbl x"
proof -
  assume "0 \<le> x"
  then have "0 \<le> x / pow2 (ulp_exp x)" by simp
  from round_half_even_mono[OF this] have "0 \<le> round_half_even (x / pow2 (ulp_exp x))"
    using round_half_even_of_int[of 0] by simp
  then show ?thesis by (simp add: round_dbl_def)
qed

lemma round_dbl_pos_lower:
  assumes "0 < x" "-1074 < ulp_exp x" shows "pow2 (ulp_exp x + 52) \<le> round_dbl x"
proof -
  have "2 ^ 52 \<le> round_half_even (x / pow2 (ulp_exp x))"
    using round_half_even_mono[OF scaled_ge[OF assms]]
    by (simp only: round_half_even_of_int)
  then have "(of_int (2 ^ 52) :: rat) \<le> of_int (round_half_even (x / pow2 (ulp_exp x)))"
    by (simp only: of_int_le_iff)
  then have "of_int (2 ^ 52) * pow2 (ulp_exp x) \<le> round_dbl x"
    unfolding round_dbl_def by (intro mult_right_mono) simp_all
  then show ?thesis by (simp add: pow2_add mult.commute)
qed

lemma round_dbl_mono_pos:
  assumes "0 < x" "x \<le> y" shows "round_dbl x \<le> round_dbl y"
proof (cases "ulp_exp x = ulp_exp y")
  case True
  have "round_half_even (x / pow2 (ulp_exp y)) \<le> round_half_even (y / pow2 (ulp_exp y))"
    by (rule round_half_even_mono) (simp add: assms(2) divide_right_mono)
  then show ?thesis by (simp add: round_dbl_def True mult_right_mono)
next
  case False
  with ulp_exp_mono[OF assms] have lt: "ulp_exp x < ulp_exp y" by simp
  have "round_dbl x \<le> pow2 (ulp_exp x + 53)" by (rule round_dbl_pos_upper[OF assms(1)])
  also have "\<dots> \<le> pow2 (ulp_exp y + 52)" by (rule pow2_mono) (use lt in simp)
  also have "\<dots> \<le> round_dbl y"
    by (rule round_dbl_pos_lower) (use assms lt ulp_exp_ge[of x] in linarith)+
  finally show ?thesis .
qed

lemma round_dbl_mono:
  assumes "x \<le> y" shows "round_dbl x \<le> round_dbl y"
proof (cases "0 < x")
  case True then show ?thesis using assms by (rule round_dbl_mono_pos)
next
  case x: False
  show ?thesis
  proof (cases "0 \<le> y")
    case True
    have "round_dbl x \<le> 0" using round_dbl_nonneg[of "- x"] x by (simp add: round_dbl_minus)
    also have "0 \<le> round_dbl y" by (rule round_dbl_nonneg[OF True])
    finally show ?thesis .
  next
    case False
    then have "round_dbl (- y) \<le> round_dbl (- x)" using assms by (intro round_dbl_mono_pos) auto
    then show ?thesis by (simp add: round_dbl_minus)
  qed
qed

lemma is_dbl_grid:
  \<comment> \<open>a double at least as large as the binade of \<open>x\<close> lies on the grid \<open>x\<close> is rounded to\<close>
  assumes "is_dbl y" "0 < x" "pow2 (ulp_exp x + 52) \<le> \<bar>y\<bar> \<or> ulp_exp x = -1074"
  shows "\<exists>k. y = of_int k * pow2 (ulp_exp x)"
proof -
  obtain m e where m: "\<bar>m\<bar> \<le> 2 ^ 53" and e: "-1074 \<le> e" and y: "y = of_int m * pow2 e"
    using assms(1) by (auto simp: is_dbl_def)
  let ?u = "ulp_exp x"
  consider "?u \<le> e" | "e < ?u" "m = 2 ^ 53 \<or> m = - (2 ^ 53)" | "e < ?u" "\<bar>m\<bar> < 2 ^ 53"
    using m by linarith
  then show ?thesis
  proof cases
    case 1
    then have "pow2 e = of_int (2 ^ nat (e - ?u)) * pow2 ?u"
      using pow2_add[of "e - ?u" ?u] by (simp add: pow2_nat)
    then have "y = of_int (m * 2 ^ nat (e - ?u)) * pow2 ?u" using y by simp
    then show ?thesis by blast
  next
    case 2
    have "\<bar>y\<bar> = pow2 (e + 53)" using 2 y by (auto simp: pow2_add abs_mult)
    moreover have "?u \<noteq> -1074" using 2 e by simp
    ultimately have "pow2 (?u + 52) \<le> pow2 (e + 53)" using assms(3) by simp
    then have "?u \<le> e + 1" using pow2_mono[of "e + 54" "?u + 52"] power_int_strict_increasing[of "e + 53" "?u + 52" "2::rat"] by linarith
    then have u: "?u = e + 1" using 2 by simp
    have "pow2 ?u = 2 * pow2 e" using pow2_add[of e 1] u by simp
    then have "y = of_int (m div 2) * pow2 ?u" using 2 y by auto
    then show ?thesis by blast
  next
    case 3
    have "\<bar>y\<bar> < pow2 (e + 53)"
    proof -
      have "(of_int \<bar>m\<bar> :: rat) < of_int (2 ^ 53)" using 3 by (simp only: of_int_less_iff)
      then show ?thesis by (simp add: y abs_mult pow2_add)
    qed
    also have "\<dots> \<le> pow2 (?u + 52)" using 3 by (intro pow2_mono) simp
    finally have "?u = -1074" using assms(3) by simp
    with 3 e show ?thesis by simp
  qed
qed


lemma is_dbl_minus:
  assumes "is_dbl x" shows "is_dbl (- x)"
proof -
  obtain m e where "\<bar>m\<bar> \<le> 2 ^ 53" "-1074 \<le> e" "x = of_int m * pow2 e"
    using assms by (auto simp: is_dbl_def)
  then show ?thesis by (intro is_dblI[of "- m" e]) simp_all
qed

lemma round_dbl_is_dbl: "is_dbl (round_dbl x)"
proof -
  have pos: "is_dbl (round_dbl y)" if "0 < y" for y
  proof -
    have "round_half_even (y / pow2 (ulp_exp y)) \<le> 2 ^ 53"
      using round_half_even_mono[OF less_imp_le[OF scaled_lt[OF that]]]
      by (simp only: round_half_even_of_int)
    moreover have "0 \<le> y / pow2 (ulp_exp y)" using that by simp
    from round_half_even_mono[OF this] have "0 \<le> round_half_even (y / pow2 (ulp_exp y))"
      using round_half_even_of_int[of 0] by simp
    ultimately show ?thesis 
      using ulp_exp_ge[of y] by (intro is_dblI[OF _ _ round_dbl_def]) simp_all
  qed
  consider "0 < x" | "x = 0" | "0 < - x" by linarith
  then show ?thesis
  proof cases
    case 2
    then show ?thesis by (intro is_dblI[of 0 0]) simp_all
  next
    case 3
    from is_dbl_minus[OF pos[OF 3]] show ?thesis by (simp add: round_dbl_minus)
  qed (rule pos)
qed

lemma round_dbl_id:
  assumes "is_dbl x" shows "round_dbl x = x"
proof -
  have pos: "round_dbl y = y" if y: "0 < y" "is_dbl y" for y
  proof -
    have "pow2 (ulp_exp y + 52) \<le> \<bar>y\<bar> \<or> ulp_exp y = -1074"
    proof (cases "ulp_exp y = -1074")
      case False
      then have "of_int (2 ^ 52) \<le> y / pow2 (ulp_exp y)"
        using scaled_ge[of y] y ulp_exp_ge[of y] by linarith
      then show ?thesis using y by (simp add: le_divide_eq pow2_add mult.commute)
    qed simp
    then obtain k where "y = of_int k * pow2 (ulp_exp y)" using is_dbl_grid y by blast
    then have "y / pow2 (ulp_exp y) = of_int k"
      by (metis nonzero_mult_div_cancel_right pow2_pos less_irrefl)
    with \<open>y = _\<close> show ?thesis by (simp add: round_dbl_def)
  qed
  consider "0 < x" | "x = 0" | "0 < - x" by linarith
  then show ?thesis
  proof cases
    case 1
    then show ?thesis using assms by (rule pos)
  next
    case 3
    from pos[OF 3 is_dbl_minus[OF assms]] show ?thesis by (simp add: round_dbl_minus)
  qed simp
qed

lemma round_half_even_nearest: "\<bar>of_int (round_half_even z) - z\<bar> \<le> \<bar>of_int k - z\<bar>"
proof (cases "k = round_half_even z")
  case False
  then have "(1::rat) \<le> \<bar>of_int k - of_int (round_half_even z)\<bar>"
    by (metis abs_ge_zero int_one_le_iff_zero_less of_int_1_le_iff of_int_abs of_int_diff right_minus_eq zero_less_abs_iff)
  then show ?thesis using round_half_even_err[of z] by linarith
qed simp

lemma round_dbl_nearest_grid:
  "\<bar>round_dbl x - x\<bar> \<le> \<bar>of_int k * pow2 (ulp_exp x) - x\<bar>"
proof -
  let ?p = "pow2 (ulp_exp x)"
  have x: "x = x / ?p * ?p" by simp
  have "\<bar>round_dbl x - x\<bar> = \<bar>(of_int (round_half_even (x / ?p)) - x / ?p) * ?p\<bar>"
    by (simp add: round_dbl_def left_diff_distrib)
  also have "\<dots> \<le> \<bar>of_int k - x / ?p\<bar> * ?p"
    using round_half_even_nearest[of "x / ?p" k] by (simp add: abs_mult)
  also have "\<dots> = \<bar>(of_int k - x / ?p) * ?p\<bar>" by (simp add: abs_mult)
  also have "\<dots> = \<bar>of_int k * ?p - x\<bar>" by (simp add: left_diff_distrib)
  finally show ?thesis .
qed

lemma round_dbl_nearest:
  assumes "is_dbl y" shows "\<bar>round_dbl x - x\<bar> \<le> \<bar>y - x\<bar>"
proof -
  have pos: "\<bar>round_dbl x - x\<bar> \<le> \<bar>y - x\<bar>" if "0 < x" "is_dbl y" for x y
  proof (cases "pow2 (ulp_exp x + 52) \<le> \<bar>y\<bar> \<or> ulp_exp x = -1074")
    case True
    then show ?thesis using is_dbl_grid[OF that(2,1)] round_dbl_nearest_grid by metis
  next
    case False
    then have u: "-1074 < ulp_exp x" using ulp_exp_ge[of x] by linarith
    let ?g = "of_int (2 ^ 52) * pow2 (ulp_exp x)"
    have g: "?g = pow2 (ulp_exp x + 52)" by (simp add: pow2_add)
    have "?g \<le> x" using scaled_ge[OF that(1) u] by (simp only: le_divide_eq pow2_pos if_True)
    moreover have "y < ?g" using False g by linarith
    moreover have "\<bar>round_dbl x - x\<bar> \<le> \<bar>?g - x\<bar>" by (rule round_dbl_nearest_grid)
    ultimately show ?thesis by linarith
  qed
  consider "0 < x" | "x = 0" | "0 < - x" by linarith
  then show ?thesis
  proof cases
    case 1
    then show ?thesis using assms by (rule pos)
  next
    case 3
    from pos[OF 3 is_dbl_minus[OF assms]] show ?thesis by (simp add: round_dbl_minus)
  qed simp
qed

text \<open>The type of Python floats.\<close>

datatype pyfloat = PNaN | PInf bool | PFin rat

definition dbl_max_exp :: rat where
  "dbl_max_exp = 2 ^ 1024"

definition to_dbl :: "rat \<Rightarrow> pyfloat" where
  "to_dbl x = (let r = round_dbl x in if \<bar>r\<bar> < dbl_max_exp then PFin r else PInf (r < 0))"

fun is_finite :: "pyfloat \<Rightarrow> bool" where
  "is_finite (PFin _) = True"
| "is_finite _ = False"

fun fl_neg :: "pyfloat \<Rightarrow> pyfloat" where
  "fl_neg PNaN = PNaN"
| "fl_neg (PInf s) = PInf (\<not> s)"
| "fl_neg (PFin x) = PFin (- x)"

fun fl_abs :: "pyfloat \<Rightarrow> pyfloat" where
  "fl_abs PNaN = PNaN"
| "fl_abs (PInf s) = PInf False"
| "fl_abs (PFin x) = PFin \<bar>x\<bar>"

fun fl_add :: "pyfloat \<Rightarrow> pyfloat \<Rightarrow> pyfloat" where
  "fl_add (PFin x) (PFin y) = to_dbl (x + y)"
| "fl_add PNaN _ = PNaN"
| "fl_add _ PNaN = PNaN"
| "fl_add (PInf s) (PInf t) = (if s = t then PInf s else PNaN)"
| "fl_add (PInf s) (PFin _) = PInf s"
| "fl_add (PFin _) (PInf t) = PInf t"

definition fl_sub :: "pyfloat \<Rightarrow> pyfloat \<Rightarrow> pyfloat" where
  "fl_sub a b = fl_add a (fl_neg b)"

fun fl_mul :: "pyfloat \<Rightarrow> pyfloat \<Rightarrow> pyfloat" where
  "fl_mul (PFin x) (PFin y) = to_dbl (x * y)"
| "fl_mul PNaN _ = PNaN"
| "fl_mul _ PNaN = PNaN"
| "fl_mul (PInf s) (PInf t) = PInf (s \<noteq> t)"
| "fl_mul (PInf s) (PFin y) = (if y = 0 then PNaN else PInf (s \<noteq> (y < 0)))"
| "fl_mul (PFin x) (PInf t) = (if x = 0 then PNaN else PInf (t \<noteq> (x < 0)))"

fun fl_div :: "pyfloat \<Rightarrow> pyfloat \<Rightarrow> pyfloat option" where
  \<comment> \<open>\<open>None\<close> is Python's ZeroDivisionError, raised for any dividend\<close>
  "fl_div a (PFin y) = (if y = 0 then None else Some
     (case a of PNaN \<Rightarrow> PNaN | PInf s \<Rightarrow> PInf (s \<noteq> (y < 0)) | PFin x \<Rightarrow> to_dbl (x / y)))"
| "fl_div a PNaN = Some PNaN"
| "fl_div a (PInf t) = Some (case a of PFin _ \<Rightarrow> PFin 0 | _ \<Rightarrow> PNaN)"

fun fl_lt :: "pyfloat \<Rightarrow> pyfloat \<Rightarrow> bool" where
  "fl_lt (PFin x) (PFin y) = (x < y)"
| "fl_lt PNaN _ = False"
| "fl_lt _ PNaN = False"
| "fl_lt (PInf s) (PInf t) = (s \<and> \<not> t)"
| "fl_lt (PInf s) (PFin _) = s"
| "fl_lt (PFin _) (PInf t) = (\<not> t)"

definition fl_eq :: "pyfloat \<Rightarrow> pyfloat \<Rightarrow> bool" where
  "fl_eq a b \<longleftrightarrow> a \<noteq> PNaN \<and> a = b"

definition fl_le :: "pyfloat \<Rightarrow> pyfloat \<Rightarrow> bool" where
  "fl_le a b \<longleftrightarrow> fl_lt a b \<or> fl_eq a b"

definition fl_max :: "pyfloat \<Rightarrow> pyfloat \<Rightarrow> pyfloat" where
  "fl_max a b = (if fl_lt a b then b else a)"

fun fl_round :: "nat \<Rightarrow> pyfloat \<Rightarrow> pyfloat" where
  "fl_round n (PFin x) = to_dbl (of_int (round_half_even (x * 10 ^ n)) / 10 ^ n)"
| "fl_round n a = a"


fun wf_float :: "pyfloat \<Rightarrow> bool" where
  "wf_float (PFin x) = (is_dbl x \<and> \<bar>x\<bar> < dbl_max_exp)"
| "wf_float _ = True"

definition fl_of_int :: "int \<Rightarrow> pyfloat option" where
  \<comment> \<open>\<open>None\<close> is OverflowError: int too large to convert to float\<close>
  "fl_of_int n = (case to_dbl (of_int n) of PFin x \<Rightarrow> Some (PFin x) | _ \<Rightarrow> None)"

lemma fl_lt_nan [simp]: "\<not> fl_lt a PNaN" "\<not> fl_lt PNaN a"
  by (cases a; simp)+

lemma to_dbl_wf [simp]: "wf_float (to_dbl x)"
  by (simp add: to_dbl_def Let_def round_dbl_is_dbl)

lemma to_dbl_cases:
  obtains r where "to_dbl x = PFin r" "r = round_dbl x" "\<bar>r\<bar> < dbl_max_exp"
  | s where "to_dbl x = PInf s"
  by (cases "\<bar>round_dbl x\<bar> < dbl_max_exp") (auto simp: to_dbl_def Let_def)

lemma to_dbl_not_nan [simp]: "to_dbl x \<noteq> PNaN"
  by (simp add: to_dbl_def Let_def)

lemma to_dbl_id: "wf_float (PFin x) \<Longrightarrow> to_dbl x = PFin x"
  by (simp add: to_dbl_def Let_def round_dbl_id)

lemma fl_add_wf [simp]: "wf_float a \<Longrightarrow> wf_float b \<Longrightarrow> wf_float (fl_add a b)"
  by (cases "(a, b)" rule: fl_add.cases) auto

lemma fl_neg_wf [simp]: "wf_float a \<Longrightarrow> wf_float (fl_neg a)"
  by (cases a) (auto simp: is_dbl_minus)

lemma is_dbl_large_int:
  assumes "is_dbl x" "of_int (2 ^ 53) < \<bar>x\<bar>"
  shows "\<exists>n. x = of_int n"
proof -
  obtain m e where m: "\<bar>m\<bar> \<le> 2 ^ 53" and x: "x = of_int m * pow2 e"
    using assms(1) by (auto simp: is_dbl_def)
  have "0 \<le> e"
  proof (rule ccontr)
    assume "\<not> 0 \<le> e"
    then have "pow2 e \<le> pow2 0" by (intro pow2_mono) simp
    then have "of_int \<bar>m\<bar> * pow2 e \<le> of_int (2 ^ 53) * 1"
      using m by (intro mult_mono) (simp_all only: of_int_le_iff, simp_all)
    then show False using assms(2) x by (simp add: abs_mult)
  qed
  then have "x = of_int (m * 2 ^ nat e)" using x by (simp add: pow2_nat)
  then show ?thesis ..
qed

lemma round_dbl_abs_mono:
  assumes "\<bar>d\<bar> \<le> b" shows "\<bar>round_dbl d\<bar> \<le> round_dbl b"
proof -
  have "round_dbl d \<le> round_dbl b" "round_dbl (- d) \<le> round_dbl b"
    using assms by (auto intro!: round_dbl_mono)
  then show ?thesis by (simp add: round_dbl_minus abs_le_iff)
qed

lemma big54: "(2::rat) ^ 54 < dbl_max_exp"
  unfolding dbl_max_exp_def by (rule power_strict_increasing) simp_all

lemma fl_round_finite:
  fixes x :: rat and n :: nat
  assumes "wf_float (PFin x)"
  defines "q \<equiv> of_int (round_half_even (x * 10 ^ n)) / 10 ^ n"
  shows "fl_round n (PFin x) = PFin (round_dbl q)"
    and "\<bar>q - x\<bar> \<le> 1 / (2 * 10 ^ n)"
proof -
  have p: "(0::rat) < 10 ^ n" by simp
  have "\<bar>of_int (round_half_even (x * 10 ^ n)) - x * 10 ^ n\<bar> \<le> 1 / 2"
    by (rule round_half_even_err)
  moreover have "(q - x) * 10 ^ n = of_int (round_half_even (x * 10 ^ n)) - x * 10 ^ n"
    by (simp add: q_def left_diff_distrib)
  ultimately have "\<bar>q - x\<bar> * 10 ^ n \<le> 1 / 2"
    by (metis abs_mult abs_of_pos p)
  then show err: "\<bar>q - x\<bar> \<le> 1 / (2 * 10 ^ n)"
    using p by (simp add: field_simps)
  have "\<bar>round_dbl q\<bar> < dbl_max_exp"
  proof (cases "of_int (2 ^ 53) < \<bar>x\<bar>")
    case True
    then obtain k where "x = of_int k" using is_dbl_large_int assms(1) by auto
    then have "x * 10 ^ n = of_int (k * 10 ^ n)" by simp
    then have "round_half_even (x * 10 ^ n) = k * 10 ^ n" by (simp only: round_half_even_of_int)
    then have "q = x" using \<open>x = of_int k\<close> by (simp add: q_def)
    then show ?thesis using assms(1) by (simp add: round_dbl_id)
  next
    case False
    have "(1::rat) \<le> 2 * 10 ^ n" using one_le_power[of "10::rat" n] by linarith
    then have "(1::rat) / (2 * 10 ^ n) \<le> 1" by (simp add: divide_le_eq)
    then have "\<bar>q - x\<bar> \<le> 1" using err by linarith
    moreover have "\<bar>x\<bar> \<le> 9007199254740992" using False by simp
    ultimately have "\<bar>q\<bar> \<le> 18014398509481984" by linarith
    then have b: "\<bar>q\<bar> \<le> 2 ^ 54" by simp
    have d: "is_dbl (2 ^ 54)" by (rule is_dblI[of "2 ^ 53" 1]) simp_all
    have "\<bar>round_dbl q\<bar> \<le> round_dbl (2 ^ 54)" by (rule round_dbl_abs_mono[OF b])
    also have "\<dots> = 2 ^ 54" by (rule round_dbl_id[OF d])
    also have "(2::rat) ^ 54 < dbl_max_exp" by (rule big54)
    finally show ?thesis .
  qed
  then show "fl_round n (PFin x) = PFin (round_dbl q)"
    by (simp add: to_dbl_def Let_def q_def)
qed

text \<open>
  Rounding a float to \<open>n\<close> decimals moves it by at most one unit of the last decimal, and
  comparing the float difference against the float literal of that unit never exceeds it.
\<close>

lemma fl_round_residual:
  assumes "wf_float x"
  shows "\<not> fl_lt (to_dbl (1 / 10 ^ n)) (fl_abs (fl_sub (fl_round n x) x))"
proof (cases x)
  case (PFin r)
  define q :: rat where "q = of_int (round_half_even (r * 10 ^ n)) / 10 ^ n"
  have wf: "wf_float (PFin r)" using assms PFin by simp
  note f = fl_round_finite[OF wf, of n, folded q_def]
  have "\<bar>round_dbl q - q\<bar> \<le> \<bar>r - q\<bar>" using wf by (intro round_dbl_nearest) simp
  then have "\<bar>round_dbl q - r\<bar> \<le> 2 * (1 / (2 * 10 ^ n))" using f(2) by linarith
  then have "\<bar>round_dbl q - r\<bar> \<le> 1 / 10 ^ n" by simp
  then have b: "\<bar>round_dbl (round_dbl q - r)\<bar> \<le> round_dbl (1 / 10 ^ n)"
    by (rule round_dbl_abs_mono)
  have one: "round_dbl (1 / 10 ^ n) \<le> 1"
  proof -
    have "(1::rat) / 10 ^ n \<le> 1" using one_le_power[of "10::rat" n] by (simp add: divide_le_eq)
    moreover have "is_dbl 1" by (rule is_dblI[of 1 0]) simp_all
    ultimately show ?thesis using round_dbl_mono[of "1 / 10 ^ n" 1] round_dbl_id[of 1] by simp
  qed
  have big: "(1::rat) < dbl_max_exp" by (simp add: dbl_max_exp_def)
  have lit: "to_dbl (1 / 10 ^ n) = PFin (round_dbl (1 / 10 ^ n))"
    using one round_dbl_nonneg[of "1 / 10 ^ n"]
    big
    by (simp add: to_dbl_def Let_def)
  have fin: "\<bar>round_dbl (round_dbl q - r)\<bar> < dbl_max_exp"
    using b one big by linarith
  show ?thesis using PFin f(1) b fin
    by (simp add: fl_sub_def lit to_dbl_def[of "round_dbl q - r"] Let_def)
qed (simp_all add: fl_sub_def)

lemma is_dbl_of_int: "\<bar>n\<bar> \<le> 2 ^ 53 \<Longrightarrow> is_dbl (of_int n)"
  by (rule is_dblI[of n 0]) simp_all

lemma to_dbl_of_int:
  assumes "\<bar>n\<bar> \<le> 2 ^ 53" shows "to_dbl (of_int n) = PFin (of_int n)"
proof -
  have "(of_int \<bar>n\<bar> :: rat) \<le> of_int (2 ^ 53)" using assms by (simp only: of_int_le_iff)
  also have "(of_int (2 ^ 53) :: rat) < dbl_max_exp" by (simp add: dbl_max_exp_def)
  finally have "\<bar>of_int n :: rat\<bar> < dbl_max_exp" by simp
  then show ?thesis using assms by (intro to_dbl_id) (simp add: is_dbl_of_int)
qed

lemma to_dbl_numeral [simp]:
  "to_dbl 0 = PFin 0" "to_dbl 1 = PFin 1"
  "(numeral k :: int) \<le> 2 ^ 53 \<Longrightarrow> to_dbl (numeral k) = PFin (numeral k)"
  "(numeral k :: int) \<le> 2 ^ 53 \<Longrightarrow> to_dbl (- numeral k) = PFin (- numeral k)"
  "to_dbl (-1) = PFin (-1)"
  using to_dbl_of_int[of 0] to_dbl_of_int[of 1] to_dbl_of_int[of "numeral k"]
    to_dbl_of_int[of "- numeral k"] to_dbl_of_int[of "-1"] by simp_all


lemma wf_PFin_int:
  assumes "\<bar>n\<bar> \<le> 2 ^ 53" shows "wf_float (PFin (of_int n))"
  using to_dbl_wf[of "of_int n"] by (simp add: to_dbl_of_int[OF assms] del: to_dbl_wf)

lemma fl_round_of_int:
  assumes "\<bar>k\<bar> \<le> 2 ^ 53" shows "fl_round n (PFin (of_int k)) = PFin (of_int k)"
proof -
  have "(of_int k :: rat) * 10 ^ n = of_int (k * 10 ^ n)" by simp
  then have "round_half_even (of_int k * 10 ^ n) = k * 10 ^ n" by (simp only: round_half_even_of_int)
  then show ?thesis using to_dbl_of_int[OF assms] by simp
qed

lemma fl_round_numeral [simp]:
  "fl_round n (PFin 0) = PFin 0" "fl_round n (PFin 1) = PFin 1"
  "(numeral k :: int) \<le> 2 ^ 53 \<Longrightarrow> fl_round n (PFin (numeral k)) = PFin (numeral k)"
  "(numeral k :: int) \<le> 2 ^ 53 \<Longrightarrow> fl_round n (PFin (- numeral k)) = PFin (- numeral k)"
  using fl_round_of_int[of 0 n] fl_round_of_int[of 1 n] fl_round_of_int[of "numeral k" n]
    fl_round_of_int[of "- numeral k" n] by simp_all

text \<open>The built-in \<open>sum\<close> over floats (CPython 3.12: Neumaier's compensated summation).\<close>

fun sum_loop :: "pyfloat \<Rightarrow> pyfloat \<Rightarrow> pyfloat list \<Rightarrow> pyfloat \<times> pyfloat" where
  "sum_loop s c [] = (s, c)"
| "sum_loop s c (x # xs) = (let t = fl_add s x;
     d = (if fl_le (fl_abs x) (fl_abs s) then fl_add (fl_sub s t) x else fl_add (fl_sub x t) s)
     in sum_loop t (fl_add c d) xs)"

definition fl_sum :: "pyfloat list \<Rightarrow> pyfloat" where
  "fl_sum xs = (let (s, c) = sum_loop (PFin 0) (PFin 0) xs
     in if c \<noteq> PFin 0 \<and> is_finite c then fl_add s c else s)"

end
