(* ===== verification/PyJson.thy ===== *)
theory PyJson
  imports Utf8 PyFloat
begin

text \<open>
  JSON values as \<open>json.loads\<close> builds them, and \<open>json.dumps\<close> in the canonical form the
  program hashes (\<open>separators=(",", ":"), sort_keys=True, ensure_ascii=True\<close>), with the
  shortest round-trip rendering of floats.
\<close>

datatype json =
    JNull
  | JBool bool
  | JInt int
  | JFloat pyfloat
  | JStr string
  | JList "json list"
  | JObj "(string \<times> json) list"

section \<open>Numbers in decimal\<close>

fun show_nat :: "nat \<Rightarrow> string" where
  "show_nat n = (if n < 10 then [char_of (48 + n)] else show_nat (n div 10) @ [char_of (48 + n mod 10)])"

declare show_nat.simps [simp del]

definition show_int :: "int \<Rightarrow> string" where
  "show_int n = (if n < 0 then ''-'' @ show_nat (nat (- n)) else show_nat (nat n))"

definition ilog10 :: "rat \<Rightarrow> int" where
  \<comment> \<open>decimal exponent of a positive double\<close>
  "ilog10 x = (case List.find (\<lambda>k. 10 powi k \<le> x) (rev [-324..308]) of Some k \<Rightarrow> k | None \<Rightarrow> -324)"

definition digits_candidate :: "rat \<Rightarrow> int \<Rightarrow> nat \<Rightarrow> int" where
  "digits_candidate x k n = round_half_even (x / 10 powi (k - int n + 1))"

fun shortest_from :: "rat \<Rightarrow> int \<Rightarrow> nat list \<Rightarrow> (int \<times> int) option" where
  \<comment> \<open>the first of the given numbers of digits with a decimal that reads back: the nearest if it does, and
    otherwise its neighbour on the other side (above a power of two the doubles lie twice as far apart)\<close>
  "shortest_from x k [] = None"
| "shortest_from x k (n # ns) = (let e = k - int n + 1; s = x / 10 powi e in
     case List.find (\<lambda>d. round_dbl (of_int d * 10 powi e) = x) [round_half_even s, \<lfloor>s\<rfloor>, \<lceil>s\<rceil>] of
       Some d \<Rightarrow> Some (d, e) | None \<Rightarrow> shortest_from x k ns)"

definition shortest_digits :: "rat \<Rightarrow> int \<times> int" where
  \<comment> \<open>digits \<open>d\<close> and exponent \<open>e\<close> of the shortest decimal \<open>d * 10 ^ e\<close> that reads back as \<open>x\<close>\<close>
  "shortest_digits x = (let k = ilog10 x in case shortest_from x k [1..<17] of Some de \<Rightarrow> de
     | None \<Rightarrow> (digits_candidate x k 17, k - 16))"

definition strip_zeros :: "string \<Rightarrow> string" where
  "strip_zeros s = rev (dropWhile (\<lambda>c. c = CHR ''0'') (rev s))"

definition repr_pos :: "rat \<Rightarrow> string" where
  "repr_pos x = (let (d, e) = shortest_digits x; full = show_nat (nat d);
     decpt = int (length full) + e; ds = strip_zeros full; n = int (length ds)
     in if -4 < decpt \<and> decpt \<le> 16 then
          (if decpt \<le> 0 then ''0.'' @ replicate (nat (- decpt)) CHR ''0'' @ ds
           else if n \<le> decpt then ds @ replicate (nat (decpt - n)) CHR ''0'' @ ''.0''
           else take (nat decpt) ds @ ''.'' @ drop (nat decpt) ds)
        else (let ex = decpt - 1; m = (if n = 1 then ds else take 1 ds @ ''.'' @ drop 1 ds);
                  es = show_nat (nat \<bar>ex\<bar>)
              in m @ ''e'' @ (if ex < 0 then ''-'' else ''+'')
                   @ (if length es < 2 then ''0'' @ es else es)))"

fun float_repr :: "pyfloat \<Rightarrow> string" where
  "float_repr PNaN = ''NaN''"
| "float_repr (PInf s) = (if s then ''-Infinity'' else ''Infinity'')"
| "float_repr (PFin x) = (if x = 0 then ''0.0'' else if x < 0 then ''-'' @ repr_pos (- x) else repr_pos x)"

section \<open>Strings\<close>

definition hex_char :: "nat \<Rightarrow> char" where
  "hex_char n = (if n < 10 then char_of (48 + n) else char_of (87 + n))"

definition escape_unit :: "nat \<Rightarrow> string" where
  \<comment> \<open>one UTF-16 code unit as a backslash, \<open>u\<close> and four hexadecimal digits\<close>
  "escape_unit n = [char_of (92::nat), CHR ''u'', hex_char (n div 4096 mod 16), hex_char (n div 256 mod 16),
     hex_char (n div 16 mod 16), hex_char (n mod 16)]"

definition escape_point :: "nat \<Rightarrow> string" where
  "escape_point n = (if n = 34 \<or> n = 92 then [char_of (92::nat), char_of n]
     else if n = 10 then [char_of (92::nat), CHR ''n''] else if n = 13 then [char_of (92::nat), CHR ''r'']
     else if n = 9 then [char_of (92::nat), CHR ''t''] else if n = 8 then [char_of (92::nat), CHR ''b'']
     else if n = 12 then [char_of (92::nat), CHR ''f'']
     else if 32 \<le> n \<and> n \<le> 126 then [char_of n]
     else if n < 65536 then escape_unit n
     else escape_unit (55296 + (n - 65536) div 1024) @ escape_unit (56320 + (n - 65536) mod 1024))"

definition dump_string :: "string \<Rightarrow> string" where
  "dump_string s = [char_of (34::nat)] @ concat (map escape_point (str_points s)) @ [char_of (34::nat)]"

definition join :: "string \<Rightarrow> string list \<Rightarrow> string" where
  "join sep xs = concat (case xs of [] \<Rightarrow> [] | x # ys \<Rightarrow> x # map (\<lambda>y. sep @ y) ys)"

fun canonical_json_dumps :: "json \<Rightarrow> string" where
  "canonical_json_dumps JNull = ''null''"
| "canonical_json_dumps (JBool b) = (if b then ''true'' else ''false'')"
| "canonical_json_dumps (JInt n) = show_int n"
| "canonical_json_dumps (JFloat f) = float_repr f"
| "canonical_json_dumps (JStr s) = dump_string s"
| "canonical_json_dumps (JList xs) = ''['' @ join '','' (map canonical_json_dumps xs) @ '']''"
| "canonical_json_dumps (JObj kvs) =
     ''{'' @ join '','' (map snd (sort_key fst
       (map (\<lambda>(k, v). (k, dump_string k @ '':'' @ canonical_json_dumps v)) kvs))) @ ''}''"

section \<open>Access\<close>

definition str_prefix :: "string \<Rightarrow> string \<Rightarrow> bool" where
  "str_prefix p s \<longleftrightarrow> take (length p) s = p"

end
