(* ===== verification/PySha256.thy ===== *)
theory PySha256
  imports Utf8 "HOL-Library.Word"
begin

unbundle bit_operations_syntax

text \<open>
  \<open>hashlib.sha256(text.encode("utf-8")).hexdigest()\<close>: FIPS 180-4 over 32-bit words, executable.
  A string is its UTF-8 bytes, so hashing a text and hashing the bytes of a file are one function.
\<close>

type_synonym w32 = "32 word"

text \<open>
  The constants are what the standard says they are: the first 32 bits of the fractional parts of
  the cube roots of the first 64 primes and of the square roots of the first 8.
\<close>

definition nat_root :: "nat \<Rightarrow> nat \<Rightarrow> nat" where
  "nat_root d n = fold (\<lambda>i r. if (r + 2 ^ i) ^ d \<le> n then r + 2 ^ i else r) (rev [0..<36]) 0"

definition small_primes :: "nat list" where
  "small_primes = filter (\<lambda>n. \<not> list_ex (\<lambda>d. n mod d = 0) [2..<n]) [2..<312]"

definition sha_k :: "w32 list" where
  "sha_k = map (\<lambda>p. of_nat (nat_root 3 (p * 2 ^ 96))) small_primes"

definition sha_h0 :: "w32 list" where
  "sha_h0 = map (\<lambda>p. of_nat (nat_root 2 (p * 2 ^ 64))) [2, 3, 5, 7, 11, 13, 17, 19]"

definition rotr :: "nat \<Rightarrow> w32 \<Rightarrow> w32" where
  "rotr k x = drop_bit k x OR push_bit (32 - k) x"

definition sha_pad :: "nat list \<Rightarrow> nat list" where
  "sha_pad m = (let l = length m; z = (119 - l mod 64) mod 64 in
     m @ [128] @ replicate z 0 @ map (\<lambda>i. (8 * l) div 256 ^ (7 - i) mod 256) [0..<8])"

fun chunks :: "nat \<Rightarrow> 'a list \<Rightarrow> 'a list list" where
  "chunks n xs = (if n = 0 \<or> xs = [] then [] else take n xs # chunks n (drop n xs))"

declare chunks.simps [simp del]

definition word_of_bytes :: "nat list \<Rightarrow> w32" where
  "word_of_bytes bs = of_nat (foldl (\<lambda>a b. 256 * a + b) 0 bs)"

definition schedule_next :: "w32 list \<Rightarrow> w32" where
  \<comment> \<open>the message schedule is kept newest first\<close>
  "schedule_next ws = (let w2 = ws ! 1; w7 = ws ! 6; w15 = ws ! 14; w16 = ws ! 15;
     s0 = rotr 7 w15 XOR rotr 18 w15 XOR drop_bit 3 w15;
     s1 = rotr 17 w2 XOR rotr 19 w2 XOR drop_bit 10 w2
     in w16 + s0 + w7 + s1)"

fun schedule :: "nat \<Rightarrow> w32 list \<Rightarrow> w32 list" where
  "schedule 0 ws = rev ws"
| "schedule (Suc n) ws = schedule n (schedule_next ws # ws)"

fun sha_round :: "w32 list \<Rightarrow> w32 \<times> w32 \<Rightarrow> w32 list" where
  "sha_round [a, b, c, d, e, f, g, h] (k, w) = (let
     t1 = h + (rotr 6 e XOR rotr 11 e XOR rotr 25 e) + ((e AND f) XOR (NOT e AND g)) + k + w;
     t2 = (rotr 2 a XOR rotr 13 a XOR rotr 22 a) + ((a AND b) XOR (a AND c) XOR (b AND c))
     in [t1 + t2, a, b, c, d + t1, e, f, g])"
| "sha_round s _ = s"

definition sha_block :: "w32 list \<Rightarrow> nat list \<Rightarrow> w32 list" where
  "sha_block hs block = (let ws = schedule 48 (rev (map word_of_bytes (chunks 4 block)))
     in map2 (+) hs (foldl sha_round hs (zip sha_k ws)))"

definition sha256_words :: "nat list \<Rightarrow> w32 list" where
  "sha256_words m = foldl sha_block sha_h0 (chunks 64 (sha_pad m))"

definition hex_digit :: "nat \<Rightarrow> char" where
  "hex_digit n = (if n < 10 then char_of (48 + n) else char_of (87 + n))"

definition hex_word :: "w32 \<Rightarrow> string" where
  "hex_word w = map (\<lambda>i. hex_digit (unat w div 16 ^ (7 - i) mod 16)) [0..<8]"

definition sha256_hex :: "string \<Rightarrow> string" where
  "sha256_hex s = concat (map hex_word (sha256_words (map of_char s)))"

lemma length_sha_round [simp]: "length (sha_round hs kw) = length hs"
  by (cases "(hs, kw)" rule: sha_round.cases) (simp_all add: Let_def)

lemma length_foldl_sha_round [simp]: "length (foldl sha_round hs kws) = length hs"
  by (induction kws arbitrary: hs) simp_all

lemma length_foldl_sha_block: "length (foldl sha_block hs bs) = length hs"
  by (induction bs arbitrary: hs) (simp_all add: sha_block_def Let_def)

lemma length_concat_const: "(\<forall>x \<in> set xs. length x = k) \<Longrightarrow> length (concat xs) = k * length xs"
  by (induction xs) auto

lemma length_sha256_hex [simp]: "length (sha256_hex s) = 64"
proof -
  have "length (sha256_words (map of_char s)) = 8"
    by (simp add: sha256_words_def length_foldl_sha_block sha_h0_def)
  then show ?thesis
    by (simp add: sha256_hex_def length_concat_const[where k = 8] hex_word_def)
qed

lemma ascii_sha256_hex [simp]: "ascii (sha256_hex s)"
proof -
  have "of_char (hex_digit (n mod 16)) < (128 :: nat)" for n
  proof -
    have "n mod 16 < 16" by simp
    then have "87 + n mod 16 < 128" "48 + n mod 16 < 128" by linarith+
    then show ?thesis by (simp add: hex_digit_def of_char_of)
  qed
  then show ?thesis by (auto simp: sha256_hex_def ascii_def list_all_iff hex_word_def)
qed

end
