(* ===== verification/PaperEngine.thy ===== *)
theory PaperEngine
  imports PyTime PyJson PySha256
begin

text \<open>
  \<open>quantbot/paper/engine.py\<close>: the long-only, fixed-notional paper accounting engine. Every loop
  of \<open>run_engine\<close> is one step definition folded over the symbols the loop visits, in the loop's
  order; exceptions are values of \<^typ>\<open>py_error\<close>.
\<close>

section \<open>Money and identifiers\<close>

definition round8 :: "pyfloat \<Rightarrow> pyfloat" where
  "round8 x = fl_round 8 x"

definition canonical_net_pnl :: "pyfloat \<Rightarrow> pyfloat \<Rightarrow> pyfloat \<Rightarrow> pyfloat" where
  "canonical_net_pnl gross fees funding = round8 (fl_sub (fl_sub (round8 gross) (round8 fees)) (round8 funding))"

definition fill_id :: "string \<Rightarrow> string \<Rightarrow> string \<Rightarrow> string \<Rightarrow> string" where
  "fill_id symbol signal_bar_ts side kind =
     take 16 (sha256_hex (symbol @ ''|'' @ signal_bar_ts @ ''|'' @ side @ ''|'' @ kind))"

section \<open>Price book\<close>

record bar =
  bar_timestamp :: string
  bar_open :: pyfloat
  bar_high :: pyfloat
  bar_low :: pyfloat
  bar_close :: pyfloat
  bar_volume :: pyfloat

type_synonym bar_series = "(string, bar list) dict"

record price_book =
  pb_bars :: bar_series
  pb_index :: "(string, (string, nat) dict) dict"

definition index_bars :: "bar list \<Rightarrow> (string, nat) dict" where
  "index_bars bars = fold (\<lambda>(i, b) ix. dict_set (bar_timestamp b) i ix) (enumerate 0 bars) []"

definition make_price_book :: "bar_series \<Rightarrow> price_book" where
  "make_price_book series = \<lparr>pb_bars = series,
     pb_index = fold (\<lambda>(symbol, bars) ix. dict_set symbol (index_bars bars) ix) series []\<rparr>"

definition index_at :: "price_book \<Rightarrow> string \<Rightarrow> string \<Rightarrow> nat option" where
  "index_at pb symbol ts = Option.bind (dict_get (pb_index pb) symbol) (\<lambda>ix. dict_get ix ts)"

definition close_at :: "price_book \<Rightarrow> string \<Rightarrow> string \<Rightarrow> pyfloat option" where
  "close_at pb symbol ts = do {
     i \<leftarrow> index_at pb symbol ts;
     bars \<leftarrow> dict_get (pb_bars pb) symbol;
     Some (bar_close (bars ! i))
   }"

definition next_bar :: "price_book \<Rightarrow> string \<Rightarrow> string \<Rightarrow> (string \<times> pyfloat) option" where
  "next_bar pb symbol ts = do {
     i \<leftarrow> index_at pb symbol ts;
     bars \<leftarrow> dict_get (pb_bars pb) symbol;
     if length bars \<le> i + 1 then None
     else Some (bar_timestamp (bars ! (i + 1)), bar_open (bars ! (i + 1)))
   }"

section \<open>Funding\<close>

record funding_event =
  fe_symbol :: string
  fe_dt :: instant
  fe_rate :: pyfloat

type_synonym funding_index = "(string, (string \<times> pyfloat) list) dict"

definition add_funding_event :: "funding_event \<Rightarrow> funding_index \<Rightarrow> funding_index" where
  "add_funding_event e ix = (let old = (case dict_get ix (fe_symbol e) of None \<Rightarrow> [] | Some es \<Rightarrow> es)
     in dict_set (fe_symbol e) (old @ [(strftime_bar (fe_dt e), fe_rate e)]) ix)"

definition build_funding_index :: "funding_event list option \<Rightarrow> funding_index" where
  "build_funding_index df = (case df of None \<Rightarrow> [] | Some rows \<Rightarrow>
     map (\<lambda>(symbol, es). (symbol, sort_key fst es)) (fold add_funding_event rows []))"

function bisect_right :: "'a::linorder list \<Rightarrow> 'a \<Rightarrow> nat \<Rightarrow> nat \<Rightarrow> nat" where
  "bisect_right keys x lo hi = (if lo < hi then
     (let mid = (lo + hi) div 2
      in if x < keys ! mid then bisect_right keys x lo mid else bisect_right keys x (Suc mid) hi)
     else lo)"
  by pat_completeness auto
termination
  by (relation "measure (\<lambda>(keys, x, lo, hi). hi - lo)") auto

declare bisect_right.simps [simp del]

definition funding_in_interval ::
    "funding_index \<Rightarrow> string \<Rightarrow> string \<Rightarrow> string \<Rightarrow> pyfloat \<times> nat \<times> bool" where
  "funding_in_interval index symbol start_exclusive end_inclusive =
     (case dict_get index symbol of None \<Rightarrow> (PFin 0, 0, False) | Some series \<Rightarrow>
        if series = [] then (PFin 0, 0, False)
        else (let keys = map fst series;
                  lo = bisect_right keys start_exclusive 0 (length keys);
                  hi = bisect_right keys end_inclusive 0 (length keys);
                  events = take (hi - lo) (drop lo series)
              in if events = [] then (PFin 0, 0, False)
                 else (fl_sum (map snd events), length events, True)))"

definition interval_start :: "string \<Rightarrow> int \<Rightarrow> string result" where
  "interval_start ts interval_hours =
     rbind (of_option ValueError (strptime_bar (rstrip_char CHR ''Z'' ts))) (\<lambda>dt.
     rbind (add_delta dt (- (interval_hours * us_per_hour))) (\<lambda>start.
     Inr (strftime_bar start)))"

section \<open>Configuration, observations, state and rows\<close>

record engine_config =
  forward_start_ts :: string
  notional_usd :: pyfloat
  initial_equity_usd :: pyfloat
  fee_bps :: pyfloat
  slippage_bps :: pyfloat
  bar_interval_hours :: "int option"
  engine_version :: string
  config_hash :: string

type_synonym obs = "(string, json) dict"

definition obs_timestamp :: "obs \<Rightarrow> string result" where
  "obs_timestamp o1 = rbind (of_option (KeyError ''timestamp'') (dict_get o1 ''timestamp''))
     (\<lambda>v. case v of JStr s \<Rightarrow> Inr s | _ \<Rightarrow> Inl TypeError)"

fun symbol_set :: "json \<Rightarrow> string list result" where
  \<comment> \<open>\<open>set(...)\<close> of the active symbols: a list of strings, the characters of a string, the keys of
    an object. Any other list is refused by the freshness gate before the engine runs.\<close>
  "symbol_set (JList xs) = rmap (\<lambda>x. case x of JStr s \<Rightarrow> Inr s | _ \<Rightarrow> Inl TypeError) xs"
| "symbol_set (JStr s) = Inr (map (\<lambda>n. utf8_encode [n]) (str_points s))"
| "symbol_set (JObj d) = Inr (dict_keys d)"
| "symbol_set _ = Inl TypeError"

definition obs_active :: "obs \<Rightarrow> string list result" where
  "obs_active o1 = symbol_set (case dict_get o1 ''active_symbols'' of None \<Rightarrow> JList [] | Some v \<Rightarrow> v)"

record position =
  entry_fill_id :: string
  entry_price :: pyfloat
  qty :: pyfloat
  entry_bar_ts :: string
  entry_fill_ts :: string
  funding_accrued :: pyfloat
  entry_fee :: pyfloat
  hold_bars :: int

record engine_state =
  watermark_bar_ts :: string
  open_positions :: "(string, position) dict"
  realized_gross :: pyfloat
  fees_cum :: pyfloat
  funding_cum :: pyfloat
  peak_equity :: pyfloat
  bars_elapsed :: int

definition new_state :: "pyfloat \<Rightarrow> engine_state" where
  "new_state initial = \<lparr>watermark_bar_ts = [], open_positions = [], realized_gross = PFin 0,
     fees_cum = PFin 0, funding_cum = PFin 0, peak_equity = initial, bars_elapsed = 0\<rparr>"

record fill_row =
  fr_fill_id :: string
  fr_bar_commit_id :: string
  fr_signal_bar_ts :: string
  fr_fill_ts :: string
  fr_symbol :: string
  fr_side :: string
  fr_kind :: string
  fr_qty :: pyfloat
  fr_open_price :: pyfloat
  fr_fill_price :: pyfloat
  fr_slippage_bps :: pyfloat
  fr_fee :: pyfloat
  fr_backfill :: bool

record funding_row =
  fu_funding_id :: string
  fu_symbol :: string
  fu_bar_ts :: string
  fu_bar_commit_id :: string
  fu_window_start :: string
  fu_window_end :: string
  fu_notional_usd :: pyfloat
  fu_funding_rate :: pyfloat
  fu_funding_events :: nat
  fu_rate_available :: bool
  fu_funding_amount :: pyfloat

record trade_row =
  tr_trade_id :: string
  tr_bar_commit_id :: string
  tr_symbol :: string
  tr_entry_fill_id :: string
  tr_exit_fill_id :: string
  tr_entry_bar_ts :: string
  tr_exit_bar_ts :: string
  tr_qty :: pyfloat
  tr_entry_price :: pyfloat
  tr_exit_price :: pyfloat
  tr_gross_pnl :: pyfloat
  tr_fees :: pyfloat
  tr_funding :: pyfloat
  tr_net_pnl :: pyfloat
  tr_hold_bars :: int
  tr_backfill :: bool

record equity_row =
  eq_bar_ts :: string
  eq_bar_commit_id :: string
  eq_realized_gross_pnl :: pyfloat
  eq_unrealized_pnl :: pyfloat
  eq_funding_cum :: pyfloat
  eq_fees_cum :: pyfloat
  eq_equity :: pyfloat
  eq_drawdown :: pyfloat
  eq_num_open :: nat

record positions_row =
  po_bar_ts :: string
  po_bar_commit_id :: string
  po_open_symbols :: "string list"
  po_num_open :: nat
  po_gross_exposure_usd :: pyfloat

record engine_result =
  er_fills :: "fill_row list"
  er_positions :: "positions_row list"
  er_trades :: "trade_row list"
  er_equity :: "equity_row list"
  er_funding :: "funding_row list"
  er_state :: engine_state
  er_deferred_bar_ts :: "string option"

definition empty_result :: "engine_state \<Rightarrow> engine_result" where
  "empty_result st = \<lparr>er_fills = [], er_positions = [], er_trades = [], er_equity = [], er_funding = [],
     er_state = st, er_deferred_bar_ts = None\<rparr>"

definition bar_commit_id :: "obs \<Rightarrow> string \<Rightarrow> string \<Rightarrow> string \<Rightarrow> string" where
  "bar_commit_id row bar_ts version hash = take 16 (sha256_hex (canonical_json_dumps (JObj
     [(''row'', JObj row), (''bar_ts'', JStr bar_ts), (''engine_version'', JStr version),
      (''config_hash'', JStr hash)])))"


section \<open>One bar\<close>

record rates =
  rt_fee :: pyfloat
  rt_slip :: pyfloat

definition bps_fraction :: "pyfloat \<Rightarrow> pyfloat" where
  "bps_fraction bps = (case fl_div bps (PFin 10000) of Some r \<Rightarrow> r | None \<Rightarrow> PNaN)"

definition config_rates :: "engine_config \<Rightarrow> rates" where
  "config_rates cfg = \<lparr>rt_fee = bps_fraction (fee_bps cfg), rt_slip = bps_fraction (slippage_bps cfg)\<rparr>"

definition interval_hours_of :: "engine_config \<Rightarrow> int" where
  "interval_hours_of cfg = (case bar_interval_hours cfg of None \<Rightarrow> 8 | Some h \<Rightarrow> h)"

fun resolve_next :: "price_book \<Rightarrow> string \<Rightarrow> string list \<Rightarrow> (string, string \<times> pyfloat) dict option" where
  \<comment> \<open>the T+1 open of every acted-on symbol; \<open>None\<close> defers the whole bar\<close>
  "resolve_next pb ts [] = Some []"
| "resolve_next pb ts (symbol # syms) = (case next_bar pb symbol ts of None \<Rightarrow> None
     | Some nb \<Rightarrow> map_option (\<lambda>nxt. (symbol, nb) # nxt) (resolve_next pb ts syms))"

definition accrue :: "string \<Rightarrow> position \<Rightarrow> pyfloat \<Rightarrow> engine_state \<Rightarrow> engine_state" where
  \<comment> \<open>charge a funding amount to the position and to the cumulative accumulator\<close>
  "accrue symbol pos amount st = st\<lparr>
     open_positions := dict_set symbol (pos\<lparr>funding_accrued := fl_add (funding_accrued pos) amount\<rparr>)
       (open_positions st),
     funding_cum := fl_add (funding_cum st) amount\<rparr>"

definition make_funding_row ::
    "string \<Rightarrow> string \<Rightarrow> string \<Rightarrow> string \<Rightarrow> string \<Rightarrow> string \<Rightarrow> pyfloat
       \<Rightarrow> pyfloat \<times> nat \<times> bool \<Rightarrow> pyfloat \<Rightarrow> funding_row" where
  "make_funding_row fid symbol ts commit_id start end_ts notional accr amount = (case accr of (rate, n, available) \<Rightarrow>
     \<lparr>fu_funding_id = fid, fu_symbol = symbol, fu_bar_ts = ts, fu_bar_commit_id = commit_id,
      fu_window_start = start, fu_window_end = end_ts, fu_notional_usd = fl_round 8 notional,
      fu_funding_rate = fl_round 12 rate, fu_funding_events = n, fu_rate_available = available,
      fu_funding_amount = fl_round 8 amount\<rparr>)"

definition hold_funding_step ::
    "price_book \<Rightarrow> funding_index \<Rightarrow> string \<Rightarrow> string \<Rightarrow> string \<Rightarrow> string \<Rightarrow> engine_result \<Rightarrow> engine_result result" where
  "hold_funding_step pb fidx ts commit_id window_start symbol r =
     rbind (lookup (open_positions (er_state r)) symbol) (\<lambda>pos0.
     let pos = pos0\<lparr>hold_bars := hold_bars pos0 + 1\<rparr>;
         st = (er_state r)\<lparr>open_positions := dict_set symbol pos (open_positions (er_state r))\<rparr>;
         mark = (case close_at pb symbol ts of Some c \<Rightarrow> c | None \<Rightarrow> entry_price pos);
         notional_at = fl_mul (qty pos) mark;
         eff_start = max window_start (entry_fill_ts pos)
     in if ts \<le> eff_start then Inr (r\<lparr>er_state := st\<rparr>)
        else (let accr = funding_in_interval fidx symbol eff_start ts;
                  amount = (if snd (snd accr) then fl_mul notional_at (fst accr) else PFin 0)
              in Inr (r\<lparr>er_state := accrue symbol pos amount st,
                   er_funding := er_funding r @ [make_funding_row (symbol @ ''|'' @ ts) symbol ts commit_id
                     eff_start ts notional_at accr amount]\<rparr>)))"

definition exit_funding_step ::
    "price_book \<Rightarrow> funding_index \<Rightarrow> string \<Rightarrow> string \<Rightarrow> (string, string \<times> pyfloat) dict \<Rightarrow> string
       \<Rightarrow> engine_result \<Rightarrow> engine_result result" where
  "exit_funding_step pb fidx ts commit_id nxt symbol r =
     rbind (lookup (open_positions (er_state r)) symbol) (\<lambda>pos.
     rbind (lookup nxt symbol) (\<lambda>(next_ts, _).
     let stub_mark = (case close_at pb symbol next_ts of Some c \<Rightarrow> c | None \<Rightarrow> entry_price pos);
         stub_notional = fl_mul (qty pos) stub_mark;
         accr = funding_in_interval fidx symbol ts next_ts;
         amount = (if snd (snd accr) then fl_mul stub_notional (fst accr) else PFin 0)
     in Inr (r\<lparr>er_state := accrue symbol pos amount (er_state r),
          er_funding := er_funding r @ [make_funding_row (symbol @ ''|'' @ ts @ ''|exit'') symbol ts commit_id
            ts next_ts stub_notional accr amount]\<rparr>)))"

definition mark_step :: "price_book \<Rightarrow> string \<Rightarrow> string \<times> position \<Rightarrow> pyfloat \<times> pyfloat \<Rightarrow> pyfloat \<times> pyfloat" where
  "mark_step pb ts sp acc = (case sp of (symbol, pos) \<Rightarrow> case acc of (unreal, exposure) \<Rightarrow>
     (case close_at pb symbol ts of None \<Rightarrow> acc
      | Some c \<Rightarrow> (fl_add unreal (fl_mul (fl_sub c (entry_price pos)) (qty pos)),
                  fl_add exposure (fl_mul (qty pos) c))))"

definition mark_book :: "price_book \<Rightarrow> string \<Rightarrow> (string, position) dict \<Rightarrow> pyfloat \<times> pyfloat" where
  "mark_book pb ts positions = fold (mark_step pb ts) positions (PFin 0, PFin 0)"

definition equity_of :: "pyfloat \<Rightarrow> engine_state \<Rightarrow> pyfloat \<Rightarrow> pyfloat" where
  "equity_of initial st unreal =
     fl_add (fl_sub (fl_sub (fl_add initial (realized_gross st)) (fees_cum st)) (funding_cum st)) unreal"

definition drawdown_of :: "pyfloat \<Rightarrow> pyfloat \<Rightarrow> pyfloat" where
  "drawdown_of peak equity = (if fl_lt (PFin 0) peak
     then (case fl_div (fl_sub peak equity) peak of Some d \<Rightarrow> d | None \<Rightarrow> PNaN) else PFin 0)"

definition snapshot_bar ::
    "engine_config \<Rightarrow> price_book \<Rightarrow> string \<Rightarrow> string \<Rightarrow> engine_result \<Rightarrow> engine_result" where
  \<comment> \<open>equity and positions rows of the pre-fill book\<close>
  "snapshot_bar cfg pb ts commit_id r = (let st = er_state r;
     (unreal, exposure) = mark_book pb ts (open_positions st);
     equity = equity_of (initial_equity_usd cfg) st unreal;
     peak = fl_max (peak_equity st) equity;
     n = length (open_positions st)
     in r\<lparr>er_equity := er_equity r @ [\<lparr>eq_bar_ts = ts, eq_bar_commit_id = commit_id,
            eq_realized_gross_pnl = fl_round 8 (realized_gross st), eq_unrealized_pnl = fl_round 8 unreal,
            eq_funding_cum = fl_round 8 (funding_cum st), eq_fees_cum = fl_round 8 (fees_cum st),
            eq_equity = fl_round 8 equity, eq_drawdown = fl_round 8 (drawdown_of peak equity),
            eq_num_open = n\<rparr>],
          er_positions := er_positions r @ [\<lparr>po_bar_ts = ts, po_bar_commit_id = commit_id,
            po_open_symbols = sorted_set (dict_keys (open_positions st)), po_num_open = n,
            po_gross_exposure_usd = fl_round 8 exposure\<rparr>],
          er_state := st\<lparr>peak_equity := peak, bars_elapsed := bars_elapsed st + 1\<rparr>\<rparr>)"

definition make_fill_row ::
    "engine_config \<Rightarrow> string \<Rightarrow> string \<Rightarrow> string \<Rightarrow> string \<Rightarrow> string \<Rightarrow> string \<Rightarrow> pyfloat \<Rightarrow> pyfloat
       \<Rightarrow> pyfloat \<Rightarrow> pyfloat \<Rightarrow> fill_row" where
  "make_fill_row cfg commit_id ts next_ts symbol side kind q open_price fill_price fee =
     \<lparr>fr_fill_id = fill_id symbol ts side kind, fr_bar_commit_id = commit_id, fr_signal_bar_ts = ts,
      fr_fill_ts = next_ts, fr_symbol = symbol, fr_side = side, fr_kind = kind, fr_qty = fl_round 10 q,
      fr_open_price = fl_round 8 open_price, fr_fill_price = fl_round 8 fill_price,
      fr_slippage_bps = slippage_bps cfg, fr_fee = fl_round 8 fee, fr_backfill = False\<rparr>"

definition exit_fill_step ::
    "engine_config \<Rightarrow> string \<Rightarrow> string \<Rightarrow> (string, string \<times> pyfloat) dict \<Rightarrow> string
       \<Rightarrow> engine_result \<Rightarrow> engine_result result" where
  "exit_fill_step cfg ts commit_id nxt symbol r = (let st = er_state r; rt = config_rates cfg in
     rbind (lookup nxt symbol) (\<lambda>(next_ts, open_price).
     rbind (lookup (open_positions st) symbol) (\<lambda>pos.
     let fill_price = fl_mul open_price (fl_sub (PFin 1) (rt_slip rt));
         q = qty pos;
         fee = fl_mul (fl_mul fill_price q) (rt_fee rt);
         fid = fill_id symbol ts ''SELL'' ''exit'';
         gross = fl_mul (fl_sub fill_price (entry_price pos)) q;
         fees = fl_add (entry_fee pos) fee;
         funding = funding_accrued pos
     in Inr (r\<lparr>er_state := st\<lparr>open_positions := dict_pop symbol (open_positions st),
            fees_cum := fl_add (fees_cum st) fee, realized_gross := fl_add (realized_gross st) gross\<rparr>,
          er_fills := er_fills r @ [make_fill_row cfg commit_id ts next_ts symbol ''SELL'' ''exit''
            q open_price fill_price fee],
          er_trades := er_trades r @ [\<lparr>tr_trade_id = fid, tr_bar_commit_id = commit_id, tr_symbol = symbol,
            tr_entry_fill_id = entry_fill_id pos, tr_exit_fill_id = fid,
            tr_entry_bar_ts = entry_bar_ts pos, tr_exit_bar_ts = ts, tr_qty = fl_round 10 q,
            tr_entry_price = fl_round 8 (entry_price pos), tr_exit_price = fl_round 8 fill_price,
            tr_gross_pnl = round8 gross, tr_fees = round8 fees, tr_funding = round8 funding,
            tr_net_pnl = canonical_net_pnl gross fees funding, tr_hold_bars = hold_bars pos,
            tr_backfill = False\<rparr>]\<rparr>))))"

definition entry_fill_step ::
    "engine_config \<Rightarrow> string \<Rightarrow> string \<Rightarrow> (string, string \<times> pyfloat) dict \<Rightarrow> string
       \<Rightarrow> engine_result \<Rightarrow> engine_result result" where
  "entry_fill_step cfg ts commit_id nxt symbol r = (let st = er_state r; rt = config_rates cfg in
     rbind (lookup nxt symbol) (\<lambda>(next_ts, open_price).
     let fill_price = fl_mul open_price (fl_add (PFin 1) (rt_slip rt)) in
     rbind (of_option ZeroDivisionError (fl_div (notional_usd cfg) fill_price)) (\<lambda>q.
     let fee = fl_mul (fl_mul fill_price q) (rt_fee rt);
         pos = \<lparr>entry_fill_id = fill_id symbol ts ''BUY'' ''entry'', entry_price = fill_price, qty = q,
           entry_bar_ts = ts, entry_fill_ts = next_ts, funding_accrued = PFin 0, entry_fee = fee,
           hold_bars = 0\<rparr>
     in Inr (r\<lparr>er_state := st\<lparr>open_positions := dict_set symbol pos (open_positions st),
            fees_cum := fl_add (fees_cum st) fee\<rparr>,
          er_fills := er_fills r @ [make_fill_row cfg commit_id ts next_ts symbol ''BUY'' ''entry''
            q open_price fill_price fee]\<rparr>))))"

definition entries_of :: "string list \<Rightarrow> engine_state \<Rightarrow> string list" where
  "entries_of desired st = sorted_set (set_minus desired (dict_keys (open_positions st)))"

definition exits_of :: "string list \<Rightarrow> engine_state \<Rightarrow> string list" where
  "exits_of desired st = sorted_set (set_minus (dict_keys (open_positions st)) desired)"

definition process_bar ::
    "engine_config \<Rightarrow> price_book \<Rightarrow> funding_index \<Rightarrow> obs \<Rightarrow> string \<Rightarrow> engine_result
       \<Rightarrow> engine_result option result" where
  \<comment> \<open>the body of the loop over the forward bars; \<open>None\<close> is the deferral\<close>
  "process_bar cfg pb fidx row ts r = (let commit_id = bar_commit_id row ts (engine_version cfg) (config_hash cfg) in
     rbind (obs_active row) (\<lambda>desired.
     let entries = entries_of desired (er_state r); exits = exits_of desired (er_state r) in
     case resolve_next pb ts (entries @ exits) of None \<Rightarrow> Inr None
     | Some nxt \<Rightarrow>
         rbind (interval_start ts (interval_hours_of cfg)) (\<lambda>window_start.
         rbind (rfold (hold_funding_step pb fidx ts commit_id window_start)
             (sorted_set (dict_keys (open_positions (er_state r)))) r) (\<lambda>r1.
         rbind (rfold (exit_funding_step pb fidx ts commit_id nxt) exits r1) (\<lambda>r2.
         rbind (rfold (exit_fill_step cfg ts commit_id nxt) exits (snapshot_bar cfg pb ts commit_id r2)) (\<lambda>r3.
         rbind (rfold (entry_fill_step cfg ts commit_id nxt) entries r3) (\<lambda>r4.
         Inr (Some (r4\<lparr>er_state := (er_state r4)\<lparr>watermark_bar_ts := ts\<rparr>\<rparr>)))))))))"

section \<open>The run\<close>

fun engine_loop ::
    "engine_config \<Rightarrow> price_book \<Rightarrow> funding_index \<Rightarrow> obs list \<Rightarrow> engine_result \<Rightarrow> engine_result result" where
  "engine_loop cfg pb fidx [] r = Inr r"
| "engine_loop cfg pb fidx (row # rows) r = rbind (obs_timestamp row) (\<lambda>ts.
     if ts \<le> watermark_bar_ts (er_state r) then engine_loop cfg pb fidx rows r
     else rbind (process_bar cfg pb fidx row ts r) (\<lambda>out.
       case out of None \<Rightarrow> Inr (r\<lparr>er_deferred_bar_ts := Some ts\<rparr>)
       | Some r' \<Rightarrow> engine_loop cfg pb fidx rows r'))"

definition timed_rows :: "(string \<Rightarrow> instant result) \<Rightarrow> obs list \<Rightarrow> (instant \<times> obs) list result" where
  "timed_rows parse rows = rmap (\<lambda>row. rbind (obs_timestamp row) (\<lambda>ts.
     rbind (parse ts) (\<lambda>t. Inr (t, row)))) rows"

definition forward_rows :: "instant \<Rightarrow> (instant \<times> obs) list \<Rightarrow> obs list" where
  "forward_rows start timed = map snd (sort_key fst (filter (\<lambda>x. start \<le> fst x) timed))"

definition run_engine ::
    "engine_config \<Rightarrow> obs list \<Rightarrow> bar_series \<Rightarrow> funding_event list option \<Rightarrow> engine_state \<Rightarrow> engine_result result" where
  "run_engine cfg per_bar_obs series funding_df st =
     rbind (parse_bar_utc (forward_start_ts cfg)) (\<lambda>start.
     rbind (timed_rows parse_bar_utc per_bar_obs) (\<lambda>timed.
     engine_loop cfg (make_price_book series) (build_funding_index funding_df)
       (forward_rows start timed) (empty_result st)))"

end
