(* ===== verification/ReplayEngine.thy ===== *)
theory ReplayEngine
  imports PaperEngine
begin

text \<open>
  \<open>quantbot/lab/replay_engine.py\<close>: the independent re-derivation of the paper ledger, translated
  from its own source. It shares the bar, funding-event, configuration and observation types with
  the engine, and nothing of the engine's code: its own timestamp parser, bar book, funding index
  and loops, and rows without identifiers.
\<close>

section \<open>Timestamps, bar book, funding\<close>

definition parse_instant :: "string \<Rightarrow> instant result" where
  "parse_instant ts = rbind (of_option ValueError (fromisoformat
      (concat (map (\<lambda>c. if c = CHR ''Z'' then ''+00:00'' else [c]) ts)))) to_utc"

definition replay_interval_start :: "string \<Rightarrow> int \<Rightarrow> string result" where
  "replay_interval_start ts interval_hours = rbind (parse_instant ts) (\<lambda>t.
     rbind (add_delta t (- (interval_hours * us_per_hour))) (\<lambda>dt. Inr (strftime_bar dt)))"

record bar_book =
  bb_bars :: bar_series
  bb_idx :: "(string, (string, nat) dict) dict"

definition bar_positions :: "bar list \<Rightarrow> (string, nat) dict" where
  "bar_positions bars = fold (\<lambda>(i, b) ix. dict_set (bar_timestamp b) i ix) (enumerate 0 bars) []"

definition make_bar_book :: "bar_series \<Rightarrow> bar_book" where
  "make_bar_book series = \<lparr>bb_bars = series,
     bb_idx = fold (\<lambda>(symbol, bars) d. dict_set symbol (bar_positions bars) d) series []\<rparr>"

definition book_close_at :: "bar_book \<Rightarrow> string \<Rightarrow> string \<Rightarrow> pyfloat option" where
  "book_close_at book symbol ts =
     (case Option.bind (dict_get (bb_idx book) symbol) (\<lambda>ix. dict_get ix ts) of None \<Rightarrow> None
      | Some i \<Rightarrow> map_option (\<lambda>bars. bar_close (bars ! i)) (dict_get (bb_bars book) symbol))"

definition book_next_open :: "bar_book \<Rightarrow> string \<Rightarrow> string \<Rightarrow> (string \<times> pyfloat) option" where
  "book_next_open book symbol ts =
     (case Option.bind (dict_get (bb_idx book) symbol) (\<lambda>ix. dict_get ix ts) of None \<Rightarrow> None
      | Some i \<Rightarrow> Option.bind (dict_get (bb_bars book) symbol) (\<lambda>bars.
          if length bars \<le> i + 1 then None
          else (let nb = bars ! (i + 1) in Some (bar_timestamp nb, bar_open nb))))"

definition replay_funding_index :: "funding_event list option \<Rightarrow> funding_index" where
  \<comment> \<open>\<open>groupby("symbol")\<close> visits the groups in sorted order and keeps the row order in each\<close>
  "replay_funding_index df = (case df of None \<Rightarrow> [] | Some rows \<Rightarrow>
     map (\<lambda>s. (s, sort_key fst (map (\<lambda>e. (strftime_bar (fe_dt e), fe_rate e))
       (filter (\<lambda>e. fe_symbol e = s) rows)))) (sorted_set (map fe_symbol rows)))"

definition replay_funding_in_interval ::
    "funding_index \<Rightarrow> string \<Rightarrow> string \<Rightarrow> string \<Rightarrow> pyfloat \<times> nat \<times> bool" where
  "replay_funding_in_interval index symbol start_exclusive end_inclusive =
     (case dict_get index symbol of None \<Rightarrow> (PFin 0, 0, False) | Some series \<Rightarrow>
        if series = [] then (PFin 0, 0, False)
        else (let keys = map fst series;
                  lo = bisect_right keys start_exclusive 0 (length keys);
                  hi = bisect_right keys end_inclusive 0 (length keys);
                  events = take (hi - lo) (drop lo series)
              in if events = [] then (PFin 0, 0, False)
                 else (fl_sum (map snd events), length events, True)))"

section \<open>State and rows\<close>

record rposition =
  rp_entry_price :: pyfloat
  rp_qty :: pyfloat
  rp_entry_bar_ts :: string
  rp_entry_fill_ts :: string
  rp_funding_accrued :: pyfloat
  rp_entry_fee :: pyfloat
  rp_hold_bars :: int

record rfill_row =
  rf_signal_bar_ts :: string
  rf_fill_ts :: string
  rf_symbol :: string
  rf_side :: string
  rf_kind :: string
  rf_qty :: pyfloat
  rf_open_price :: pyfloat
  rf_fill_price :: pyfloat
  rf_fee :: pyfloat

record rfunding_row =
  rg_funding_id :: string
  rg_symbol :: string
  rg_bar_ts :: string
  rg_window_start :: string
  rg_window_end :: string
  rg_notional_usd :: pyfloat
  rg_funding_rate :: pyfloat
  rg_funding_events :: nat
  rg_rate_available :: bool
  rg_funding_amount :: pyfloat

record rtrade_row =
  rt_symbol :: string
  rt_entry_bar_ts :: string
  rt_exit_bar_ts :: string
  rt_qty :: pyfloat
  rt_entry_price :: pyfloat
  rt_exit_price :: pyfloat
  rt_gross_pnl :: pyfloat
  rt_fees :: pyfloat
  rt_funding :: pyfloat
  rt_net_pnl :: pyfloat
  rt_hold_bars :: int

record requity_row =
  re_bar_ts :: string
  re_realized_gross_pnl :: pyfloat
  re_unrealized_pnl :: pyfloat
  re_funding_cum :: pyfloat
  re_fees_cum :: pyfloat
  re_equity :: pyfloat
  re_num_open :: nat

record rpositions_row =
  rq_bar_ts :: string
  rq_open_symbols :: "string list"
  rq_num_open :: nat
  rq_gross_exposure_usd :: pyfloat

record replay_result =
  rr_fills :: "rfill_row list"
  rr_positions :: "rpositions_row list"
  rr_trades :: "rtrade_row list"
  rr_equity :: "requity_row list"
  rr_funding :: "rfunding_row list"
  rr_deferred_bar_ts :: "string option"

record replay_vars =
  \<comment> \<open>the local variables of \<open>run_replay\<close>\<close>
  rv_open_positions :: "(string, rposition) dict"
  rv_realized_gross :: pyfloat
  rv_fees_cum :: pyfloat
  rv_funding_cum :: pyfloat
  rv_watermark :: string
  rv_result :: replay_result

definition replay_start :: "string \<Rightarrow> replay_vars" where
  "replay_start watermark = \<lparr>rv_open_positions = [], rv_realized_gross = PFin 0, rv_fees_cum = PFin 0,
     rv_funding_cum = PFin 0, rv_watermark = watermark,
     rv_result = \<lparr>rr_fills = [], rr_positions = [], rr_trades = [], rr_equity = [], rr_funding = [],
       rr_deferred_bar_ts = None\<rparr>\<rparr>"

definition replay_active :: "obs \<Rightarrow> string list result" where
  \<comment> \<open>\<open>set(obs.get("active_symbols", []) or [])\<close>: every falsy value is the empty list\<close>
  "replay_active row = (case dict_get row ''active_symbols'' of None \<Rightarrow> Inr []
     | Some v \<Rightarrow> if v = JNull \<or> v = JBool False \<or> v = JInt 0 \<or> v = JFloat (PFin 0) then Inr []
                 else symbol_set v)"

section \<open>One bar\<close>

fun replay_resolve_next :: "bar_book \<Rightarrow> string \<Rightarrow> string list \<Rightarrow> (string, string \<times> pyfloat) dict option" where
  "replay_resolve_next book ts [] = Some []"
| "replay_resolve_next book ts (symbol # syms) = (case book_next_open book symbol ts of None \<Rightarrow> None
     | Some nb \<Rightarrow> map_option (\<lambda>nxt. (symbol, nb) # nxt) (replay_resolve_next book ts syms))"

definition replay_accrue ::
    "string \<Rightarrow> rposition \<Rightarrow> pyfloat \<Rightarrow> rfunding_row \<Rightarrow> replay_vars \<Rightarrow> replay_vars" where
  "replay_accrue symbol pos amount row v = v\<lparr>
     rv_open_positions := dict_set symbol
       (pos\<lparr>rp_funding_accrued := fl_add (rp_funding_accrued pos) amount\<rparr>) (rv_open_positions v),
     rv_funding_cum := fl_add (rv_funding_cum v) amount,
     rv_result := (rv_result v)\<lparr>rr_funding := rr_funding (rv_result v) @ [row]\<rparr>\<rparr>"

definition replay_hold_step ::
    "bar_book \<Rightarrow> funding_index \<Rightarrow> string \<Rightarrow> string \<Rightarrow> string \<Rightarrow> replay_vars \<Rightarrow> replay_vars result" where
  "replay_hold_step book fidx ts window_start symbol v =
     rbind (lookup (rv_open_positions v) symbol) (\<lambda>pos0.
     let pos = pos0\<lparr>rp_hold_bars := rp_hold_bars pos0 + 1\<rparr>;
         v1 = v\<lparr>rv_open_positions := dict_set symbol pos (rv_open_positions v)\<rparr>;
         mark = (case book_close_at book symbol ts of Some c \<Rightarrow> c | None \<Rightarrow> rp_entry_price pos);
         notional_at = fl_mul (rp_qty pos) mark;
         eff_start = max window_start (rp_entry_fill_ts pos)
     in if ts \<le> eff_start then Inr v1
        else (case replay_funding_in_interval fidx symbol eff_start ts of (rate, n, avail) \<Rightarrow>
          let amount = (if avail then fl_mul notional_at rate else PFin 0)
          in Inr (replay_accrue symbol pos amount
            \<lparr>rg_funding_id = symbol @ ''|'' @ ts, rg_symbol = symbol, rg_bar_ts = ts,
             rg_window_start = eff_start, rg_window_end = ts,
             rg_notional_usd = fl_round 8 notional_at, rg_funding_rate = fl_round 12 rate,
             rg_funding_events = n, rg_rate_available = avail,
             rg_funding_amount = fl_round 8 amount\<rparr> v1)))"

definition replay_exit_funding_step ::
    "bar_book \<Rightarrow> funding_index \<Rightarrow> string \<Rightarrow> (string, string \<times> pyfloat) dict \<Rightarrow> string
       \<Rightarrow> replay_vars \<Rightarrow> replay_vars result" where
  "replay_exit_funding_step book fidx ts nxt symbol v =
     rbind (lookup (rv_open_positions v) symbol) (\<lambda>pos.
     rbind (lookup nxt symbol) (\<lambda>(next_ts, _).
     let stub_mark = (case book_close_at book symbol next_ts of Some c \<Rightarrow> c | None \<Rightarrow> rp_entry_price pos);
         stub_notional = fl_mul (rp_qty pos) stub_mark
     in (case replay_funding_in_interval fidx symbol ts next_ts of (s_rate, s_n, s_avail) \<Rightarrow>
          let s_amount = (if s_avail then fl_mul stub_notional s_rate else PFin 0)
          in Inr (replay_accrue symbol pos s_amount
            \<lparr>rg_funding_id = symbol @ ''|'' @ ts @ ''|exit'', rg_symbol = symbol, rg_bar_ts = ts,
             rg_window_start = ts, rg_window_end = next_ts,
             rg_notional_usd = fl_round 8 stub_notional, rg_funding_rate = fl_round 12 s_rate,
             rg_funding_events = s_n, rg_rate_available = s_avail,
             rg_funding_amount = fl_round 8 s_amount\<rparr> v))))"

definition replay_mark_step :: "bar_book \<Rightarrow> string \<Rightarrow> string \<times> rposition \<Rightarrow> pyfloat \<times> pyfloat \<Rightarrow> pyfloat \<times> pyfloat" where
  "replay_mark_step book ts sp acc = (case sp of (symbol, pos) \<Rightarrow> case acc of (unreal, exposure) \<Rightarrow>
     (case book_close_at book symbol ts of None \<Rightarrow> acc
      | Some c \<Rightarrow> (fl_add unreal (fl_mul (fl_sub c (rp_entry_price pos)) (rp_qty pos)),
                  fl_add exposure (fl_mul (rp_qty pos) c))))"

definition replay_snapshot :: "pyfloat \<Rightarrow> bar_book \<Rightarrow> string \<Rightarrow> replay_vars \<Rightarrow> replay_vars" where
  "replay_snapshot initial book ts v = (let
     (unreal, exposure) = fold (replay_mark_step book ts) (rv_open_positions v) (PFin 0, PFin 0);
     equity = fl_add (fl_sub (fl_sub (fl_add initial (rv_realized_gross v)) (rv_fees_cum v)) (rv_funding_cum v)) unreal;
     n = length (rv_open_positions v)
     in v\<lparr>rv_result := (rv_result v)\<lparr>
          rr_equity := rr_equity (rv_result v) @ [\<lparr>re_bar_ts = ts,
            re_realized_gross_pnl = fl_round 8 (rv_realized_gross v), re_unrealized_pnl = fl_round 8 unreal,
            re_funding_cum = fl_round 8 (rv_funding_cum v), re_fees_cum = fl_round 8 (rv_fees_cum v),
            re_equity = fl_round 8 equity, re_num_open = n\<rparr>],
          rr_positions := rr_positions (rv_result v) @ [\<lparr>rq_bar_ts = ts,
            rq_open_symbols = sorted_set (dict_keys (rv_open_positions v)), rq_num_open = n,
            rq_gross_exposure_usd = fl_round 8 exposure\<rparr>]\<rparr>\<rparr>)"

definition replay_exit_step ::
    "rates \<Rightarrow> string \<Rightarrow> (string, string \<times> pyfloat) dict \<Rightarrow> string \<Rightarrow> replay_vars \<Rightarrow> replay_vars result" where
  "replay_exit_step rt ts nxt symbol v =
     rbind (lookup nxt symbol) (\<lambda>(next_ts, open_price).
     rbind (lookup (rv_open_positions v) symbol) (\<lambda>pos.
     let fill_price = fl_mul open_price (fl_sub (PFin 1) (rt_slip rt));
         q = rp_qty pos;
         fee = fl_mul (fl_mul fill_price q) (rt_fee rt);
         gross = fl_mul (fl_sub fill_price (rp_entry_price pos)) q;
         res = rv_result v
     in Inr (v\<lparr>rv_open_positions := dict_pop symbol (rv_open_positions v),
          rv_fees_cum := fl_add (rv_fees_cum v) fee,
          rv_realized_gross := fl_add (rv_realized_gross v) gross,
          rv_result := res\<lparr>
            rr_fills := rr_fills res @ [\<lparr>rf_signal_bar_ts = ts, rf_fill_ts = next_ts, rf_symbol = symbol,
              rf_side = ''SELL'', rf_kind = ''exit'', rf_qty = fl_round 10 q,
              rf_open_price = fl_round 8 open_price, rf_fill_price = fl_round 8 fill_price,
              rf_fee = fl_round 8 fee\<rparr>],
            rr_trades := rr_trades res @ [\<lparr>rt_symbol = symbol, rt_entry_bar_ts = rp_entry_bar_ts pos,
              rt_exit_bar_ts = ts, rt_qty = fl_round 10 q, rt_entry_price = fl_round 8 (rp_entry_price pos),
              rt_exit_price = fl_round 8 fill_price, rt_gross_pnl = fl_round 8 gross,
              rt_fees = fl_round 8 (fl_add (rp_entry_fee pos) fee),
              rt_funding = fl_round 8 (rp_funding_accrued pos),
              rt_net_pnl = fl_round 8 (fl_sub (fl_sub gross (fl_add (rp_entry_fee pos) fee)) (rp_funding_accrued pos)),
              rt_hold_bars = rp_hold_bars pos\<rparr>]\<rparr>\<rparr>)))"

definition replay_entry_step ::
    "engine_config \<Rightarrow> rates \<Rightarrow> string \<Rightarrow> (string, string \<times> pyfloat) dict \<Rightarrow> string
       \<Rightarrow> replay_vars \<Rightarrow> replay_vars result" where
  "replay_entry_step cfg rt ts nxt symbol v =
     rbind (lookup nxt symbol) (\<lambda>(next_ts, open_price).
     let fill_price = fl_mul open_price (fl_add (PFin 1) (rt_slip rt)) in
     rbind (of_option ZeroDivisionError (fl_div (notional_usd cfg) fill_price)) (\<lambda>q.
     let fee = fl_mul (fl_mul fill_price q) (rt_fee rt); res = rv_result v
     in Inr (v\<lparr>rv_open_positions := dict_set symbol \<lparr>rp_entry_price = fill_price, rp_qty = q,
            rp_entry_bar_ts = ts, rp_entry_fill_ts = next_ts, rp_funding_accrued = PFin 0,
            rp_entry_fee = fee, rp_hold_bars = 0\<rparr> (rv_open_positions v),
          rv_fees_cum := fl_add (rv_fees_cum v) fee,
          rv_result := res\<lparr>rr_fills := rr_fills res @ [\<lparr>rf_signal_bar_ts = ts, rf_fill_ts = next_ts,
            rf_symbol = symbol, rf_side = ''BUY'', rf_kind = ''entry'', rf_qty = fl_round 10 q,
            rf_open_price = fl_round 8 open_price, rf_fill_price = fl_round 8 fill_price,
            rf_fee = fl_round 8 fee\<rparr>]\<rparr>\<rparr>)))"

definition replay_bar ::
    "engine_config \<Rightarrow> pyfloat \<Rightarrow> bar_book \<Rightarrow> funding_index \<Rightarrow> obs \<Rightarrow> string \<Rightarrow> replay_vars
       \<Rightarrow> replay_vars option result" where
  "replay_bar cfg initial book fidx row ts v =
     rbind (replay_active row) (\<lambda>desired.
     let current = dict_keys (rv_open_positions v);
         entries = sorted_set (set_minus desired current);
         exits = sorted_set (set_minus current desired);
         rt = config_rates cfg in
     case replay_resolve_next book ts (entries @ exits) of None \<Rightarrow> Inr None
     | Some nxt \<Rightarrow>
         rbind (replay_interval_start ts (interval_hours_of cfg)) (\<lambda>window_start.
         rbind (rfold (replay_hold_step book fidx ts window_start)
             (sorted_set (dict_keys (rv_open_positions v))) v) (\<lambda>v1.
         rbind (rfold (replay_exit_funding_step book fidx ts nxt) exits v1) (\<lambda>v2.
         rbind (rfold (replay_exit_step rt ts nxt) exits (replay_snapshot initial book ts v2)) (\<lambda>v3.
         rbind (rfold (replay_entry_step cfg rt ts nxt) entries v3) (\<lambda>v4.
         Inr (Some (v4\<lparr>rv_watermark := ts\<rparr>))))))))"

section \<open>The run\<close>

fun replay_loop ::
    "engine_config \<Rightarrow> pyfloat \<Rightarrow> bar_book \<Rightarrow> funding_index \<Rightarrow> obs list \<Rightarrow> replay_vars \<Rightarrow> replay_vars result" where
  "replay_loop cfg initial book fidx [] v = Inr v"
| "replay_loop cfg initial book fidx (row # rows) v = rbind (obs_timestamp row) (\<lambda>ts.
     if ts \<le> rv_watermark v then replay_loop cfg initial book fidx rows v
     else rbind (replay_bar cfg initial book fidx row ts v) (\<lambda>out.
       case out of
         None \<Rightarrow> Inr (v\<lparr>rv_result := (rv_result v)\<lparr>rr_deferred_bar_ts := Some ts\<rparr>\<rparr>)
       | Some v' \<Rightarrow> replay_loop cfg initial book fidx rows v'))"

definition run_replay ::
    "engine_config \<Rightarrow> obs list \<Rightarrow> bar_series \<Rightarrow> funding_event list option \<Rightarrow> pyfloat option \<Rightarrow> string
       \<Rightarrow> replay_result result" where
  "run_replay cfg per_bar_obs series funding_df initial_override watermark =
     (let initial = (case initial_override of Some x \<Rightarrow> x | None \<Rightarrow> initial_equity_usd cfg) in
     rbind (parse_instant (forward_start_ts cfg)) (\<lambda>start.
     rbind (timed_rows parse_instant per_bar_obs) (\<lambda>timed.
     rbind (replay_loop cfg initial (make_bar_book series) (replay_funding_index funding_df)
       (forward_rows start timed) (replay_start watermark)) (\<lambda>v. Inr (rv_result v)))))"

end
