(* ===== verification/EngineReplay.thy ===== *)
theory EngineReplay
  imports ReplayEngine
begin

text \<open>
  The engine and the independent replay compute the same ledger: a simulation, loop by loop.
\<close>

section \<open>Two loops in lockstep\<close>

locale lockstep =
  fixes rel :: "'s \<Rightarrow> 't \<Rightarrow> bool"
    and step1 :: "'a \<Rightarrow> 's \<Rightarrow> 's result"
    and step2 :: "'a \<Rightarrow> 't \<Rightarrow> 't result"
  assumes step: "rel s t \<Longrightarrow> rel_sum (=) rel (step1 x s) (step2 x t)"
begin

lemma fold: "rel s t \<Longrightarrow> rel_sum (=) rel (rfold step1 xs s) (rfold step2 xs t)"
proof (induction xs arbitrary: s t)
  case (Cons x xs)
  from step[OF Cons.prems, of x] show ?case
    by (cases rule: rel_sum.cases) (auto intro: Cons.IH)
qed simp

end

lemma rel_sum_rbind:
  assumes "rel_sum (=) R m n" and "\<And>x y. R x y \<Longrightarrow> rel_sum (=) S (f x) (g y)"
  shows "rel_sum (=) S (rbind m f) (rbind n g)"
  using assms(1) by (cases rule: rel_sum.cases) (auto intro: assms(2))

lemma rel_sum_rbind_eq:
  assumes "m = n" and "\<And>x. rel_sum (=) S (f x) (g x)"
  shows "rel_sum (=) S (rbind m f) (rbind n g)"
  using assms by (cases n) auto

section \<open>What the replay keeps of the engine's rows\<close>

definition strip_pos :: "position \<Rightarrow> rposition" where
  "strip_pos p = \<lparr>rp_entry_price = entry_price p, rp_qty = qty p, rp_entry_bar_ts = entry_bar_ts p,
     rp_entry_fill_ts = entry_fill_ts p, rp_funding_accrued = funding_accrued p,
     rp_entry_fee = entry_fee p, rp_hold_bars = hold_bars p\<rparr>"

definition strip_book :: "(string, position) dict \<Rightarrow> (string, rposition) dict" where
  "strip_book d = map (\<lambda>(k, p). (k, strip_pos p)) d"

definition strip_fill :: "fill_row \<Rightarrow> rfill_row" where
  "strip_fill f = \<lparr>rf_signal_bar_ts = fr_signal_bar_ts f, rf_fill_ts = fr_fill_ts f,
     rf_symbol = fr_symbol f, rf_side = fr_side f, rf_kind = fr_kind f, rf_qty = fr_qty f,
     rf_open_price = fr_open_price f, rf_fill_price = fr_fill_price f, rf_fee = fr_fee f\<rparr>"

definition strip_funding :: "funding_row \<Rightarrow> rfunding_row" where
  "strip_funding f = \<lparr>rg_funding_id = fu_funding_id f, rg_symbol = fu_symbol f, rg_bar_ts = fu_bar_ts f,
     rg_window_start = fu_window_start f, rg_window_end = fu_window_end f,
     rg_notional_usd = fu_notional_usd f, rg_funding_rate = fu_funding_rate f,
     rg_funding_events = fu_funding_events f, rg_rate_available = fu_rate_available f,
     rg_funding_amount = fu_funding_amount f\<rparr>"

definition strip_equity :: "equity_row \<Rightarrow> requity_row" where
  "strip_equity e = \<lparr>re_bar_ts = eq_bar_ts e, re_realized_gross_pnl = eq_realized_gross_pnl e,
     re_unrealized_pnl = eq_unrealized_pnl e, re_funding_cum = eq_funding_cum e,
     re_fees_cum = eq_fees_cum e, re_equity = eq_equity e, re_num_open = eq_num_open e\<rparr>"

definition strip_positions :: "positions_row \<Rightarrow> rpositions_row" where
  "strip_positions p = \<lparr>rq_bar_ts = po_bar_ts p, rq_open_symbols = po_open_symbols p,
     rq_num_open = po_num_open p, rq_gross_exposure_usd = po_gross_exposure_usd p\<rparr>"

definition trade_agree :: "trade_row \<Rightarrow> rtrade_row \<Rightarrow> bool" where
  \<comment> \<open>one closed trade on both sides: every column the replay has is the engine's, and the two nets are
    computed from the same unrounded gross, fees and funding, each side rounding in its own order\<close>
  "trade_agree t q \<longleftrightarrow> (\<exists>gross fees funding.
     tr_net_pnl t = canonical_net_pnl gross fees funding
     \<and> q = \<lparr>rt_symbol = tr_symbol t, rt_entry_bar_ts = tr_entry_bar_ts t,
         rt_exit_bar_ts = tr_exit_bar_ts t, rt_qty = tr_qty t, rt_entry_price = tr_entry_price t,
         rt_exit_price = tr_exit_price t, rt_gross_pnl = tr_gross_pnl t, rt_fees = tr_fees t,
         rt_funding = tr_funding t, rt_net_pnl = fl_round 8 (fl_sub (fl_sub gross fees) funding),
         rt_hold_bars = tr_hold_bars t\<rparr>
     \<and> tr_gross_pnl t = round8 gross \<and> tr_fees t = round8 fees \<and> tr_funding t = round8 funding)"

lemma trade_agree_made:
  "trade_agree \<lparr>tr_trade_id = i, tr_bar_commit_id = c, tr_symbol = s, tr_entry_fill_id = ef, tr_exit_fill_id = xf,
      tr_entry_bar_ts = eb, tr_exit_bar_ts = xb, tr_qty = q, tr_entry_price = ep, tr_exit_price = xp,
      tr_gross_pnl = fl_round 8 g, tr_fees = fl_round 8 f, tr_funding = fl_round 8 u,
      tr_net_pnl = canonical_net_pnl g f u, tr_hold_bars = h, tr_backfill = b\<rparr>
    \<lparr>rt_symbol = s, rt_entry_bar_ts = eb, rt_exit_bar_ts = xb, rt_qty = q, rt_entry_price = ep, rt_exit_price = xp,
      rt_gross_pnl = fl_round 8 g, rt_fees = fl_round 8 f, rt_funding = fl_round 8 u,
      rt_net_pnl = fl_round 8 (fl_sub (fl_sub g f) u), rt_hold_bars = h\<rparr>"
  by (auto simp: trade_agree_def round8_def)

definition rows_agree :: "engine_result \<Rightarrow> replay_result \<Rightarrow> bool" where
  "rows_agree r q \<longleftrightarrow> rr_fills q = map strip_fill (er_fills r)
     \<and> rr_positions q = map strip_positions (er_positions r)
     \<and> rr_equity q = map strip_equity (er_equity r)
     \<and> rr_funding q = map strip_funding (er_funding r)
     \<and> list_all2 trade_agree (er_trades r) (rr_trades q)
     \<and> rr_deferred_bar_ts q = er_deferred_bar_ts r"

definition sim :: "engine_result \<Rightarrow> replay_vars \<Rightarrow> bool" where
  "sim r v \<longleftrightarrow> rv_open_positions v = strip_book (open_positions (er_state r))
     \<and> rv_realized_gross v = realized_gross (er_state r)
     \<and> rv_fees_cum v = fees_cum (er_state r)
     \<and> rv_funding_cum v = funding_cum (er_state r)
     \<and> rv_watermark v = watermark_bar_ts (er_state r)
     \<and> rows_agree r (rv_result v)"

lemma strip_book_get [simp]: "dict_get (strip_book d) k = map_option strip_pos (dict_get d k)"
  by (induction d) (auto simp: strip_book_def)

lemma strip_book_keys [simp]: "dict_keys (strip_book d) = dict_keys d"
  by (induction d) (auto simp: strip_book_def)

lemma strip_book_length [simp]: "length (strip_book d) = length d"
  by (simp add: strip_book_def)

lemma strip_book_set: "dict_set k (strip_pos p) (strip_book d) = strip_book (dict_set k p d)"
  by (induction d) (auto simp: strip_book_def)

lemma strip_book_pop: "dict_pop k (strip_book d) = strip_book (dict_pop k d)"
  by (induction d) (auto simp: strip_book_def)

lemma strip_pos_simps [simp]:
  "rp_entry_price (strip_pos p) = entry_price p" "rp_qty (strip_pos p) = qty p"
  "rp_entry_bar_ts (strip_pos p) = entry_bar_ts p" "rp_entry_fill_ts (strip_pos p) = entry_fill_ts p"
  "rp_funding_accrued (strip_pos p) = funding_accrued p" "rp_entry_fee (strip_pos p) = entry_fee p"
  "rp_hold_bars (strip_pos p) = hold_bars p"
  "(strip_pos p)\<lparr>rp_hold_bars := h\<rparr> = strip_pos (p\<lparr>hold_bars := h\<rparr>)"
  "(strip_pos p)\<lparr>rp_funding_accrued := a\<rparr> = strip_pos (p\<lparr>funding_accrued := a\<rparr>)"
  by (simp_all add: strip_pos_def)

lemmas strip_row_defs = strip_fill_def strip_funding_def strip_equity_def strip_positions_def

section \<open>The two price books and funding indexes answer alike\<close>

lemma bar_positions_eq: "bar_positions bars = index_bars bars"
  by (simp add: bar_positions_def index_bars_def)

lemma book_index_eq:
  "Option.bind (dict_get (bb_idx (make_bar_book s)) x) (\<lambda>ix. dict_get ix ts) = index_at (make_price_book s) x ts"
  "bb_bars (make_bar_book s) = pb_bars (make_price_book s)"
  by (simp_all add: make_bar_book_def make_price_book_def index_at_def bar_positions_eq)

lemma book_close_at_eq: "book_close_at (make_bar_book s) x ts = close_at (make_price_book s) x ts"
  unfolding book_close_at_def close_at_def book_index_eq
  by (cases "index_at (make_price_book s) x ts"; cases "dict_get (pb_bars (make_price_book s)) x") simp_all

lemma book_next_open_eq: "book_next_open (make_bar_book s) x ts = next_bar (make_price_book s) x ts"
  unfolding book_next_open_def next_bar_def book_index_eq
  by (cases "index_at (make_price_book s) x ts"; cases "dict_get (pb_bars (make_price_book s)) x")
    (simp_all add: Let_def)

lemma replay_resolve_next_eq:
  "replay_resolve_next (make_bar_book s) ts syms = resolve_next (make_price_book s) ts syms"
  by (induction syms) (auto simp: book_next_open_eq split: option.splits)

lemma add_funding_event_get:
  "dict_get (add_funding_event e ix) s = (if fe_symbol e = s
     then Some ((case dict_get ix s of None \<Rightarrow> [] | Some es \<Rightarrow> es) @ [(strftime_bar (fe_dt e), fe_rate e)])
     else dict_get ix s)"
  by (auto simp: add_funding_event_def dict_get_set Let_def)

lemma fold_add_funding_event_get:
  "dict_get (fold add_funding_event rows ix) s =
     (let new = map (\<lambda>e. (strftime_bar (fe_dt e), fe_rate e)) (filter (\<lambda>e. fe_symbol e = s) rows)
      in if new = [] then dict_get ix s
         else Some ((case dict_get ix s of None \<Rightarrow> [] | Some es \<Rightarrow> es) @ new))"
proof (induction rows arbitrary: ix)
  case (Cons e rows)
  show ?case
    by (cases "fe_symbol e = s")
      (simp_all add: Cons.IH add_funding_event_get Let_def)
qed simp

lemma map_values_get: "dict_get (map (\<lambda>(k, v). (k, f v)) d) s = map_option f (dict_get d s)"
  by (induction d) auto

lemma map_keys_get: "dict_get (map (\<lambda>k. (k, f k)) ks) s = (if s \<in> set ks then Some (f s) else None)"
  by (induction ks) auto

lemma funding_index_get_eq:
  "dict_get (replay_funding_index df) s = dict_get (build_funding_index df) s"
  by (auto simp: replay_funding_index_def build_funding_index_def map_values_get map_keys_get
    fold_add_funding_event_get Let_def filter_empty_conv split: option.splits)

lemma replay_funding_in_interval_eq:
  "replay_funding_in_interval (replay_funding_index df) = funding_in_interval (build_funding_index df)"
  by (intro ext) (simp add: replay_funding_in_interval_def funding_in_interval_def funding_index_get_eq)

section \<open>Canonical timestamps parse alike\<close>

lemma concat_replace_none: "CHR ''Z'' \<notin> set s \<Longrightarrow> concat (map (\<lambda>c. if c = CHR ''Z'' then r else [c]) s) = s"
  by (induction s) auto

lemma rstrip_none: "c \<notin> set s \<Longrightarrow> rstrip_char c s = s"
proof -
  assume "c \<notin> set s"
  then have "dropWhile (\<lambda>x. x = c) (rev s) = rev s"
    by (cases "rev s") (auto simp: dropWhile_eq_self_iff dest: arg_cong[where f = set])
  then show ?thesis by simp
qed

definition boundary_ts :: "string \<Rightarrow> bool" where
  \<comment> \<open>the two spellings the observer and the configuration use: zero-padded, or that with a trailing
    \<open>Z\<close>. The engine's \<open>strptime\<close> also reads unpadded fields, which the replay refuses.\<close>
  "boundary_ts s \<longleftrightarrow> canonical_ts s \<or> (ends_with CHR ''Z'' s \<and> canonical_ts (butlast s))"

lemma boundary_tsE:
  assumes "boundary_ts s"
  obtains (canonical) f where "valid_fields f" "s = fmt_fields f"
    | (zulu) f where "valid_fields f" "s = fmt_fields f @ ''Z''"
proof (cases "canonical_ts s")
  case True
  then show ?thesis using canonical by (auto simp: canonical_ts_iff)
next
  case False
  then have e: "s \<noteq> []" "last s = CHR ''Z''" and c: "canonical_ts (butlast s)"
    using assms by (auto simp: boundary_ts_def ends_with_def)
  then obtain f where "valid_fields f" "butlast s = fmt_fields f" by (auto simp: canonical_ts_iff)
  moreover have "s = butlast s @ [CHR ''Z'']" using e by (metis append_butlast_last_id)
  ultimately show ?thesis using zulu by metis
qed

text \<open>The spelling on which the two sides part: the engine's reader takes it, the replay's raises.\<close>

lemma unpadded_timestamp_splits_readers:
  "parse_bar_utc ''2026-06-14T8:00:00'' = parse_bar_utc ''2026-06-14T08:00:00''"
  "parse_bar_utc ''2026-06-14T08:00:00'' \<noteq> Inl e"
  "parse_instant ''2026-06-14T8:00:00'' = Inl ValueError"
proof -
  show "parse_bar_utc ''2026-06-14T8:00:00'' = parse_bar_utc ''2026-06-14T08:00:00''" by code_simp
  have "isl (parse_bar_utc ''2026-06-14T08:00:00'') = False" by code_simp
  then show "parse_bar_utc ''2026-06-14T08:00:00'' \<noteq> Inl e" by (metis sum.disc(1))
  show "parse_instant ''2026-06-14T8:00:00'' = Inl ValueError" by code_simp
qed

lemma parse_bar_utc_boundary:
  assumes "boundary_ts s" shows "parse_bar_utc s = parse_instant s"
proof -
  from assms show ?thesis
  proof (cases rule: boundary_tsE)
    case 1: (canonical f)
    have "\<not> ends_with CHR ''Z'' s" using no_Z_in_fmt[OF 1(1)] 1(2)
      by (auto simp: ends_with_def dest: last_in_set)
    then show ?thesis
      using 1 fromisoformat_naive[OF 1(1)]
      by (simp add: parse_bar_utc_def parse_instant_def concat_replace_none no_Z_in_fmt
        strptime_bar_def strptime_fmt to_utc_def)
  next
    case 2: (zulu f)
    have "concat (map (\<lambda>c. if c = CHR ''Z'' then ''+00:00'' else [c]) s) = fmt_fields f @ ''+00:00''"
      using 2 by (simp add: concat_replace_none no_Z_in_fmt)
    then have p: "parse_instant s = add_delta (fields_instant f) 0"
      using fromisoformat_zulu[OF 2(1)] by (simp add: parse_instant_def to_utc_def)
    have "parse_bar_utc s = Inr (fields_instant f)"
      using 2 by (simp add: parse_bar_utc_def ends_with_def strptime_bar_def strptime_fmt)
    then show ?thesis using p fields_instant_range[OF 2(1)] by (simp add: add_delta_def)
  qed
qed

lemma rstrip_boundary:
  assumes "boundary_ts s" shows "parse_bar_utc s = of_option ValueError (strptime_bar (rstrip_char CHR ''Z'' s))"
  using assms
proof (cases rule: boundary_tsE)
  case (canonical f)
  have "\<not> ends_with CHR ''Z'' s" using no_Z_in_fmt[OF canonical(1)] canonical(2)
    by (auto simp: ends_with_def dest: last_in_set)
  then show ?thesis using canonical rstrip_none[OF no_Z_in_fmt[OF canonical(1)]]
    by (simp add: parse_bar_utc_def del: rstrip_char.simps)
next
  case (zulu f)
  have "rstrip_char CHR ''Z'' s = rstrip_char CHR ''Z'' (fmt_fields f)" using zulu by simp
  then show ?thesis using zulu rstrip_none[OF no_Z_in_fmt[OF zulu(1)]]
    by (simp add: parse_bar_utc_def ends_with_def del: rstrip_char.simps)
qed

lemma replay_interval_start_eq:
  assumes "boundary_ts ts" shows "replay_interval_start ts h = interval_start ts h"
  unfolding replay_interval_start_def interval_start_def
  by (simp only: parse_bar_utc_boundary[OF assms, symmetric] rstrip_boundary[OF assms])

section \<open>The steps agree\<close>

lemma sim_hold_step:
  assumes "sim r v"
  shows "rel_sum (=) sim (hold_funding_step (make_price_book s) (build_funding_index df) ts cid ws symbol r)
    (replay_hold_step (make_bar_book s) (replay_funding_index df) ts ws symbol v)"
proof (cases "dict_get (open_positions (er_state r)) symbol")
  case None
  then show ?thesis using assms by (simp add: sim_def hold_funding_step_def replay_hold_step_def lookup_def)
next
  case (Some p)
  then show ?thesis using assms
    by (auto simp: sim_def rows_agree_def hold_funding_step_def replay_hold_step_def lookup_def Let_def
      book_close_at_eq replay_funding_in_interval_eq accrue_def replay_accrue_def make_funding_row_def
      strip_book_set strip_funding_def split: prod.splits cong: option.case_cong)
qed

lemma sim_exit_funding_step:
  assumes "sim r v"
  shows "rel_sum (=) sim
    (exit_funding_step (make_price_book s) (build_funding_index df) ts cid nxt symbol r)
    (replay_exit_funding_step (make_bar_book s) (replay_funding_index df) ts nxt symbol v)"
proof (cases "dict_get (open_positions (er_state r)) symbol")
  case None
  then show ?thesis using assms
    by (simp add: sim_def exit_funding_step_def replay_exit_funding_step_def lookup_def)
next
  case (Some p)
  then show ?thesis using assms
    by (cases "dict_get nxt symbol")
      (auto simp: sim_def rows_agree_def exit_funding_step_def replay_exit_funding_step_def lookup_def Let_def
      book_close_at_eq replay_funding_in_interval_eq accrue_def replay_accrue_def make_funding_row_def
      strip_book_set strip_funding_def split: prod.splits cong: option.case_cong)
qed

lemma replay_mark_step_eq:
  "replay_mark_step (make_bar_book s) ts (k, strip_pos p) = mark_step (make_price_book s) ts (k, p)"
  by (intro ext) (auto simp: replay_mark_step_def mark_step_def book_close_at_eq split: option.splits)

lemma replay_mark_eq:
  "fold (replay_mark_step (make_bar_book s) ts) (strip_book d) acc = fold (mark_step (make_price_book s) ts) d acc"
proof (induction d arbitrary: acc)
  case Nil
  then show ?case by (simp add: strip_book_def)
next
  case (Cons p d)
  then show ?case
    by (cases p) (simp add: strip_book_def replay_mark_step_eq)
qed

lemma sim_snapshot:
  assumes "sim r v"
  shows "sim (snapshot_bar cfg (make_price_book s) ts cid r)
    (replay_snapshot (initial_equity_usd cfg) (make_bar_book s) ts v)"
  using assms
  by (auto simp: sim_def rows_agree_def snapshot_bar_def replay_snapshot_def mark_book_def replay_mark_eq
    equity_of_def Let_def strip_equity_def strip_positions_def split: prod.splits)

lemma sim_exit_step:
  assumes "sim r v"
  shows "rel_sum (=) sim (exit_fill_step cfg ts cid nxt symbol r)
    (replay_exit_step (config_rates cfg) ts nxt symbol v)"
proof (cases "dict_get nxt symbol")
  case None
  then show ?thesis by (simp add: exit_fill_step_def replay_exit_step_def lookup_def Let_def)
next
  case (Some nb)
  then show ?thesis using assms
    by (cases nb; cases "dict_get (open_positions (er_state r)) symbol")
      (auto simp: sim_def rows_agree_def exit_fill_step_def replay_exit_step_def lookup_def Let_def
      strip_book_pop make_fill_row_def strip_fill_def round8_def intro!: list_all2_appendI trade_agree_made)
qed

lemma sim_entry_step:
  assumes "sim r v"
  shows "rel_sum (=) sim (entry_fill_step cfg ts cid nxt symbol r)
    (replay_entry_step cfg (config_rates cfg) ts nxt symbol v)"
proof (cases "dict_get nxt symbol")
  case None
  then show ?thesis by (simp add: entry_fill_step_def replay_entry_step_def lookup_def Let_def)
next
  case (Some nb)
  have new: "\<lparr>rp_entry_price = a, rp_qty = b, rp_entry_bar_ts = c, rp_entry_fill_ts = d,
      rp_funding_accrued = e, rp_entry_fee = f, rp_hold_bars = g\<rparr> =
    strip_pos \<lparr>entry_fill_id = i, entry_price = a, qty = b, entry_bar_ts = c, entry_fill_ts = d,
      funding_accrued = e, entry_fee = f, hold_bars = g\<rparr>" for a b c d e f g i
    by (simp add: strip_pos_def)
  show ?thesis using Some assms
    by (cases nb; cases "fl_div (notional_usd cfg) (fl_mul (snd nb) (fl_add (PFin 1) (rt_slip (config_rates cfg))))")
      (auto simp: sim_def rows_agree_def entry_fill_step_def replay_entry_step_def lookup_def Let_def
      make_fill_row_def strip_fill_def strip_book_set
      new[where i = "fill_id symbol ts ''BUY'' ''entry''"])
qed


section \<open>The loops agree\<close>

interpretation hold_sim: lockstep sim
  "hold_funding_step (make_price_book s) (build_funding_index df) ts cid ws"
  "replay_hold_step (make_bar_book s) (replay_funding_index df) ts ws" for s df ts cid ws
  by unfold_locales (rule sim_hold_step)

interpretation exit_funding_sim: lockstep sim
  "exit_funding_step (make_price_book s) (build_funding_index df) ts cid nxt"
  "replay_exit_funding_step (make_bar_book s) (replay_funding_index df) ts nxt" for s df ts cid nxt
  by unfold_locales (rule sim_exit_funding_step)

interpretation exit_sim: lockstep sim
  "exit_fill_step cfg ts cid nxt" "replay_exit_step (config_rates cfg) ts nxt" for cfg ts cid nxt
  by unfold_locales (rule sim_exit_step)

interpretation entry_sim: lockstep sim
  "entry_fill_step cfg ts cid nxt" "replay_entry_step cfg (config_rates cfg) ts nxt" for cfg ts cid nxt
  by unfold_locales (rule sim_entry_step)

text \<open>
  The observation rows on which the two sides are compared: the timestamp in one of the observer's
  two spellings, the active symbols a list of strings. This is narrower than what the freshness gate
  lets through: the gate reads timestamps with \<open>strptime\<close>, which also takes unpadded fields.
\<close>

fun is_JStr :: "json \<Rightarrow> bool" where
  "is_JStr (JStr _) = True"
| "is_JStr _ = False"

fun is_str_list :: "json \<Rightarrow> bool" where
  "is_str_list (JList xs) = list_all is_JStr xs"
| "is_str_list _ = False"

definition obs_ok :: "obs \<Rightarrow> bool" where
  "obs_ok row \<longleftrightarrow> (case dict_get row ''timestamp'' of Some (JStr ts) \<Rightarrow> boundary_ts ts | _ \<Rightarrow> False)
     \<and> (case dict_get row ''active_symbols'' of Some v \<Rightarrow> is_str_list v | None \<Rightarrow> False)"

lemma obs_ok_timestamp:
  assumes "obs_ok row" obtains ts where "obs_timestamp row = Inr ts" "boundary_ts ts"
  using assms by (auto simp: obs_ok_def obs_timestamp_def split: option.splits json.splits)

lemma obs_ok_active: "obs_ok row \<Longrightarrow> replay_active row = obs_active row"
  by (auto simp: obs_ok_def replay_active_def obs_active_def split: option.splits)

lemma canonical_boundary: "canonical_ts s \<Longrightarrow> boundary_ts s"
  by (simp add: boundary_ts_def)

lemma timed_rows_eq:
  "list_all obs_ok rows \<Longrightarrow> timed_rows parse_instant rows = timed_rows parse_bar_utc rows"
  unfolding timed_rows_def
proof (intro rmap_cong refl)
  fix row assume "list_all obs_ok rows" "row \<in> set rows"
  then have "obs_ok row" by (simp add: list_all_iff)
  then obtain ts where "obs_timestamp row = Inr ts" "boundary_ts ts" by (rule obs_ok_timestamp)
  then show "rbind (obs_timestamp row) (\<lambda>ts. rbind (parse_instant ts) (\<lambda>t. Inr (t, row))) =
    rbind (obs_timestamp row) (\<lambda>ts. rbind (parse_bar_utc ts) (\<lambda>t. Inr (t, row)))"
    by (simp add: parse_bar_utc_boundary)
qed

lemma timed_rows_rows: "timed_rows parse rows = Inr timed \<Longrightarrow> map snd timed = rows"
  by (induction rows arbitrary: timed) (auto simp: timed_rows_def result_simps)

lemma forward_rows_subset:
  "timed_rows parse rows = Inr timed \<Longrightarrow> set (forward_rows start timed) \<subseteq> set rows"
  using timed_rows_rows[of parse rows timed] by (force simp: forward_rows_def)

lemma sim_bar:
  assumes "sim r v" "obs_ok row" "boundary_ts ts"
  shows "rel_sum (=) (rel_option sim)
    (process_bar cfg (make_price_book s) (build_funding_index df) row ts r)
    (replay_bar cfg (initial_equity_usd cfg) (make_bar_book s) (replay_funding_index df) row ts v)"
proof (cases "obs_active row")
  case (Inl e)
  then show ?thesis by (simp add: process_bar_def replay_bar_def obs_ok_active[OF assms(2)])
next
  case (Inr desired)
  have keys: "dict_keys (rv_open_positions v) = dict_keys (open_positions (er_state r))"
    using assms(1) by (simp add: sim_def)
  show ?thesis
  proof (cases "resolve_next (make_price_book s) ts
      (entries_of desired (er_state r) @ exits_of desired (er_state r))")
    case None
    then show ?thesis using Inr
      by (simp add: process_bar_def replay_bar_def obs_ok_active[OF assms(2)] keys
        replay_resolve_next_eq entries_of_def exits_of_def Let_def)
  next
    case (Some nxt)
    have final: "sim (a\<lparr>er_state := (er_state a)\<lparr>watermark_bar_ts := ts\<rparr>\<rparr>) (b\<lparr>rv_watermark := ts\<rparr>)"
      if "sim a b" for a b
      using that by (simp add: sim_def rows_agree_def)
    show ?thesis
      unfolding process_bar_def replay_bar_def
      using Inr Some
      by (simp add: obs_ok_active[OF assms(2)] keys replay_resolve_next_eq
          replay_interval_start_eq[OF assms(3)] Let_def flip: entries_of_def exits_of_def)
        (intro rel_sum_rbind_eq refl rel_sum_rbind[where R = sim] hold_sim.fold exit_funding_sim.fold
          exit_sim.fold entry_sim.fold sim_snapshot assms(1);
         simp add: final)
  qed
qed

lemma sim_loop:
  assumes "sim r v" "list_all obs_ok rows"
  shows "rel_sum (=) sim
    (engine_loop cfg (make_price_book s) (build_funding_index df) rows r)
    (replay_loop cfg (initial_equity_usd cfg) (make_bar_book s) (replay_funding_index df) rows v)"
  using assms
proof (induction rows arbitrary: r v)
  case (Cons row rows)
  from Cons.prems have row: "obs_ok row" and rows: "list_all obs_ok rows" by simp_all
  obtain ts where ts: "obs_timestamp row = Inr ts" "boundary_ts ts" using row by (rule obs_ok_timestamp)
  have wm: "rv_watermark v = watermark_bar_ts (er_state r)" using Cons.prems by (simp add: sim_def)
  from sim_bar[OF Cons.prems(1) row ts(2), of cfg s df] show ?case
  proof (cases rule: rel_sum.cases)
    case (2 x y)
    then show ?thesis using ts wm Cons.IH[OF _ rows] Cons.prems
      by (cases x; cases y) (auto simp: sim_def rows_agree_def)
  qed (use ts wm Cons.IH[OF _ rows] Cons.prems in auto)
qed simp

lemma sim_start: "sim (empty_result (new_state x)) (replay_start [])"
  by (simp add: sim_def rows_agree_def empty_result_def new_state_def replay_start_def strip_book_def)

text \<open>
  On such observations, engine and replay either raise the same exception or return ledgers that
  agree row by row.
\<close>

lemma engine_replay_agree:
  assumes "list_all obs_ok rows" "boundary_ts (forward_start_ts cfg)"
    and "initial_override = None \<or> initial_override = Some (initial_equity_usd cfg)"
  shows "rel_sum (=) rows_agree (run_engine cfg rows series df (new_state initial))
    (run_replay cfg rows series df initial_override [])"
proof -
  have i: "(case initial_override of Some x \<Rightarrow> x | None \<Rightarrow> initial_equity_usd cfg) = initial_equity_usd cfg"
    using assms(3) by auto
  have loop: "rel_sum (=) rows_agree
     (engine_loop cfg (make_price_book series) (build_funding_index df) (forward_rows start timed)
       (empty_result (new_state initial)))
     (rbind (replay_loop cfg (initial_equity_usd cfg) (make_bar_book series) (replay_funding_index df)
       (forward_rows start timed) (replay_start [])) (\<lambda>v. Inr (rv_result v)))"
    if "timed_rows parse_bar_utc rows = Inr timed" for start timed
  proof -
    have "list_all obs_ok (forward_rows start timed)"
      using forward_rows_subset[OF that] assms(1) by (auto simp: list_all_iff)
    from sim_loop[OF sim_start this, of cfg series df initial]
    show ?thesis by (cases rule: rel_sum.cases) (auto simp: sim_def)
  qed
  show ?thesis
    unfolding run_engine_def run_replay_def
    by (simp add: i timed_rows_eq[OF assms(1)] parse_bar_utc_boundary[OF assms(2)])
      (cases "parse_instant (forward_start_ts cfg)"; cases "timed_rows parse_bar_utc rows"; simp add: loop)
qed

end
