(* ===== verification/Fixture.thy ===== *)
theory Fixture
  imports EngineReplay
begin

text \<open>
  A small concrete run shared by the witnesses: one symbol, three observed bars (enter, hold,
  leave) eight hours apart, a fourth bar to fill at, and two funding events.
\<close>

definition fx_t0 :: string where "fx_t0 = ''2024-01-01T00:00:00''"
definition fx_t1 :: string where "fx_t1 = ''2024-01-01T08:00:00''"
definition fx_t2 :: string where "fx_t2 = ''2024-01-01T16:00:00''"
definition fx_t3 :: string where "fx_t3 = ''2024-01-02T00:00:00''"

definition fx_cfg :: engine_config where
  "fx_cfg = \<lparr>forward_start_ts = ''2024-01-01T00:00:00'', notional_usd = PFin 100,
     initial_equity_usd = PFin 1000, fee_bps = PFin 10000, slippage_bps = PFin 0,
     bar_interval_hours = Some 8, engine_version = ''v1'', config_hash = ''h''\<rparr>"

definition fx_obs :: "string \<Rightarrow> string list \<Rightarrow> obs" where
  "fx_obs ts active = [(''timestamp'', JStr ts), (''active_symbols'', JList (map JStr active))]"

definition fx_rows :: "obs list" where
  "fx_rows = [fx_obs fx_t0 [''A''], fx_obs fx_t1 [''A''], fx_obs fx_t2 []]"

definition fx_bar :: "string \<Rightarrow> rat \<Rightarrow> bar" where
  "fx_bar ts p = \<lparr>bar_timestamp = ts, bar_open = PFin p, bar_high = PFin p, bar_low = PFin p,
     bar_close = PFin p, bar_volume = PFin 0\<rparr>"

definition fx_series :: bar_series where
  "fx_series = [(''A'', [fx_bar fx_t0 10, fx_bar fx_t1 10, fx_bar fx_t2 20, fx_bar fx_t3 20])]"

definition fx_funding :: "funding_event list" where
  "fx_funding = [\<lparr>fe_symbol = ''A'', fe_dt = 63839721600000000, fe_rate = PFin 1\<rparr>]"

lemmas fx_ts_defs = fx_t0_def fx_t1_def fx_t2_def fx_t3_def

lemmas fx_defs = fx_ts_defs fx_cfg_def fx_obs_def fx_rows_def fx_bar_def fx_series_def fx_funding_def

lemma fx_canonical: "canonical_ts fx_t0" "canonical_ts fx_t1" "canonical_ts fx_t2"
  by code_simp+

lemma fx_fields:
  "strptime_fields fx_t0 = Some \<lparr>f_year = 2024, f_month = 1, f_day = 1, f_hour = 0, f_minute = 0, f_second = 0\<rparr>"
  "strptime_fields fx_t1 = Some \<lparr>f_year = 2024, f_month = 1, f_day = 1, f_hour = 8, f_minute = 0, f_second = 0\<rparr>"
  "strptime_fields fx_t2 = Some \<lparr>f_year = 2024, f_month = 1, f_day = 1, f_hour = 16, f_minute = 0, f_second = 0\<rparr>"
  by code_simp+

lemmas calendar_defs = fields_instant_def ymd2ord_def days_before_year_def days_before_month_def
  is_leap_def us_per_day_def us_per_second_def us_per_hour_def

lemma fx_strptime:
  "strptime_bar fx_t0 = Some 63839664000000000"
  "strptime_bar fx_t1 = Some 63839692800000000"
  "strptime_bar fx_t2 = Some 63839721600000000"
  by (simp_all add: strptime_bar_def fx_fields calendar_defs Let_def)

lemma fx_parse:
  "parse_bar_utc fx_t0 = Inr 63839664000000000"
  "parse_bar_utc fx_t1 = Inr 63839692800000000"
  "parse_bar_utc fx_t2 = Inr 63839721600000000"
  by (simp_all add: parse_bar_utc_def fx_strptime ends_with_def Let_def)
    (simp_all add: fx_ts_defs)

lemma fx_fmt:
  "fmt_fields \<lparr>f_year = 2023, f_month = 12, f_day = 31, f_hour = 16, f_minute = 0, f_second = 0\<rparr> = ''2023-12-31T16:00:00''"
  "fmt_fields \<lparr>f_year = 2024, f_month = 1, f_day = 1, f_hour = 0, f_minute = 0, f_second = 0\<rparr> = fx_t0"
  "fmt_fields \<lparr>f_year = 2024, f_month = 1, f_day = 1, f_hour = 8, f_minute = 0, f_second = 0\<rparr> = fx_t1"
  "fmt_fields \<lparr>f_year = 2024, f_month = 1, f_day = 1, f_hour = 16, f_minute = 0, f_second = 0\<rparr> = fx_t2"
  by code_simp+

lemma fx_strftime:
  "strftime_bar 63839635200000000 = ''2023-12-31T16:00:00''"
  "strftime_bar 63839664000000000 = fx_t0"
  "strftime_bar 63839692800000000 = fx_t1"
  "strftime_bar 63839721600000000 = fx_t2"
  by (simp_all add: strftime_bar_def instant_fields_def ord2ymd_def calendar_defs Let_def
    fx_fmt[simplified])

lemma fx_rstrip:
  "rstrip_char CHR ''Z'' fx_t0 = fx_t0" "rstrip_char CHR ''Z'' fx_t1 = fx_t1"
  "rstrip_char CHR ''Z'' fx_t2 = fx_t2"
  by (simp_all add: fx_ts_defs)

lemma fx_interval:
  "interval_start fx_t0 8 = Inr ''2023-12-31T16:00:00''"
  "interval_start fx_t1 8 = Inr fx_t0"
  "interval_start fx_t2 8 = Inr fx_t1"
  by (simp_all add: interval_start_def fx_rstrip fx_strptime fx_strftime add_delta_def max_instant_def
    calendar_defs del: rstrip_char.simps)

lemma fx_index: "build_funding_index (Some fx_funding) = [(''A'', [(fx_t2, PFin 1)])]"
  by (simp add: build_funding_index_def fx_funding_def add_funding_event_def fx_strftime Let_def)

lemma fx_book: "make_price_book fx_series = \<lparr>pb_bars = fx_series,
    pb_index = [(''A'', [(fx_t0, 0), (fx_t1, 1), (fx_t2, 2), (fx_t3, 3)])]\<rparr>"
  by (simp add: make_price_book_def index_bars_def fx_series_def fx_bar_def fx_ts_defs)

lemma fx_less:
  "fx_t0 < fx_t1" "fx_t1 < fx_t2" "fx_t2 < fx_t3" "\<not> fx_t2 \<le> fx_t1" "\<not> fx_t1 \<le> fx_t0" "fx_t0 \<noteq> []" "fx_t1 \<noteq> []" "fx_t2 \<noteq> []"
  "fx_t0 \<noteq> fx_t1" "fx_t0 \<noteq> fx_t2" "fx_t0 \<noteq> fx_t3" "fx_t1 \<noteq> fx_t2" "fx_t1 \<noteq> fx_t3" "fx_t2 \<noteq> fx_t3"
  "fx_t1 \<noteq> fx_t0" "fx_t2 \<noteq> fx_t0" "fx_t3 \<noteq> fx_t0" "fx_t2 \<noteq> fx_t1" "fx_t3 \<noteq> fx_t1" "fx_t3 \<noteq> fx_t2"
  "max fx_t0 fx_t1 = fx_t1" "max fx_t1 fx_t1 = fx_t1"
  by (simp_all add: fx_ts_defs max_def)

lemma fx_rows:
  "obs_timestamp (fx_obs ts active) = Inr ts" "obs_active (fx_obs ts []) = Inr []"
  "obs_active (fx_obs ts [a]) = Inr [a]"
  by (simp_all add: obs_timestamp_def obs_active_def fx_obs_def)

lemma fx_forward: "forward_rows 63839664000000000
   [(63839664000000000, a), (63839692800000000, b), (63839721600000000, c)] = [a, b, c]"
  by (simp add: forward_rows_def)

definition fx_book_built :: price_book where "fx_book_built = make_price_book fx_series"

lemma fx_prices:
  "next_bar fx_book_built ''A'' fx_t0 = Some (fx_t1, PFin 10)"
  "next_bar fx_book_built ''A'' fx_t1 = Some (fx_t2, PFin 20)"
  "next_bar fx_book_built ''A'' fx_t2 = Some (fx_t3, PFin 20)"
  "close_at fx_book_built ''A'' fx_t0 = Some (PFin 10)"
  "close_at fx_book_built ''A'' fx_t1 = Some (PFin 10)"
  "close_at fx_book_built ''A'' fx_t2 = Some (PFin 20)"
  "close_at fx_book_built ''A'' fx_t3 = Some (PFin 20)"
  by (simp_all add: next_bar_def close_at_def index_at_def fx_book_built_def fx_book fx_less)
    (simp_all add: fx_series_def fx_bar_def)

lemmas float_eval = fl_sub_def fl_le_def fl_max_def fl_sum_def is_finite.simps

lemma fx_funding_window:
  "funding_in_interval [(''A'', [(fx_t2, PFin 1)])] ''A'' fx_t1 fx_t2 = (PFin 1, 1, True)"
  "funding_in_interval [(''A'', [(fx_t2, PFin 1)])] ''A'' fx_t2 fx_t3 = (PFin 0, 0, False)"
  by (simp_all add: funding_in_interval_def bisect_right.simps fx_less order.asym float_eval Let_def)

lemma fx_rates: "config_rates fx_cfg = \<lparr>rt_fee = PFin 1, rt_slip = PFin 0\<rparr>"
  by (simp add: config_rates_def fx_cfg_def bps_fraction_def)

lemma fx_cfg_fields:
  "forward_start_ts fx_cfg = fx_t0" "notional_usd fx_cfg = PFin 100" "initial_equity_usd fx_cfg = PFin 1000"
  "fee_bps fx_cfg = PFin 10000" "slippage_bps fx_cfg = PFin 0" "interval_hours_of fx_cfg = 8"
  "engine_version fx_cfg = ''v1''" "config_hash fx_cfg = ''h''"
  by (simp_all add: fx_cfg_def fx_t0_def interval_hours_of_def)

definition fx_r0 :: engine_result where "fx_r0 = empty_result (new_state (PFin 1000))"

lemmas bar_eval = process_bar_def fx_rows entries_of_def exits_of_def set_minus_def sorted_set_def
  fx_prices fx_interval fx_cfg_fields fx_rates entry_fill_step_def exit_fill_step_def snapshot_bar_def
  mark_book_def mark_step_def equity_of_def make_fill_row_def Let_def drawdown_of_def lookup_def
  hold_funding_step_def exit_funding_step_def make_funding_row_def accrue_def fx_funding_window
  fx_less canonical_net_pnl_def round8_def float_eval

definition fx_result :: engine_result where
  "fx_result =
\<lparr>er_fills =
       [\<lparr>fr_fill_id = fill_id ''A'' fx_t0 ''BUY'' ''entry'',
           fr_bar_commit_id =
             bar_commit_id (fx_obs fx_t0 [''A'']) fx_t0 ''v1'' ''h'',
           fr_signal_bar_ts = fx_t0, fr_fill_ts = fx_t1,
           fr_symbol = ''A'', fr_side = ''BUY'', fr_kind = ''entry'',
           fr_qty = PFin 10, fr_open_price = PFin 10,
           fr_fill_price = PFin 10, fr_slippage_bps = PFin 0,
           fr_fee = PFin 100, fr_backfill = False\<rparr>,
        \<lparr>fr_fill_id = fill_id ''A'' fx_t2 ''SELL'' ''exit'',
           fr_bar_commit_id =
             bar_commit_id (fx_obs fx_t2 []) fx_t2 ''v1'' ''h'',
           fr_signal_bar_ts = fx_t2, fr_fill_ts = fx_t3,
           fr_symbol = ''A'', fr_side = ''SELL'', fr_kind = ''exit'',
           fr_qty = PFin 10, fr_open_price = PFin 20,
           fr_fill_price = PFin 20, fr_slippage_bps = PFin 0,
           fr_fee = PFin 200, fr_backfill = False\<rparr>],
       er_positions =
         [\<lparr>po_bar_ts = fx_t0,
             po_bar_commit_id =
               bar_commit_id (fx_obs fx_t0 [''A'']) fx_t0 ''v1'' ''h'',
             po_open_symbols = [], po_num_open = 0,
             po_gross_exposure_usd = PFin 0\<rparr>,
          \<lparr>po_bar_ts = fx_t1,
             po_bar_commit_id =
               bar_commit_id (fx_obs fx_t1 [''A'']) fx_t1 ''v1'' ''h'',
             po_open_symbols = [''A''], po_num_open = Suc 0,
             po_gross_exposure_usd = PFin 100\<rparr>,
          \<lparr>po_bar_ts = fx_t2,
             po_bar_commit_id =
               bar_commit_id (fx_obs fx_t2 []) fx_t2 ''v1'' ''h'',
             po_open_symbols = [''A''], po_num_open = Suc 0,
             po_gross_exposure_usd = PFin 200\<rparr>],
       er_trades =
         [\<lparr>tr_trade_id = fill_id ''A'' fx_t2 ''SELL'' ''exit'',
             tr_bar_commit_id =
               bar_commit_id (fx_obs fx_t2 []) fx_t2 ''v1'' ''h'',
             tr_symbol = ''A'',
             tr_entry_fill_id = fill_id ''A'' fx_t0 ''BUY'' ''entry'',
             tr_exit_fill_id = fill_id ''A'' fx_t2 ''SELL'' ''exit'',
             tr_entry_bar_ts = fx_t0, tr_exit_bar_ts = fx_t2,
             tr_qty = PFin 10, tr_entry_price = PFin 10,
             tr_exit_price = PFin 20, tr_gross_pnl = PFin 100,
             tr_fees = PFin 300, tr_funding = PFin 200,
             tr_net_pnl = PFin (- 400), tr_hold_bars = 2,
             tr_backfill = False\<rparr>],
       er_equity =
         [\<lparr>eq_bar_ts = fx_t0,
             eq_bar_commit_id =
               bar_commit_id (fx_obs fx_t0 [''A'']) fx_t0 ''v1'' ''h'',
             eq_realized_gross_pnl = PFin 0, eq_unrealized_pnl = PFin 0,
             eq_funding_cum = PFin 0, eq_fees_cum = PFin 0,
             eq_equity = PFin 1000, eq_drawdown = PFin 0,
             eq_num_open = 0\<rparr>,
          \<lparr>eq_bar_ts = fx_t1,
             eq_bar_commit_id =
               bar_commit_id (fx_obs fx_t1 [''A'']) fx_t1 ''v1'' ''h'',
             eq_realized_gross_pnl = PFin 0, eq_unrealized_pnl = PFin 0,
             eq_funding_cum = PFin 0, eq_fees_cum = PFin 100,
             eq_equity = PFin 900,
             eq_drawdown = fl_round 8 (to_dbl (1 / 10)),
             eq_num_open = Suc 0\<rparr>,
          \<lparr>eq_bar_ts = fx_t2,
             eq_bar_commit_id =
               bar_commit_id (fx_obs fx_t2 []) fx_t2 ''v1'' ''h'',
             eq_realized_gross_pnl = PFin 0,
             eq_unrealized_pnl = PFin 100, eq_funding_cum = PFin 200,
             eq_fees_cum = PFin 100, eq_equity = PFin 800,
             eq_drawdown = fl_round 8 (to_dbl (1 / 5)),
             eq_num_open = Suc 0\<rparr>],
       er_funding =
         [\<lparr>fu_funding_id = CHR ''A'' # CHR ''|'' # fx_t2,
             fu_symbol = ''A'', fu_bar_ts = fx_t2,
             fu_bar_commit_id =
               bar_commit_id (fx_obs fx_t2 []) fx_t2 ''v1'' ''h'',
             fu_window_start = fx_t1, fu_window_end = fx_t2,
             fu_notional_usd = PFin 200, fu_funding_rate = PFin 1,
             fu_funding_events = Suc 0, fu_rate_available = True,
             fu_funding_amount = PFin 200\<rparr>,
          \<lparr>fu_funding_id = CHR ''A'' # CHR ''|'' # fx_t2 @ ''|exit'',
             fu_symbol = ''A'', fu_bar_ts = fx_t2,
             fu_bar_commit_id =
               bar_commit_id (fx_obs fx_t2 []) fx_t2 ''v1'' ''h'',
             fu_window_start = fx_t2, fu_window_end = fx_t3,
             fu_notional_usd = PFin 200, fu_funding_rate = PFin 0,
             fu_funding_events = 0, fu_rate_available = False,
             fu_funding_amount = PFin 0\<rparr>],
       er_state =
         \<lparr>watermark_bar_ts = fx_t2, open_positions = [],
            realized_gross = PFin 100, fees_cum = PFin 300,
            funding_cum = PFin 200, peak_equity = PFin 1000,
            bars_elapsed = 3\<rparr>,
       er_deferred_bar_ts = None\<rparr>"

lemma fx_loop: "engine_loop fx_cfg fx_book_built [(''A'', [(fx_t2, PFin 1)])] fx_rows fx_r0 = Inr fx_result"
  by (simp add: bar_eval fx_rows_def fx_r0_def empty_result_def new_state_def fx_result_def
    del: fl_round.simps)

lemma fx_run: "run_engine fx_cfg fx_rows fx_series (Some fx_funding) (new_state (PFin 1000)) = Inr fx_result"
proof -
  have timed: "timed_rows parse_bar_utc fx_rows =
    Inr (zip [63839664000000000, 63839692800000000, 63839721600000000] fx_rows)"
    by (simp add: timed_rows_def fx_rows_def fx_rows fx_parse)
  have "forward_rows 63839664000000000
    (zip [63839664000000000, 63839692800000000, 63839721600000000] fx_rows) = fx_rows"
    by (simp add: fx_rows_def forward_rows_def)
  then show ?thesis
    using fx_loop by (simp add: run_engine_def fx_cfg_fields fx_parse timed fx_index fx_book_built_def fx_r0_def)
qed

lemma fx_obs_ok: "list_all obs_ok fx_rows" "boundary_ts (forward_start_ts fx_cfg)"
  by (simp_all add: fx_rows_def fx_obs_def obs_ok_def fx_canonical fx_cfg_fields canonical_boundary
    del: is_str_list.simps) (simp_all add: is_str_list.simps)

end
