(* ===== verification/CrossCheck.thy ===== *)
theory CrossCheck
  imports EngineReplay Fixture
begin

text \<open>
  \<open>quantbot/lab/cross_check.py\<close>: the row-by-row comparison of engine and replay, the triage of
  each disagreement and the verdict.
\<close>

section \<open>Cells\<close>

datatype cell = CFloat pyfloat | CNat nat | CStr string | CList "string list" | CBool bool | CNone

definition cell_neq :: "cell \<Rightarrow> cell \<Rightarrow> bool" where
  \<comment> \<open>Python's \<open>!=\<close>: a NaN differs from itself\<close>
  "cell_neq a b \<longleftrightarrow> a \<noteq> b \<or> a = CFloat PNaN"

datatype cls = QNTY_BUG_CANDIDATE | CHECKER_BUG_CANDIDATE | SPEC_AMBIGUITY | TIMESTAMP_FILL_COST_MISMATCH

definition COST_FIELDS :: "string list" where
  "COST_FIELDS = [''open_price'', ''fill_price'', ''qty'', ''fee'', ''fill_ts'', ''gross_exposure_usd'',
     ''side'', ''kind'']"

definition FUNDING_FIELDS :: "string list" where
  "FUNDING_FIELDS = [''funding_cum'', ''funding_amount'', ''funding_rate'', ''funding_events'',
     ''window_start'', ''window_end'', ''rate_available'', ''funding'']"

definition EQUITY_FIELDS :: "string list" where
  "EQUITY_FIELDS = [''equity'', ''realized_gross_pnl'', ''unrealized_pnl'', ''fees_cum'', ''net_pnl'',
     ''gross_pnl'']"

record disagreement =
  d_bar_ts :: string
  d_symbol :: "string option"
  d_field :: string
  d_engine_value :: cell
  d_replay_value :: cell
  d_delta :: "pyfloat option"
  d_classification :: cls

section \<open>Classification\<close>

type_synonym row = "(string \<times> cell) list"

definition equity_cells :: "equity_row \<Rightarrow> row" where
  "equity_cells e = [(''realized_gross_pnl'', CFloat (eq_realized_gross_pnl e)),
     (''unrealized_pnl'', CFloat (eq_unrealized_pnl e)), (''funding_cum'', CFloat (eq_funding_cum e)),
     (''fees_cum'', CFloat (eq_fees_cum e)), (''equity'', CFloat (eq_equity e)),
     (''num_open'', CNat (eq_num_open e))]"

definition requity_cells :: "requity_row \<Rightarrow> row" where
  "requity_cells e = [(''realized_gross_pnl'', CFloat (re_realized_gross_pnl e)),
     (''unrealized_pnl'', CFloat (re_unrealized_pnl e)), (''funding_cum'', CFloat (re_funding_cum e)),
     (''fees_cum'', CFloat (re_fees_cum e)), (''equity'', CFloat (re_equity e)),
     (''num_open'', CNat (re_num_open e))]"

definition positions_cells :: "positions_row \<Rightarrow> row" where
  "positions_cells p = [(''num_open'', CNat (po_num_open p)),
     (''gross_exposure_usd'', CFloat (po_gross_exposure_usd p)), (''open_symbols'', CList (po_open_symbols p))]"

definition rpositions_cells :: "rpositions_row \<Rightarrow> row" where
  "rpositions_cells p = [(''num_open'', CNat (rq_num_open p)),
     (''gross_exposure_usd'', CFloat (rq_gross_exposure_usd p)), (''open_symbols'', CList (rq_open_symbols p))]"

definition fill_cells :: "fill_row \<Rightarrow> row" where
  "fill_cells f = [(''fill_ts'', CStr (fr_fill_ts f)), (''side'', CStr (fr_side f)),
     (''qty'', CFloat (fr_qty f)), (''open_price'', CFloat (fr_open_price f)),
     (''fill_price'', CFloat (fr_fill_price f)), (''fee'', CFloat (fr_fee f))]"

definition rfill_cells :: "rfill_row \<Rightarrow> row" where
  "rfill_cells f = [(''fill_ts'', CStr (rf_fill_ts f)), (''side'', CStr (rf_side f)),
     (''qty'', CFloat (rf_qty f)), (''open_price'', CFloat (rf_open_price f)),
     (''fill_price'', CFloat (rf_fill_price f)), (''fee'', CFloat (rf_fee f))]"

definition float_cell :: "row \<Rightarrow> string \<Rightarrow> pyfloat" where
  "float_cell cells name = (case dict_get cells name of Some (CFloat x) \<Rightarrow> x | _ \<Rightarrow> PNaN)"

definition equity_consistent :: "row \<Rightarrow> pyfloat \<Rightarrow> bool" where
  "equity_consistent cells initial = (let
     recomputed = fl_add (fl_sub (fl_sub (fl_add initial (float_cell cells ''realized_gross_pnl''))
       (float_cell cells ''fees_cum'')) (float_cell cells ''funding_cum'')) (float_cell cells ''unrealized_pnl'')
     in fl_le (fl_abs (fl_sub recomputed (float_cell cells ''equity''))) (to_dbl (1 / 10000)))"

definition classify_disagreement :: "string \<Rightarrow> row option \<Rightarrow> row option \<Rightarrow> pyfloat \<Rightarrow> cls" where
  "classify_disagreement field engine_row replay_row initial =
     (if field \<in> set COST_FIELDS then TIMESTAMP_FILL_COST_MISMATCH
      else if field \<in> set FUNDING_FIELDS then SPEC_AMBIGUITY
      else if field \<in> set EQUITY_FIELDS then
        (let engine_ok = (case engine_row of None \<Rightarrow> False | Some e \<Rightarrow> equity_consistent e initial);
             replay_ok = (case replay_row of None \<Rightarrow> False | Some e \<Rightarrow> equity_consistent e initial)
         in if \<not> replay_ok then CHECKER_BUG_CANDIDATE
            else if \<not> engine_ok then QNTY_BUG_CANDIDATE
            else SPEC_AMBIGUITY)
      else SPEC_AMBIGUITY)"

section \<open>Comparison\<close>

fun cell_num :: "cell \<Rightarrow> pyfloat option" where
  \<comment> \<open>\<open>float(x)\<close> of an int, a float or a bool\<close>
  "cell_num (CFloat x) = Some x"
| "cell_num (CNat n) = Some (to_dbl (of_nat n))"
| "cell_num (CBool b) = Some (to_dbl (of_bool b))"
| "cell_num _ = None"

definition as_delta :: "cell \<Rightarrow> cell \<Rightarrow> pyfloat option" where
  "as_delta a b = (case (cell_num a, cell_num b) of (Some x, Some y) \<Rightarrow> Some (fl_sub x y) | _ \<Rightarrow> None)"

definition index_by :: "('r \<Rightarrow> 'k) \<Rightarrow> 'r list \<Rightarrow> ('k, 'r) dict" where
  "index_by key rows = fold (\<lambda>r d. dict_set (key r) r d) rows []"

definition compare_cells ::
    "string \<Rightarrow> string option \<Rightarrow> (string \<Rightarrow> cls) \<Rightarrow> row \<Rightarrow> row \<Rightarrow> disagreement list" where
  \<comment> \<open>the loop over the compared field names; both rows list the same names in order\<close>
  "compare_cells ts symbol classify ecells rcells = concat (map (\<lambda>((name, ev), (_, rv)).
     if cell_neq ev rv then [\<lparr>d_bar_ts = ts, d_symbol = symbol, d_field = name, d_engine_value = ev,
       d_replay_value = rv, d_delta = as_delta ev rv, d_classification = classify name\<rparr>]
     else []) (zip ecells rcells))"

definition fill_key :: "fill_row \<Rightarrow> string list" where
  "fill_key f = [fr_signal_bar_ts f, fr_symbol f, fr_kind f]"

definition rfill_key :: "rfill_row \<Rightarrow> string list" where
  "rfill_key f = [rf_signal_bar_ts f, rf_symbol f, rf_kind f]"

definition compare_equity_at ::
    "(string, equity_row) dict \<Rightarrow> (string, requity_row) dict \<Rightarrow> pyfloat \<Rightarrow> string \<Rightarrow> disagreement list" where
  "compare_equity_at eng rep initial ts = (let e = map_option equity_cells (dict_get eng ts);
       r = map_option requity_cells (dict_get rep ts)
     in case (e, r) of
       (Some ec, Some rc) \<Rightarrow> compare_cells ts None (\<lambda>f. classify_disagreement f e r initial) ec rc
     | _ \<Rightarrow> [\<lparr>d_bar_ts = ts, d_symbol = None, d_field = ''equity_row_presence'',
         d_engine_value = CBool (e \<noteq> None), d_replay_value = CBool (r \<noteq> None), d_delta = None,
         d_classification = classify_disagreement ''equity_row_presence'' e r initial\<rparr>])"

definition compare_positions_at ::
    "(string \<Rightarrow> string \<Rightarrow> cls) \<Rightarrow> (string, positions_row) dict \<Rightarrow> (string, rpositions_row) dict \<Rightarrow> string
       \<Rightarrow> disagreement list" where
  "compare_positions_at classify eng rep ts = (case (dict_get eng ts, dict_get rep ts) of
       (Some e, Some r) \<Rightarrow> compare_cells ts None (classify ts) (positions_cells e) (rpositions_cells r)
     | _ \<Rightarrow> [])"

definition compare_fill_at ::
    "(string \<Rightarrow> string \<Rightarrow> cls) \<Rightarrow> (string list, fill_row) dict \<Rightarrow> (string list, rfill_row) dict
       \<Rightarrow> string list \<Rightarrow> disagreement list" where
  "compare_fill_at classify eng rep key = (let ts = key ! 0; symbol = key ! 1;
       e = dict_get eng key; r = dict_get rep key
     in case (e, r) of
       (Some ef, Some rf) \<Rightarrow> compare_cells ts (Some symbol) (classify ts) (fill_cells ef) (rfill_cells rf)
     | _ \<Rightarrow> [\<lparr>d_bar_ts = ts, d_symbol = Some symbol, d_field = ''fill_presence'',
         d_engine_value = CBool (e \<noteq> None), d_replay_value = CBool (r \<noteq> None), d_delta = None,
         d_classification = classify ts ''fill_ts''\<rparr>])"

definition opt_cell :: "string option \<Rightarrow> cell" where
  "opt_cell x = (case x of None \<Rightarrow> CNone | Some s \<Rightarrow> CStr s)"

definition compare_deferral :: "string option \<Rightarrow> string option \<Rightarrow> disagreement list" where
  "compare_deferral e r = (if e \<noteq> r then
     [\<lparr>d_bar_ts = (case e of None \<Rightarrow> ''None'' | Some s \<Rightarrow> s), d_symbol = None, d_field = ''deferred_bar_ts'',
       d_engine_value = opt_cell e, d_replay_value = opt_cell r, d_delta = None,
       d_classification = TIMESTAMP_FILL_COST_MISMATCH\<rparr>] else [])"

definition compare :: "engine_result \<Rightarrow> replay_result \<Rightarrow> pyfloat \<Rightarrow> disagreement list" where
  "compare er rr initial = (let
     eng_eq = index_by eq_bar_ts (er_equity er); rep_eq = index_by re_bar_ts (rr_equity rr);
     eng_pos = index_by po_bar_ts (er_positions er); rep_pos = index_by rq_bar_ts (rr_positions rr);
     eng_fills = index_by fill_key (er_fills er); rep_fills = index_by rfill_key (rr_fills rr);
     classify = (\<lambda>ts field. classify_disagreement field (map_option equity_cells (dict_get eng_eq ts))
       (map_option requity_cells (dict_get rep_eq ts)) initial)
     in concat (map (compare_equity_at eng_eq rep_eq initial)
          (sorted_set (dict_keys eng_eq @ dict_keys rep_eq)))
        @ concat (map (compare_positions_at classify eng_pos rep_pos)
          (sorted_set (dict_keys eng_pos @ dict_keys rep_pos)))
        @ concat (map (compare_fill_at classify eng_fills rep_fills)
          (sorted_set (dict_keys eng_fills @ dict_keys rep_fills)))
        @ compare_deferral (er_deferred_bar_ts er) (rr_deferred_bar_ts rr))"

section \<open>The report\<close>

datatype verdict = VPass | VFail | VInconclusive

record report =
  rep_lane :: string
  rep_clean :: bool
  rep_verdict :: verdict
  rep_disagreements :: "disagreement list"
  rep_by_class :: "(cls, nat) dict"
  rep_note :: string

definition count_class :: "disagreement \<Rightarrow> (cls, nat) dict \<Rightarrow> (cls, nat) dict" where
  "count_class d by_class = dict_set (d_classification d)
     ((case dict_get by_class (d_classification d) of None \<Rightarrow> 0 | Some n \<Rightarrow> n) + 1) by_class"

definition truthy_count :: "(cls, nat) dict \<Rightarrow> cls \<Rightarrow> bool" where
  "truthy_count by_class c \<longleftrightarrow> (case dict_get by_class c of None \<Rightarrow> False | Some n \<Rightarrow> n \<noteq> 0)"

definition make_report :: "disagreement list \<Rightarrow> report" where
  "make_report found = (let by_class = fold count_class found [] in
     \<lparr>rep_lane = ''CROSS_CHECK'', rep_clean = (found = []),
      rep_verdict = (if found = [] then VPass
        else if truthy_count by_class CHECKER_BUG_CANDIDATE \<or> truthy_count by_class SPEC_AMBIGUITY
        then VInconclusive else VFail),
      rep_disagreements = found, rep_by_class = by_class,
      rep_note = (if found = [] then ''engine and independent replay agree row-by-row''
        else if truthy_count by_class CHECKER_BUG_CANDIDATE \<or> truthy_count by_class SPEC_AMBIGUITY
        then ''disagreement requires triage (see classes)''
        else ''disagreement indicates the witness may be wrong'')\<rparr>)"

definition cross_check ::
    "engine_config \<Rightarrow> obs list \<Rightarrow> bar_series \<Rightarrow> funding_event list option \<Rightarrow> pyfloat option \<Rightarrow> report result" where
  "cross_check cfg per_bar_obs series funding_df initial_override = (let
     initial = (case initial_override of Some x \<Rightarrow> x | None \<Rightarrow> initial_equity_usd cfg) in
     rbind (run_engine cfg per_bar_obs series funding_df (new_state initial)) (\<lambda>er.
     rbind (run_replay cfg per_bar_obs series funding_df (Some initial) []) (\<lambda>rr.
     Inr (make_report (compare er rr initial)))))"

section \<open>Agreeing ledgers compare clean\<close>

definition cells_nan_free :: "row \<Rightarrow> bool" where
  "cells_nan_free cells \<longleftrightarrow> list_all (\<lambda>(_, c). c \<noteq> CFloat PNaN) cells"

definition compared_nan_free :: "engine_result \<Rightarrow> bool" where
  \<comment> \<open>no compared money field of the engine's ledger is a NaN\<close>
  "compared_nan_free r \<longleftrightarrow> list_all (cells_nan_free \<circ> equity_cells) (er_equity r)
     \<and> list_all (cells_nan_free \<circ> positions_cells) (er_positions r)
     \<and> list_all (cells_nan_free \<circ> fill_cells) (er_fills r)"

lemma compare_cells_same: "cells_nan_free c \<Longrightarrow> compare_cells ts s f c c = []"
  by (induction c) (auto simp: cells_nan_free_def compare_cells_def cell_neq_def)

lemma index_by_map:
  assumes "\<And>x. key' (g x) = key x"
  shows "index_by key' (map g rows) = map (\<lambda>(k, r). (k, g r)) (index_by key rows)"
proof -
  have upd: "dict_set k (g r) (map (\<lambda>(k, r). (k, g r)) d) = map (\<lambda>(k, r). (k, g r)) (dict_set k r d)" for k r d
    by (induction d) auto
  have "fold (\<lambda>r d. dict_set (key' r) r d) (map g rows) (map (\<lambda>(k, r). (k, g r)) d) =
    map (\<lambda>(k, r). (k, g r)) (fold (\<lambda>r d. dict_set (key r) r d) rows d)" for d
    by (induction rows arbitrary: d) (auto simp: upd assms)
  from this[of "[]"] show ?thesis by (simp add: index_by_def)
qed

lemma index_by_values: "dict_get (index_by key rows) k = Some r \<Longrightarrow> r \<in> set rows"
proof -
  have "dict_get (fold (\<lambda>r d. dict_set (key r) r d) rows d) k = Some r \<Longrightarrow>
    r \<in> set rows \<or> dict_get d k = Some r" for d
    by (induction rows arbitrary: d) (force simp: dict_get_set split: if_splits)+
  from this[of "[]"] show "dict_get (index_by key rows) k = Some r \<Longrightarrow> r \<in> set rows"
    by (simp add: index_by_def)
qed

lemma map_values_keys: "dict_keys (map (\<lambda>(k, r). (k, g r)) d) = dict_keys d"
  by (induction d) auto

lemma strip_cells:
  "requity_cells (strip_equity e) = equity_cells e"
  "rpositions_cells (strip_positions p) = positions_cells p"
  "rfill_cells (strip_fill f) = fill_cells f"
  "rfill_key (strip_fill f) = fill_key f"
  by (simp_all add: requity_cells_def equity_cells_def strip_equity_def rpositions_cells_def
    positions_cells_def strip_positions_def rfill_cells_def fill_cells_def strip_fill_def
    rfill_key_def fill_key_def)

lemma compare_agree:
  assumes "rows_agree er rr" "compared_nan_free er"
  shows "compare er rr initial = []"
proof -
  have eq: "index_by re_bar_ts (rr_equity rr) =
      map (\<lambda>(k, r). (k, strip_equity r)) (index_by eq_bar_ts (er_equity er))"
    using assms(1) by (simp add: rows_agree_def index_by_map strip_equity_def)
  have po: "index_by rq_bar_ts (rr_positions rr) =
      map (\<lambda>(k, r). (k, strip_positions r)) (index_by po_bar_ts (er_positions er))"
    using assms(1) by (simp add: rows_agree_def index_by_map strip_positions_def)
  have fi: "index_by rfill_key (rr_fills rr) =
      map (\<lambda>(k, r). (k, strip_fill r)) (index_by fill_key (er_fills er))"
    using assms(1) by (simp add: rows_agree_def index_by_map strip_cells)
  have nan: "cells_nan_free (equity_cells e)" if "dict_get (index_by eq_bar_ts (er_equity er)) k = Some e" for k e
    using index_by_values[OF that] assms(2) by (auto simp: compared_nan_free_def list_all_iff)
  have nan2: "cells_nan_free (positions_cells e)" if "dict_get (index_by po_bar_ts (er_positions er)) k = Some e" for k e
    using index_by_values[OF that] assms(2) by (auto simp: compared_nan_free_def list_all_iff)
  have nan3: "cells_nan_free (fill_cells e)" if "dict_get (index_by fill_key (er_fills er)) k = Some e" for k e
    using index_by_values[OF that] assms(2) by (auto simp: compared_nan_free_def list_all_iff)
  have "er_deferred_bar_ts er = rr_deferred_bar_ts rr" using assms(1) by (simp add: rows_agree_def)
  then show ?thesis
    by (auto simp: compare_def Let_def eq po fi map_values_keys compare_equity_at_def compare_positions_at_def
      compare_fill_at_def map_values_get strip_cells compare_cells_same compare_deferral_def
      dict_get_None_iff split: option.splits dest: nan nan2 nan3 intro: rev_image_eqI)
qed

lemma make_report_nil: "rep_clean (make_report []) \<and> rep_verdict (make_report []) = VPass"
  by (simp add: make_report_def)

text \<open>
  On observations in the observer's spelling and a NaN-free ledger the cross-check of the engine
  against the replay is clean, whatever the market data.
\<close>

lemma cross_check_clean:
  assumes "list_all obs_ok rows" "boundary_ts (forward_start_ts cfg)"
    and "initial_override = None \<or> initial_override = Some (initial_equity_usd cfg)"
    and "run_engine cfg rows series df (new_state (initial_equity_usd cfg)) = Inr er"
    and "compared_nan_free er"
  shows "\<exists>rep. cross_check cfg rows series df initial_override = Inr rep
    \<and> rep_clean rep \<and> rep_verdict rep = VPass"
proof -
  have i: "(case initial_override of Some x \<Rightarrow> x | None \<Rightarrow> initial_equity_usd cfg) = initial_equity_usd cfg"
    using assms(3) by auto
  obtain rr where rr: "run_replay cfg rows series df (Some (initial_equity_usd cfg)) [] = Inr rr"
    and agree: "rows_agree er rr"
    using engine_replay_agree[OF assms(1,2), of "Some (initial_equity_usd cfg)" series df "initial_equity_usd cfg"]
      assms(4) by (auto elim: rel_sum.cases)
  show ?thesis
    by (simp add: cross_check_def i assms(4) rr Let_def compare_agree[OF agree assms(5)] make_report_nil)
qed

section \<open>Properties\<close>

text \<open>
  C1. The cross-check of the paper engine against the independent replay is clean. Scope: the
  forward boundary and the timestamp of every observation are zero-padded, with or without a
  trailing \<open>Z\<close>, the active symbols are lists of strings, and the initial equity handed to the
  cross-check is absent or the configuration's. Then, for every price and funding history: when the
  engine returns a ledger whose compared figures are not NaN, the replay returns too, no row differs
  and the verdict is PASS. Unpadded timestamps, which the freshness gate also takes, are outside the
  scope: the replay raises on them.
\<close>

theorem cross_check_passes:
  assumes "list_all obs_ok rows" "boundary_ts (forward_start_ts cfg)"
    and "initial_override = None \<or> initial_override = Some (initial_equity_usd cfg)"
    and "run_engine cfg rows series df (new_state (initial_equity_usd cfg)) = Inr er"
    and "compared_nan_free er"
  shows "\<exists>rep. cross_check cfg rows series df initial_override = Inr rep
    \<and> rep_clean rep \<and> rep_verdict rep = VPass"
  using assms by (rule cross_check_clean)

lemma fx_nan_free: "compared_nan_free fx_result"
  by (simp add: compared_nan_free_def fx_result_def cells_nan_free_def equity_cells_def
    positions_cells_def fill_cells_def)

theorem cross_check_passes_witness:
  "\<exists>rep. cross_check fx_cfg fx_rows fx_series (Some fx_funding) None = Inr rep
     \<and> rep_clean rep \<and> rep_verdict rep = VPass"
  by (rule cross_check_passes[OF fx_obs_ok _ _ fx_nan_free]) (simp_all add: fx_cfg_fields fx_run)

text \<open>
  C2. In the scope of the previous property (zero-padded timestamps with or without a trailing
  \<open>Z\<close>, active symbols as lists of strings, no other initial equity than the configuration's),
  engine and replay either both raise the same exception, or both return, with equal fills, funding
  charges, positions, equity rows and deferral, and trade by trade equal columns, where the two nets
  come from the same unrounded gross, fees and funding: the engine subtracts the rounded components
  and rounds, the replay subtracts the unrounded ones and rounds once.
\<close>

theorem engine_replay_equivalence:
  assumes "list_all obs_ok rows" "boundary_ts (forward_start_ts cfg)"
    and "initial_override = None \<or> initial_override = Some (initial_equity_usd cfg)"
  shows "rel_sum (=) rows_agree (run_engine cfg rows series df (new_state initial))
    (run_replay cfg rows series df initial_override [])"
  using assms by (rule engine_replay_agree)

theorem engine_replay_equivalence_witness:
  "rel_sum (=) rows_agree (run_engine fx_cfg fx_rows fx_series (Some fx_funding) (new_state (PFin 1000)))
    (run_replay fx_cfg fx_rows fx_series (Some fx_funding) None [])"
  by (rule engine_replay_equivalence[OF fx_obs_ok]) simp

end
