(* ===== verification/EngineLedger.thy ===== *)
theory EngineLedger
  imports Fixture
begin

text \<open>
  What every run of the paper engine guarantees of its ledger. An invariant of the ledger is an
  interpretation of the locale \<open>ledger_invariant\<close>, whose laws speak about the single steps of a
  bar; the run-level facts then come from the locale.
\<close>

definition open_keys :: "engine_result \<Rightarrow> string set" where
  "open_keys r = set (dict_keys (open_positions (er_state r)))"

section \<open>The invariant contract\<close>

locale ledger_invariant =
  fixes cfg :: engine_config and pb :: price_book and fidx :: funding_index
    and Inv :: "engine_result \<Rightarrow> bool"
      \<comment> \<open>between bars\<close>
    and Pre :: "string \<Rightarrow> engine_result \<Rightarrow> bool"
      \<comment> \<open>inside the bar, before its equity row is written\<close>
    and Post :: "string \<Rightarrow> string set \<Rightarrow> engine_result \<Rightarrow> bool"
      \<comment> \<open>inside the bar, after it, with the symbols filled so far\<close>
  assumes start: "Inv r \<Longrightarrow> er_deferred_bar_ts r = None \<Longrightarrow> watermark_bar_ts (er_state r) < ts \<Longrightarrow> Pre ts r"
    and hold: "Pre ts r \<Longrightarrow> hold_funding_step pb fidx ts cid ws symbol r = Inr r' \<Longrightarrow> Pre ts r'"
    and exit_funding: "Pre ts r \<Longrightarrow> exit_funding_step pb fidx ts cid nxt symbol r = Inr r' \<Longrightarrow> Pre ts r'"
    and snapshot: "Pre ts r \<Longrightarrow> Post ts {} (snapshot_bar cfg pb ts cid r)"
    and exit_fill: "Post ts D r \<Longrightarrow> symbol \<notin> D \<Longrightarrow> dict_get nxt symbol = next_bar pb symbol ts \<Longrightarrow>
      exit_fill_step cfg ts cid nxt symbol r = Inr r' \<Longrightarrow> Post ts (insert symbol D) r'"
    and entry_fill: "Post ts D r \<Longrightarrow> symbol \<notin> D \<Longrightarrow> dict_get nxt symbol = next_bar pb symbol ts \<Longrightarrow>
      symbol \<notin> open_keys r \<Longrightarrow>
      entry_fill_step cfg ts cid nxt symbol r = Inr r' \<Longrightarrow> Post ts (insert symbol D) r'"
    and finish: "Post ts D r \<Longrightarrow> Inv (r\<lparr>er_state := (er_state r)\<lparr>watermark_bar_ts := ts\<rparr>\<rparr>)"
    and postpone: "Inv r \<Longrightarrow> watermark_bar_ts (er_state r) < ts \<Longrightarrow> Inv (r\<lparr>er_deferred_bar_ts := Some ts\<rparr>)"

lemma resolve_next_get:
  "resolve_next pb ts syms = Some nxt \<Longrightarrow> symbol \<in> set syms \<Longrightarrow> dict_get nxt symbol = next_bar pb symbol ts"
  by (induction syms arbitrary: nxt) (auto split: option.splits)

text \<open>
  The frame of the two funding loops: they append funding rows and touch one position's accrued
  funding and holding counter, and the funding accumulator.
\<close>

definition same_entry :: "position \<Rightarrow> position \<Rightarrow> bool" where
  "same_entry p q \<longleftrightarrow> entry_fill_id p = entry_fill_id q \<and> entry_price p = entry_price q \<and> qty p = qty q
     \<and> entry_bar_ts p = entry_bar_ts q \<and> entry_fill_ts p = entry_fill_ts q \<and> entry_fee p = entry_fee q"

definition funding_row_from :: "funding_index \<Rightarrow> string \<Rightarrow> string \<Rightarrow> funding_row \<Rightarrow> bool" where
  \<comment> \<open>the row's rate, count and availability are those of the index over the row's own window\<close>
  "funding_row_from fidx symbol ts w \<longleftrightarrow> fu_symbol w = symbol \<and> fu_bar_ts w = ts
     \<and> (case funding_in_interval fidx symbol (fu_window_start w) (fu_window_end w) of (rate, n, available) \<Rightarrow>
          fu_funding_rate w = fl_round 12 rate \<and> fu_funding_events w = n \<and> fu_rate_available w = available)"

lemma make_funding_row_from:
  "funding_row_from fidx symbol ts (make_funding_row fid symbol ts cid start end_ts notional
     (funding_in_interval fidx symbol start end_ts) amount)"
  by (simp add: funding_row_from_def make_funding_row_def split_beta)

lemma make_funding_row_window:
  "fu_window_start (make_funding_row fid symbol ts cid start end_ts notional accr amount) = start"
  "fu_window_end (make_funding_row fid symbol ts cid start end_ts notional accr amount) = end_ts"
  by (simp_all add: make_funding_row_def split_beta)

lemma hold_stepE:
  assumes "hold_funding_step pb fidx ts cid ws symbol r = Inr r'"
  obtains pos pos' f rows where "dict_get (open_positions (er_state r)) symbol = Some pos"
    "same_entry pos pos'" "list_all (\<lambda>w. funding_row_from fidx symbol ts w
       \<and> fu_window_start w = max ws (entry_fill_ts pos) \<and> fu_window_end w = ts
       \<and> fu_window_start w < fu_window_end w) rows"
    "r' = r\<lparr>er_state := (er_state r)\<lparr>open_positions := dict_set symbol pos' (open_positions (er_state r)),
       funding_cum := f\<rparr>, er_funding := er_funding r @ rows\<rparr>"
proof -
  from assms obtain pos where pos: "dict_get (open_positions (er_state r)) symbol = Some pos"
    by (auto simp: hold_funding_step_def rbind_Inr_iff)
  show ?thesis
  proof (cases "ts \<le> max ws (entry_fill_ts pos)")
    case True
    then show ?thesis using assms pos
      by (intro that[of pos "pos\<lparr>hold_bars := hold_bars pos + 1\<rparr>" "[]" "funding_cum (er_state r)"])
        (auto simp: hold_funding_step_def lookup_def Let_def same_entry_def)
  next
    case False
    define accr where "accr = funding_in_interval fidx symbol (max ws (entry_fill_ts pos)) ts"
    define notional where "notional = fl_mul (qty pos)
      (case close_at pb symbol ts of Some c \<Rightarrow> c | None \<Rightarrow> entry_price pos)"
    define amount where "amount = (if snd (snd accr) then fl_mul notional (fst accr) else PFin 0)"
    have r': "r' = r\<lparr>er_state := (er_state r)\<lparr>open_positions := dict_set symbol
        (pos\<lparr>hold_bars := hold_bars pos + 1, funding_accrued := fl_add (funding_accrued pos) amount\<rparr>)
          (open_positions (er_state r)), funding_cum := fl_add (funding_cum (er_state r)) amount\<rparr>,
      er_funding := er_funding r @ [make_funding_row (symbol @ ''|'' @ ts) symbol ts cid
        (max ws (entry_fill_ts pos)) ts notional accr amount]\<rparr>"
      using assms pos False
      by (simp add: hold_funding_step_def lookup_def Let_def accrue_def amount_def notional_def accr_def
        cong: if_cong option.case_cong)
    show ?thesis
      by (rule that[OF pos _ _ r'])
        (use False in \<open>simp_all add: not_le same_entry_def accr_def make_funding_row_from make_funding_row_window\<close>)
  qed
qed

lemma exit_funding_stepE:
  assumes "exit_funding_step pb fidx ts cid nxt symbol r = Inr r'"
  obtains pos pos' f w next_ts o1 where "dict_get (open_positions (er_state r)) symbol = Some pos"
    "dict_get nxt symbol = Some (next_ts, o1)" "same_entry pos pos'" "funding_row_from fidx symbol ts w"
    "fu_window_start w = ts" "fu_window_end w = next_ts"
    "r' = r\<lparr>er_state := (er_state r)\<lparr>open_positions := dict_set symbol pos' (open_positions (er_state r)),
       funding_cum := f\<rparr>, er_funding := er_funding r @ [w]\<rparr>"
proof -
  from assms obtain pos next_ts o1 where p: "dict_get (open_positions (er_state r)) symbol = Some pos"
    and n: "dict_get nxt symbol = Some (next_ts, o1)"
    by (auto simp: exit_funding_step_def rbind_Inr_iff)
  define amount where "amount = (if snd (snd (funding_in_interval fidx symbol ts next_ts))
    then fl_mul (fl_mul (qty pos) (case close_at pb symbol next_ts of Some c \<Rightarrow> c | None \<Rightarrow> entry_price pos))
      (fst (funding_in_interval fidx symbol ts next_ts)) else PFin 0)"
  have r': "r' = r\<lparr>er_state := (er_state r)\<lparr>open_positions := dict_set symbol
        (pos\<lparr>funding_accrued := fl_add (funding_accrued pos) amount\<rparr>) (open_positions (er_state r)),
        funding_cum := fl_add (funding_cum (er_state r)) amount\<rparr>,
      er_funding := er_funding r @ [make_funding_row (symbol @ ''|'' @ ts @ ''|exit'') symbol ts cid ts next_ts
        (fl_mul (qty pos) (case close_at pb symbol next_ts of Some c \<Rightarrow> c | None \<Rightarrow> entry_price pos))
        (funding_in_interval fidx symbol ts next_ts) amount]\<rparr>"
    using assms p n by (simp add: exit_funding_step_def lookup_def Let_def accrue_def amount_def)
  show ?thesis
    by (rule that[OF p n _ make_funding_row_from make_funding_row_window r']) (simp add: same_entry_def)
qed

lemma exit_fill_stepE:
  assumes "exit_fill_step cfg ts cid nxt symbol r = Inr r'"
  obtains pos next_ts o1 price fee gross t fees realized where
    "dict_get nxt symbol = Some (next_ts, o1)" "dict_get (open_positions (er_state r)) symbol = Some pos"
    "price = fl_mul o1 (fl_sub (PFin 1) (rt_slip (config_rates cfg)))"
    "tr_symbol t = symbol" "tr_exit_bar_ts t = ts" "tr_entry_bar_ts t = entry_bar_ts pos"
    "tr_entry_fill_id t = entry_fill_id pos" "tr_exit_fill_id t = fill_id symbol ts ''SELL'' ''exit''"
    "tr_gross_pnl t = round8 gross" "tr_fees t = round8 (fl_add (entry_fee pos) fee)"
    "tr_funding t = round8 (funding_accrued pos)"
    "tr_net_pnl t = canonical_net_pnl gross (fl_add (entry_fee pos) fee) (funding_accrued pos)"
    "r' = r\<lparr>er_state := (er_state r)\<lparr>open_positions := dict_pop symbol (open_positions (er_state r)),
         fees_cum := fees, realized_gross := realized\<rparr>,
       er_fills := er_fills r @ [make_fill_row cfg cid ts next_ts symbol ''SELL'' ''exit'' (qty pos) o1 price fee],
       er_trades := er_trades r @ [t]\<rparr>"
proof -
  from assms obtain pos next_ts o1 where p: "dict_get nxt symbol = Some (next_ts, o1)"
    "dict_get (open_positions (er_state r)) symbol = Some pos"
    by (auto simp: exit_fill_step_def rbind_Inr_iff Let_def)
  show ?thesis
    by (rule that[OF p _ _ _ _ _ _ _ _ _ _
        assms[unfolded exit_fill_step_def Let_def lookup_def p of_option_simps rbind_simps prod.case sum.inject, symmetric]])
      simp_all
qed

lemma entry_fill_stepE:
  assumes "entry_fill_step cfg ts cid nxt symbol r = Inr r'"
  obtains q next_ts o1 price fee fees where
    "dict_get nxt symbol = Some (next_ts, o1)"
    "price = fl_mul o1 (fl_add (PFin 1) (rt_slip (config_rates cfg)))"
    "r' = r\<lparr>er_state := (er_state r)\<lparr>open_positions := dict_set symbol
          \<lparr>entry_fill_id = fill_id symbol ts ''BUY'' ''entry'', entry_price = price, qty = q,
           entry_bar_ts = ts, entry_fill_ts = next_ts, funding_accrued = PFin 0, entry_fee = fee,
           hold_bars = 0\<rparr> (open_positions (er_state r)), fees_cum := fees\<rparr>,
       er_fills := er_fills r @ [make_fill_row cfg cid ts next_ts symbol ''BUY'' ''entry'' q o1 price fee]\<rparr>"
  using assms by (auto simp: entry_fill_step_def rbind_Inr_iff Let_def)

lemma open_keys_step:
  "hold_funding_step pb fidx ts cid ws symbol r = Inr r' \<Longrightarrow> open_keys r' = open_keys r"
  "exit_funding_step pb fidx ts cid nxt symbol r = Inr r' \<Longrightarrow> open_keys r' = open_keys r"
  "exit_fill_step cfg ts cid nxt symbol r = Inr r' \<Longrightarrow> open_keys r' = open_keys r - {symbol}"
  "entry_fill_step cfg ts cid nxt symbol r = Inr r' \<Longrightarrow> open_keys r' = insert symbol (open_keys r)"
proof -
  note absorb = dict_get_in_keys[THEN insert_absorb]
  show "hold_funding_step pb fidx ts cid ws symbol r = Inr r' \<Longrightarrow> open_keys r' = open_keys r"
    by (erule hold_stepE) (drule absorb, simp add: open_keys_def)
  show "exit_funding_step pb fidx ts cid nxt symbol r = Inr r' \<Longrightarrow> open_keys r' = open_keys r"
    by (erule exit_funding_stepE) (drule absorb, simp add: open_keys_def)
  show "exit_fill_step cfg ts cid nxt symbol r = Inr r' \<Longrightarrow> open_keys r' = open_keys r - {symbol}"
    by (erule exit_fill_stepE) (simp add: open_keys_def)
  show "entry_fill_step cfg ts cid nxt symbol r = Inr r' \<Longrightarrow> open_keys r' = insert symbol (open_keys r)"
    by (erule entry_fill_stepE) (simp add: open_keys_def)
qed

lemma open_keys_snapshot [simp]:
  "open_positions (er_state (snapshot_bar cfg pb ts cid r)) = open_positions (er_state r)"
  "open_keys (snapshot_bar cfg pb ts cid r) = open_keys r"
  by (simp_all add: open_keys_def snapshot_bar_def Let_def split_beta)

text \<open>The open keys after each loop of a bar.\<close>

lemma open_keys_holds:
  "rfold (hold_funding_step pb fidx ts cid ws) syms r = Inr r' \<Longrightarrow>
     open_keys r' = open_keys r"
  using rfold_invariant[where P = "\<lambda>a. open_keys a = open_keys r"] open_keys_step(1) by metis

lemma open_keys_exit_fundings:
  "rfold (exit_funding_step pb fidx ts cid nxt) syms r = Inr r' \<Longrightarrow>
     open_keys r' = open_keys r"
  using rfold_invariant[where P = "\<lambda>a. open_keys a = open_keys r"] open_keys_step(2) by metis

lemma open_keys_exits:
  "rfold (exit_fill_step cfg ts cid nxt) syms r = Inr r' \<Longrightarrow>
     open_keys r' = open_keys r - set syms"
  by (induction syms arbitrary: r) (auto simp: rbind_Inr_iff dest!: open_keys_step(3))

lemma open_keys_entries:
  "rfold (entry_fill_step cfg ts cid nxt) syms r = Inr r' \<Longrightarrow>
     open_keys r' = open_keys r \<union> set syms"
  by (induction syms arbitrary: r) (auto simp: rbind_Inr_iff dest!: open_keys_step(4))

text \<open>The stages of a bar that was processed.\<close>

lemma process_barE:
  assumes "process_bar cfg pb fidx row ts r = Inr (Some r')"
  obtains cid desired nxt ws r1 r2 r3 r4 where
    "cid = bar_commit_id row ts (engine_version cfg) (config_hash cfg)"
    "obs_active row = Inr desired"
    "resolve_next pb ts (entries_of desired (er_state r) @ exits_of desired (er_state r)) = Some nxt"
    "interval_start ts (interval_hours_of cfg) = Inr ws"
    "rfold (hold_funding_step pb fidx ts cid ws) (sorted_set (dict_keys (open_positions (er_state r)))) r = Inr r1"
    "rfold (exit_funding_step pb fidx ts cid nxt) (exits_of desired (er_state r)) r1 = Inr r2"
    "rfold (exit_fill_step cfg ts cid nxt) (exits_of desired (er_state r)) (snapshot_bar cfg pb ts cid r2) = Inr r3"
    "rfold (entry_fill_step cfg ts cid nxt) (entries_of desired (er_state r)) r3 = Inr r4"
    "r' = r4\<lparr>er_state := (er_state r4)\<lparr>watermark_bar_ts := ts\<rparr>\<rparr>"
  using assms by (auto simp: process_bar_def Let_def result_simps split: option.splits)

lemma entries_exits_keys:
  "set (entries_of desired (er_state r)) = set desired - open_keys r"
  "set (exits_of desired (er_state r)) = open_keys r - set desired"
  by (simp_all add: open_keys_def entries_of_def exits_of_def)

lemma entries_exits_props:
  "distinct (entries_of desired st)" "distinct (exits_of desired st)"
  by (simp_all add: entries_of_def exits_of_def)

lemma step_frame:
  "hold_funding_step pb fidx ts cid ws symbol r = Inr r' \<Longrightarrow> er_deferred_bar_ts r' = er_deferred_bar_ts r"
  "exit_funding_step pb fidx ts cid nxt symbol r = Inr r' \<Longrightarrow> er_deferred_bar_ts r' = er_deferred_bar_ts r"
  "er_deferred_bar_ts (snapshot_bar cfg pb ts cid r) = er_deferred_bar_ts r"
  "exit_fill_step cfg ts cid nxt symbol r = Inr r' \<Longrightarrow> er_deferred_bar_ts r' = er_deferred_bar_ts r"
  "entry_fill_step cfg ts cid nxt symbol r = Inr r' \<Longrightarrow> er_deferred_bar_ts r' = er_deferred_bar_ts r"
  by (auto elim!: hold_stepE exit_funding_stepE exit_fill_stepE entry_fill_stepE
    simp: snapshot_bar_def Let_def split_beta)

lemma rfold_frame:
  assumes "rfold f xs r = Inr r'" "\<And>x a b. f x a = Inr b \<Longrightarrow> g b = g a"
  shows "g r' = g r"
  by (rule rfold_invariant[where P = "\<lambda>a. g a = g r", OF assms(1)]) (simp_all add: assms(2))

lemma process_bar_frame:
  assumes "process_bar cfg pb fidx row ts r = Inr (Some r')"
  shows "er_deferred_bar_ts r' = er_deferred_bar_ts r" "watermark_bar_ts (er_state r') = ts"
proof -
  from assms show "er_deferred_bar_ts r' = er_deferred_bar_ts r"
    by (rule process_barE)
      (auto dest!: rfold_frame[where g = er_deferred_bar_ts] simp: step_frame)
  from assms show "watermark_bar_ts (er_state r') = ts" by (rule process_barE) simp
qed

context ledger_invariant
begin

lemma exit_fills:
  assumes "rfold (exit_fill_step cfg ts cid nxt) syms r = Inr r'" "Post ts D r" "distinct syms"
    and "set syms \<inter> D = {}" "\<And>s. s \<in> set syms \<Longrightarrow> dict_get nxt s = next_bar pb s ts"
  shows "Post ts (set syms \<union> D) r'"
  using assms
proof (induction syms arbitrary: r D)
  case (Cons s syms)
  from Cons.prems(1) obtain r1 where r1: "exit_fill_step cfg ts cid nxt s r = Inr r1"
    "rfold (exit_fill_step cfg ts cid nxt) syms r1 = Inr r'" by (auto simp: result_simps)
  have "Post ts (insert s D) r1" using exit_fill[OF Cons.prems(2) _ _ r1(1)] Cons.prems by auto
  from Cons.IH[OF r1(2) this] Cons.prems show ?case by auto
qed simp

lemma entry_fills:
  assumes "rfold (entry_fill_step cfg ts cid nxt) syms r = Inr r'" "Post ts D r" "distinct syms"
    and "set syms \<inter> D = {}" "\<And>s. s \<in> set syms \<Longrightarrow> dict_get nxt s = next_bar pb s ts"
    and "set syms \<inter> open_keys r = {}"
  shows "Post ts (set syms \<union> D) r'"
  using assms
proof (induction syms arbitrary: r D)
  case (Cons s syms)
  from Cons.prems(1) obtain r1 where r1: "entry_fill_step cfg ts cid nxt s r = Inr r1"
    "rfold (entry_fill_step cfg ts cid nxt) syms r1 = Inr r'" by (auto simp: result_simps)
  have "Post ts (insert s D) r1" using entry_fill[OF Cons.prems(2) _ _ _ r1(1)] Cons.prems by auto
  from Cons.IH[OF r1(2) this] Cons.prems open_keys_step(4)[OF r1(1)] show ?case by auto
qed simp

lemma bar_inv:
  assumes "process_bar cfg pb fidx row ts r = Inr (Some r')" "Inv r" "er_deferred_bar_ts r = None"
    and "watermark_bar_ts (er_state r) < ts"
  shows "Inv r'"
proof -
  from assms(1) obtain cid desired nxt ws r1 r2 r3 r4 where s:
    "resolve_next pb ts (entries_of desired (er_state r) @ exits_of desired (er_state r)) = Some nxt"
    "rfold (hold_funding_step pb fidx ts cid ws) (sorted_set (dict_keys (open_positions (er_state r)))) r = Inr r1"
    "rfold (exit_funding_step pb fidx ts cid nxt) (exits_of desired (er_state r)) r1 = Inr r2"
    "rfold (exit_fill_step cfg ts cid nxt) (exits_of desired (er_state r)) (snapshot_bar cfg pb ts cid r2) = Inr r3"
    "rfold (entry_fill_step cfg ts cid nxt) (entries_of desired (er_state r)) r3 = Inr r4"
    "r' = r4\<lparr>er_state := (er_state r4)\<lparr>watermark_bar_ts := ts\<rparr>\<rparr>" by (rule process_barE)
  have "Pre ts r1" by (rule rfold_invariant[where P = "Pre ts", OF s(2) start[OF assms(2,3,4)]]) (rule hold)
  then have "Pre ts r2" by (rule rfold_invariant[where P = "Pre ts", OF s(3)]) (rule exit_funding)
  then have "Post ts {} (snapshot_bar cfg pb ts cid r2)" by (rule snapshot)
  from exit_fills[OF s(4) this] have 3: "Post ts (set (exits_of desired (er_state r))) r3"
    using resolve_next_get[OF s(1)] by (simp add: entries_exits_props)
  have "open_keys r3 \<inter> set (entries_of desired (er_state r)) = {}"
    using open_keys_exits[OF s(4)] open_keys_exit_fundings[OF s(3)] open_keys_holds[OF s(2)]
    by (auto simp: entries_exits_props entries_exits_keys)
  with entry_fills[OF s(5) 3] have "Post ts (set (entries_of desired (er_state r)) \<union> set (exits_of desired (er_state r))) r4"
    using resolve_next_get[OF s(1)] by (auto simp: entries_exits_props entries_exits_keys)
  then show ?thesis unfolding s(6) by (rule finish)
qed

lemma loop_inv:
  "engine_loop cfg pb fidx rows r = Inr r' \<Longrightarrow> Inv r \<Longrightarrow> er_deferred_bar_ts r = None \<Longrightarrow> Inv r'"
proof (induction rows arbitrary: r)
  case (Cons row rows)
  then show ?case
    by (auto simp: result_simps not_le split: if_splits option.splits
      intro: postpone bar_inv Cons.IH[OF _ bar_inv] process_bar_frame(1)[THEN trans])
qed simp

lemma run_inv:
  assumes "run_engine cfg rows series df st = Inr r" "Inv (empty_result st)"
    and "pb = make_price_book series" "fidx = build_funding_index df"
  shows "Inv r"
  using assms loop_inv[of _ "empty_result st" r] by (auto simp: run_engine_def result_simps empty_result_def)

end

section \<open>Every trade satisfies the writer's identity\<close>

definition passes_net_gate :: "trade_row \<Rightarrow> bool" where
  \<comment> \<open>not \<open>ABS(net_pnl - (gross_pnl - fees - funding)) > 1e-8\<close>\<close>
  "passes_net_gate t \<longleftrightarrow> \<not> fl_lt (to_dbl (1 / 10 ^ 8))
     (fl_abs (fl_sub (tr_net_pnl t) (fl_sub (fl_sub (tr_gross_pnl t) (tr_fees t)) (tr_funding t))))"

lemma round8_wf: "wf_float (round8 x)"
  by (cases x) (simp_all add: round8_def)

lemma canonical_net_gate:
  "\<not> fl_lt (to_dbl (1 / 10 ^ 8)) (fl_abs (fl_sub (canonical_net_pnl gross fees funding)
     (fl_sub (fl_sub (round8 gross) (round8 fees)) (round8 funding))))"
  unfolding canonical_net_pnl_def
  by (subst round8_def) (rule fl_round_residual, simp add: fl_sub_def round8_wf)

abbreviation all_gated :: "engine_result \<Rightarrow> bool" where
  "all_gated r \<equiv> list_all passes_net_gate (er_trades r)"

interpretation net_gate: ledger_invariant cfg pb fidx all_gated "\<lambda>_. all_gated" "\<lambda>_ _. all_gated"
  by unfold_locales
    (auto elim!: hold_stepE exit_funding_stepE exit_fill_stepE entry_fill_stepE
      simp: snapshot_bar_def Let_def split_beta passes_net_gate_def canonical_net_gate[simplified])

lemma engine_trades_gated:
  "run_engine cfg rows series df st = Inr r \<Longrightarrow> list_all passes_net_gate (er_trades r)"
  by (rule net_gate.run_inv) (simp_all add: empty_result_def)

section \<open>One snapshot per bar, in time order, up to the deferral\<close>

definition rows_bounded :: "string \<Rightarrow> engine_result \<Rightarrow> bool" where
  \<comment> \<open>no row belongs to a bar after the given one\<close>
  "rows_bounded ts r \<longleftrightarrow> list_all (\<lambda>e. eq_bar_ts e \<le> ts) (er_equity r)
     \<and> list_all (\<lambda>f. fr_signal_bar_ts f \<le> ts) (er_fills r)
     \<and> list_all (\<lambda>t. tr_exit_bar_ts t \<le> ts) (er_trades r)
     \<and> list_all (\<lambda>w. fu_bar_ts w \<le> ts) (er_funding r)"

definition snapshots_ordered :: "engine_result \<Rightarrow> bool" where
  "snapshots_ordered r \<longleftrightarrow> sorted_wrt (<) (map eq_bar_ts (er_equity r))
     \<and> map po_bar_ts (er_positions r) = map eq_bar_ts (er_equity r)
     \<and> list_all (\<lambda>p. po_num_open p = length (po_open_symbols p)) (er_positions r)
     \<and> dict_ok (open_positions (er_state r))"

definition bars_inv :: "engine_result \<Rightarrow> bool" where
  "bars_inv r \<longleftrightarrow> rows_bounded (watermark_bar_ts (er_state r)) r \<and> snapshots_ordered r
     \<and> (case er_deferred_bar_ts r of None \<Rightarrow> True | Some d \<Rightarrow> watermark_bar_ts (er_state r) < d)"

definition bars_pre :: "string \<Rightarrow> engine_result \<Rightarrow> bool" where
  "bars_pre ts r \<longleftrightarrow> rows_bounded ts r \<and> snapshots_ordered r \<and> list_all (\<lambda>e. eq_bar_ts e < ts) (er_equity r)
     \<and> er_deferred_bar_ts r = None"

definition bars_post :: "string \<Rightarrow> string set \<Rightarrow> engine_result \<Rightarrow> bool" where
  "bars_post ts D r \<longleftrightarrow> rows_bounded ts r \<and> snapshots_ordered r \<and> er_deferred_bar_ts r = None"

lemmas bars_defs = bars_inv_def bars_pre_def bars_post_def rows_bounded_def snapshots_ordered_def

lemma make_fill_row_fields [simp]:
  "fr_signal_bar_ts (make_fill_row cfg cid ts nts symbol side kind q o1 p fee) = ts"
  "fr_fill_ts (make_fill_row cfg cid ts nts symbol side kind q o1 p fee) = nts"
  "fr_symbol (make_fill_row cfg cid ts nts symbol side kind q o1 p fee) = symbol"
  "fr_side (make_fill_row cfg cid ts nts symbol side kind q o1 p fee) = side"
  "fr_kind (make_fill_row cfg cid ts nts symbol side kind q o1 p fee) = kind"
  "fr_open_price (make_fill_row cfg cid ts nts symbol side kind q o1 p fee) = fl_round 8 o1"
  "fr_fill_id (make_fill_row cfg cid ts nts symbol side kind q o1 p fee) = fill_id symbol ts side kind"
  by (simp_all add: make_fill_row_def)

lemma length_sorted_set: "distinct xs \<Longrightarrow> length (sorted_set xs) = length xs"
  by (simp add: sorted_set_def distinct_remdups_id)

interpretation bar_order: ledger_invariant cfg pb fidx bars_inv bars_pre bars_post
proof
  fix r ts assume "bars_inv r" "er_deferred_bar_ts r = None" "watermark_bar_ts (er_state r) < ts"
  then show "bars_pre ts r" by (force simp: bars_defs list_all_iff)
next
  fix ts r cid ws symbol r' assume "bars_pre ts r" "hold_funding_step pb fidx ts cid ws symbol r = Inr r'"
  then show "bars_pre ts r'"
    by (auto elim!: hold_stepE simp: bars_defs list_all_iff funding_row_from_def)
next
  fix ts r cid nxt symbol r' assume "bars_pre ts r" "exit_funding_step pb fidx ts cid nxt symbol r = Inr r'"
  then show "bars_pre ts r'"
    by (auto elim!: exit_funding_stepE simp: bars_defs list_all_iff funding_row_from_def)
next
  fix ts r cid assume "bars_pre ts r"
  then show "bars_post ts {} (snapshot_bar cfg pb ts cid r)"
    by (auto simp: snapshot_bar_def Let_def split_beta bars_defs list_all_iff sorted_wrt_append length_sorted_set)
next
  fix ts D r symbol cid nxt r' assume "bars_post ts D r" "exit_fill_step cfg ts cid nxt symbol r = Inr r'"
  then show "bars_post ts (insert symbol D) r'" by (auto elim!: exit_fill_stepE simp: bars_defs)
next
  fix ts D r symbol cid nxt r' assume "bars_post ts D r" "entry_fill_step cfg ts cid nxt symbol r = Inr r'"
  then show "bars_post ts (insert symbol D) r'" by (auto elim!: entry_fill_stepE simp: bars_defs)
next
  fix ts D r assume "bars_post ts D r"
  then show "bars_inv (r\<lparr>er_state := (er_state r)\<lparr>watermark_bar_ts := ts\<rparr>\<rparr>)" by (simp add: bars_defs)
next
  fix r ts assume "bars_inv r" "watermark_bar_ts (er_state r) < ts"
  then show "bars_inv (r\<lparr>er_deferred_bar_ts := Some ts\<rparr>)" by (auto simp: bars_defs)
qed

lemma engine_bars:
  "run_engine cfg rows series df st = Inr r \<Longrightarrow> dict_ok (open_positions st) \<Longrightarrow> bars_inv r"
  by (rule bar_order.run_inv) (simp_all add: bars_defs empty_result_def)

section \<open>Fills at the next bar's open, at most one per symbol and bar\<close>

definition slipped :: "engine_config \<Rightarrow> string \<Rightarrow> pyfloat \<Rightarrow> pyfloat" where
  \<comment> \<open>the pessimistic price of a side: a buy pays the slippage on top, a sale gives it up\<close>
  "slipped cfg side open_price = fl_mul open_price
     (if side = ''BUY'' then fl_add (PFin 1) (rt_slip (config_rates cfg))
      else fl_sub (PFin 1) (rt_slip (config_rates cfg)))"

definition fills_next_open :: "engine_config \<Rightarrow> price_book \<Rightarrow> engine_result \<Rightarrow> bool" where
  "fills_next_open cfg pb r \<longleftrightarrow> list_all (\<lambda>f. \<exists>o1. next_bar pb (fr_symbol f) (fr_signal_bar_ts f) = Some (fr_fill_ts f, o1)
     \<and> fr_open_price f = fl_round 8 o1 \<and> fr_fill_price f = fl_round 8 (slipped cfg (fr_side f) o1)) (er_fills r)"

definition fill_slots :: "engine_result \<Rightarrow> (string \<times> string) list" where
  "fill_slots r = map (\<lambda>f. (fr_signal_bar_ts f, fr_symbol f)) (er_fills r)"

definition fills_inv :: "engine_config \<Rightarrow> price_book \<Rightarrow> engine_result \<Rightarrow> bool" where
  "fills_inv cfg pb r \<longleftrightarrow> fills_next_open cfg pb r \<and> distinct (fill_slots r)
     \<and> (\<forall>(t, s) \<in> set (fill_slots r). t \<le> watermark_bar_ts (er_state r))"

definition fills_pre :: "engine_config \<Rightarrow> price_book \<Rightarrow> string \<Rightarrow> engine_result \<Rightarrow> bool" where
  "fills_pre cfg pb ts r \<longleftrightarrow> fills_next_open cfg pb r \<and> distinct (fill_slots r)
     \<and> (\<forall>(t, s) \<in> set (fill_slots r). t < ts)"

definition fills_post :: "engine_config \<Rightarrow> price_book \<Rightarrow> string \<Rightarrow> string set \<Rightarrow> engine_result \<Rightarrow> bool" where
  "fills_post cfg pb ts D r \<longleftrightarrow> fills_next_open cfg pb r \<and> distinct (fill_slots r)
     \<and> (\<forall>(t, s) \<in> set (fill_slots r). t \<le> ts \<and> (t = ts \<longrightarrow> s \<in> D))"

lemmas fills_defs = fills_inv_def fills_pre_def fills_post_def fills_next_open_def fill_slots_def

lemma fills_post_extend:
  "fills_post cfg pb ts D r \<Longrightarrow> symbol \<notin> D \<Longrightarrow> next_bar pb symbol ts = Some (fr_fill_ts f, o1) \<Longrightarrow>
   fr_open_price f = fl_round 8 o1 \<Longrightarrow> fr_fill_price f = fl_round 8 (slipped cfg (fr_side f) o1) \<Longrightarrow> fr_signal_bar_ts f = ts \<Longrightarrow> fr_symbol f = symbol \<Longrightarrow>
   er_fills r' = er_fills r @ [f] \<Longrightarrow> fills_post cfg pb ts (insert symbol D) r'"
  by (auto simp: fills_defs)

interpretation next_open: ledger_invariant cfg pb fidx "fills_inv cfg pb" "fills_pre cfg pb" "fills_post cfg pb"
proof
  fix r ts assume "fills_inv cfg pb r" "watermark_bar_ts (er_state r) < ts"
  then show "fills_pre cfg pb ts r" by (force simp: fills_defs)
next
  fix ts r cid ws symbol r' assume "fills_pre cfg pb ts r" "hold_funding_step pb fidx ts cid ws symbol r = Inr r'"
  then show "fills_pre cfg pb ts r'" by (auto elim!: hold_stepE simp: fills_defs)
next
  fix ts r cid nxt symbol r' assume "fills_pre cfg pb ts r" "exit_funding_step pb fidx ts cid nxt symbol r = Inr r'"
  then show "fills_pre cfg pb ts r'" by (auto elim!: exit_funding_stepE simp: fills_defs)
next
  fix ts r cid assume "fills_pre cfg pb ts r"
  then show "fills_post cfg pb ts {} (snapshot_bar cfg pb ts cid r)"
    by (force simp: snapshot_bar_def Let_def split_beta fills_defs)
next
  fix ts D r symbol cid nxt r'
  assume "fills_post cfg pb ts D r" "symbol \<notin> D" "dict_get nxt symbol = next_bar pb symbol ts"
    "exit_fill_step cfg ts cid nxt symbol r = Inr r'"
  then show "fills_post cfg pb ts (insert symbol D) r'" by (elim exit_fill_stepE) (rule fills_post_extend; simp add: slipped_def make_fill_row_def)
next
  fix ts D r symbol cid nxt r'
  assume "fills_post cfg pb ts D r" "symbol \<notin> D" "dict_get nxt symbol = next_bar pb symbol ts"
    "entry_fill_step cfg ts cid nxt symbol r = Inr r'"
  then show "fills_post cfg pb ts (insert symbol D) r'" by (elim entry_fill_stepE) (rule fills_post_extend; simp add: slipped_def make_fill_row_def)
next
  fix ts D r assume "fills_post cfg pb ts D r"
  then show "fills_inv cfg pb (r\<lparr>er_state := (er_state r)\<lparr>watermark_bar_ts := ts\<rparr>\<rparr>)" by (auto simp: fills_defs)
next
  fix r ts assume "fills_inv cfg pb r" "watermark_bar_ts (er_state r) < ts"
  then show "fills_inv cfg pb (r\<lparr>er_deferred_bar_ts := Some ts\<rparr>)" by (auto simp: fills_defs)
qed

lemma engine_fills:
  "run_engine cfg rows series df st = Inr r \<Longrightarrow> fills_inv cfg (make_price_book series) r"
  by (rule next_open.run_inv) (simp_all add: fills_defs empty_result_def)

text \<open>The position of a bar is the last one with its timestamp, as in a dict comprehension.\<close>

lemma index_fold_get:
  "dict_get (fold (\<lambda>(i, b) ix. dict_set (bar_timestamp b) i ix) (enumerate n bars) ix) ts = Some k \<Longrightarrow>
   (n \<le> k \<and> k < n + length bars \<and> bar_timestamp (bars ! (k - n)) = ts
      \<and> (\<forall>j < length bars. k - n < j \<longrightarrow> bar_timestamp (bars ! j) \<noteq> ts))
   \<or> (dict_get ix ts = Some k \<and> list_all (\<lambda>b. bar_timestamp b \<noteq> ts) bars)"
proof (induction bars arbitrary: n ix)
  case (Cons b bars)
  from Cons.prems have "dict_get (fold (\<lambda>(i, b) ix. dict_set (bar_timestamp b) i ix) (enumerate (Suc n) bars)
    (dict_set (bar_timestamp b) n ix)) ts = Some k" by simp
  from Cons.IH[OF this] show ?case
  proof (elim disjE conjE)
    assume k: "Suc n \<le> k" "k < Suc n + length bars" "bar_timestamp (bars ! (k - Suc n)) = ts"
      "\<forall>j < length bars. k - Suc n < j \<longrightarrow> bar_timestamp (bars ! j) \<noteq> ts"
    have "bar_timestamp ((b # bars) ! j) \<noteq> ts" if "j < length (b # bars)" "k - n < j" for j
      using k(4)[rule_format, of "j - 1"] that k(1) by (cases j) auto
    moreover have "(b # bars) ! (k - n) = bars ! (k - Suc n)" using k(1) by (simp add: nth_Cons' Suc_diff_le)
    ultimately show ?thesis using k by auto
  next
    assume "dict_get (dict_set (bar_timestamp b) n ix) ts = Some k" "list_all (\<lambda>b. bar_timestamp b \<noteq> ts) bars"
    then show ?thesis by (cases "bar_timestamp b = ts") (auto simp: dict_get_set list_all_length nth_Cons')
  qed
qed simp

lemma index_bars_get:
  assumes "dict_get (index_bars bars) ts = Some i"
  shows "i < length bars" "bar_timestamp (bars ! i) = ts"
    and "\<And>j. j < length bars \<Longrightarrow> i < j \<Longrightarrow> bar_timestamp (bars ! j) \<noteq> ts"
  using index_fold_get[OF assms[unfolded index_bars_def]] by auto

lemma book_index_get:
  assumes "dict_ok series"
  shows "dict_get (pb_index (make_price_book series)) s = map_option index_bars (dict_get series s)"
proof -
  have "dict_get (fold (\<lambda>(symbol, bars) ix. dict_set symbol (index_bars bars) ix) series ix) s =
    (case dict_get series s of None \<Rightarrow> dict_get ix s | Some bars \<Rightarrow> Some (index_bars bars))" for ix
    using assms
  proof (induction series arbitrary: ix)
    case (Cons sb series)
    obtain k bars where sb: "sb = (k, bars)" by (cases sb)
    have "dict_get series k = None" using Cons.prems sb by (simp add: dict_get_None_iff)
    then show ?case using Cons sb by (auto simp: dict_get_set split: option.split)
  qed simp
  from this[of "[]"] show ?thesis by (simp add: make_price_book_def split: option.split)
qed

lemma next_bar_series:
  assumes "dict_ok series" "next_bar (make_price_book series) s ts = Some (t, p)"
  obtains bars i where "dict_get series s = Some bars" "Suc i < length bars" "bar_timestamp (bars ! i) = ts"
    "\<And>j. j < length bars \<Longrightarrow> i < j \<Longrightarrow> bar_timestamp (bars ! j) \<noteq> ts"
    "t = bar_timestamp (bars ! Suc i)" "p = bar_open (bars ! Suc i)"
proof -
  from assms(2) obtain bars i where b: "dict_get series s = Some bars" "dict_get (index_bars bars) ts = Some i"
      "Suc i < length bars" "t = bar_timestamp (bars ! Suc i)" "p = bar_open (bars ! Suc i)"
    by (auto simp: next_bar_def index_at_def book_index_get[OF assms(1)] bind_eq_Some_conv split: if_splits)
      (simp add: make_price_book_def)
  show ?thesis using that[OF b(1,3) index_bars_get(2,3)[OF b(2)] b(4,5)] .
qed

section \<open>Long-only round trips\<close>

definition sides_of :: "engine_result \<Rightarrow> string \<Rightarrow> string list" where
  "sides_of r s = map fr_side (filter (\<lambda>f. fr_symbol f = s) (er_fills r))"

definition trips_of :: "engine_result \<Rightarrow> string \<Rightarrow> nat" where
  "trips_of r s = length (filter (\<lambda>t. tr_symbol t = s) (er_trades r))"

definition round_trips :: "engine_result \<Rightarrow> bool" where
  \<comment> \<open>a symbol's fills are buy, sell, buy, sell, ... : one pair per trade, and one more buy if it is open\<close>
  "round_trips r \<longleftrightarrow> (\<forall>s. sides_of r s = concat (replicate (trips_of r s) [''BUY'', ''SELL''])
     @ (if s \<in> open_keys r then [''BUY''] else []))"

lemma concat_replicate_snoc: "concat (replicate (Suc n) xs) = concat (replicate n xs) @ xs"
  by (induction n) simp_all

lemma round_trips_frame:
  "er_fills r' = er_fills r \<Longrightarrow> er_trades r' = er_trades r \<Longrightarrow> open_keys r' = open_keys r \<Longrightarrow>
   round_trips r \<Longrightarrow> round_trips r'"
  by (simp add: round_trips_def sides_of_def trips_of_def)

lemma hold_step_rows:
  assumes "hold_funding_step pb fidx ts cid ws symbol r = Inr r'"
  shows "er_fills r' = er_fills r" "er_trades r' = er_trades r" "open_keys r' = open_keys r"
  using assms open_keys_step(1)[OF assms] by (auto elim!: hold_stepE)

lemma exit_funding_step_rows:
  assumes "exit_funding_step pb fidx ts cid nxt symbol r = Inr r'"
  shows "er_fills r' = er_fills r" "er_trades r' = er_trades r" "open_keys r' = open_keys r"
  using assms open_keys_step(2)[OF assms] by (auto elim!: exit_funding_stepE)

lemma snapshot_rows:
  "er_fills (snapshot_bar cfg pb ts cid r) = er_fills r" "er_trades (snapshot_bar cfg pb ts cid r) = er_trades r"
  "er_funding (snapshot_bar cfg pb ts cid r) = er_funding r"
  by (simp_all add: snapshot_bar_def Let_def split_beta)

lemma round_trips_exit:
  assumes "round_trips r" "exit_fill_step cfg ts cid nxt symbol r = Inr r'"
  shows "round_trips r'"
proof -
  from assms(2) have open_in: "symbol \<in> open_keys r"
    by (elim exit_fill_stepE) (drule dict_get_in_keys, simp add: open_keys_def)
  from assms(2) obtain f t where ft: "er_fills r' = er_fills r @ [f]" "er_trades r' = er_trades r @ [t]"
    "fr_symbol f = symbol" "fr_side f = ''SELL''" "tr_symbol t = symbol"
    by (elim exit_fill_stepE) simp
  show ?thesis using assms(1) open_in
    by (auto simp: round_trips_def sides_of_def trips_of_def ft open_keys_step(3)[OF assms(2)]
      concat_replicate_snoc simp del: replicate.simps concat.simps)
qed

lemma round_trips_entry:
  assumes "round_trips r" "entry_fill_step cfg ts cid nxt symbol r = Inr r'" "symbol \<notin> open_keys r"
  shows "round_trips r'"
proof -
  from assms(2) obtain f where ft: "er_fills r' = er_fills r @ [f]" "er_trades r' = er_trades r"
    "fr_symbol f = symbol" "fr_side f = ''BUY''"
    by (elim entry_fill_stepE) simp
  show ?thesis using assms(1,3)
    by (auto simp: round_trips_def sides_of_def trips_of_def ft open_keys_step(4)[OF assms(2)])
qed

interpretation trips: ledger_invariant cfg pb fidx round_trips "\<lambda>_. round_trips" "\<lambda>_ _. round_trips"
proof
  fix r ts assume "round_trips r" then show "round_trips r" .
next
  fix ts r cid ws symbol r' assume "round_trips r" "hold_funding_step pb fidx ts cid ws symbol r = Inr r'"
  then show "round_trips r'" using round_trips_frame hold_step_rows by metis
next
  fix ts r cid nxt symbol r' assume "round_trips r" "exit_funding_step pb fidx ts cid nxt symbol r = Inr r'"
  then show "round_trips r'" using round_trips_frame exit_funding_step_rows by metis
next
  fix ts r cid assume "round_trips r"
  then show "round_trips (snapshot_bar cfg pb ts cid r)"
    by (rule round_trips_frame[rotated 3]) (simp_all add: snapshot_rows)
next
  fix ts D r symbol cid nxt r' assume "round_trips r" "exit_fill_step cfg ts cid nxt symbol r = Inr r'"
  then show "round_trips r'" by (rule round_trips_exit)
next
  fix ts D r symbol cid nxt r'
  assume "round_trips r" "symbol \<notin> open_keys r" "entry_fill_step cfg ts cid nxt symbol r = Inr r'"
  then show "round_trips r'" by (blast intro: round_trips_entry)
qed (auto elim!: round_trips_frame[rotated 3] simp: open_keys_def)

lemma engine_round_trips:
  "run_engine cfg rows series df (new_state initial) = Inr r \<Longrightarrow> round_trips r"
  by (erule trips.run_inv) (simp_all add: round_trips_def sides_of_def trips_of_def open_keys_def
    empty_result_def new_state_def)

section \<open>Trades join their two fills\<close>

definition has_fill :: "engine_result \<Rightarrow> string \<Rightarrow> string \<Rightarrow> string \<Rightarrow> string \<Rightarrow> bool" where
  "has_fill r fid symbol side bar_ts \<longleftrightarrow> list_ex (\<lambda>f. fr_fill_id f = fid \<and> fr_symbol f = symbol
     \<and> fr_side f = side \<and> fr_signal_bar_ts f = bar_ts) (er_fills r)"

definition trades_join :: "engine_result \<Rightarrow> bool" where
  "trades_join r \<longleftrightarrow> list_all (\<lambda>t. has_fill r (tr_entry_fill_id t) (tr_symbol t) ''BUY'' (tr_entry_bar_ts t)
     \<and> has_fill r (tr_exit_fill_id t) (tr_symbol t) ''SELL'' (tr_exit_bar_ts t)
     \<and> tr_entry_bar_ts t < tr_exit_bar_ts t) (er_trades r)"

definition book_joins :: "(string \<Rightarrow> string \<Rightarrow> bool) \<Rightarrow> engine_result \<Rightarrow> bool" where
  \<comment> \<open>every open position has its buy, on a bar its symbol may have been bought on\<close>
  "book_joins ok r \<longleftrightarrow> (\<forall>s p. dict_get (open_positions (er_state r)) s = Some p \<longrightarrow>
     has_fill r (entry_fill_id p) s ''BUY'' (entry_bar_ts p) \<and> ok s (entry_bar_ts p))"

definition join_inv :: "engine_result \<Rightarrow> bool" where
  "join_inv r \<longleftrightarrow> trades_join r \<and> book_joins (\<lambda>_ b. b \<le> watermark_bar_ts (er_state r)) r"

definition join_pre :: "string \<Rightarrow> engine_result \<Rightarrow> bool" where
  "join_pre ts r \<longleftrightarrow> trades_join r \<and> book_joins (\<lambda>_ b. b < ts) r"

definition join_post :: "string \<Rightarrow> string set \<Rightarrow> engine_result \<Rightarrow> bool" where
  "join_post ts D r \<longleftrightarrow> trades_join r \<and> book_joins (\<lambda>s b. b \<le> ts \<and> (s \<notin> D \<longrightarrow> b < ts)) r"

lemma has_fill_append [simp]:
  "er_fills r' = er_fills r @ fs \<Longrightarrow> has_fill r fid s side b \<Longrightarrow> has_fill r' fid s side b"
  by (simp add: has_fill_def)

lemma trades_join_append:
  "trades_join r \<Longrightarrow> er_fills r' = er_fills r @ fs \<Longrightarrow> er_trades r' = er_trades r \<Longrightarrow> trades_join r'"
  by (auto simp: trades_join_def list_all_iff)

lemma book_joins_set:
  assumes "book_joins ok r" "dict_get (open_positions (er_state r)) s = Some p" "same_entry p p'"
    and "open_positions (er_state r') = dict_set s p' (open_positions (er_state r))" "er_fills r' = er_fills r"
  shows "book_joins ok r'"
proof -
  have "has_fill r (entry_fill_id p') s ''BUY'' (entry_bar_ts p') \<and> ok s (entry_bar_ts p')"
    using assms(1,2,3) unfolding book_joins_def same_entry_def by metis
  then show ?thesis using assms by (simp add: book_joins_def dict_get_set has_fill_def)
qed

interpretation joins: ledger_invariant cfg pb fidx join_inv join_pre join_post
proof
  fix r ts assume "join_inv r" "watermark_bar_ts (er_state r) < ts"
  then show "join_pre ts r" by (auto simp: join_inv_def join_pre_def book_joins_def intro: le_less_trans)
next
  fix ts r cid ws symbol r' assume "join_pre ts r" "hold_funding_step pb fidx ts cid ws symbol r = Inr r'"
  then show "join_pre ts r'" unfolding join_pre_def
    by (elim hold_stepE conjE) (intro conjI; (rule book_joins_set trades_join_append[where fs = "[]"]; simp))
next
  fix ts r cid nxt symbol r' assume "join_pre ts r" "exit_funding_step pb fidx ts cid nxt symbol r = Inr r'"
  then show "join_pre ts r'" unfolding join_pre_def
    by (elim exit_funding_stepE conjE) (intro conjI; (rule book_joins_set trades_join_append[where fs = "[]"]; simp))
next
  fix ts r cid assume "join_pre ts r"
  then show "join_post ts {} (snapshot_bar cfg pb ts cid r)"
    by (auto simp: join_pre_def join_post_def trades_join_def book_joins_def has_fill_def snapshot_rows
      intro: less_imp_le)
next
  fix ts D r symbol cid nxt r'
  assume "join_post ts D r" "symbol \<notin> D" "exit_fill_step cfg ts cid nxt symbol r = Inr r'"
  then show "join_post ts (insert symbol D) r'"
    by (elim exit_fill_stepE)
      (fastforce simp: join_post_def trades_join_def book_joins_def has_fill_def delete_conv' list_all_iff
        split: if_splits)
next
  fix ts D r symbol cid nxt r'
  assume "join_post ts D r" "entry_fill_step cfg ts cid nxt symbol r = Inr r'"
  then show "join_post ts (insert symbol D) r'"
    by (elim entry_fill_stepE)
      (auto simp: join_post_def trades_join_def book_joins_def has_fill_def dict_get_set list_all_iff)
next
  fix ts D r assume "join_post ts D r"
  then show "join_inv (r\<lparr>er_state := (er_state r)\<lparr>watermark_bar_ts := ts\<rparr>\<rparr>)"
    by (auto simp: join_post_def join_inv_def trades_join_def book_joins_def has_fill_def)
next
  fix r ts assume "join_inv r"
  then show "join_inv (r\<lparr>er_deferred_bar_ts := Some ts\<rparr>)"
    by (auto simp: join_inv_def trades_join_def book_joins_def has_fill_def)
qed

lemma engine_trades_join:
  "run_engine cfg rows series df (new_state initial) = Inr r \<Longrightarrow> join_inv r"
  by (erule joins.run_inv) (simp_all add: join_inv_def trades_join_def book_joins_def empty_result_def new_state_def)

section \<open>Properties\<close>

text \<open>
  C3. The canonical net of a trade always passes the equality gate of the SQLite writer and of the
  verifier, \<open>abs(net - (gross - fees - funding)) > 1e-8\<close> evaluated in binary floating point on the
  stored, rounded components: for all inputs, NaN and infinities included.
\<close>

theorem canonical_net_pnl_passes_gate:
  "\<not> fl_lt (to_dbl (1 / 10 ^ 8)) (fl_abs (fl_sub (canonical_net_pnl gross fees funding)
     (fl_sub (fl_sub (round8 gross) (round8 fees)) (round8 funding))))"
  by (rule canonical_net_gate)

text \<open>
  C8. Every trade row a run produces passes that gate on its own stored columns, from any starting
  state.
\<close>

theorem engine_trades_pass_gate:
  assumes "run_engine cfg rows series df st = Inr r"
  shows "list_all (\<lambda>t. \<not> fl_lt (to_dbl (1 / 10 ^ 8)) (fl_abs (fl_sub (tr_net_pnl t)
    (fl_sub (fl_sub (tr_gross_pnl t) (tr_fees t)) (tr_funding t))))) (er_trades r)"
  using engine_trades_gated[OF assms] unfolding passes_net_gate_def .

theorem engine_trades_pass_gate_witness:
  "er_trades fx_result \<noteq> [] \<and> list_all (\<lambda>t. \<not> fl_lt (to_dbl (1 / 10 ^ 8)) (fl_abs (fl_sub (tr_net_pnl t)
    (fl_sub (fl_sub (tr_gross_pnl t) (tr_fees t)) (tr_funding t))))) (er_trades fx_result)"
  by (rule conjI[OF _ engine_trades_pass_gate[OF fx_run]]) (simp add: fx_result_def)

text \<open>
  C9. A run accounts for each bar at most once and in time order: the equity rows have strictly
  increasing bar timestamps, there is one positions row per equity row, and its count is that of
  its symbols. A deferred bar leaves nothing behind: no equity row, fill, trade or funding charge of
  the run belongs to the deferred bar or a later one, so the next run can take it up whole.
\<close>

theorem engine_bars_once_and_deferral_clean:
  assumes "run_engine cfg rows series df st = Inr r" "dict_ok (open_positions st)"
  shows "sorted_wrt (<) (map eq_bar_ts (er_equity r)) \<and> map po_bar_ts (er_positions r) = map eq_bar_ts (er_equity r)
    \<and> list_all (\<lambda>p. po_num_open p = length (po_open_symbols p)) (er_positions r)
    \<and> (case er_deferred_bar_ts r of None \<Rightarrow> True | Some d \<Rightarrow> watermark_bar_ts (er_state r) < d
         \<and> list_all (\<lambda>e. eq_bar_ts e < d) (er_equity r) \<and> list_all (\<lambda>f. fr_signal_bar_ts f < d) (er_fills r)
         \<and> list_all (\<lambda>t. tr_exit_bar_ts t < d) (er_trades r) \<and> list_all (\<lambda>w. fu_bar_ts w < d) (er_funding r))"
  using engine_bars[OF assms] by (auto simp: bars_defs list_all_iff split: option.splits)

theorem engine_bars_once_and_deferral_clean_witness:
  "sorted_wrt (<) (map eq_bar_ts (er_equity fx_result)) \<and> length (er_equity fx_result) = 3"
  using engine_bars_once_and_deferral_clean[OF fx_run] by (simp add: new_state_def) (simp add: fx_result_def)

text \<open>
  C10. No look-ahead: every fill is executed at the bar that follows its signal bar in its symbol's
  own price series (the last bar with the signal's timestamp, should there be several), stamped with
  that bar's timestamp, at that bar's open price, worsened by the slippage of its side; and a symbol
  is filled at most once per signal bar. The price history is a dict, one series per symbol.
\<close>

theorem engine_fills_at_next_open:
  assumes "run_engine cfg rows series df st = Inr r" "dict_ok series"
  shows "list_all (\<lambda>f. \<exists>bars i. dict_get series (fr_symbol f) = Some bars \<and> Suc i < length bars
      \<and> bar_timestamp (bars ! i) = fr_signal_bar_ts f
      \<and> (\<forall>j < length bars. i < j \<longrightarrow> bar_timestamp (bars ! j) \<noteq> fr_signal_bar_ts f)
      \<and> fr_fill_ts f = bar_timestamp (bars ! Suc i)
      \<and> fr_open_price f = fl_round 8 (bar_open (bars ! Suc i))
      \<and> fr_fill_price f = fl_round 8 (fl_mul (bar_open (bars ! Suc i))
          (if fr_side f = ''BUY'' then fl_add (PFin 1) (rt_slip (config_rates cfg))
           else fl_sub (PFin 1) (rt_slip (config_rates cfg))))) (er_fills r)
    \<and> distinct (map (\<lambda>f. (fr_signal_bar_ts f, fr_symbol f)) (er_fills r))"
  using engine_fills[OF assms(1)]
  by (auto simp: fills_defs slipped_def list_all_iff elim!: next_bar_series[OF assms(2)] dest!: bspec)

theorem engine_fills_at_next_open_witness:
  "length (er_fills fx_result) = 2
   \<and> list_all (\<lambda>f. \<exists>bars i. dict_get fx_series (fr_symbol f) = Some bars \<and> Suc i < length bars
      \<and> bar_timestamp (bars ! i) = fr_signal_bar_ts f \<and> fr_fill_ts f = bar_timestamp (bars ! Suc i)) (er_fills fx_result)"
proof -
  have "dict_ok fx_series" by (simp add: fx_series_def)
  note w = engine_fills_at_next_open[OF fx_run this]
  have "length (er_fills fx_result) = 2" by (simp add: fx_result_def)
  then show ?thesis using w by (auto simp: list_all_iff dest!: bspec)
qed

text \<open>
  C11. The engine is long-only, one unit per symbol: from a fresh state, the fills of a symbol
  alternate BUY, SELL, BUY, SELL, with exactly one pair per trade row, and one unpaired BUY at the
  end exactly when the symbol is still open.
\<close>

theorem engine_long_only_round_trips:
  assumes "run_engine cfg rows series df (new_state initial) = Inr r"
  shows "map fr_side (filter (\<lambda>f. fr_symbol f = s) (er_fills r)) =
    concat (replicate (length (filter (\<lambda>t. tr_symbol t = s) (er_trades r))) [''BUY'', ''SELL''])
      @ (if s \<in> set (dict_keys (open_positions (er_state r))) then [''BUY''] else [])"
  using engine_round_trips[OF assms] by (simp add: round_trips_def sides_of_def trips_of_def open_keys_def)

theorem engine_long_only_round_trips_witness:
  "map fr_side (filter (\<lambda>f. fr_symbol f = ''A'') (er_fills fx_result)) = [''BUY'', ''SELL'']"
  unfolding engine_long_only_round_trips[OF fx_run] by (simp add: fx_result_def)

text \<open>
  Every trade row joins its two fills: its entry and exit ids are those of a BUY and a SELL fill
  of its own symbol, on its own entry and exit bars, and the entry bar is strictly before the exit
  bar. Every open position has its BUY fill in the ledger.
\<close>

theorem engine_trades_join_fills:
  assumes "run_engine cfg rows series df (new_state initial) = Inr r"
  shows "list_all (\<lambda>t. has_fill r (tr_entry_fill_id t) (tr_symbol t) ''BUY'' (tr_entry_bar_ts t)
      \<and> has_fill r (tr_exit_fill_id t) (tr_symbol t) ''SELL'' (tr_exit_bar_ts t)
      \<and> tr_entry_bar_ts t < tr_exit_bar_ts t) (er_trades r)
    \<and> (\<forall>s p. dict_get (open_positions (er_state r)) s = Some p \<longrightarrow>
        has_fill r (entry_fill_id p) s ''BUY'' (entry_bar_ts p))"
  using engine_trades_join[OF assms] by (simp add: join_inv_def trades_join_def book_joins_def)

theorem engine_trades_join_fills_witness:
  "has_fill fx_result (fill_id ''A'' fx_t0 ''BUY'' ''entry'') ''A'' ''BUY'' fx_t0"
  using engine_trades_join_fills[OF fx_run] by (simp add: fx_result_def)

end
