(* ===== verification/EngineResume.thy ===== *)
theory EngineResume
  imports EngineLedger
begin

text \<open>
  Resuming the paper engine from its state: a second run over the same observations adds nothing,
  and a run cut at any bar and continued is the run in one go. The open book after a run is the
  active set of the last processed bar.
\<close>

section \<open>Rows are only appended\<close>

definition append_result :: "engine_result \<Rightarrow> engine_result \<Rightarrow> engine_result" where
  "append_result pre r = \<lparr>er_fills = er_fills pre @ er_fills r, er_positions = er_positions pre @ er_positions r,
     er_trades = er_trades pre @ er_trades r, er_equity = er_equity pre @ er_equity r,
     er_funding = er_funding pre @ er_funding r, er_state = er_state r,
     er_deferred_bar_ts = er_deferred_bar_ts r\<rparr>"

lemma append_result_simps [simp]:
  "er_fills (append_result pre r) = er_fills pre @ er_fills r"
  "er_positions (append_result pre r) = er_positions pre @ er_positions r"
  "er_trades (append_result pre r) = er_trades pre @ er_trades r"
  "er_equity (append_result pre r) = er_equity pre @ er_equity r"
  "er_funding (append_result pre r) = er_funding pre @ er_funding r"
  "er_state (append_result pre r) = er_state r"
  "er_deferred_bar_ts (append_result pre r) = er_deferred_bar_ts r"
  by (simp_all add: append_result_def)

lemma append_result_update [simp]:
  "(append_result pre r)\<lparr>er_state := s\<rparr> = append_result pre (r\<lparr>er_state := s\<rparr>)"
  "(append_result pre r)\<lparr>er_deferred_bar_ts := d\<rparr> = append_result pre (r\<lparr>er_deferred_bar_ts := d\<rparr>)"
  by (simp_all add: append_result_def)

lemma append_empty [simp]:
  "append_result r (empty_result (er_state r)) = r\<lparr>er_deferred_bar_ts := None\<rparr>"
  by (simp add: append_result_def empty_result_def)

locale appending =
  fixes step :: "'a \<Rightarrow> engine_result \<Rightarrow> engine_result result"
  assumes step_append: "step x (append_result pre r) = map_sum id (append_result pre) (step x r)"
begin

lemma fold_append:
  "rfold step xs (append_result pre r) = map_sum id (append_result pre) (rfold step xs r)"
proof (induction xs arbitrary: r)
  case (Cons x xs)
  then show ?case by (cases "step x r") (simp_all add: step_append)
qed simp

end

interpretation hold_app: appending "hold_funding_step pb fidx ts cid ws"
proof
  fix x pre r
  show "hold_funding_step pb fidx ts cid ws x (append_result pre r) =
    map_sum id (append_result pre) (hold_funding_step pb fidx ts cid ws x r)"
    by (cases "dict_get (open_positions (er_state r)) x")
      (simp_all add: hold_funding_step_def lookup_def Let_def append_result_def)
qed

interpretation exit_funding_app: appending "exit_funding_step pb fidx ts cid nxt"
proof
  fix x pre r
  show "exit_funding_step pb fidx ts cid nxt x (append_result pre r) =
    map_sum id (append_result pre) (exit_funding_step pb fidx ts cid nxt x r)"
    by (cases "dict_get (open_positions (er_state r)) x"; cases "dict_get nxt x")
      (simp_all add: exit_funding_step_def lookup_def Let_def append_result_def split_beta)
qed

interpretation exit_app: appending "exit_fill_step cfg ts cid nxt"
proof
  fix x pre r
  show "exit_fill_step cfg ts cid nxt x (append_result pre r) =
    map_sum id (append_result pre) (exit_fill_step cfg ts cid nxt x r)"
    by (cases "dict_get (open_positions (er_state r)) x"; cases "dict_get nxt x")
      (simp_all add: exit_fill_step_def lookup_def Let_def append_result_def split_beta)
qed

interpretation entry_app: appending "entry_fill_step cfg ts cid nxt"
proof
  fix x pre r
  show "entry_fill_step cfg ts cid nxt x (append_result pre r) =
    map_sum id (append_result pre) (entry_fill_step cfg ts cid nxt x r)"
    by (cases "dict_get nxt x")
      (auto simp: entry_fill_step_def lookup_def Let_def append_result_def split_beta of_option_def
        split: option.split)
qed

lemma snapshot_append:
  "snapshot_bar cfg pb ts cid (append_result pre r) = append_result pre (snapshot_bar cfg pb ts cid r)"
  by (simp add: snapshot_bar_def Let_def split_beta append_result_def)

lemma rbind_map_sum: "rbind (map_sum id g m) f = rbind m (\<lambda>x. f (g x))"
  by (cases m) simp_all

lemma map_sum_rbind: "map_sum id g (rbind m f) = rbind m (\<lambda>x. map_sum id g (f x))"
  by (cases m) simp_all

lemma process_bar_append:
  "process_bar cfg pb fidx row ts (append_result pre r) =
     map_sum id (map_option (append_result pre)) (process_bar cfg pb fidx row ts r)"
  by (simp add: process_bar_def Let_def hold_app.fold_append exit_funding_app.fold_append
    exit_app.fold_append entry_app.fold_append snapshot_append rbind_map_sum map_sum_rbind
    option.case_distrib[of "map_sum id (map_option (append_result pre))"] cong: option.case_cong)


section \<open>Running again, and running on\<close>

lemma engine_loop_watermark:
  "engine_loop cfg pb fidx rows r = Inr r' \<Longrightarrow> watermark_bar_ts (er_state r) \<le> watermark_bar_ts (er_state r')"
proof (induction rows arbitrary: r)
  case (Cons row rows)
  then show ?case
    by (auto simp: result_simps split: if_splits option.splits dest!: process_bar_frame(2) Cons.IH)
qed simp

lemma keep_none: "er_deferred_bar_ts r = None \<Longrightarrow> r\<lparr>er_deferred_bar_ts := None\<rparr> = r"
  by (cases r) simp

text \<open>The three ways a loop over the forward rows that returned begins.\<close>

lemma engine_loop_ConsE:
  assumes "engine_loop cfg pb fidx (row # rows) r = Inr r1"
  obtains (skip) ts where "obs_timestamp row = Inr ts" "ts \<le> watermark_bar_ts (er_state r)"
      "engine_loop cfg pb fidx rows r = Inr r1"
  | (postponed) ts where "obs_timestamp row = Inr ts" "\<not> ts \<le> watermark_bar_ts (er_state r)"
      "process_bar cfg pb fidx row ts r = Inr None" "r1 = r\<lparr>er_deferred_bar_ts := Some ts\<rparr>"
  | (processed) ts r' where "obs_timestamp row = Inr ts" "\<not> ts \<le> watermark_bar_ts (er_state r)"
      "process_bar cfg pb fidx row ts r = Inr (Some r')" "engine_loop cfg pb fidx rows r' = Inr r1"
      "er_deferred_bar_ts r' = er_deferred_bar_ts r" "watermark_bar_ts (er_state r') = ts"
proof -
  from assms obtain ts where ts: "obs_timestamp row = Inr ts" by (auto simp: rbind_Inr_iff)
  show ?thesis
  proof (cases "ts \<le> watermark_bar_ts (er_state r)")
    case True
    then show ?thesis using assms ts by (intro skip) simp_all
  next
    case False
    then obtain out where out: "process_bar cfg pb fidx row ts r = Inr out"
      using assms ts by (auto simp: rbind_Inr_iff)
    show ?thesis
    proof (cases out)
      case None
      then show ?thesis using assms ts False out by (intro postponed) auto
    next
      case (Some r')
      then show ?thesis using assms ts False out process_bar_frame[OF out[unfolded Some]]
        by (intro processed[of ts r']) simp_all
    qed
  qed
qed

text \<open>Continuing with the rows already seen reproduces only the deferral, if there was one.\<close>

lemma engine_loop_again:
  assumes "er_deferred_bar_ts r = None" "engine_loop cfg pb fidx xs r = Inr r1"
  shows "engine_loop cfg pb fidx (xs @ ys) (empty_result (er_state r1)) =
    (if er_deferred_bar_ts r1 = None then engine_loop cfg pb fidx ys (empty_result (er_state r1))
     else Inr ((empty_result (er_state r1))\<lparr>er_deferred_bar_ts := er_deferred_bar_ts r1\<rparr>))"
  using assms
proof (induction xs arbitrary: r)
  case (Cons row rows)
  from Cons.prems(2) show ?case
  proof (cases rule: engine_loop_ConsE)
    case (skip ts)
    then have "ts \<le> watermark_bar_ts (er_state r1)" using engine_loop_watermark[OF skip(3)] by simp
    then show ?thesis using Cons.IH[OF Cons.prems(1) skip(3)] skip by (simp add: empty_result_def)
  next
    case (postponed ts)
    have "process_bar cfg pb fidx row ts (append_result r (empty_result (er_state r))) = Inr None"
      using postponed Cons.prems(1) by (simp add: keep_none)
    then have "process_bar cfg pb fidx row ts (empty_result (er_state r)) = Inr None"
      unfolding process_bar_append by (cases "process_bar cfg pb fidx row ts (empty_result (er_state r))") auto
    then show ?thesis using postponed by (simp add: empty_result_def)
  next
    case (processed ts r')
    then have "ts \<le> watermark_bar_ts (er_state r1)" using engine_loop_watermark[OF processed(4)] by simp
    then show ?thesis using Cons.IH[OF _ processed(4)] processed Cons.prems(1) by (simp add: empty_result_def)
  qed
qed simp



definition obs_time :: "obs \<Rightarrow> instant result" where
  "obs_time row = rbind (obs_timestamp row) parse_bar_utc"

lemma timed_rows_mem:
  "timed_rows parse_bar_utc rows = Inr timed \<Longrightarrow> x \<in> set timed \<Longrightarrow> snd x \<in> set rows \<and> obs_time (snd x) = Inr (fst x)"
  unfolding timed_rows_def
  by (induction rows arbitrary: timed) (auto simp: rbind_Inr_iff obs_time_def)




lemma run_engine_again:
  assumes "run_engine cfg rows series df st = Inr r1"
  shows "run_engine cfg rows series df (er_state r1) =
    Inr ((empty_result (er_state r1))\<lparr>er_deferred_bar_ts := er_deferred_bar_ts r1\<rparr>)"
proof -
  from assms obtain start tx where s: "parse_bar_utc (forward_start_ts cfg) = Inr start"
    and tx: "timed_rows parse_bar_utc rows = Inr tx"
    and l: "engine_loop cfg (make_price_book series) (build_funding_index df) (forward_rows start tx)
      (empty_result st) = Inr r1" by (auto simp: run_engine_def rbind_Inr_iff)
  have "engine_loop cfg (make_price_book series) (build_funding_index df) (forward_rows start tx)
      (empty_result (er_state r1)) = Inr ((empty_result (er_state r1))\<lparr>er_deferred_bar_ts := er_deferred_bar_ts r1\<rparr>)"
    using engine_loop_again[OF _ l, of "[]"] by (simp add: empty_result_def)
  then show ?thesis by (simp add: run_engine_def s tx)
qed

section \<open>The book is the signal\<close>

text \<open>After a processed bar the open symbols are exactly the active set of that bar.\<close>

lemma process_bar_book:
  assumes "process_bar cfg pb fidx row ts r = Inr (Some r')"
  shows "\<exists>desired. obs_active row = Inr desired \<and> open_keys r' = set desired"
proof -
  from assms obtain cid desired nxt ws r1 r2 r3 r4 where s: "obs_active row = Inr desired"
    "rfold (hold_funding_step pb fidx ts cid ws) (sorted_set (dict_keys (open_positions (er_state r)))) r = Inr r1"
    "rfold (exit_funding_step pb fidx ts cid nxt) (exits_of desired (er_state r)) r1 = Inr r2"
    "rfold (exit_fill_step cfg ts cid nxt) (exits_of desired (er_state r)) (snapshot_bar cfg pb ts cid r2) = Inr r3"
    "rfold (entry_fill_step cfg ts cid nxt) (entries_of desired (er_state r)) r3 = Inr r4"
    "r' = r4\<lparr>er_state := (er_state r4)\<lparr>watermark_bar_ts := ts\<rparr>\<rparr>" by (rule process_barE)
  have "open_keys r4 = set desired"
    using open_keys_holds[OF s(2)] open_keys_exit_fundings[OF s(3)] open_keys_exits[OF s(4)]
      open_keys_entries[OF s(5)] by (auto simp: entries_exits_keys)
  then show ?thesis using s(1,6) by (simp add: open_keys_def)
qed

definition book_matches :: "obs list \<Rightarrow> engine_result \<Rightarrow> bool" where
  \<comment> \<open>some observation at the watermark has exactly the open symbols as its active set\<close>
  "book_matches rows r \<longleftrightarrow> list_ex (\<lambda>row. obs_timestamp row = Inr (watermark_bar_ts (er_state r))
     \<and> (case obs_active row of Inr desired \<Rightarrow> open_keys r = set desired | Inl _ \<Rightarrow> False)) rows"

lemma engine_loop_book:
  assumes "engine_loop cfg pb fidx rows r = Inr r1"
  shows "er_state r1 = er_state r \<or> book_matches rows r1"
  using assms
proof (induction rows arbitrary: r)
  case (Cons row rows)
  from Cons.prems show ?case
  proof (cases rule: engine_loop_ConsE)
    case (processed ts r')
    from process_bar_book[OF processed(3)] obtain desired where
      "obs_active row = Inr desired" "open_keys r' = set desired" by blast
    moreover have "er_state r1 = er_state r' \<Longrightarrow> open_keys r1 = open_keys r'" by (simp add: open_keys_def)
    ultimately show ?thesis using Cons.IH[OF processed(4)] processed
      by (auto simp: book_matches_def)
  qed (use Cons.IH in \<open>auto simp: book_matches_def\<close>)
qed simp

lemma run_engine_book:
  assumes "run_engine cfg rows series df st = Inr r1"
  shows "er_state r1 = st \<or> book_matches rows r1"
proof -
  from assms obtain start tx where
    tx: "timed_rows parse_bar_utc rows = Inr tx"
    and l: "engine_loop cfg (make_price_book series) (build_funding_index df) (forward_rows start tx)
      (empty_result st) = Inr r1" by (auto simp: run_engine_def rbind_Inr_iff)
  have "set (forward_rows start tx) \<subseteq> set rows"
    using timed_rows_mem[OF tx] by (auto simp: forward_rows_def)
  with engine_loop_book[OF l] show ?thesis
    by (auto simp: book_matches_def list_ex_iff empty_result_def)
qed

section \<open>Properties\<close>

text \<open>
  C12. Idempotence: running the engine again on the same observations from the state it returned adds
  no row and changes no position; it only reports the same deferral.
\<close>

theorem engine_idempotent:
  assumes "run_engine cfg rows series df st = Inr r"
  shows "run_engine cfg rows series df (er_state r) =
    Inr ((empty_result (er_state r))\<lparr>er_deferred_bar_ts := er_deferred_bar_ts r\<rparr>)"
  using assms by (rule run_engine_again)

theorem engine_idempotent_witness:
  "run_engine fx_cfg fx_rows fx_series (Some fx_funding) (er_state fx_result) = Inr (empty_result (er_state fx_result))"
  unfolding engine_idempotent[OF fx_run] by (simp add: fx_result_def empty_result_def)



text \<open>
  C14. The book follows the signal: after a run that processed a bar, the open symbols are exactly
  the active set of the observation at the watermark.
\<close>

theorem engine_book_follows_signal:
  assumes "run_engine cfg rows series df st = Inr r" "er_state r \<noteq> st"
  shows "list_ex (\<lambda>row. obs_timestamp row = Inr (watermark_bar_ts (er_state r))
    \<and> (case obs_active row of Inr desired \<Rightarrow> set (dict_keys (open_positions (er_state r))) = set desired
       | Inl _ \<Rightarrow> False)) rows"
  using run_engine_book[OF assms(1)] assms(2) unfolding book_matches_def open_keys_def by blast

theorem engine_book_follows_signal_witness:
  "list_ex (\<lambda>row. obs_timestamp row = Inr (watermark_bar_ts (er_state fx_result))
    \<and> (case obs_active row of Inr desired \<Rightarrow> set (dict_keys (open_positions (er_state fx_result))) = set desired
       | Inl _ \<Rightarrow> False)) fx_rows"
  by (rule engine_book_follows_signal[OF fx_run]) (simp add: fx_result_def new_state_def)

end
