(* ===== verification/PyStr.thy ===== *)
theory PyStr
  imports PyJson PyTime
begin

text \<open>
  Python's \<open>str\<close>, \<open>repr\<close>, \<open>int\<close> of strings and truth value, on JSON values, and
  \<open>datetime.fromtimestamp\<close>.
\<close>

section \<open>str and repr\<close>

fun py_float_str :: "pyfloat \<Rightarrow> string" where
  "py_float_str PNaN = ''nan''"
| "py_float_str (PInf s) = (if s then ''-inf'' else ''inf'')"
| "py_float_str (PFin x) = float_repr (PFin x)"

definition repr_point :: "char \<Rightarrow> nat \<Rightarrow> string" where
  \<comment> \<open>one code point inside a string literal with the given quote; from 256 on it is taken to be
    printable\<close>
  "repr_point quote n = (let bs = char_of (92::nat) in
     if n = of_char quote \<or> n = 92 then [bs, char_of n]
     else if n = 10 then [bs, CHR ''n''] else if n = 13 then [bs, CHR ''r''] else if n = 9 then [bs, CHR ''t'']
     else if n < 32 \<or> (127 \<le> n \<and> n \<le> 160) \<or> n = 173
       then [bs, CHR ''x'', hex_char (n div 16), hex_char (n mod 16)]
     else utf8_encode [n])"

definition repr_str :: "string \<Rightarrow> string" where
  "repr_str s = (let single = char_of (39::nat); double = char_of (34::nat);
     quote = (if single \<in> set s \<and> double \<notin> set s then double else single)
     in [quote] @ concat (map (repr_point quote) (str_points s)) @ [quote])"

fun py_repr :: "json \<Rightarrow> string" where
  "py_repr JNull = ''None''"
| "py_repr (JBool b) = (if b then ''True'' else ''False'')"
| "py_repr (JInt n) = show_int n"
| "py_repr (JFloat x) = py_float_str x"
| "py_repr (JStr s) = repr_str s"
| "py_repr (JList xs) = ''['' @ join '', '' (map py_repr xs) @ '']''"
| "py_repr (JObj kvs) = ''{'' @ join '', '' (map (\<lambda>(k, v). repr_str k @ '': '' @ py_repr v) kvs) @ ''}''"

fun py_str :: "json \<Rightarrow> string" where
  "py_str (JStr s) = s"
| "py_str v = py_repr v"

fun py_truthy :: "json \<Rightarrow> bool" where
  "py_truthy JNull = False"
| "py_truthy (JBool b) = b"
| "py_truthy (JInt n) = (n \<noteq> 0)"
| "py_truthy (JFloat x) = (x \<noteq> PFin 0)"
| "py_truthy (JStr s) = (s \<noteq> [])"
| "py_truthy (JList xs) = (xs \<noteq> [])"
| "py_truthy (JObj d) = (d \<noteq> [])"

definition obj_get :: "(string, json) dict \<Rightarrow> string \<Rightarrow> json \<Rightarrow> json" where
  \<comment> \<open>\<open>obj.get(key, default)\<close>\<close>
  "obj_get obj key dflt = (case dict_get obj key of Some v \<Rightarrow> v | None \<Rightarrow> dflt)"

fun str_contains :: "string \<Rightarrow> string \<Rightarrow> bool" where
  \<comment> \<open>\<open>p in s\<close>\<close>
  "str_contains p [] = (p = [])"
| "str_contains p (c # cs) = (str_prefix p (c # cs) \<or> str_contains p cs)"

definition zulu_offset :: "string \<Rightarrow> string" where
  \<comment> \<open>\<open>s.replace("Z", "+00:00")\<close>\<close>
  "zulu_offset s = concat (map (\<lambda>c. if c = CHR ''Z'' then ''+00:00'' else [c]) s)"

definition match_line :: "(string \<Rightarrow> bool) \<Rightarrow> string \<Rightarrow> bool" where
  \<comment> \<open>\<open>re.match("^p$", s)\<close> for a \<open>p\<close> that matches no newline: the dollar sign also matches before
    a final newline\<close>
  "match_line p s \<longleftrightarrow> p s \<or> (ends_with CHR 0x0A s \<and> p (butlast s))"

definition lower_hex :: "nat \<Rightarrow> string \<Rightarrow> bool" where
  \<comment> \<open>\<open>[0-9a-f]{n}\<close>\<close>
  "lower_hex n s \<longleftrightarrow> length s = n \<and> list_all (\<lambda>c. c \<in> set ''0123456789abcdef'') s"

section \<open>Equality of values\<close>

fun num_value :: "json \<Rightarrow> pyfloat option" where
  \<comment> \<open>the exact value of a bool, int or float, for comparisons, which Python makes exactly\<close>
  "num_value (JBool b) = Some (PFin (if b then 1 else 0))"
| "num_value (JInt n) = Some (PFin (of_int n))"
| "num_value (JFloat x) = Some x"
| "num_value _ = None"

function (sequential) py_eq :: "json \<Rightarrow> json \<Rightarrow> bool" where
  \<comment> \<open>\<open>a == b\<close>, where objects have distinct keys\<close>
  "py_eq (JList xs) (JList ys) = (length xs = length ys \<and> list_all (\<lambda>(x, y). py_eq x y) (zip xs ys))"
| "py_eq (JObj d) (JObj e) = (length d = length e \<and> list_all (\<lambda>(k, v). case map_of e k of None \<Rightarrow> False
     | Some w \<Rightarrow> py_eq v w) d)"
| "py_eq (JStr s) (JStr t) = (s = t)"
| "py_eq JNull JNull = True"
| "py_eq a b = (case (num_value a, num_value b) of (Some x, Some y) \<Rightarrow> fl_eq x y | _ \<Rightarrow> False)"
  by pat_completeness auto
termination
proof (relation "measure (size \<circ> fst)")
  fix xs ys :: "json list" and z x y
  assume "z \<in> set (zip xs ys)" "(x, y) = z"
  then have "x \<in> set xs" by (metis set_zip_leftD)
  then have "size x \<le> size_list size xs" by (rule size_list_estimation') simp
  then show "((x, y), (JList xs, JList ys)) \<in> measure (size \<circ> fst)" by simp
next
  fix d e :: "(string, json) dict" and z k v w
  assume "z \<in> set d" "(k, v) = z"
  then have "size_prod (\<lambda>_. 0) size (k, v) \<le> size_list (size_prod (\<lambda>_. 0) size) d"
    by (intro size_list_estimation'[where y = "size_prod (\<lambda>_. 0) size (k, v)"]) auto
  then show "((v, w), (JObj d, JObj e)) \<in> measure (size \<circ> fst)" by simp
qed simp

lemma py_eq_JStr [simp]: "py_eq (JStr s) v \<longleftrightarrow> v = JStr s" "py_eq v (JStr s) \<longleftrightarrow> v = JStr s"
proof -
  show "py_eq (JStr s) v \<longleftrightarrow> v = JStr s" by (cases v) auto
  show "py_eq v (JStr s) \<longleftrightarrow> v = JStr s" by (cases v) auto
qed

definition hashable :: "json \<Rightarrow> bool" where
  "hashable v \<longleftrightarrow> (case v of JList _ \<Rightarrow> False | JObj _ \<Rightarrow> False | _ \<Rightarrow> True)"

definition dict_with :: "string \<Rightarrow> json \<Rightarrow> bool" where
  "dict_with key v \<longleftrightarrow> (case v of JObj d \<Rightarrow> dict_get d key \<noteq> None | _ \<Rightarrow> False)"

section \<open>ASCII texts\<close>

lemma ascii_digit: "0 \<le> d \<Longrightarrow> d \<le> 9 \<Longrightarrow> of_char (digit_char d) < (128 :: nat)"
  by (simp add: digit_char_def of_char_of nat_less_iff)

lemma ascii_pad [simp]: "ascii (pad2 n)" "ascii (pad4 n)"
  using ascii_digit[of "n div 10 mod 10"] ascii_digit[of "n mod 10"] ascii_digit[of "n div 100 div 10 mod 10"]
    ascii_digit[of "n div 100 mod 10"] ascii_digit[of "n mod 100 div 10 mod 10"] ascii_digit[of "n mod 100 mod 10"]
  by (simp_all add: pad2_def pad4_def)

lemma ascii_fmt_fields [simp]: "ascii (fmt_fields f)"
  by (simp add: fmt_fields_def)

section \<open>int of a string\<close>

definition is_space :: "nat \<Rightarrow> bool" where
  \<comment> \<open>\<open>str.isspace\<close> of a code point\<close>
  "is_space n \<longleftrightarrow> (9 \<le> n \<and> n \<le> 13) \<or> (28 \<le> n \<and> n \<le> 32) \<or> n = 133 \<or> n = 160 \<or> n = 5760 \<or> (8192 \<le> n \<and> n \<le> 8202)
     \<or> n = 8232 \<or> n = 8233 \<or> n = 8239 \<or> n = 8287 \<or> n = 12288"

definition py_strip :: "string \<Rightarrow> string" where
  "py_strip s = utf8_encode (rev (dropWhile is_space (rev (dropWhile is_space (str_points s)))))"

fun int_digits :: "int \<Rightarrow> string \<Rightarrow> int option" where
  \<comment> \<open>digits with single underscores between them\<close>
  "int_digits acc [] = Some acc"
| "int_digits acc [c] = map_option (\<lambda>d. 10 * acc + d) (digit_val c)"
| "int_digits acc (c # c' # cs) = (case digit_val c of None \<Rightarrow> None
     | Some d \<Rightarrow> if c' = CHR ''_'' then (if cs = [] then None else int_digits (10 * acc + d) cs)
                else int_digits (10 * acc + d) (c' # cs))"

text \<open>More than 4300 digits are refused, with the \<open>ValueError\<close> of a malformed literal.\<close>

definition parse_int :: "string \<Rightarrow> int option" where
  "parse_int raw = (let s = py_strip raw;
     (neg, body) = (case s of c # cs \<Rightarrow> if c = CHR ''-'' then (True, cs)
        else if c = CHR ''+'' then (False, cs) else (False, s) | [] \<Rightarrow> (False, []))
     in if body = [] \<or> 4300 < length (filter (\<lambda>c. digit_val c \<noteq> None) body) then None else map_option (\<lambda>n. if neg then - n else n) (int_digits 0 body))"

section \<open>fromtimestamp\<close>

definition epoch :: instant where
  "epoch = 719162 * us_per_day"

definition fromtimestamp :: "pyfloat \<Rightarrow> instant result" where
  \<comment> \<open>seconds since 1970 as a float, rounded half-even to microseconds; the C library's year range
    first, then the years 1 to 9999\<close>
  "fromtimestamp x = (case x of PFin r \<Rightarrow>
       (let whole = (if r < 0 then - \<lfloor>- r\<rfloor> else \<lfloor>r\<rfloor>);
            scaled = fl_mul (PFin (r - of_int whole)) (PFin 1000000);
            us = whole * 1000000 + (case scaled of PFin f \<Rightarrow> round_half_even f | _ \<Rightarrow> 0);
            secs = us div 1000000
        in if secs < - (2 ^ 63) \<or> 2 ^ 63 \<le> secs then Inl OverflowError
           else if secs < - 67768040609740800 \<or> 67768036191676799 < secs then Inl OSError
           else if 0 \<le> epoch + us \<and> epoch + us < max_instant then Inr (epoch + us)
           else Inl ValueError)
     | PInf _ \<Rightarrow> Inl OverflowError | PNaN \<Rightarrow> Inl ValueError)"

end
