(* ===== verification/PyCalendar.thy ===== *)
theory PyCalendar
  imports PyTime
begin

text \<open>
  \<open>strftime\<close> with the bar format shows the whole second an instant lies in: the conversion from
  ordinals to dates is the inverse of the one from dates to ordinals.
\<close>

lemma month_search:
  fixes n y :: int
  assumes "0 \<le> n" "n \<le> 364"
  defines "m0 \<equiv> (n + 50) div 32"
  defines "m \<equiv> (if n < days_before_month y m0 then m0 - 1 else m0)"
  shows "1 \<le> m \<and> m \<le> 12 \<and> days_before_month y m \<le> n \<and> n < days_before_month y m + days_in_month y m"
proof -
  have r: "32 * m0 \<le> n + 50" "n + 50 < 32 * m0 + 32" by (auto simp: m0_def)
  then have "1 \<le> m0" "m0 \<le> 12" using assms(1,2) by linarith+
  then have "m0 = 1 \<or> m0 = 2 \<or> m0 = 3 \<or> m0 = 4 \<or> m0 = 5 \<or> m0 = 6 \<or> m0 = 7 \<or> m0 = 8 \<or> m0 = 9
    \<or> m0 = 10 \<or> m0 = 11 \<or> m0 = 12" by arith
  then show ?thesis using r assms(1,2) unfolding m_def
    by (elim disjE; cases "is_leap y") (simp_all add: days_before_month_def days_in_month_def)
qed

lemma days_before_year_decomp:
  assumes "0 \<le> b" "b \<le> 3" "0 \<le> c" "c \<le> 24" "0 \<le> d" "d \<le> (3::int)"
  shows "days_before_year (a * 400 + 1 + b * 100 + c * 4 + d) = a * 146097 + b * 36524 + c * 1461 + d * 365"
proof -
  define z where "z = a * 400 + b * 100 + c * 4 + d"
  have "z div 4 = a * 100 + b * 25 + c"
    by (rule int_div_pos_eq[where r = d]) (use assms in \<open>simp_all add: z_def\<close>)
  moreover have "z div 100 = a * 4 + b"
    by (rule int_div_pos_eq[where r = "c * 4 + d"]) (use assms in \<open>simp_all add: z_def\<close>)
  moreover have "z div 400 = a"
    by (rule int_div_pos_eq[where r = "b * 100 + c * 4 + d"]) (use assms in \<open>simp_all add: z_def\<close>)
  moreover have "a * 400 + 1 + b * 100 + c * 4 + d - 1 = z" by (simp add: z_def)
  ultimately have "days_before_year (a * 400 + 1 + b * 100 + c * 4 + d) =
    z * 365 + (a * 100 + b * 25 + c) - (a * 4 + b) + a" by (simp add: days_before_year_def Let_def)
  then show ?thesis by (simp add: z_def)
qed

lemma dec31_of_leap:
  assumes "is_leap y" "1 \<le> y" "y \<le> 9999" "k = days_before_year y + 366"
  shows "1 \<le> y \<and> y \<le> 9999 \<and> (1::int) \<le> 12 \<and> (12::int) \<le> 12
    \<and> (1::int) \<le> 31 \<and> 31 \<le> days_in_month y 12 \<and> ymd2ord y 12 31 = k"
  using assms by (simp add: ymd2ord_def days_before_month_def days_in_month_def)

lemma ord2ymd_correct:
  assumes "1 \<le> k" "k \<le> 3652059"
  shows "case ord2ymd k of (y, m, d) \<Rightarrow> 1 \<le> y \<and> y \<le> 9999 \<and> 1 \<le> m \<and> m \<le> 12
    \<and> 1 \<le> d \<and> d \<le> days_in_month y m \<and> ymd2ord y m d = k"
proof -
  define a where "a = (k - 1) div 146097"
  define r1 where "r1 = (k - 1) mod 146097"
  define b where "b = r1 div 36524"
  define r2 where "r2 = r1 mod 36524"
  define c where "c = r2 div 1461"
  define r3 where "r3 = r2 mod 1461"
  define d where "d = r3 div 365"
  define n where "n = r3 mod 365"
  define y where "y = a * 400 + 1 + b * 100 + c * 4 + d"
  have e: "k = a * 146097 + b * 36524 + c * 1461 + d * 365 + n + 1"
    unfolding a_def b_def c_def d_def n_def r3_def r2_def r1_def by (simp add: algebra_simps)
  have r1: "0 \<le> r1" "r1 < 146097" and r2: "0 \<le> r2" "r2 < 36524" and r3: "0 \<le> r3" "r3 < 1461"
    and n: "0 \<le> n" "n < 365" by (simp_all add: r1_def r2_def r3_def n_def)
  have er: "r1 = b * 36524 + r2" "r2 = c * 1461 + r3" "r3 = d * 365 + n"
    by (simp_all add: b_def r2_def c_def r3_def d_def n_def)
  have a: "0 \<le> a" "a \<le> 24" using assms by (auto simp: a_def)
  have b: "0 \<le> b" "b \<le> 4" and c: "0 \<le> c" "c \<le> 24" and d: "0 \<le> d" "d \<le> 4"
    using r1 r2 r3 by (auto simp: b_def c_def d_def)
  have o: "ord2ymd k = (if d = 4 \<or> b = 4 then (y - 1, 12, 31)
      else (let m0 = (n + 50) div 32; m = (if n < days_before_month y m0 then m0 - 1 else m0)
            in (y, m, n - days_before_month y m + 1)))"
    by (simp only: ord2ymd_def Let_def a_def b_def c_def d_def n_def y_def r1_def r2_def r3_def)
  show ?thesis
  proof (cases "d = 4 \<or> b = 4")
    case True
    then have o': "ord2ymd k = (y - 1, 12, 31)" by (simp add: o)
    have b4: "c = 0 \<and> d = 0 \<and> n = 0" if "b = 4"
    proof -
      have "r2 = 0" using er(1) r1(2) r2(1) that by linarith
      then show ?thesis by (simp add: c_def r3_def d_def n_def)
    qed
    have d4: "n = 0 \<and> c \<le> 23" if "d = 4"
    proof -
      have "n = 0" "r3 = 1460" using er(3) r3(2) n(1) that by linarith+
      moreover have "c \<le> 23" using er(2) r2(2) \<open>r3 = 1460\<close> by linarith
      ultimately show ?thesis by simp
    qed
    from b4 d4 consider (century) "b = 4" "c = 0" "d = 0" "n = 0" | (leap) "d = 4" "b \<le> 3" "c \<le> 23" "n = 0"
      using True b by fastforce
    then show ?thesis
    proof cases
      case century
      have y: "y - 1 = a * 400 + 1 + 3 * 100 + 24 * 4 + 3" using century by (simp add: y_def)
      have "y - 1 = (a + 1) * 400" using y by simp
      then have "(y - 1) mod 400 = 0" "(y - 1) mod 4 = 0" by (simp_all add: mod_eq_0_iff_dvd)
      then have "is_leap (y - 1)" by (simp add: is_leap_def)
      moreover have "y \<le> 10000" using assms(2) e century a by (simp add: y_def)
      moreover have "days_before_year (y - 1) = a * 146097 + 3 * 36524 + 24 * 1461 + 3 * 365"
        unfolding y by (rule days_before_year_decomp) simp_all
      ultimately show ?thesis
        unfolding o' prod.case by (intro dec31_of_leap) (use a century e in \<open>simp_all add: y_def\<close>)
    next
      case leap
      have y: "y - 1 = a * 400 + 1 + b * 100 + c * 4 + 3" using leap by (simp add: y_def)
      have "y - 1 = 4 * (a * 100 + b * 25 + c + 1)" using y by simp
      then have "(y - 1) mod 4 = 0" by simp
      moreover have "(y - 1) mod 100 = 4 * (c + 1)"
        by (rule int_mod_pos_eq[where q = "4 * a + b"]) (use y leap c in \<open>simp_all\<close>)
      ultimately have "is_leap (y - 1)" using c by (simp add: is_leap_def)
      moreover have "y \<le> 10000" using leap a b c by (simp add: y_def)
      moreover have "days_before_year (y - 1) = a * 146097 + b * 36524 + c * 1461 + 3 * 365"
        unfolding y using leap b c by (intro days_before_year_decomp) simp_all
      ultimately show ?thesis
        unfolding o' prod.case by (intro dec31_of_leap) (use a b c leap e in \<open>simp_all add: y_def\<close>)
    qed
  next
    case False
    then have bd: "b \<le> 3" "d \<le> 3" using b d by auto
    have dby: "days_before_year y = a * 146097 + b * 36524 + c * 1461 + d * 365"
      unfolding y_def using bd b c d by (intro days_before_year_decomp) simp_all
    have y: "1 \<le> y" "y \<le> 9999 \<or> (a = 24 \<and> b = 3 \<and> c = 24 \<and> d = 3)"
      using a b c d bd by (auto simp: y_def)
    have "y \<le> 9999"
    proof (rule ccontr)
      assume "\<not> y \<le> 9999"
      with y(2) e assms(2) n show False by (simp add: y_def)
    qed
    define m where "m = (if n < days_before_month y ((n + 50) div 32) then (n + 50) div 32 - 1 else (n + 50) div 32)"
    have m: "1 \<le> m \<and> m \<le> 12 \<and> days_before_month y m \<le> n \<and> n < days_before_month y m + days_in_month y m"
      unfolding m_def using month_search[of n y] n by simp
    have o': "ord2ymd k = (y, m, n - days_before_month y m + 1)"
      using False by (simp add: o Let_def m_def)
    show ?thesis unfolding o' using m y(1) \<open>y \<le> 9999\<close> dby e by (simp add: ymd2ord_def)
  qed
qed

lemma strftime_instant:
  assumes "0 \<le> t" "t < max_instant"
  shows "valid_fields (instant_fields t)" "fields_instant (instant_fields t) = t - t mod us_per_second"
proof -
  define day where "day = t div us_per_day"
  define s where "s = t mod us_per_day div us_per_second"
  have day: "1 \<le> day + 1" "day + 1 \<le> 3652059"
    using assms by (auto simp: day_def max_instant_def us_per_day_def)
  have s: "0 \<le> s" "s < 86400" by (auto simp: s_def us_per_day_def us_per_second_def)
  obtain y m d where o: "ord2ymd (day + 1) = (y, m, d)" by (metis prod_cases3)
  have f: "1 \<le> y" "y \<le> 9999" "1 \<le> m" "m \<le> 12" "1 \<le> d" "d \<le> days_in_month y m" "ymd2ord y m d = day + 1"
    using ord2ymd_correct[OF day] o by auto
  have i: "instant_fields t = \<lparr>f_year = y, f_month = m, f_day = d, f_hour = s div 3600,
      f_minute = s mod 3600 div 60, f_second = s mod 60\<rparr>"
    by (simp add: instant_fields_def day_def[symmetric] s_def[symmetric] o Let_def)
  show "valid_fields (instant_fields t)" using f s by (auto simp: i valid_fields_def)
  have "s div 3600 * 3600 + s mod 3600 div 60 * 60 + s mod 60 = s"
  proof -
    have "s mod 60 = s mod 3600 mod 60" by (simp add: mod_mod_cancel)
    then show ?thesis using div_mult_mod_eq[of s 3600] div_mult_mod_eq[of "s mod 3600" 60] by linarith
  qed
  moreover have "t = day * us_per_day + s * us_per_second + t mod us_per_second"
  proof -
    have "us_per_second dvd us_per_day" by (simp add: us_per_day_def us_per_second_def)
    then have "t mod us_per_day mod us_per_second = t mod us_per_second" by (rule mod_mod_cancel)
    then show ?thesis
      unfolding day_def s_def by (metis add.assoc div_mult_mod_eq)
  qed
  ultimately show "fields_instant (instant_fields t) = t - t mod us_per_second"
    using f(7) by (simp add: i fields_instant_def algebra_simps)
qed

end
