(* ===== verification/FundingTime.thy ===== *)
theory FundingTime
  imports PyStr PyCalendar
begin

text \<open>
  \<open>quantbot/paper/funding_time.py\<close>: which source timestamps back a funding window. A UTC datetime
  is its instant. The properties state the window contract in closed form and its agreement with
  the engine, which compares timestamps rendered to whole seconds.
\<close>

section \<open>The classifier\<close>

definition ENDPOINT_SAME_SECOND_TOLERANCE_MS :: int where
  "ENDPOINT_SAME_SECOND_TOLERANCE_MS = 999"

definition us_per_ms :: int where "us_per_ms = 1000"

definition REASON_ACCEPTED :: string where "REASON_ACCEPTED = ''accepted''"
definition REASON_DUPLICATE_CANONICAL_ENDPOINT :: string where
  "REASON_DUPLICATE_CANONICAL_ENDPOINT = ''duplicate_canonical_endpoint''"
definition REASON_MISSING_SOURCE_ROW :: string where "REASON_MISSING_SOURCE_ROW = ''missing_source_row''"
definition REASON_CANONICALIZED_TO_OPEN_BOUNDARY :: string where
  "REASON_CANONICALIZED_TO_OPEN_BOUNDARY = ''canonicalized_to_open_boundary''"
definition REASON_OUTSIDE_TOLERANCE :: string where "REASON_OUTSIDE_TOLERANCE = ''outside_tolerance''"

lemmas reason_defs = REASON_ACCEPTED_def REASON_DUPLICATE_CANONICAL_ENDPOINT_def REASON_MISSING_SOURCE_ROW_def
  REASON_CANONICALIZED_TO_OPEN_BOUNDARY_def REASON_OUTSIDE_TOLERANCE_def

record ts_classification =
  tc_allowed :: bool
  tc_reason :: string
  tc_endpoint :: "instant option"

record window_classification =
  wc_allowed :: bool
  wc_reason :: string
  wc_source_row_count :: nat
  wc_endpoint :: "instant option"

definition is_same_second :: "instant \<Rightarrow> instant \<Rightarrow> bool" where
  "is_same_second source endpoint \<longleftrightarrow> (let delta = source - endpoint in
     0 \<le> delta \<and> delta < (ENDPOINT_SAME_SECOND_TOLERANCE_MS + 1) * us_per_ms)"

definition canonicalize_funding_timestamp :: "instant \<Rightarrow> instant \<Rightarrow> instant \<Rightarrow> instant option" where
  "canonicalize_funding_timestamp source ws we = List.find (is_same_second source) [ws, we]"

definition classify_funding_timestamp :: "instant \<Rightarrow> instant \<Rightarrow> instant \<Rightarrow> ts_classification" where
  "classify_funding_timestamp ws we source =
     (let canonical = canonicalize_funding_timestamp source ws we in
      if canonical = Some ws then \<lparr>tc_allowed = False, tc_reason = REASON_CANONICALIZED_TO_OPEN_BOUNDARY,
        tc_endpoint = Some ws\<rparr>
      else if canonical = Some we then \<lparr>tc_allowed = True, tc_reason = REASON_ACCEPTED, tc_endpoint = Some we\<rparr>
      else if ws < source \<and> source \<le> we then \<lparr>tc_allowed = True, tc_reason = REASON_ACCEPTED, tc_endpoint = None\<rparr>
      else \<lparr>tc_allowed = False, tc_reason = REASON_OUTSIDE_TOLERANCE, tc_endpoint = None\<rparr>)"

definition classify_funding_timestamps :: "instant \<Rightarrow> instant \<Rightarrow> instant list \<Rightarrow> window_classification" where
  "classify_funding_timestamps ws we sources =
     (let cs = map (classify_funding_timestamp ws we) sources;
          accepted = filter tc_allowed cs;
          endpoint_hits = filter (\<lambda>c. tc_endpoint c = Some we) accepted
      in if cs = [] then \<lparr>wc_allowed = False, wc_reason = REASON_MISSING_SOURCE_ROW,
           wc_source_row_count = 0, wc_endpoint = None\<rparr>
         else if 1 < length endpoint_hits then \<lparr>wc_allowed = False,
           wc_reason = REASON_DUPLICATE_CANONICAL_ENDPOINT, wc_source_row_count = length accepted,
           wc_endpoint = Some we\<rparr>
         else if length accepted \<noteq> 0 then \<lparr>wc_allowed = True, wc_reason = REASON_ACCEPTED,
           wc_source_row_count = length accepted,
           wc_endpoint = (if endpoint_hits \<noteq> [] then Some we else None)\<rparr>
         else if list_ex (\<lambda>c. tc_reason c = REASON_CANONICALIZED_TO_OPEN_BOUNDARY) cs then
           \<lparr>wc_allowed = False, wc_reason = REASON_CANONICALIZED_TO_OPEN_BOUNDARY,
            wc_source_row_count = 0, wc_endpoint = Some ws\<rparr>
         else \<lparr>wc_allowed = False, wc_reason = REASON_OUTSIDE_TOLERANCE, wc_source_row_count = 0,
            wc_endpoint = None\<rparr>)"

section \<open>Closed form\<close>

lemma same_second_iff: "is_same_second t e \<longleftrightarrow> e \<le> t \<and> t < e + us_per_second"
  by (auto simp: is_same_second_def Let_def ENDPOINT_SAME_SECOND_TOLERANCE_MS_def us_per_ms_def us_per_second_def)

definition in_window :: "instant \<Rightarrow> instant \<Rightarrow> instant \<Rightarrow> bool" where
  \<comment> \<open>the seconds after the open boundary's second, up to and including the closed boundary's\<close>
  "in_window ws we t \<longleftrightarrow> ws + us_per_second \<le> t \<and> t < we + us_per_second"

lemma classify_allowed_iff:
  assumes "ws + us_per_second \<le> we"
  shows "tc_allowed (classify_funding_timestamp ws we t) \<longleftrightarrow> in_window ws we t"
  using assms
  by (auto simp: classify_funding_timestamp_def canonicalize_funding_timestamp_def same_second_iff
      in_window_def Let_def us_per_second_def)

lemma classify_endpoint_iff:
  assumes "ws + us_per_second \<le> we"
  shows "tc_allowed (classify_funding_timestamp ws we t) \<and> tc_endpoint (classify_funding_timestamp ws we t) = Some we
    \<longleftrightarrow> is_same_second t we"
  using assms
  by (auto simp: classify_funding_timestamp_def canonicalize_funding_timestamp_def same_second_iff
      Let_def us_per_second_def)

lemma classify_window_counts:
  assumes "ws + us_per_second \<le> we"
  shows "length (filter tc_allowed (map (classify_funding_timestamp ws we) ts)) = length (filter (in_window ws we) ts)"
    and "length (filter (\<lambda>c. tc_endpoint c = Some we) (filter tc_allowed (map (classify_funding_timestamp ws we) ts)))
      = length (filter (\<lambda>t. is_same_second t we) ts)"
proof -
  show "length (filter tc_allowed (map (classify_funding_timestamp ws we) ts)) = length (filter (in_window ws we) ts)"
    by (simp add: filter_map o_def classify_allowed_iff[OF assms] cong: filter_cong)
  show "length (filter (\<lambda>c. tc_endpoint c = Some we) (filter tc_allowed (map (classify_funding_timestamp ws we) ts)))
      = length (filter (\<lambda>t. is_same_second t we) ts)"
    by (simp add: filter_map o_def classify_endpoint_iff[OF assms] conj_commute cong: filter_cong)
qed

lemma classify_window_allowed:
  assumes "ws + us_per_second \<le> we"
  shows "wc_allowed (classify_funding_timestamps ws we ts) \<longleftrightarrow>
    list_ex (in_window ws we) ts \<and> length (filter (\<lambda>t. is_same_second t we) ts) \<le> 1"
    (is "?L = ?R")
proof -
  define cs where "cs = map (classify_funding_timestamp ws we) ts"
  have ex: "list_ex (in_window ws we) ts \<longleftrightarrow> length (filter tc_allowed cs) \<noteq> 0"
    using classify_window_counts(1)[OF assms, of ts, folded cs_def] by (auto simp: list_ex_iff filter_empty_conv)
  show ?thesis unfolding ex classify_window_counts(2)[OF assms, of ts, folded cs_def, symmetric]
    by (auto simp: classify_funding_timestamps_def Let_def cs_def[symmetric])
qed

section \<open>Whole-second rendering\<close>

lemma strftime_canonical: "0 \<le> t \<Longrightarrow> t < max_instant \<Longrightarrow> canonical_ts (strftime_bar t)"
  using strftime_instant(1) by (auto simp: canonical_ts_iff strftime_bar_def)

lemma fields_instant_mod: "fields_instant f mod us_per_second = 0"
  by (simp add: fields_instant_def us_per_day_def us_per_second_def)

lemma strftime_less_iff:
  assumes "valid_fields f" "0 \<le> t" "t < max_instant"
  shows "fmt_fields f < strftime_bar t \<longleftrightarrow> fields_instant f + us_per_second \<le> t"
    and "strftime_bar t \<le> fmt_fields f \<longleftrightarrow> t < fields_instant f + us_per_second"
proof -
  note s = strftime_instant[OF assms(2,3)]
  have less: "fmt_fields f < fmt_fields g \<longleftrightarrow> fields_instant f < fields_instant g" if "valid_fields g" for g
  proof (rule canonical_ts_less_iff)
    show "canonical_ts (fmt_fields f)" "canonical_ts (fmt_fields g)" using assms(1) that by (auto simp: canonical_ts_iff)
    show "strptime_bar (fmt_fields f) = Some (fields_instant f)" "strptime_bar (fmt_fields g) = Some (fields_instant g)"
      using assms(1) that by (simp_all add: strptime_bar_def strptime_fmt)
  qed
  obtain q where q: "fields_instant f = us_per_second * q" using fields_instant_mod[of f] by (metis mod_0_imp_dvd dvdE)
  define p where "p = t div us_per_second"
  define r where "r = t mod us_per_second"
  have t: "t = 1000000 * p + r" "0 \<le> r" "r < 1000000"
    by (simp_all add: p_def r_def us_per_second_def)
  have "(1000000 * q < 1000000 * p) \<longleftrightarrow> (1000000 * q + 1000000 \<le> 1000000 * p + r)"
  proof (cases "q < p")
    case True
    then have "q + 1 \<le> p" by simp
    then show ?thesis using t(2) True by linarith
  next
    case False
    then show ?thesis using t(3) by linarith
  qed
  note key = this
  have lhs: "fields_instant (instant_fields t) = 1000000 * p"
    by (simp add: s(2) p_def us_per_second_def minus_mod_eq_mult_div)
  have fs: "fields_instant f = 1000000 * q" by (simp add: q us_per_second_def)
  show 1: "fmt_fields f < strftime_bar t \<longleftrightarrow> fields_instant f + us_per_second \<le> t"
    unfolding strftime_bar_def less[OF s(1)] lhs fs using key t(1) by (simp only: us_per_second_def)
  show "strftime_bar t \<le> fmt_fields f \<longleftrightarrow> t < fields_instant f + us_per_second"
    using 1 by (metis not_le)
qed

lemma strftime_fields:
  assumes "valid_fields f" shows "strftime_bar (fields_instant f) = fmt_fields f"
proof -
  have r: "0 \<le> fields_instant f" "fields_instant f < max_instant" using fields_instant_range[OF assms] by auto
  note s = strftime_instant[OF r]
  have "fields_instant (instant_fields (fields_instant f)) = fields_instant f"
    unfolding s(2) by (simp add: fields_instant_mod)
  moreover have "fmt_fields (instant_fields (fields_instant f)) = fmt_fields f \<longleftrightarrow>
    fields_instant (instant_fields (fields_instant f)) = fields_instant f"
  proof (rule canonical_ts_eq_iff)
    show "canonical_ts (fmt_fields (instant_fields (fields_instant f)))" "canonical_ts (fmt_fields f)"
      using s(1) assms by (auto simp: canonical_ts_iff)
  qed (simp_all add: strptime_bar_def strptime_fmt s(1) assms)
  ultimately show ?thesis by (simp add: strftime_bar_def)
qed

section \<open>The rendering and the classifier agree\<close>

text \<open>
  For bar timestamps \<open>start < end\<close>, the string comparison of an event's whole-second rendering with the
  two timestamps holds exactly when the classifier accepts the event's exact instant for the window.
\<close>

lemma whole_second_apart:
  "fields_instant f < fields_instant g \<Longrightarrow> fields_instant f + us_per_second \<le> fields_instant g"
proof -
  assume "fields_instant f < fields_instant g"
  moreover have "us_per_second dvd fields_instant g - fields_instant f"
    using fields_instant_mod[of f] fields_instant_mod[of g] by (meson dvd_diff mod_0_imp_dvd)
  ultimately have "us_per_second \<le> fields_instant g - fields_instant f" by (intro zdvd_imp_le) simp_all
  then show ?thesis by simp
qed

lemma rendering_agrees_with_classifier:
  assumes "valid_fields f" "valid_fields g" "fields_instant f < fields_instant g" "0 \<le> t" "t < max_instant"
  shows "(fmt_fields f < strftime_bar t \<and> strftime_bar t \<le> fmt_fields g) \<longleftrightarrow>
    tc_allowed (classify_funding_timestamp (fields_instant f) (fields_instant g) t)"
  using whole_second_apart[OF assms(3)]
  by (simp add: strftime_less_iff[OF assms(1,4,5)] strftime_less_iff[OF assms(2,4,5)] classify_allowed_iff in_window_def)

section \<open>Two example times\<close>

definition midnight :: fields where
  "midnight = \<lparr>f_year = 1, f_month = 1, f_day = 1, f_hour = 0, f_minute = 0, f_second = 0\<rparr>"

definition eight_hours :: fields where
  "eight_hours = \<lparr>f_year = 1, f_month = 1, f_day = 1, f_hour = 8, f_minute = 0, f_second = 0\<rparr>"

section \<open>Properties\<close>

text \<open>
  C17. The window contract in closed form: a window of at least a second is clean exactly when some
  source row lies after the open boundary's second and no later than the closed boundary's second,
  and at most one row lies in the closed boundary's second. The order of the rows is irrelevant.
\<close>

theorem funding_window_contract:
  assumes "ws + us_per_second \<le> we"
  shows "wc_allowed (classify_funding_timestamps ws we ts) \<longleftrightarrow>
    list_ex (\<lambda>t. ws + us_per_second \<le> t \<and> t < we + us_per_second) ts
    \<and> length (filter (\<lambda>t. we \<le> t \<and> t < we + us_per_second) ts) \<le> 1"
  using classify_window_allowed[OF assms, of ts] by (simp add: in_window_def[abs_def] same_second_iff)

theorem funding_window_contract_witness:
  "wc_allowed (classify_funding_timestamps 0 28800000000 [28800000000])
    \<and> \<not> wc_allowed (classify_funding_timestamps 0 28800000000 [28800000000, 28800999999])"
  by (simp add: funding_window_contract us_per_second_def)

text \<open>
  C18. Adjacent windows split the time line: a source row between the first window's start and the
  second window's end backs exactly one of the two, so no funding event is counted twice or lost at
  the common boundary.
\<close>

theorem adjacent_funding_windows_partition:
  assumes "a + us_per_second \<le> b" "b + us_per_second \<le> c" "a + us_per_second \<le> t" "t < c + us_per_second"
  shows "tc_allowed (classify_funding_timestamp a b t) \<noteq> tc_allowed (classify_funding_timestamp b c t)"
  using assms by (auto simp: classify_allowed_iff in_window_def)

theorem adjacent_funding_windows_partition_witness:
  "tc_allowed (classify_funding_timestamp 0 28800000000 28800000005) \<noteq>
   tc_allowed (classify_funding_timestamp 28800000000 57600000000 28800000005)"
  by (rule adjacent_funding_windows_partition) (simp_all add: us_per_second_def)


end
