(* ===== verification/FundingIndex.thy ===== *)
theory FundingIndex
  imports EngineLedger FundingTime
begin

text \<open>
  The funding history as the engine reads it: the per-symbol index, the binary search in it, and
  what the funding rows of a ledger therefore contain, and that the engine charges the events the
  coverage gate's classifier accepts.
\<close>

section \<open>Binary search\<close>

lemma bisect_right_bounds:
  assumes "sorted keys" "lo \<le> hi" "hi \<le> length keys"
    and "\<And>i. i < lo \<Longrightarrow> keys ! i \<le> x" "\<And>i. hi \<le> i \<Longrightarrow> i < length keys \<Longrightarrow> x < keys ! i"
  shows "bisect_right keys x lo hi \<le> length keys
    \<and> (\<forall>i < bisect_right keys x lo hi. keys ! i \<le> x)
    \<and> (\<forall>i. bisect_right keys x lo hi \<le> i \<longrightarrow> i < length keys \<longrightarrow> x < keys ! i)"
  using assms
proof (induction keys x lo hi rule: bisect_right.induct)
  case (1 keys x lo hi)
  show ?case
  proof (cases "lo < hi")
    case True
    define mid where "mid = (lo + hi) div 2"
    have mid: "lo \<le> mid" "mid < hi" using True by (auto simp: mid_def)
    show ?thesis
    proof (cases "x < keys ! mid")
      case less: True
      have e: "bisect_right keys x lo hi = bisect_right keys x lo mid"
        using True less by (subst bisect_right.simps) (simp add: mid_def Let_def)
      have "x < keys ! i" if "mid \<le> i" "i < length keys" for i
        using less sorted_nth_mono[OF "1.prems"(1) that] by simp
      moreover have "mid \<le> length keys" using mid "1.prems"(3) by simp
      ultimately show ?thesis
        unfolding e using "1.IH"(1)[OF True mid_def less "1.prems"(1) mid(1)] "1.prems"(4) by blast
    next
      case False
      have e: "bisect_right keys x lo hi = bisect_right keys x (Suc mid) hi"
        using True False by (subst bisect_right.simps) (simp add: mid_def Let_def)
      have "keys ! i \<le> x" if "i < Suc mid" for i
        using False sorted_nth_mono[OF "1.prems"(1), of i mid] that mid "1.prems"(3) by simp
      moreover have "Suc mid \<le> hi" using mid by simp
      ultimately show ?thesis
        unfolding e using "1.IH"(2)[OF True mid_def False "1.prems"(1)] "1.prems"(3,5) by blast
    qed
  next
    case False
    then have e: "bisect_right keys x lo hi = lo" by (subst bisect_right.simps) simp
    have "lo = hi" using False "1.prems"(2) by simp
    then show ?thesis unfolding e using "1.prems"(3,4,5) by simp
  qed
qed

lemma filter_take:
  assumes "r \<le> length xs" "\<And>i. i < r \<Longrightarrow> P (xs ! i)" "\<And>i. r \<le> i \<Longrightarrow> i < length xs \<Longrightarrow> \<not> P (xs ! i)"
  shows "filter P xs = take r xs" "filter (\<lambda>x. \<not> P x) xs = drop r xs"
proof -
  have t: "list_all P (take r xs)" "list_all (\<lambda>x. \<not> P x) (drop r xs)"
    using assms by (auto simp: list_all_length)
  have "filter P (take r xs @ drop r xs) = take r xs" using t
    by (simp add: list_all_iff filter_id_conv filter_empty_conv del: append_take_drop_id)
  then show "filter P xs = take r xs" by simp
  have "filter (\<lambda>x. \<not> P x) (take r xs @ drop r xs) = drop r xs" using t
    by (simp add: list_all_iff filter_id_conv filter_empty_conv del: append_take_drop_id)
  then show "filter (\<lambda>x. \<not> P x) xs = drop r xs" by simp
qed

lemma filter_holds: "\<forall>x \<in> set (filter P xs). P x"
  by simp

lemma bisect_right_filter:
  fixes series :: "('a::linorder \<times> 'b) list" and x :: 'a
  assumes "sorted (map fst series)"
  defines "r \<equiv> bisect_right (map fst series) x 0 (length series)"
  shows "filter (\<lambda>e. fst e \<le> x) series = take r series" "filter (\<lambda>e. x < fst e) series = drop r series"
proof -
  have b: "r \<le> length series" "\<forall>i < r. map fst series ! i \<le> x"
    "\<forall>i. r \<le> i \<longrightarrow> i < length series \<longrightarrow> x < map fst series ! i"
    using bisect_right_bounds[of "map fst series" 0 "length series" x] assms by auto
  have i: "map fst series ! i = fst (series ! i)" if "i < length series" for i using that by simp
  have P: "\<And>i. i < r \<Longrightarrow> fst (series ! i) \<le> x" using b i by (metis less_le_trans)
  have Q: "\<And>i. r \<le> i \<Longrightarrow> i < length series \<Longrightarrow> \<not> fst (series ! i) \<le> x" using b i by (metis not_le)
  show "filter (\<lambda>e. fst e \<le> x) series = take r series"
    by (rule filter_take(1)[where P = "\<lambda>e. fst e \<le> x", OF b(1) P Q])
  show "filter (\<lambda>e. x < fst e) series = drop r series"
    using filter_take(2)[where P = "\<lambda>e. fst e \<le> x", OF b(1) P Q] by (simp add: not_le)
qed

text \<open>The slice between two bisections is the half-open window.\<close>

lemma window_slice:
  fixes series :: "('a::linorder \<times> 'b) list"
  assumes "sorted (map fst series)"
  shows "take (bisect_right (map fst series) b 0 (length series) - bisect_right (map fst series) a 0 (length series))
      (drop (bisect_right (map fst series) a 0 (length series)) series) =
    filter (\<lambda>e. a < fst e \<and> fst e \<le> b) series"
proof -
  define lo where "lo = bisect_right (map fst series) a 0 (length series)"
  define hi where "hi = bisect_right (map fst series) b 0 (length series)"
  note lo = bisect_right_filter[OF assms, of a, folded lo_def]
  note hi = bisect_right_filter[OF assms, of b, folded hi_def]
  have "filter (\<lambda>e. a < fst e \<and> fst e \<le> b) series = filter (\<lambda>e. fst e \<le> b) (filter (\<lambda>e. a < fst e) series)"
    by (simp add: conj_commute)
  also have "\<dots> = filter (\<lambda>e. fst e \<le> b) (drop lo series)" by (simp add: lo)
  also have "\<dots> = take (hi - lo) (drop lo series)"
  proof (cases "lo \<le> hi")
    case True
    have "filter (\<lambda>e. fst e \<le> b) (take lo series) @ filter (\<lambda>e. fst e \<le> b) (drop lo series) = take hi series"
      using hi(1) by (metis append_take_drop_id filter_append)
    moreover have "filter (\<lambda>e. fst e \<le> b) (take lo series) = take lo (take hi series)"
    proof -
      have "take lo (take hi series) = take lo series" using True by (simp add: min_absorb1)
      moreover have "\<forall>e \<in> set (take hi series). fst e \<le> b" using filter_holds[of "\<lambda>e. fst e \<le> b" series] hi(1) by simp
      moreover have "set (take lo series) \<subseteq> set (take hi series)" using True by (rule set_take_subset_set_take)
      ultimately show ?thesis by (auto simp: filter_id_conv)
    qed
    ultimately have "take lo (take hi series) @ filter (\<lambda>e. fst e \<le> b) (drop lo series) = take hi series" by argo
    then have "filter (\<lambda>e. fst e \<le> b) (drop lo series) = drop lo (take hi series)"
      by (metis append_take_drop_id same_append_eq)
    then show ?thesis by (simp add: drop_take)
  next
    case False
    have "filter (\<lambda>e. fst e \<le> b) (drop lo series) = []"
    proof -
      have "set (drop lo series) \<subseteq> set (drop hi series)" using False by (intro set_drop_subset_set_drop) simp
      moreover have "\<forall>e \<in> set (drop hi series). b < fst e" using filter_holds[of "\<lambda>e. b < fst e" series] hi(2) by simp
      ultimately show ?thesis by (auto simp: filter_empty_conv not_le)
    qed
    then show ?thesis using False by simp
  qed
  finally show ?thesis by (simp add: lo_def hi_def)
qed

section \<open>The index\<close>

definition symbol_events :: "funding_event list option \<Rightarrow> string \<Rightarrow> (string \<times> pyfloat) list" where
  \<comment> \<open>the funding history of one symbol, oldest first\<close>
  "symbol_events df symbol = (case df of None \<Rightarrow> [] | Some rows \<Rightarrow> sort_key fst
     (map (\<lambda>e. (strftime_bar (fe_dt e), fe_rate e)) (filter (\<lambda>e. fe_symbol e = symbol) rows)))"

lemma add_funding_events:
  "dict_get (fold add_funding_event rows ix) s =
     (let new = map (\<lambda>e. (strftime_bar (fe_dt e), fe_rate e)) (filter (\<lambda>e. fe_symbol e = s) rows)
      in if new = [] then dict_get ix s
         else Some ((case dict_get ix s of None \<Rightarrow> [] | Some es \<Rightarrow> es) @ new))"
  by (induction rows arbitrary: ix) (auto simp: add_funding_event_def Let_def dict_get_set split: option.splits)

lemma map_snd_get: "dict_get (map (\<lambda>(k, v). (k, g v)) d) k = map_option g (dict_get d k)"
  by (induction d) auto

lemma funding_index_get:
  "dict_get (build_funding_index df) s = (if symbol_events df s = [] then None else Some (symbol_events df s))"
proof (cases df)
  case (Some rows)
  have nil: "sort_key fst xs = [] \<longleftrightarrow> xs = []" for xs :: "(string \<times> pyfloat) list"
    by (metis length_0_conv length_sort)
  show ?thesis using Some
    by (simp add: build_funding_index_def symbol_events_def map_snd_get add_funding_events Let_def nil)
qed (simp add: build_funding_index_def symbol_events_def)

text \<open>The accrual over a window is the compensated sum over exactly the events of the window.\<close>

definition window_events :: "funding_event list option \<Rightarrow> string \<Rightarrow> string \<Rightarrow> string \<Rightarrow> (string \<times> pyfloat) list" where
  "window_events df symbol a b = filter (\<lambda>e. a < fst e \<and> fst e \<le> b) (symbol_events df symbol)"

lemma funding_in_interval_window:
  "funding_in_interval (build_funding_index df) symbol a b =
     (let es = window_events df symbol a b in
      if es = [] then (PFin 0, 0, False) else (fl_sum (map snd es), length es, True))"
proof -
  have sorted: "sorted (map fst (symbol_events df symbol))" by (simp add: symbol_events_def split: option.split)
  show ?thesis
  proof (cases "symbol_events df symbol = []")
    case False
    then show ?thesis
      unfolding funding_in_interval_def funding_index_get window_events_def
      by (simp only: Let_def if_False option.case length_map window_slice[OF sorted])
  qed (simp add: funding_in_interval_def funding_index_get window_events_def)
qed

lemma window_events_count:
  "length (window_events (Some rows) symbol a b) = length (filter (\<lambda>e. fe_symbol e = symbol
     \<and> a < strftime_bar (fe_dt e) \<and> strftime_bar (fe_dt e) \<le> b) rows)"
proof -
  have "length (filter P (sort_key fst xs)) = length (filter P xs)" for P and xs :: "(string \<times> pyfloat) list"
    by (metis mset_filter mset_sort size_mset)
  then show ?thesis by (simp add: window_events_def symbol_events_def filter_map o_def conj_ac)
qed

section \<open>The funding rows of a ledger\<close>

definition rows_from_index :: "funding_index \<Rightarrow> engine_result \<Rightarrow> bool" where
  "rows_from_index fidx r \<longleftrightarrow> list_all (\<lambda>w. funding_row_from fidx (fu_symbol w) (fu_bar_ts w) w) (er_funding r)"

lemma rows_from_index_append:
  "rows_from_index fidx r \<Longrightarrow> er_funding r' = er_funding r @ ws \<Longrightarrow>
   list_all (\<lambda>w. \<exists>s t. funding_row_from fidx s t w) ws \<Longrightarrow> rows_from_index fidx r'"
  by (auto simp: rows_from_index_def list_all_iff funding_row_from_def)

interpretation index_rows: ledger_invariant cfg pb fidx "rows_from_index fidx" "\<lambda>_. rows_from_index fidx"
    "\<lambda>_ _. rows_from_index fidx"
proof
  fix ts r cid ws symbol r'
  assume "rows_from_index fidx r" "hold_funding_step pb fidx ts cid ws symbol r = Inr r'"
  then show "rows_from_index fidx r'"
    by (elim hold_stepE) (erule rows_from_index_append, simp, force simp: list_all_iff)
next
  fix ts r cid nxt symbol r'
  assume "rows_from_index fidx r" "exit_funding_step pb fidx ts cid nxt symbol r = Inr r'"
  then show "rows_from_index fidx r'"
    by (elim exit_funding_stepE) (erule rows_from_index_append, simp, force simp: list_all_iff)
qed (auto simp: rows_from_index_def snapshot_rows elim!: exit_fill_stepE entry_fill_stepE)

lemma engine_funding_rows:
  "run_engine cfg rows series df st = Inr r \<Longrightarrow> rows_from_index (build_funding_index df) r"
  by (erule index_rows.run_inv) (simp_all add: rows_from_index_def empty_result_def)

section \<open>The events charged are those the gate accepts\<close>

lemma sort_key_mapped: "sort_key f (map g xs) = map g (sort_key (\<lambda>x. f (g x)) xs)"
proof -
  have "insort_key f (g x) (map g ys) = map g (insort_key (\<lambda>x. f (g x)) x ys)" for x ys
    by (induction ys) auto
  then show ?thesis by (induction xs) auto
qed

definition gate_accepted :: "instant \<Rightarrow> instant \<Rightarrow> string \<Rightarrow> funding_event list \<Rightarrow> funding_event list" where
  \<comment> \<open>the symbol's events whose instant the classifier accepts for the window\<close>
  "gate_accepted ws we symbol events = filter (\<lambda>e. fe_symbol e = symbol
     \<and> tc_allowed (classify_funding_timestamp ws we (fe_dt e))) events"

lemma window_events_accepted:
  assumes "valid_fields f" "valid_fields g" "fields_instant f < fields_instant g"
    and "list_all (\<lambda>e. 0 \<le> fe_dt e \<and> fe_dt e < max_instant) events"
  shows "map snd (window_events (Some events) symbol (fmt_fields f) (fmt_fields g)) =
    map fe_rate (sort_key (\<lambda>e. strftime_bar (fe_dt e))
      (gate_accepted (fields_instant f) (fields_instant g) symbol events))"
proof -
  have "filter (\<lambda>e. fmt_fields f < strftime_bar (fe_dt e) \<and> strftime_bar (fe_dt e) \<le> fmt_fields g \<and> fe_symbol e = symbol) events
    = gate_accepted (fields_instant f) (fields_instant g) symbol events"
    unfolding gate_accepted_def
  proof (rule filter_cong[OF refl])
    fix e assume "e \<in> set events"
    then have "0 \<le> fe_dt e" "fe_dt e < max_instant" using assms(4) by (simp_all add: list_all_iff)
    from rendering_agrees_with_classifier[OF assms(1-3) this]
    show "(fmt_fields f < strftime_bar (fe_dt e) \<and> strftime_bar (fe_dt e) \<le> fmt_fields g \<and> fe_symbol e = symbol) \<longleftrightarrow>
      (fe_symbol e = symbol \<and> tc_allowed (classify_funding_timestamp (fields_instant f) (fields_instant g) (fe_dt e)))"
      by blast
  qed
  then show ?thesis
    by (simp add: window_events_def symbol_events_def filter_sort filter_map o_def sort_key_mapped conj_ac)
qed

lemma charged_events:
  assumes "valid_fields f" "valid_fields g" "fields_instant f < fields_instant g"
    and "list_all (\<lambda>e. 0 \<le> fe_dt e \<and> fe_dt e < max_instant) events"
  shows "funding_in_interval (build_funding_index (Some events)) symbol (fmt_fields f) (fmt_fields g) =
    (let es = sort_key (\<lambda>e. strftime_bar (fe_dt e))
       (gate_accepted (fields_instant f) (fields_instant g) symbol events) in
     if es = [] then (PFin 0, 0, False) else (fl_sum (map fe_rate es), length es, True))"
proof -
  note w = window_events_accepted[OF assms, of symbol]
  then have "length (window_events (Some events) symbol (fmt_fields f) (fmt_fields g)) =
    length (sort_key (\<lambda>e. strftime_bar (fe_dt e)) (gate_accepted (fields_instant f) (fields_instant g) symbol events))"
    by (metis length_map)
  then show ?thesis using w
    unfolding funding_in_interval_window Let_def by (metis length_0_conv)
qed

section \<open>Properties\<close>

text \<open>
  C15. The binary search over the funding index is exact: the accrual of a symbol over a window is
  the sum of the rates of exactly the events after the window's start and up to and including its
  end, oldest first, with their number, and unavailable when there are none.
\<close>

theorem funding_in_interval_exact:
  "funding_in_interval (build_funding_index df) symbol start end_ts =
     (let es = filter (\<lambda>e. start < fst e \<and> fst e \<le> end_ts) (symbol_events df symbol) in
      if es = [] then (PFin 0, 0, False) else (fl_sum (map snd es), length es, True))"
  using funding_in_interval_window[of df symbol start end_ts] by (simp add: window_events_def)

text \<open>
  C16. Every funding row of a run reports the number of funding events of its symbol in its own
  window, is marked available exactly when there are any, and carries their summed rate.
\<close>

theorem engine_funding_rows_exact:
  assumes "run_engine cfg rows series (Some events) st = Inr r" "w \<in> set (er_funding r)"
  shows "fu_funding_events w = length (filter (\<lambda>e. fe_symbol e = fu_symbol w
      \<and> fu_window_start w < strftime_bar (fe_dt e) \<and> strftime_bar (fe_dt e) \<le> fu_window_end w) events)
    \<and> (fu_rate_available w \<longleftrightarrow> 0 < fu_funding_events w)
    \<and> (fu_rate_available w \<longrightarrow> fu_funding_rate w = fl_round 12 (fl_sum (map snd
        (window_events (Some events) (fu_symbol w) (fu_window_start w) (fu_window_end w)))))"
proof -
  define es where "es = window_events (Some events) (fu_symbol w) (fu_window_start w) (fu_window_end w)"
  have "funding_row_from (build_funding_index (Some events)) (fu_symbol w) (fu_bar_ts w) w"
    using engine_funding_rows[OF assms(1)] assms(2) by (simp add: rows_from_index_def list_all_iff)
  then have "fu_funding_events w = length es \<and> (fu_rate_available w \<longleftrightarrow> es \<noteq> [])
      \<and> (fu_rate_available w \<longrightarrow> fu_funding_rate w = fl_round 12 (fl_sum (map snd es)))"
    by (cases "es = []") (simp_all add: funding_row_from_def funding_in_interval_window es_def[symmetric])
  then show ?thesis using window_events_count[of events "fu_symbol w" "fu_window_start w" "fu_window_end w"]
    unfolding es_def[symmetric] by (metis length_greater_0_conv)
qed

theorem engine_funding_rows_exact_witness:
  "fu_funding_events (hd (er_funding fx_result)) = 1 \<and> fu_rate_available (hd (er_funding fx_result))"
  using engine_funding_rows_exact[OF fx_run, of "hd (er_funding fx_result)"] by (simp add: fx_result_def)

text \<open>
  C19. The engine charges what the coverage gate accepts. For a window between two bar timestamps
  \<open>start < end\<close> and funding events with instants in the calendar's range, \<open>funding_in_interval\<close>, the
  binary search over rendered timestamps, returns the sum of the rates and the number of exactly the
  symbol's events whose exact instant the gate's classifier accepts for the window, ordered by their
  rendered second, and \<open>unavailable\<close> when it accepts none; so a window the gate passes on the
  symbol's events always has a rate.
\<close>

theorem engine_and_gate_agree_on_events:
  assumes "valid_fields f" "valid_fields g" "fields_instant f < fields_instant g"
    and "list_all (\<lambda>e. 0 \<le> fe_dt e \<and> fe_dt e < max_instant) events"
  shows "funding_in_interval (build_funding_index (Some events)) symbol (fmt_fields f) (fmt_fields g) =
    (let es = sort_key (\<lambda>e. strftime_bar (fe_dt e)) (filter (\<lambda>e. fe_symbol e = symbol
       \<and> tc_allowed (classify_funding_timestamp (fields_instant f) (fields_instant g) (fe_dt e))) events) in
     if es = [] then (PFin 0, 0, False) else (fl_sum (map fe_rate es), length es, True))
   \<and> (wc_allowed (classify_funding_timestamps (fields_instant f) (fields_instant g)
        (map fe_dt (filter (\<lambda>e. fe_symbol e = symbol) events))) \<longrightarrow>
      snd (snd (funding_in_interval (build_funding_index (Some events)) symbol (fmt_fields f) (fmt_fields g))))"
proof -
  note c = charged_events[OF assms, of symbol, unfolded gate_accepted_def]
  have "filter (\<lambda>e. fe_symbol e = symbol
       \<and> tc_allowed (classify_funding_timestamp (fields_instant f) (fields_instant g) (fe_dt e))) events \<noteq> []"
    if "wc_allowed (classify_funding_timestamps (fields_instant f) (fields_instant g)
        (map fe_dt (filter (\<lambda>e. fe_symbol e = symbol) events)))"
    using that whole_second_apart[OF assms(3)]
    by (auto simp: classify_window_allowed classify_allowed_iff list_ex_iff filter_empty_conv)
  then show ?thesis unfolding c Let_def by (auto dest: arg_cong[where f = length])
qed

theorem engine_and_gate_agree_on_events_witness:
  "funding_in_interval (build_funding_index (Some [\<lparr>fe_symbol = ''A'', fe_dt = 28800000123, fe_rate = PFin 1\<rparr>,
     \<lparr>fe_symbol = ''A'', fe_dt = 123, fe_rate = PFin 2\<rparr>])) ''A'' (fmt_fields midnight) (fmt_fields eight_hours)
   = (PFin 1, 1, True)"
proof -
  have v: "valid_fields midnight" "valid_fields eight_hours" by (simp_all add: midnight_def eight_hours_def valid_fields_def days_in_month_def)
  have i: "fields_instant midnight = 0" "fields_instant eight_hours = 28800000000"
    by (simp_all add: midnight_def eight_hours_def fields_instant_def ymd2ord_def days_before_year_def days_before_month_def
      us_per_day_def us_per_second_def Let_def)
  show ?thesis
    using conjunct1[OF engine_and_gate_agree_on_events[OF v, of "[\<lparr>fe_symbol = ''A'', fe_dt = 28800000123, fe_rate = PFin 1\<rparr>,
     \<lparr>fe_symbol = ''A'', fe_dt = 123, fe_rate = PFin 2\<rparr>]" "''A''"]] i
    by (simp add: max_instant_def us_per_day_def classify_allowed_iff in_window_def us_per_second_def float_eval Let_def)
qed

end
