(* ===== verification/FundingCoverage.thy ===== *)
theory FundingCoverage
  imports FundingTime
begin

text \<open>
  \<open>quantbot/paper/funding_coverage.py\<close> with the constants of \<open>funding_status.py\<close>: does the source
  history back every funding window a batch needs? The directory of CSV files is a parameter, a
  function from file names to what \<open>csv.DictReader\<close> reads of them.
\<close>

section \<open>Parsing\<close>

definition COVERAGE_COMPLETE :: string where "COVERAGE_COMPLETE = ''complete''"
definition COVERAGE_PARTIAL :: string where "COVERAGE_PARTIAL = ''partial''"
definition COVERAGE_MISSING :: string where "COVERAGE_MISSING = ''missing''"
definition COVERAGE_NOT_REQUIRED :: string where "COVERAGE_NOT_REQUIRED = ''not_required''"

lemmas coverage_const_defs = COVERAGE_COMPLETE_def COVERAGE_PARTIAL_def COVERAGE_MISSING_def COVERAGE_NOT_REQUIRED_def

definition LOOKAHEAD_MS :: int where
  "LOOKAHEAD_MS = ENDPOINT_SAME_SECOND_TOLERANCE_MS + 3"

definition parse_iso :: "string \<Rightarrow> instant result" where
  \<comment> \<open>an offset that leaves the years 1 to 9999 raises when the classifier converts to UTC\<close>
  "parse_iso ts = rbind (of_option ValueError (fromisoformat ts)) to_utc"

definition parse_funding_time_ms :: "string option \<Rightarrow> instant option result" where
  \<comment> \<open>the cell is \<open>None\<close> in a row shorter than the header\<close>
  "parse_funding_time_ms raw = (case Option.bind raw parse_int of None \<Rightarrow> Inr None
     | Some ms \<Rightarrow> rbind (of_option OverflowError (fl_of_int ms)) (\<lambda>x.
         rbind (of_option ZeroDivisionError (fl_div x (PFin 1000))) (\<lambda>secs.
         rbind (fromtimestamp secs) (\<lambda>t. Inr (Some t)))))"

section \<open>The source files\<close>

datatype csv_file =
    NoFile
  | Unreadable \<comment> \<open>opening or reading raises \<open>OSError\<close>\<close>
  | Table "string list option" "(string, string option) dict list"

definition collect_candidates :: "instant \<Rightarrow> instant \<Rightarrow> (string, string option) dict list \<Rightarrow> instant list result" where
  "collect_candidates ws upper rows = rbind (rmap (\<lambda>row.
       parse_funding_time_ms (case dict_get row ''fundingTime'' of Some cell \<Rightarrow> cell | None \<Rightarrow> Some [])) rows)
     (\<lambda>ts. Inr (filter (\<lambda>t. ws \<le> t \<and> t < upper) (List.map_filter id ts)))"

definition classify_csv_window :: "csv_file \<Rightarrow> instant \<Rightarrow> instant \<Rightarrow> window_classification result" where
  "classify_csv_window file ws we = (let none = Inr (classify_funding_timestamps ws we []) in
     case file of NoFile \<Rightarrow> none | Unreadable \<Rightarrow> none
     | Table header rows \<Rightarrow>
         (case header of None \<Rightarrow> none | Some names \<Rightarrow>
           if ''fundingTime'' \<notin> set names then none
           else (case rbind (add_delta we (LOOKAHEAD_MS * us_per_ms)) (\<lambda>upper. collect_candidates ws upper rows) of
               Inl e \<Rightarrow> if e = OSError then none else Inl e
             | Inr candidates \<Rightarrow> Inr (classify_funding_timestamps ws we candidates))))"

type_synonym csv_dir = "string \<Rightarrow> csv_file"

definition load_csv_window :: "csv_dir \<Rightarrow> string \<Rightarrow> instant \<Rightarrow> instant \<Rightarrow> window_classification result" where
  "load_csv_window dir symbol ws we = classify_csv_window (dir (symbol @ ''_8h_funding.csv'')) ws we"

section \<open>Source rows held in memory\<close>

datatype source_cell =
    SNone
  | SDatetime "instant \<times> tzinfo" \<comment> \<open>a \<open>datetime\<close>, or a pandas timestamp converted to one\<close>
  | SText string \<comment> \<open>anything else, as \<open>str\<close> shows it\<close>

record source_row =
  sr_symbol :: json
  sr_dt :: source_cell
  sr_funding_time :: source_cell

definition coerce_source_datetime :: "source_cell \<Rightarrow> instant option result" where
  "coerce_source_datetime raw = (case raw of SNone \<Rightarrow> Inr None
     | SDatetime dt \<Rightarrow> rbind (to_utc dt) (\<lambda>t. Inr (Some t))
     | SText s \<Rightarrow> (case fromisoformat (zulu_offset s) of None \<Rightarrow> Inr None
         | Some dt \<Rightarrow> rbind (to_utc dt) (\<lambda>t. Inr (Some t))))"

definition source_row_instant :: "source_row \<Rightarrow> instant option result" where
  "source_row_instant row = rbind (coerce_source_datetime (sr_dt row)) (\<lambda>t. case t of Some _ \<Rightarrow> Inr t
     | None \<Rightarrow> (case sr_funding_time row of SText s \<Rightarrow> parse_funding_time_ms (Some s) | _ \<Rightarrow> Inr None))"

definition add_source_row :: "source_row \<Rightarrow> (string, instant list) dict \<Rightarrow> (string, instant list) dict result" where
  "add_source_row row grouped = (let symbol = (if py_truthy (sr_symbol row) then py_str (sr_symbol row) else []) in
     if symbol = [] then Inr grouped
     else rbind (source_row_instant row) (\<lambda>t. Inr (case t of None \<Rightarrow> grouped | Some t \<Rightarrow>
       dict_set symbol ((case dict_get grouped symbol of None \<Rightarrow> [] | Some ts \<Rightarrow> ts) @ [t]) grouped)))"

definition source_timestamps_by_symbol :: "source_row list \<Rightarrow> (string, instant list) dict result" where
  "source_timestamps_by_symbol rows =
     rbind (rfold add_source_row rows []) (\<lambda>grouped. Inr (map (\<lambda>(k, ts). (k, sort ts)) grouped))"

definition classify_source_window ::
    "(string, instant list) dict \<Rightarrow> string \<Rightarrow> instant \<Rightarrow> instant \<Rightarrow> window_classification result" where
  "classify_source_window by_symbol symbol ws we =
     rbind (add_delta we (LOOKAHEAD_MS * us_per_ms)) (\<lambda>upper.
     Inr (classify_funding_timestamps ws we (filter (\<lambda>t. ws \<le> t \<and> t < upper)
       (case dict_get by_symbol symbol of None \<Rightarrow> [] | Some ts \<Rightarrow> ts))))"

section \<open>Rows to a report\<close>

record coverage_row =
  cr_funding_id :: string
  cr_symbol :: string
  cr_bar_ts :: string
  cr_window_start :: string
  cr_window_end :: string
  cr_rate_available :: bool
  cr_source_row_count :: nat
  cr_source_issue :: string

record coverage_report =
  cv_per_symbol :: "(string, string) dict"
  cv_missing_windows :: "coverage_row list"
  cv_total_funding_rows :: nat
  cv_total_rate_available_zero :: nat
  cv_total_required_intervals :: nat
  cv_overall_decision :: string

definition rate_flag :: "json \<Rightarrow> bool" where
  "rate_flag v = (case v of JStr s \<Rightarrow> s \<notin> set [[], ''0'', ''false'', ''False''] | _ \<Rightarrow> py_truthy v)"

type_synonym window_loader = "string \<Rightarrow> instant \<Rightarrow> instant \<Rightarrow> window_classification result"

definition classify_object :: "window_loader \<Rightarrow> (string, json) dict \<Rightarrow> coverage_row result" where
  "classify_object load obj = (let
     text = (\<lambda>name. py_str (obj_get obj name (JStr [])));
     symbol = text ''symbol''; ws_raw = text ''window_start''; we_raw = text ''window_end'';
     available = rate_flag (obj_get obj ''rate_available'' (JInt 0))
       \<and> \<not> (symbol = [] \<or> ws_raw = [] \<or> we_raw = [])
     in rbind (parse_iso ws_raw) (\<lambda>ws. rbind (parse_iso we_raw) (\<lambda>we. rbind (load symbol ws we) (\<lambda>src.
       Inr \<lparr>cr_funding_id = text ''funding_id'', cr_symbol = symbol, cr_bar_ts = text ''bar_ts'',
         cr_window_start = ws_raw, cr_window_end = we_raw, cr_rate_available = available,
         cr_source_row_count = wc_source_row_count src,
         cr_source_issue = (if wc_allowed src then [] else wc_reason src)\<rparr>))))"

definition row_missing :: "coverage_row \<Rightarrow> bool" where
  "row_missing r \<longleftrightarrow> \<not> cr_rate_available r \<or> cr_source_issue r \<noteq> []"

definition symbol_decision :: "coverage_row list \<Rightarrow> string" where
  "symbol_decision rows = (let missing = filter row_missing rows in
     if missing = [] then COVERAGE_COMPLETE
     else if length missing = length rows then COVERAGE_MISSING else COVERAGE_PARTIAL)"

definition overall_decision :: "bool \<Rightarrow> (string, string) dict \<Rightarrow> string" where
  "overall_decision nothing per_symbol = (let ds = map snd per_symbol in
     if nothing then COVERAGE_NOT_REQUIRED
     else if COVERAGE_MISSING \<in> set ds then COVERAGE_MISSING
     else if COVERAGE_PARTIAL \<in> set ds then COVERAGE_PARTIAL
     else if ds \<noteq> [] \<and> list_all (\<lambda>d. d = COVERAGE_COMPLETE \<or> d = COVERAGE_NOT_REQUIRED) ds then COVERAGE_COMPLETE
     else COVERAGE_NOT_REQUIRED)"

definition build_report :: "string list option \<Rightarrow> coverage_row list \<Rightarrow> coverage_report" where
  "build_report symbols rows = (let
     in_ledger = map cr_symbol rows;
     pool = (case symbols of None \<Rightarrow> rows | Some allowed \<Rightarrow> filter (\<lambda>r. cr_symbol r \<in> set allowed) rows);
     pool_symbols = sorted_set (map cr_symbol pool);
     decided = map (\<lambda>s. (s, symbol_decision (filter (\<lambda>r. cr_symbol r = s) pool))) pool_symbols;
     per_symbol = decided @ (if symbols = None
       then map (\<lambda>s. (s, COVERAGE_NOT_REQUIRED)) (filter (\<lambda>s. s \<notin> set pool_symbols) (sorted_set in_ledger)) else [])
     in \<lparr>cv_per_symbol = per_symbol, cv_missing_windows = filter row_missing rows,
         cv_total_funding_rows = length rows,
         cv_total_rate_available_zero = length (filter (\<lambda>r. \<not> cr_rate_available r) rows),
         cv_total_required_intervals = length rows,
         cv_overall_decision = overall_decision (pool = [] \<and> in_ledger = []) per_symbol\<rparr>)"

definition classify_row :: "window_loader \<Rightarrow> json \<Rightarrow> coverage_row result" where
  \<comment> \<open>a row that is not a dict has no \<open>get\<close>\<close>
  "classify_row load row = (case row of JObj obj \<Rightarrow> classify_object load obj | _ \<Rightarrow> Inl AttributeError)"

definition classify_rows_with_loader ::
    "window_loader \<Rightarrow> string list option \<Rightarrow> json list \<Rightarrow> coverage_report result" where
  "classify_rows_with_loader load symbols rows =
     rbind (rmap (classify_row load) (filter (\<lambda>v. v \<noteq> JNull) rows)) (\<lambda>rs. Inr (build_report symbols rs))"

definition classify_rows :: "csv_dir \<Rightarrow> string list option \<Rightarrow> json list \<Rightarrow> coverage_report result" where
  "classify_rows dir symbols rows = classify_rows_with_loader (load_csv_window dir) symbols rows"

definition check_funding_coverage_from_rows ::
    "csv_dir \<Rightarrow> string list option \<Rightarrow> json list \<Rightarrow> coverage_report result" where
  "check_funding_coverage_from_rows dir symbols rows = classify_rows dir symbols rows"

definition check_funding_coverage ::
    "csv_dir \<Rightarrow> string list option \<Rightarrow> json option list option \<Rightarrow> coverage_report result" where
  \<comment> \<open>the ledger file as its non-blank lines, parsed; \<open>None\<close> for a line that is not JSON\<close>
  "check_funding_coverage dir symbols ledger = classify_rows dir symbols
     (case ledger of None \<Rightarrow> [] | Some lines \<Rightarrow> List.map_filter id lines)"

definition check_funding_coverage_from_source_rows ::
    "source_row list \<Rightarrow> string list option \<Rightarrow> json list \<Rightarrow> coverage_report result" where
  "check_funding_coverage_from_source_rows source symbols rows =
     rbind (source_timestamps_by_symbol source) (\<lambda>by_symbol.
     classify_rows_with_loader (classify_source_window by_symbol) symbols rows)"

section \<open>The pre-batch gate\<close>

definition csv_has_row_in_interval :: "csv_dir \<Rightarrow> string \<Rightarrow> instant \<Rightarrow> instant \<Rightarrow> int \<Rightarrow> bool result" where
  "csv_has_row_in_interval dir symbol ws we hours =
     rbind (classify_csv_window (dir (symbol @ ''_'' @ show_int hours @ ''h_funding.csv'')) ws we)
       (\<lambda>src. Inr (wc_allowed src))"

definition obs_bar_instant :: "(string, json) dict \<Rightarrow> instant option result" where
  \<comment> \<open>\<open>None\<close> for an entry without a timestamp, which is skipped\<close>
  "obs_bar_instant o1 = (let raw = (case obj_get o1 ''bar_ts'' JNull of JNull \<Rightarrow> obj_get o1 ''timestamp'' JNull | v \<Rightarrow> v) in
     if raw = JNull \<or> raw = JStr [] then Inr None
     else rbind (of_option ValueError (fromisoformat (py_str raw))) (\<lambda>t. rbind (to_utc t) (\<lambda>u. Inr (Some u))))"

definition batch_intervals :: "int \<Rightarrow> (string, json) dict list \<Rightarrow> (instant \<times> instant) list result" where
  \<comment> \<open>the windows in the order of their first appearance\<close>
  "batch_intervals hours obs = rbind (rmap (\<lambda>o1. rbind (obs_bar_instant o1) (\<lambda>t.
       case t of None \<Rightarrow> Inr None | Some we \<Rightarrow> rbind (add_delta we (- (hours * us_per_hour))) (\<lambda>ws. Inr (Some (ws, we))))) obs)
     (\<lambda>ws. Inr (rev (remdups (rev (List.map_filter id ws)))))"

definition synthetic_row :: "csv_dir \<Rightarrow> int \<Rightarrow> string \<Rightarrow> instant \<times> instant \<Rightarrow> json result" where
  "synthetic_row dir hours symbol window = (case window of (ws, we) \<Rightarrow>
     rbind (csv_has_row_in_interval dir symbol ws we hours) (\<lambda>has_row.
     rbind (add_delta ws (hours * us_per_hour div 2)) (\<lambda>midpoint.
     Inr (JObj [(''funding_id'', JStr (''synthetic:'' @ symbol @ '':'' @ strftime_bar ws)), (''symbol'', JStr symbol),
       (''bar_ts'', JStr (strftime_bar midpoint)), (''window_start'', JStr (strftime_bar ws)),
       (''window_end'', JStr (strftime_bar we)), (''rate_available'', JBool has_row)]))))"

definition not_required_report :: "string list \<Rightarrow> coverage_report" where
  "not_required_report scope = \<lparr>cv_per_symbol = map (\<lambda>s. (s, COVERAGE_NOT_REQUIRED)) scope,
     cv_missing_windows = [], cv_total_funding_rows = 0, cv_total_rate_available_zero = 0,
     cv_total_required_intervals = 0, cv_overall_decision = COVERAGE_NOT_REQUIRED\<rparr>"

definition valid_interval_hours :: "int \<Rightarrow> bool" where
  "valid_interval_hours hours \<longleftrightarrow> \<not> (hours \<le> 0 \<or> 24 mod hours \<noteq> 0)"

definition batch_scope :: "string list \<Rightarrow> string list option \<Rightarrow> string list" where
  "batch_scope bar_symbols symbols = sorted_set (case symbols of None \<Rightarrow> bar_symbols
     | Some allowed \<Rightarrow> filter (\<lambda>s. s \<in> set allowed) bar_symbols)"

definition check_funding_coverage_for_batch ::
    "csv_dir \<Rightarrow> (string, json) dict list \<Rightarrow> string list \<Rightarrow> string list option \<Rightarrow> int \<Rightarrow> coverage_report result" where
  "check_funding_coverage_for_batch dir obs bar_symbols symbols hours =
     (if \<not> valid_interval_hours hours then Inl ValueError
      else (let scope = batch_scope bar_symbols symbols in
        if scope = [] then Inr (not_required_report [])
        else rbind (batch_intervals hours obs) (\<lambda>intervals.
          if intervals = [] then Inr (not_required_report scope)
          else rbind (rmap (\<lambda>(s, w). synthetic_row dir hours s w) (List.product scope intervals)) (\<lambda>rows.
            classify_rows dir (Some scope) rows))))"

section \<open>What a decision means\<close>

definition report_pool :: "string list option \<Rightarrow> coverage_row list \<Rightarrow> coverage_row list" where
  "report_pool symbols rows = (case symbols of None \<Rightarrow> rows | Some allowed \<Rightarrow> filter (\<lambda>r. cr_symbol r \<in> set allowed) rows)"

definition rows_of :: "string \<Rightarrow> coverage_row list \<Rightarrow> coverage_row list" where
  "rows_of s pool = filter (\<lambda>r. cr_symbol r = s) pool"

lemma symbol_decision_cases:
  "symbol_decision rows = COVERAGE_COMPLETE \<longleftrightarrow> list_all (\<lambda>r. \<not> row_missing r) rows"
  "symbol_decision rows = COVERAGE_MISSING \<longleftrightarrow> rows \<noteq> [] \<and> list_all row_missing rows"
proof -
  have "length (filter row_missing rows) = length rows \<longleftrightarrow> list_all row_missing rows"
    by (metis filter_id_conv length_filter_less list_all_iff nat_neq_iff)
  then show "symbol_decision rows = COVERAGE_MISSING \<longleftrightarrow> rows \<noteq> [] \<and> list_all row_missing rows"
    by (auto simp: symbol_decision_def Let_def coverage_const_defs filter_empty_conv list_all_iff)
  show "symbol_decision rows = COVERAGE_COMPLETE \<longleftrightarrow> list_all (\<lambda>r. \<not> row_missing r) rows"
    by (auto simp: symbol_decision_def Let_def coverage_const_defs filter_empty_conv list_all_iff)
qed

lemma symbol_decision_range:
  "symbol_decision rows \<in> {COVERAGE_COMPLETE, COVERAGE_MISSING, COVERAGE_PARTIAL}"
  by (simp add: symbol_decision_def Let_def)

lemma report_decisions:
  assumes "pool = report_pool symbols rows"
  shows "set (map snd (cv_per_symbol (build_report symbols rows))) - {COVERAGE_NOT_REQUIRED} =
    (\<lambda>s. symbol_decision (rows_of s pool)) ` cr_symbol ` set pool"
proof -
  have ne: "symbol_decision rs \<noteq> COVERAGE_NOT_REQUIRED" for rs
    using symbol_decision_range[of rs] by (auto simp: coverage_const_defs)
  show ?thesis using ne
    by (auto simp: build_report_def Let_def assms report_pool_def[symmetric] rows_of_def[symmetric] image_image)
qed

lemma overall_missing_iff:
  "overall_decision nothing per_symbol = COVERAGE_MISSING \<longleftrightarrow> \<not> nothing \<and> COVERAGE_MISSING \<in> set (map snd per_symbol)"
  by (auto simp: overall_decision_def Let_def coverage_const_defs)

lemma overall_complete_iff:
  "overall_decision nothing per_symbol = COVERAGE_COMPLETE \<longleftrightarrow> \<not> nothing \<and> per_symbol \<noteq> []
     \<and> set (map snd per_symbol) - {COVERAGE_NOT_REQUIRED} \<subseteq> {COVERAGE_COMPLETE}"
  by (auto simp: overall_decision_def Let_def coverage_const_defs list_all_iff)

lemma report_fields:
  "cv_overall_decision (build_report symbols rows) =
     overall_decision (report_pool symbols rows = [] \<and> rows = []) (cv_per_symbol (build_report symbols rows))"
  "cv_missing_windows (build_report symbols rows) = filter row_missing rows"
  "cv_total_funding_rows (build_report symbols rows) = length rows"
  by (simp_all add: build_report_def Let_def report_pool_def)

lemma report_complete_pool:
  assumes "cv_overall_decision (build_report symbols rows) = COVERAGE_COMPLETE" "r \<in> set (report_pool symbols rows)"
  shows "\<not> row_missing r"
proof -
  have "symbol_decision (rows_of (cr_symbol r) (report_pool symbols rows)) = COVERAGE_COMPLETE"
    using assms report_decisions[OF refl, of symbols rows] by (auto simp: report_fields overall_complete_iff)
  then show ?thesis using assms(2) by (auto simp: symbol_decision_cases rows_of_def list_all_iff)
qed

lemma report_complete_iff:
  "cv_overall_decision (build_report None rows) = COVERAGE_COMPLETE \<longleftrightarrow> rows \<noteq> [] \<and> list_all (\<lambda>r. \<not> row_missing r) rows"
proof
  assume c: "cv_overall_decision (build_report None rows) = COVERAGE_COMPLETE"
  then show "rows \<noteq> [] \<and> list_all (\<lambda>r. \<not> row_missing r) rows"
    using report_complete_pool[OF c] by (auto simp: report_fields overall_complete_iff report_pool_def list_all_iff)
next
  assume a: "rows \<noteq> [] \<and> list_all (\<lambda>r. \<not> row_missing r) rows"
  then have d: "symbol_decision (rows_of s rows) = COVERAGE_COMPLETE" for s
    by (auto simp: symbol_decision_cases rows_of_def list_all_iff)
  have "cv_per_symbol (build_report None rows) \<noteq> []"
    using a by (simp add: build_report_def Let_def)
  then show "cv_overall_decision (build_report None rows) = COVERAGE_COMPLETE"
    using a d report_decisions[OF refl, of None rows]
    by (auto simp: report_fields overall_complete_iff report_pool_def)
qed

lemma report_missing_iff:
  "cv_overall_decision (build_report None rows) = COVERAGE_MISSING \<longleftrightarrow>
     list_ex (\<lambda>r. list_all row_missing (rows_of (cr_symbol r) rows)) rows"
proof -
  let ?ds = "set (map snd (cv_per_symbol (build_report None rows)))"
  have "COVERAGE_MISSING \<in> ?ds \<longleftrightarrow> COVERAGE_MISSING \<in> ?ds - {COVERAGE_NOT_REQUIRED}"
    by (simp add: coverage_const_defs)
  also have "\<dots> \<longleftrightarrow> (\<exists>r \<in> set rows. symbol_decision (rows_of (cr_symbol r) rows) = COVERAGE_MISSING)"
    unfolding report_decisions[OF refl] report_pool_def image_image image_iff by (simp add: eq_commute)
  finally have "COVERAGE_MISSING \<in> ?ds \<longleftrightarrow>
    (\<exists>r \<in> set rows. symbol_decision (rows_of (cr_symbol r) rows) = COVERAGE_MISSING)" .
  moreover have "r \<in> set rows \<Longrightarrow> rows_of (cr_symbol r) rows \<noteq> []" for r
    by (auto simp: rows_of_def filter_empty_conv)
  ultimately show ?thesis
    unfolding report_fields overall_missing_iff list_ex_iff symbol_decision_cases report_pool_def by auto
qed

section \<open>What the batch gate guarantees\<close>

lemma classify_reason_nonempty:
  "\<not> wc_allowed (classify_funding_timestamps ws we ts) \<Longrightarrow> wc_reason (classify_funding_timestamps ws we ts) \<noteq> []"
  by (auto simp: classify_funding_timestamps_def Let_def reason_defs split: if_splits)

lemma csv_reason_nonempty:
  "classify_csv_window file ws we = Inr src \<Longrightarrow> \<not> wc_allowed src \<Longrightarrow> wc_reason src \<noteq> []"
  using classify_reason_nonempty
  by (auto simp: classify_csv_window_def Let_def split: csv_file.splits option.splits if_splits sum.splits)

lemma parse_iso_fields: "valid_fields f \<Longrightarrow> parse_iso (fmt_fields f) = Inr (fields_instant f)"
  by (simp add: parse_iso_def fromisoformat_naive to_utc_def)

lemma rmap_member: "rmap f xs = Inr ys \<Longrightarrow> x \<in> set xs \<Longrightarrow> \<exists>y \<in> set ys. f x = Inr y"
  by (induction xs arbitrary: ys) (auto simp: result_simps)

lemma synthetic_row_clean:
  assumes "synthetic_row dir hours s (fields_instant f, fields_instant g) = Inr row"
    and "classify_row (load_csv_window dir) row = Inr r" "\<not> row_missing r" "valid_fields f" "valid_fields g"
  shows "csv_has_row_in_interval dir s (fields_instant f) (fields_instant g) hours = Inr True"
    and "\<exists>src. load_csv_window dir s (fields_instant f) (fields_instant g) = Inr src \<and> wc_allowed src"
proof -
  from assms(1) obtain has_row mid where h: "csv_has_row_in_interval dir s (fields_instant f) (fields_instant g) hours = Inr has_row"
    and row: "row = JObj [(''funding_id'', JStr (''synthetic:'' @ s @ '':'' @ fmt_fields f)), (''symbol'', JStr s),
       (''bar_ts'', JStr mid), (''window_start'', JStr (fmt_fields f)),
       (''window_end'', JStr (fmt_fields g)), (''rate_available'', JBool has_row)]"
    by (auto simp: synthetic_row_def rbind_Inr_iff strftime_fields assms(4,5))
  from assms(2) obtain src where src: "load_csv_window dir s (fields_instant f) (fields_instant g) = Inr src"
    and r: "cr_rate_available r \<longrightarrow> has_row" "cr_source_issue r = (if wc_allowed src then [] else wc_reason src)"
    by (auto simp: row classify_row_def classify_object_def obj_get_def rbind_Inr_iff parse_iso_fields assms(4,5)
      rate_flag_def Let_def)
  show "csv_has_row_in_interval dir s (fields_instant f) (fields_instant g) hours = Inr True"
    using h r assms(3) by (auto simp: row_missing_def)
  show "\<exists>src. load_csv_window dir s (fields_instant f) (fields_instant g) = Inr src \<and> wc_allowed src"
    using src r(2) assms(3) csv_reason_nonempty[of _ _ _ src]
    by (auto simp: row_missing_def load_csv_window_def split: if_splits)
qed

lemma synthetic_row_symbol:
  "synthetic_row dir hours s w = Inr row \<Longrightarrow> classify_row load row = Inr r \<Longrightarrow> cr_symbol r = s"
  by (cases w) (auto simp: synthetic_row_def classify_row_def classify_object_def obj_get_def rbind_Inr_iff Let_def)

lemma synthetic_not_null: "synthetic_row dir hours s w = Inr row \<Longrightarrow> row \<noteq> JNull"
  by (cases w) (auto simp: synthetic_row_def rbind_Inr_iff)

lemma batch_complete:
  assumes "check_funding_coverage_for_batch dir obs bar_symbols symbols hours = Inr rep"
    and "cv_overall_decision rep = COVERAGE_COMPLETE"
    and "batch_intervals hours obs = Inr intervals" "(fields_instant f, fields_instant g) \<in> set intervals"
    and "s \<in> set (batch_scope bar_symbols symbols)" "valid_fields f" "valid_fields g"
  shows "csv_has_row_in_interval dir s (fields_instant f) (fields_instant g) hours = Inr True"
    and "\<exists>src. load_csv_window dir s (fields_instant f) (fields_instant g) = Inr src \<and> wc_allowed src"
proof -
  let ?scope = "batch_scope bar_symbols symbols"
  from assms(4,5) have ne: "?scope \<noteq> []" "intervals \<noteq> []" by auto
  with assms(1,3) obtain rows rs where
    rows: "rmap (\<lambda>(s, w). synthetic_row dir hours s w) (List.product ?scope intervals) = Inr rows"
    and rs: "rmap (classify_row (load_csv_window dir)) (filter (\<lambda>v. v \<noteq> JNull) rows) = Inr rs"
    and rep: "rep = build_report (Some ?scope) rs"
    by (auto simp: check_funding_coverage_for_batch_def Let_def rbind_Inr_iff classify_rows_def
      classify_rows_with_loader_def split: if_splits)
  have "(s, fields_instant f, fields_instant g) \<in> set (List.product ?scope intervals)" using assms(4,5) by simp
  from rmap_member[OF rows this] obtain row where
    row: "row \<in> set rows" "synthetic_row dir hours s (fields_instant f, fields_instant g) = Inr row" by auto
  have "row \<in> set (filter (\<lambda>v. v \<noteq> JNull) rows)" using row synthetic_not_null by auto
  from rmap_member[OF rs this] obtain r where r: "r \<in> set rs" "classify_row (load_csv_window dir) row = Inr r" by auto
  have "r \<in> set (report_pool (Some ?scope) rs)"
    using r(1) synthetic_row_symbol[OF row(2) r(2)] assms(5) by (simp add: report_pool_def)
  then have "\<not> row_missing r" using assms(2) rep report_complete_pool by blast
  from synthetic_row_clean[OF row(2) r(2) this assms(6,7)]
  show "csv_has_row_in_interval dir s (fields_instant f) (fields_instant g) hours = Inr True"
    "\<exists>src. load_csv_window dir s (fields_instant f) (fields_instant g) = Inr src \<and> wc_allowed src" by blast+
qed

section \<open>A concrete batch\<close>

definition fx_dir :: csv_dir where
  \<comment> \<open>one file, with one row at 08:00 of the first day\<close>
  "fx_dir name = (if name = ''A_8h_funding.csv''
     then Table (Some [''fundingTime'']) [[(''fundingTime'', Some ''-62135568000000'')]] else NoFile)"

definition fx_batch_obs :: "(string, json) dict list" where
  "fx_batch_obs = [[(''timestamp'', JStr (fmt_fields eight_hours))]]"

lemma fx_batch_times:
  "valid_fields midnight" "valid_fields eight_hours"
  "fields_instant midnight = 0" "fields_instant eight_hours = 28800000000"
  by (simp_all add: midnight_def eight_hours_def valid_fields_def days_in_month_def fields_instant_def ymd2ord_def
    days_before_year_def days_before_month_def us_per_day_def us_per_second_def Let_def)

lemma fx_batch_strftime:
  "strftime_bar 0 = fmt_fields midnight" "strftime_bar 28800000000 = fmt_fields eight_hours"
  using strftime_fields[of midnight] strftime_fields[of eight_hours] fx_batch_times by simp_all

lemma fx_cell: "parse_funding_time_ms (Some ''-62135568000000'') = Inr (Some 28800000000)"
proof -
  have "parse_int ''-62135568000000'' = Some (-62135568000000)" by code_simp
  moreover have "fl_of_int (-62135568000000) = Some (PFin (-62135568000000))" by (simp add: fl_of_int_def)
  ultimately show ?thesis
    by (simp add: parse_funding_time_ms_def fromtimestamp_def epoch_def us_per_day_def max_instant_def Let_def
      round_half_even_def)
qed

lemma fx_window: "classify_csv_window (fx_dir ''A_8h_funding.csv'') 0 28800000000 =
    Inr \<lparr>wc_allowed = True, wc_reason = REASON_ACCEPTED, wc_source_row_count = 1, wc_endpoint = Some 28800000000\<rparr>"
  by (simp add: classify_csv_window_def fx_dir_def Let_def collect_candidates_def fx_cell add_delta_def
    LOOKAHEAD_MS_def ENDPOINT_SAME_SECOND_TOLERANCE_MS_def us_per_ms_def max_instant_def us_per_day_def
    classify_funding_timestamps_def classify_funding_timestamp_def canonicalize_funding_timestamp_def
    same_second_iff us_per_second_def map_filter_def)

lemma fx_synthetic: "synthetic_row fx_dir 8 ''A'' (0, 28800000000) = Inr (JObj
    [(''funding_id'', JStr (''synthetic:A:'' @ fmt_fields midnight)), (''symbol'', JStr ''A''),
     (''bar_ts'', JStr (strftime_bar 14400000000)), (''window_start'', JStr (fmt_fields midnight)),
     (''window_end'', JStr (fmt_fields eight_hours)), (''rate_available'', JBool True)])"
proof -
  have "show_int 8 = ''8''" by code_simp
  then show ?thesis
    by (simp add: synthetic_row_def csv_has_row_in_interval_def fx_window fx_batch_strftime add_delta_def
      us_per_hour_def max_instant_def us_per_day_def)
qed

lemma fmt_fields_not_Nil: "fmt_fields f \<noteq> []"
  by (simp add: fmt_fields_def)

lemma fx_classified:
  "\<exists>r. classify_row (load_csv_window fx_dir) (JObj
    [(''funding_id'', JStr (''synthetic:A:'' @ fmt_fields midnight)), (''symbol'', JStr ''A''),
     (''bar_ts'', JStr (strftime_bar 14400000000)), (''window_start'', JStr (fmt_fields midnight)),
     (''window_end'', JStr (fmt_fields eight_hours)), (''rate_available'', JBool True)]) = Inr r
     \<and> \<not> row_missing r \<and> cr_symbol r = ''A''"
  by (simp add: classify_row_def classify_object_def obj_get_def parse_iso_fields fx_batch_times
    load_csv_window_def fx_window row_missing_def rate_flag_def Let_def fmt_fields_not_Nil)

section \<open>Properties\<close>

text \<open>
  The overall decision means what it says: without an allow-list, a batch is complete exactly
  when it has rows and none is missing, and missing exactly when some symbol has only missing rows.
  A row is missing when its rate was unavailable or its window is not cleanly backed.
\<close>

theorem coverage_decision_meaning:
  assumes "rmap (classify_row load) (filter (\<lambda>v. v \<noteq> JNull) rows) = Inr rs"
    and "classify_rows_with_loader load None rows = Inr rep"
  shows "(cv_overall_decision rep = COVERAGE_COMPLETE \<longleftrightarrow> rs \<noteq> [] \<and> cv_missing_windows rep = [])
    \<and> (cv_overall_decision rep = COVERAGE_MISSING \<longleftrightarrow> list_ex (\<lambda>r. list_all row_missing (rows_of (cr_symbol r) rs)) rs)
    \<and> cv_missing_windows rep = filter row_missing rs"
proof -
  have rep: "rep = build_report None rs" using assms by (simp add: classify_rows_with_loader_def)
  show ?thesis unfolding rep report_complete_iff report_missing_iff report_fields(2)
    by (simp add: filter_empty_conv list_all_iff)
qed

theorem coverage_decision_meaning_witness:
  "\<exists>rep. classify_rows_with_loader (load_csv_window fx_dir) None [JNull, JObj
    [(''funding_id'', JStr (''synthetic:A:'' @ fmt_fields midnight)), (''symbol'', JStr ''A''),
     (''bar_ts'', JStr (strftime_bar 14400000000)), (''window_start'', JStr (fmt_fields midnight)),
     (''window_end'', JStr (fmt_fields eight_hours)), (''rate_available'', JBool True)]] = Inr rep
    \<and> cv_overall_decision rep = COVERAGE_COMPLETE"
proof -
  obtain r where r: "classify_row (load_csv_window fx_dir) (JObj
    [(''funding_id'', JStr (''synthetic:A:'' @ fmt_fields midnight)), (''symbol'', JStr ''A''),
     (''bar_ts'', JStr (strftime_bar 14400000000)), (''window_start'', JStr (fmt_fields midnight)),
     (''window_end'', JStr (fmt_fields eight_hours)), (''rate_available'', JBool True)]) = Inr r" "\<not> row_missing r"
    using fx_classified by blast
  then show ?thesis
    using coverage_decision_meaning[of "load_csv_window fx_dir" "[JNull, JObj
      [(''funding_id'', JStr (''synthetic:A:'' @ fmt_fields midnight)), (''symbol'', JStr ''A''),
       (''bar_ts'', JStr (strftime_bar 14400000000)), (''window_start'', JStr (fmt_fields midnight)),
       (''window_end'', JStr (fmt_fields eight_hours)), (''rate_available'', JBool True)]]" "[r]" "build_report None [r]"]
    by (simp add: classify_rows_with_loader_def)
qed

text \<open>
  C20. The pre-batch gate fails closed: when it reports complete, then for every symbol in scope and
  every window the observations require, the source file of the window's interval has a row in it,
  and the 8-hour source file of the symbol backs the window cleanly. The second file is read whatever
  interval was asked for.
\<close>

theorem batch_gate_fails_closed:
  assumes "check_funding_coverage_for_batch dir obs bar_symbols symbols hours = Inr rep"
    and "cv_overall_decision rep = COVERAGE_COMPLETE"
    and "batch_intervals hours obs = Inr intervals" "(fields_instant f, fields_instant g) \<in> set intervals"
    and "s \<in> set (batch_scope bar_symbols symbols)" "valid_fields f" "valid_fields g"
  shows "csv_has_row_in_interval dir s (fields_instant f) (fields_instant g) hours = Inr True
    \<and> (\<exists>src. classify_csv_window (dir (s @ ''_8h_funding.csv'')) (fields_instant f) (fields_instant g) = Inr src
         \<and> wc_allowed src)"
  using batch_complete[OF assms] by (simp add: load_csv_window_def)

theorem batch_gate_fails_closed_witness:
  "csv_has_row_in_interval fx_dir ''A'' 0 28800000000 8 = Inr True"
proof -
  have i: "batch_intervals 8 fx_batch_obs = Inr [(0, 28800000000)]"
    by (simp add: batch_intervals_def fx_batch_obs_def obs_bar_instant_def obj_get_def fromisoformat_naive
      fmt_fields_not_Nil fx_batch_times to_utc_def add_delta_def us_per_hour_def max_instant_def us_per_day_def map_filter_def Let_def)
  obtain r where r: "classify_row (load_csv_window fx_dir) (JObj
    [(''funding_id'', JStr (''synthetic:A:'' @ fmt_fields midnight)), (''symbol'', JStr ''A''),
     (''bar_ts'', JStr (strftime_bar 14400000000)), (''window_start'', JStr (fmt_fields midnight)),
     (''window_end'', JStr (fmt_fields eight_hours)), (''rate_available'', JBool True)]) = Inr r"
      "\<not> row_missing r" "cr_symbol r = ''A''"
    using fx_classified by blast
  then have b: "check_funding_coverage_for_batch fx_dir fx_batch_obs [''A''] None 8 = Inr (build_report (Some [''A'']) [r])"
    by (simp add: check_funding_coverage_for_batch_def valid_interval_hours_def batch_scope_def i sorted_set_def
      fmt_fields_not_Nil fx_synthetic classify_rows_def classify_rows_with_loader_def)
  have "cv_overall_decision (build_report (Some [''A'']) [r]) = COVERAGE_COMPLETE"
    using r(2,3) by (simp add: build_report_def Let_def sorted_set_def symbol_decision_def overall_decision_def
      coverage_const_defs)
  from batch_gate_fails_closed[OF b this i, of midnight eight_hours "''A''"] fx_batch_times show ?thesis
    by (simp add: batch_scope_def sorted_set_def)
qed

end
