(* ===== verification/LaneIdentity.thy ===== *)
theory LaneIdentity
  imports PyStr PySha256
begin

text \<open>
  \<open>quantbot/paper/lane_identity.py\<close> and \<open>lane_config_hash.py\<close>: the validated identity of an
  accounting lane and the hash that binds it to an accounting configuration. A Python value that is
  handed to a validator is a JSON value; anything that is not a string behaves alike.
\<close>

section \<open>Validators\<close>

definition ident_char :: "char \<Rightarrow> bool" where
  "ident_char c \<longleftrightarrow> c \<in> set ''abcdefghijklmnopqrstuvwxyz0123456789._-''"

definition IDENT_RE :: "string \<Rightarrow> bool" where
  "IDENT_RE s \<longleftrightarrow> match_line (\<lambda>t. t \<noteq> [] \<and> list_all ident_char t) s"

definition SHA256_RE :: "string \<Rightarrow> bool" where
  "SHA256_RE s \<longleftrightarrow> match_line (lower_hex 64) s"

definition BASELINE_LANE_ID :: string where "BASELINE_LANE_ID = ''paper_pnl_v1''"

definition validate_identifier :: "json \<Rightarrow> string result" where
  "validate_identifier v = (case v of JStr s \<Rightarrow>
       if s = [] then Inl ValueError
       else if \<not> IDENT_RE s then Inl ValueError
       else if str_contains ''..'' s then Inl ValueError
       else if s = ''.'' \<or> s = ''-'' \<or> s = ''_'' then Inl ValueError
       else Inr s
     | _ \<Rightarrow> Inl TypeError)"

definition validate_lane_id :: "json \<Rightarrow> string result" where
  "validate_lane_id v = rbind (validate_identifier v) (\<lambda>lane_id.
     if lane_id = BASELINE_LANE_ID then Inl ValueError else Inr lane_id)"

definition validate_strategy_id :: "json \<Rightarrow> string result" where
  "validate_strategy_id v = validate_identifier v"

definition validate_strategy_version :: "json \<Rightarrow> string result" where
  "validate_strategy_version v = validate_identifier v"

definition validate_optional_sha256 :: "json \<Rightarrow> string option result" where
  "validate_optional_sha256 v = (case v of JNull \<Rightarrow> Inr None
     | JStr s \<Rightarrow> if SHA256_RE s then Inr (Some s) else Inl ValueError
     | _ \<Rightarrow> Inl TypeError)"

record lane_identity =
  lane_id :: string
  strategy_id :: string
  strategy_version :: string
  source_data_digest :: "string option"
  pre_registration_hash :: "string option"

definition make_lane_identity :: "json \<Rightarrow> json \<Rightarrow> json \<Rightarrow> json \<Rightarrow> json \<Rightarrow> lane_identity result" where
  "make_lane_identity lane sid version digest prereg =
     rbind (validate_lane_id lane) (\<lambda>l. rbind (validate_strategy_id sid) (\<lambda>s.
     rbind (validate_strategy_version version) (\<lambda>v. rbind (validate_optional_sha256 digest) (\<lambda>d.
     rbind (validate_optional_sha256 prereg) (\<lambda>p.
     Inr \<lparr>lane_id = l, strategy_id = s, strategy_version = v, source_data_digest = d,
          pre_registration_hash = p\<rparr>)))))"

section \<open>The lane-aware hash\<close>

definition CONFIG_HASH_VERSION :: int where "CONFIG_HASH_VERSION = 2"

definition validate_v1_hash :: "json \<Rightarrow> string result" where
  "validate_v1_hash v = (case v of JStr s \<Rightarrow> if SHA256_RE s then Inr s else Inl ValueError | _ \<Rightarrow> Inl TypeError)"

definition config_hash_v2_payload :: "json \<Rightarrow> lane_identity \<Rightarrow> json result" where
  "config_hash_v2_payload v1 ident = rbind (validate_v1_hash v1) (\<lambda>h. Inr (JObj
     [(''config_hash_version'', JInt CONFIG_HASH_VERSION), (''accounting_config_hash_v1'', JStr h),
      (''lane_identity'', JObj [(''lane_id'', JStr (lane_id ident)), (''strategy_id'', JStr (strategy_id ident)),
        (''strategy_version'', JStr (strategy_version ident))])]))"

definition config_hash_v2 :: "json \<Rightarrow> lane_identity \<Rightarrow> string result" where
  "config_hash_v2 v1 ident = rbind (config_hash_v2_payload v1 ident) (\<lambda>payload.
     Inr (sha256_hex (canonical_json_dumps payload)))"

section \<open>What is accepted\<close>

definition conservative :: "string \<Rightarrow> bool" where
  "conservative s \<longleftrightarrow> s \<noteq> [] \<and> list_all ident_char s \<and> \<not> str_contains ''..'' s"

definition chomp :: "string \<Rightarrow> string" where
  \<comment> \<open>without one trailing newline\<close>
  "chomp s = (if ends_with CHR 0x0A s then butlast s else s)"

lemma newline_not_ident: "\<not> ident_char CHR 0x0A"
  by (simp add: ident_char_def)

lemma match_line_chomp:
  assumes "\<And>t. p t \<Longrightarrow> \<not> ends_with CHR 0x0A t"
  shows "match_line p s \<longleftrightarrow> p (chomp s)"
  using assms by (auto simp: match_line_def chomp_def)

lemma ident_no_newline: "list_all ident_char t \<Longrightarrow> \<not> ends_with CHR 0x0A t"
  unfolding ends_with_def list_all_iff using newline_not_ident last_in_set by metis

lemma hex_no_newline: "lower_hex n t \<Longrightarrow> \<not> ends_with CHR 0x0A t"
proof
  assume "lower_hex n t" "ends_with CHR 0x0A t"
  then have "CHR 0x0A \<in> set ''0123456789abcdef''"
    unfolding lower_hex_def ends_with_def list_all_iff using last_in_set by metis
  then show False by simp
qed

lemma IDENT_RE_iff: "IDENT_RE s \<longleftrightarrow> chomp s \<noteq> [] \<and> list_all ident_char (chomp s)"
  unfolding IDENT_RE_def by (rule match_line_chomp) (use ident_no_newline in blast)

lemma SHA256_RE_iff: "SHA256_RE s \<longleftrightarrow> lower_hex 64 (chomp s)"
  unfolding SHA256_RE_def by (rule match_line_chomp) (rule hex_no_newline)

lemma dotdot_snoc: "c \<noteq> CHR ''.'' \<Longrightarrow> str_contains ''..'' (s @ [c]) = str_contains ''..'' s"
proof (induction s)
  case (Cons d s)
  then show ?case by (cases s) (auto simp: str_prefix_def)
qed (simp add: str_prefix_def)

lemma dotdot_chomp: "str_contains ''..'' (chomp s) = str_contains ''..'' s"
proof (cases "ends_with CHR 0x0A s")
  case True
  then have "s = butlast s @ [CHR 0x0A]" unfolding ends_with_def by (metis append_butlast_last_id)
  then show ?thesis using True dotdot_snoc[of "CHR 0x0A" "butlast s"] by (simp add: chomp_def)
qed (simp add: chomp_def)

lemma validate_identifier_iff:
  "validate_identifier v = Inr s \<longleftrightarrow> v = JStr s \<and> conservative (chomp s) \<and> s \<notin> {''.'', ''-'', ''_''}"
proof -
  have "chomp [] = []" by (simp add: chomp_def ends_with_def)
  then show ?thesis
    by (cases v) (auto simp: validate_identifier_def IDENT_RE_iff conservative_def dotdot_chomp)
qed

lemma validate_sha256_iff:
  "validate_optional_sha256 v = Inr d \<longleftrightarrow>
     (v = JNull \<and> d = None) \<or> (\<exists>s. v = JStr s \<and> d = Some s \<and> lower_hex 64 (chomp s))"
  by (cases v) (auto simp: validate_optional_sha256_def SHA256_RE_iff)

lemma make_lane_identity_iff:
  "make_lane_identity l s v d p = Inr x \<longleftrightarrow>
     l = JStr (lane_id x) \<and> s = JStr (strategy_id x) \<and> v = JStr (strategy_version x)
     \<and> list_all (\<lambda>i. conservative (chomp i) \<and> i \<notin> {''.'', ''-'', ''_''}) [lane_id x, strategy_id x, strategy_version x]
     \<and> lane_id x \<noteq> BASELINE_LANE_ID
     \<and> validate_optional_sha256 d = Inr (source_data_digest x)
     \<and> validate_optional_sha256 p = Inr (pre_registration_hash x)"
  by (cases x) (auto simp: make_lane_identity_def validate_lane_id_def validate_strategy_id_def
      validate_strategy_version_def validate_identifier_iff result_simps)

section \<open>Properties\<close>

text \<open>
  A lane identity is built exactly when its three identifiers are conservative (lower-case
  letters, digits, dots, dashes and underscores, without two dots in a row) up to one trailing
  newline, the lane is not called exactly like the production baseline, and the digests are absent
  or 64 hexadecimal digits up to one trailing newline. In particular a lane called like the baseline
  with a newline at the end is accepted.
\<close>

theorem lane_identity_accepted:
  "((\<exists>x. make_lane_identity (JStr l) (JStr s) (JStr v) d p = Inr x) \<longleftrightarrow>
     list_all (\<lambda>i. conservative (chomp i) \<and> i \<notin> {''.'', ''-'', ''_''}) [l, s, v] \<and> l \<noteq> ''paper_pnl_v1''
     \<and> list_all (\<lambda>h. case h of JNull \<Rightarrow> True | JStr t \<Rightarrow> lower_hex 64 (chomp t) | _ \<Rightarrow> False) [d, p])
   \<and> (\<exists>x. make_lane_identity (JStr (''paper_pnl_v1'' @ [CHR 0x0A])) (JStr ''x'') (JStr ''1'') JNull JNull = Inr x)"
    (is "(?L \<longleftrightarrow> ?R) \<and> ?B")
proof
  have sha: "(\<exists>y. validate_optional_sha256 h = Inr y) \<longleftrightarrow>
      (case h of JNull \<Rightarrow> True | JStr t \<Rightarrow> lower_hex 64 (chomp t) | _ \<Rightarrow> False)" for h
    by (cases h) (auto simp: validate_optional_sha256_def SHA256_RE_iff)
  show "?L \<longleftrightarrow> ?R"
    by (simp add: make_lane_identity_def validate_lane_id_def validate_strategy_id_def validate_strategy_version_def
        rbind_Inr_iff validate_identifier_iff BASELINE_LANE_ID_def sha[symmetric]) blast
  show ?B
    by (simp add: make_lane_identity_def validate_lane_id_def validate_strategy_id_def validate_strategy_version_def
      validate_identifier_def IDENT_RE_iff chomp_def ends_with_def ident_char_def
      str_prefix_def BASELINE_LANE_ID_def validate_optional_sha256_def)
qed

end
