(* ===== verification/NullComparator.thy ===== *)
theory NullComparator
  imports PyStr PySha256
begin

text \<open>
  \<open>quantbot/paper/null_comparator.py\<close>: the seeded draw that stands in for the strategy's selection.
\<close>

definition rank_key :: "int \<Rightarrow> string \<Rightarrow> string \<Rightarrow> string" where
  "rank_key seed bar_id symbol = sha256_hex (show_int seed @ ''|'' @ bar_id @ ''|'' @ symbol)"

definition select_null_active :: "string list \<Rightarrow> json \<Rightarrow> int \<Rightarrow> string \<Rightarrow> string list result" where
  "select_null_active universe target_count seed bar_id = (case target_count of JInt n \<Rightarrow>
       if n < 0 then Inl ValueError
       else (let candidates = sorted_set universe in
         if int (length candidates) < n then Inl ValueError
         else if n = 0 then Inr []
         else (let ranked = sort_key (rank_key seed bar_id) candidates
               in Inr (sort (take (nat n) ranked))))
     | _ \<Rightarrow> Inl TypeError)"

lemma select_null_active_Inr:
  "select_null_active universe (JInt n) seed bar_id = Inr xs \<longleftrightarrow>
     0 \<le> n \<and> n \<le> int (card (set universe))
     \<and> xs = sort (take (nat n) (sort_key (rank_key seed bar_id) (sorted_set universe)))"
proof -
  have "length (sorted_set universe) = card (set universe)"
    by (simp add: sorted_set_def length_remdups_card_conv)
  then show ?thesis by (auto simp: select_null_active_def Let_def)
qed

text \<open>
  C23. The draw succeeds exactly for a count between zero and the size of the universe, and then
  yields that many distinct symbols of the universe in order; it depends on the universe only as a
  set, and the draw for a smaller count is contained in the draw for a larger one.
\<close>

theorem null_draw_matched:
  assumes "select_null_active universe (JInt n) seed bar = Inr xs"
  shows "int (length xs) = n \<and> distinct xs \<and> sorted xs \<and> set xs \<subseteq> set universe
    \<and> (\<forall>k. (\<exists>ys. select_null_active universe (JInt k) seed bar = Inr ys) \<longleftrightarrow> 0 \<le> k \<and> k \<le> int (card (set universe)))
    \<and> (\<forall>k ys. select_null_active universe (JInt k) seed bar = Inr ys \<and> k \<le> n \<longrightarrow> set ys \<subseteq> set xs)
    \<and> (\<forall>other. set other = set universe \<longrightarrow> select_null_active other (JInt n) seed bar = Inr xs)"
proof (intro conjI allI impI)
  let ?r = "sort_key (rank_key seed bar) (sorted_set universe)"
  have x: "0 \<le> n" "n \<le> int (card (set universe))" "xs = sort (take (nat n) ?r)"
    using assms by (auto simp: select_null_active_Inr)
  have r: "length ?r = card (set universe)" "distinct ?r" "set ?r = set universe"
    by (simp_all add: sorted_set_def length_remdups_card_conv)
  show "int (length xs) = n" "sorted xs" using x r by simp_all
  show "distinct xs" "set xs \<subseteq> set universe" using x r set_take_subset[of "nat n" ?r] by auto
  show "(\<exists>ys. select_null_active universe (JInt k) seed bar = Inr ys) = (0 \<le> k \<and> k \<le> int (card (set universe)))" for k
    by (simp add: select_null_active_Inr)
  show "set ys \<subseteq> set xs" if "select_null_active universe (JInt k) seed bar = Inr ys \<and> k \<le> n" for k ys
    using that x set_take_subset_set_take[of "nat k" "nat n" ?r] nat_mono[of k n] by (auto simp: select_null_active_Inr)
  show "select_null_active other (JInt n) seed bar = Inr xs" if "set other = set universe" for other
    using x sorted_set_cong[OF that] that by (simp add: select_null_active_Inr)
qed

theorem null_draw_matched_witness:
  "select_null_active [''B'', ''B''] (JInt 1) 7 ''2026-06-14T00:00:00'' = Inr [''B''] \<and> distinct [''B'']"
proof -
  have "select_null_active [''B'', ''B''] (JInt 1) 7 ''2026-06-14T00:00:00'' = Inr [''B'']"
    by (simp add: select_null_active_Inr sorted_set_def)
  then show ?thesis using null_draw_matched[of "[''B'', ''B'']" 1 7 "''2026-06-14T00:00:00''" "[''B'']"] by simp
qed

end
