(* ===== verification/Snapshots.thy ===== *)
theory Snapshots
  imports PaperEngine PyStr
begin

text \<open>
  \<open>quantbot/paper/snapshots.py\<close>: the consumed row of every processed bar is frozen once, and a
  later run that would consume a different row for a frozen bar is stopped. Rows are dicts of JSON
  values, as they are read from and appended to \<open>paper_signal_snapshots.jsonl\<close>.
\<close>

section \<open>The operations\<close>

definition snapshot_id :: "string \<Rightarrow> string" where
  "snapshot_id bar_ts = take 16 (sha256_hex (''snap|'' @ bar_ts))"

definition consumed_row_digest :: "obs \<Rightarrow> string" where
  "consumed_row_digest row = sha256_hex (canonical_json_dumps (JObj row))"

type_synonym row = "(string, json) dict"

record divergence =
  dv_bar_ts :: json
  dv_frozen :: json
  dv_current :: string

definition snap_by_ts :: "row list \<Rightarrow> json \<Rightarrow> row option" where
  \<comment> \<open>the last snapshot of each \<open>bar_ts\<close>\<close>
  "snap_by_ts existing ts = List.find (\<lambda>s. py_eq (obj_get s ''bar_ts'' JNull) ts) (rev existing)"

fun check_rows :: "row list \<Rightarrow> obs list \<Rightarrow> divergence option result" where
  "check_rows existing [] = Inr None"
| "check_rows existing (row # rows) = (let ts = obj_get row ''timestamp'' JNull in
     if \<not> hashable ts then Inl TypeError
     else (case snap_by_ts existing ts of None \<Rightarrow> check_rows existing rows
       | Some snap \<Rightarrow> (let frozen = obj_get snap ''source_observation_digest'' JNull; current = consumed_row_digest row in
           if frozen \<noteq> JStr current then Inr (Some \<lparr>dv_bar_ts = ts, dv_frozen = frozen, dv_current = current\<rparr>)
           else check_rows existing rows)))"

definition check_divergence :: "row list \<Rightarrow> obs list \<Rightarrow> divergence option result" where
  "check_divergence existing forward_obs =
     (if list_ex (\<lambda>s. \<not> hashable (obj_get s ''bar_ts'' JNull)) existing then Inl TypeError
      else check_rows existing forward_obs)"

record snapshot_run =
  sn_mtime :: json \<comment> \<open>a float, or \<open>JNull\<close> without a source file\<close>
  sn_run_ts :: string
  sn_engine_version :: string
  sn_config_hash :: string

definition snapshot_row :: "snapshot_run \<Rightarrow> obs \<Rightarrow> string \<Rightarrow> row result" where
  "snapshot_row run row ts = (let active = obj_get row ''active_symbols'' (JList []) in
     rbind (if py_truthy active then symbol_set active else Inr []) (\<lambda>symbols. Inr
     [(''snapshot_id'', JStr (snapshot_id ts)),
      (''bar_ts'', JStr ts),
      (''bar_commit_id'', JStr (bar_commit_id row ts (sn_engine_version run) (sn_config_hash run))),
      (''bar_index'', obj_get row ''bar_index'' JNull),
      (''active_symbols'', JList (map JStr (sort symbols))),
      (''portfolio_heat'', obj_get row ''portfolio_heat'' JNull),
      (''heat_cap_triggered'', obj_get row ''heat_cap_triggered'' JNull),
      (''weighted_return'', obj_get row ''weighted_return'' JNull),
      (''source_observation_digest'', JStr (consumed_row_digest row)),
      (''source_observation_mtime'', sn_mtime run),
      (''run_ts'', JStr (sn_run_ts run)),
      (''backfill'', JBool False)]))"

fun build_rows :: "snapshot_run \<Rightarrow> string list \<Rightarrow> obs list \<Rightarrow> string list \<Rightarrow> row list result" where
  "build_rows run processed [] seen = Inr []"
| "build_rows run processed (row # rows) seen = (case obj_get row ''timestamp'' JNull of
       JStr ts \<Rightarrow> (let sid = snapshot_id ts in
         if ts \<notin> set processed \<or> sid \<in> set seen then build_rows run processed rows seen
         else rbind (snapshot_row run row ts) (\<lambda>new. rbind (build_rows run processed rows (sid # seen)) (\<lambda>news.
           Inr (new # news))))
     | ts \<Rightarrow> if hashable ts then build_rows run processed rows seen else Inl TypeError)"

definition build_snapshots :: "obs list \<Rightarrow> string list \<Rightarrow> string list \<Rightarrow> snapshot_run \<Rightarrow> row list result" where
  "build_snapshots forward_obs processed existing_ids run = build_rows run processed forward_obs existing_ids"

section \<open>What a snapshot holds\<close>

definition row_ts :: "obs \<Rightarrow> json" where
  "row_ts row = obj_get row ''timestamp'' JNull"



lemma snapshot_row_fields:
  assumes "snapshot_row run row ts = Inr s"
  shows "obj_get s ''bar_ts'' d = JStr ts" "obj_get s ''snapshot_id'' d = JStr (snapshot_id ts)"
    "obj_get s ''source_observation_digest'' d = JStr (consumed_row_digest row)"
    "obj_get s ''bar_commit_id'' d = JStr (bar_commit_id row ts (sn_engine_version run) (sn_config_hash run))"
proof -
  obtain symbols where "(if py_truthy (obj_get row ''active_symbols'' (JList [])) then symbol_set (obj_get row ''active_symbols'' (JList []))
      else Inr []) = Inr symbols"
    using assms unfolding snapshot_row_def Let_def rbind_Inr_iff by blast
  note s = assms[unfolded snapshot_row_def Let_def this rbind_simps sum.inject, symmetric]
  show "obj_get s ''bar_ts'' d = JStr ts" "obj_get s ''snapshot_id'' d = JStr (snapshot_id ts)"
    "obj_get s ''source_observation_digest'' d = JStr (consumed_row_digest row)"
    "obj_get s ''bar_commit_id'' d = JStr (bar_commit_id row ts (sn_engine_version run) (sn_config_hash run))"
    by (simp_all add: s obj_get_def)
qed

lemma build_rows_mem:
  assumes "build_rows run processed rows seen = Inr news" "s \<in> set news"
  obtains row ts where "row \<in> set rows" "row_ts row = JStr ts" "ts \<in> set processed"
    "snapshot_id ts \<notin> set seen" "snapshot_row run row ts = Inr s"
proof -
  have "\<exists>row ts. row \<in> set rows \<and> row_ts row = JStr ts \<and> ts \<in> set processed
      \<and> snapshot_id ts \<notin> set seen \<and> snapshot_row run row ts = Inr s"
    using assms
  proof (induction rows arbitrary: seen news)
    case (Cons row rows)
    then show ?case
      by (cases "obj_get row ''timestamp'' JNull")
        (fastforce simp: Let_def result_simps row_ts_def split: if_splits)+
  qed simp
  then show thesis using that by blast
qed

lemma build_rows_ids:
  assumes "build_rows run processed rows seen = Inr news"
  shows "distinct (map (\<lambda>s. obj_get s ''snapshot_id'' JNull) news)"
    "set (map (\<lambda>s. obj_get s ''snapshot_id'' JNull) news) \<inter> JStr ` set seen = {}"
  using assms
proof (induction rows arbitrary: seen news)
  case (Cons row rows)
  { case 1
    then show ?case using Cons
      by (cases "obj_get row ''timestamp'' JNull")
        (fastforce simp: Let_def result_simps snapshot_row_fields split: if_splits)+ }
  { case 2
    then show ?case using Cons
      by (cases "obj_get row ''timestamp'' JNull")
        (fastforce simp: Let_def result_simps snapshot_row_fields split: if_splits)+ }
qed simp_all

section \<open>Divergence\<close>

declare check_rows.simps(2) [simp del]

lemma check_rows_None_iff:
  "check_rows existing rows = Inr None \<longleftrightarrow> (\<forall>row \<in> set rows. hashable (row_ts row) \<and>
     (case snap_by_ts existing (row_ts row) of None \<Rightarrow> True
      | Some snap \<Rightarrow> obj_get snap ''source_observation_digest'' JNull = JStr (consumed_row_digest row)))"
  by (induction rows) (auto simp: check_rows.simps(2) Let_def row_ts_def split: option.splits)

lemma snap_by_ts_append:
  "snap_by_ts (old @ news) ts = (case snap_by_ts news ts of None \<Rightarrow> snap_by_ts old ts | Some s \<Rightarrow> Some s)"
  by (simp add: snap_by_ts_def find_append split: option.split)

lemma snap_by_ts_Some:
  "snap_by_ts existing (JStr ts) = Some s \<Longrightarrow> s \<in> set existing \<and> obj_get s ''bar_ts'' JNull = JStr ts"
  by (auto simp: snap_by_ts_def find_Some_iff in_set_conv_nth) (metis length_rev nth_mem set_rev in_set_conv_nth)

lemma snap_by_ts_None_iff:
  "snap_by_ts existing (JStr ts) = None \<longleftrightarrow> (\<forall>s \<in> set existing. obj_get s ''bar_ts'' JNull \<noteq> JStr ts)"
  by (auto simp: snap_by_ts_def find_None_iff)

lemma build_rows_frozen:
  assumes "build_rows run processed rows seen = Inr news" "row \<in> set rows" "row_ts row = JStr ts"
    and "ts \<in> set processed" "snapshot_id ts \<notin> set seen" "distinct (map row_ts rows)"
    and "inj_on snapshot_id {u. JStr u \<in> row_ts ` set rows}"
  shows "\<exists>s \<in> set news. snapshot_row run row ts = Inr s"
  using assms
proof (induction rows arbitrary: seen news)
  case (Cons r rows)
  show ?case
  proof (cases "r = row")
    case True
    then show ?thesis using Cons.prems by (auto simp: row_ts_def Let_def result_simps)
  next
    case False
    then have row: "row \<in> set rows" using Cons.prems by auto
    have inj: "inj_on snapshot_id {u. JStr u \<in> row_ts ` set rows}"
      using Cons.prems(7) by (rule inj_on_subset) auto
    have step: "\<exists>seen' news'. build_rows run processed rows seen' = Inr news' \<and> set news' \<subseteq> set news
        \<and> snapshot_id ts \<notin> set seen'"
    proof (cases "row_ts r")
      case (JStr u)
      have "u \<noteq> ts" using Cons.prems(3,6) row JStr by (auto simp: image_iff)
      moreover have "JStr u \<in> row_ts ` set (r # rows)" "JStr ts \<in> row_ts ` set (r # rows)"
        using row Cons.prems(3) JStr[symmetric] by (auto simp: image_iff intro!: bexI[of _ row])
      ultimately have "snapshot_id u \<noteq> snapshot_id ts"
        using inj_onD[OF Cons.prems(7), of u ts] by blast
      then show ?thesis using Cons.prems(1,5) JStr
        by (force simp: row_ts_def Let_def result_simps split: if_splits)
    qed (use Cons.prems(1,5) in \<open>auto simp: row_ts_def split: if_splits\<close>)
    then obtain seen' news' where "build_rows run processed rows seen' = Inr news'" "set news' \<subseteq> set news"
      "snapshot_id ts \<notin> set seen'" by blast
    then show ?thesis using Cons.IH[OF _ row Cons.prems(3,4) _ _ inj, of seen' news'] Cons.prems(6) by auto
  qed
qed simp

lemma build_rows_done:
  assumes "\<And>row ts. row \<in> set rows \<Longrightarrow> row_ts row = JStr ts \<Longrightarrow> ts \<in> set processed \<Longrightarrow> snapshot_id ts \<in> set seen"
    and "\<And>row. row \<in> set rows \<Longrightarrow> hashable (row_ts row)"
  shows "build_rows run processed rows seen = Inr []"
  using assms
proof (induction rows)
  case (Cons r rows)
  have "hashable (row_ts r)" "build_rows run processed rows seen = Inr []" using Cons by auto
  then show ?case using Cons.prems(1)[of r] by (cases "row_ts r") (auto simp: row_ts_def Let_def hashable_def)
qed simp

lemma build_rows_hashable: "build_rows run processed rows seen = Inr news \<Longrightarrow> row \<in> set rows \<Longrightarrow> hashable (row_ts row)"
proof (induction rows arbitrary: seen news)
  case (Cons r rows)
  then show ?case
    by (cases "row_ts r") (auto simp: row_ts_def Let_def result_simps hashable_def split: if_splits)
qed simp

section \<open>Freezing\<close>

text \<open>The snapshot a run appends for a frozen bar is the one the divergence check finds.\<close>

lemma frozen_snapshot:
  assumes b: "build_rows run processed rows seen = Inr news"
    and d: "distinct (map row_ts rows)" "inj_on snapshot_id {u. JStr u \<in> row_ts ` set rows}"
    and r: "row \<in> set rows" "row_ts row = JStr ts" "ts \<in> set processed" "snapshot_id ts \<notin> set seen"
  obtains s where "snap_by_ts news (JStr ts) = Some s"
    "obj_get s ''source_observation_digest'' JNull = JStr (consumed_row_digest row)"
proof -
  obtain s where s: "s \<in> set news" "snapshot_row run row ts = Inr s"
    using build_rows_frozen[OF b r d] by blast
  have uniq: "r' = row" if "r' \<in> set rows" "row_ts r' = JStr ts" for r'
    using d(1) r(1,2) that by (metis distinct_map inj_onD)
  obtain s' where s': "snap_by_ts news (JStr ts) = Some s'"
    using s(1) snapshot_row_fields(1)[OF s(2), of JNull] snap_by_ts_None_iff[of news ts]
    by (cases "snap_by_ts news (JStr ts)") auto
  have s'': "s' \<in> set news" "obj_get s' ''bar_ts'' JNull = JStr ts" using snap_by_ts_Some[OF s'] by auto
  obtain q u where q: "q \<in> set rows" "row_ts q = JStr u" "snapshot_row run q u = Inr s'"
    using build_rows_mem[OF b s''(1)] by blast
  then have "u = ts" using snapshot_row_fields(1)[OF q(3), of JNull] s''(2) by simp
  then have "obj_get s' ''source_observation_digest'' JNull = JStr (consumed_row_digest row)"
    using uniq[OF q(1)] q snapshot_row_fields(3)[OF q(3)] by simp
  then show ?thesis using that s' by blast
qed

lemma built_checkable:
  assumes "build_rows run processed rows seen = Inr news"
    and "list_all (\<lambda>s. hashable (obj_get s ''bar_ts'' JNull)) old"
  shows "check_divergence (old @ news) xs = check_rows (old @ news) xs"
proof -
  have "hashable (obj_get t ''bar_ts'' JNull)" if t: "t \<in> set news" for t
  proof -
    obtain q u where "snapshot_row run q u = Inr t" using build_rows_mem[OF assms(1) t] by blast
    then show ?thesis by (simp add: snapshot_row_fields(1) hashable_def)
  qed
  then have ok: "\<not> list_ex (\<lambda>s. \<not> hashable (obj_get s ''bar_ts'' JNull)) (old @ news)"
    using assms(2) by (auto simp: list_ex_iff list_all_iff)
  show ?thesis unfolding check_divergence_def if_not_P[OF ok] ..
qed

lemma rebuild_adds_nothing:
  assumes b: "build_rows run processed rows seen = Inr news"
    and d: "distinct (map row_ts rows)" "inj_on snapshot_id {u. JStr u \<in> row_ts ` set rows}"
  shows "\<exists>ids. map (\<lambda>s. obj_get s ''snapshot_id'' JNull) news = map JStr ids
    \<and> build_rows run processed rows (seen @ ids) = Inr []"
proof -
  define ids where "ids = map (\<lambda>t. case obj_get t ''snapshot_id'' JNull of JStr i \<Rightarrow> i | _ \<Rightarrow> []) news"
  have ids: "map (\<lambda>s. obj_get s ''snapshot_id'' JNull) news = map JStr ids"
    unfolding ids_def map_map
  proof (rule map_cong[OF refl])
    fix t assume "t \<in> set news"
    then obtain q u where "snapshot_row run q u = Inr t" using build_rows_mem[OF b] by blast
    then show "obj_get t ''snapshot_id'' JNull =
      (JStr \<circ> (\<lambda>t. case obj_get t ''snapshot_id'' JNull of JStr i \<Rightarrow> i | _ \<Rightarrow> [])) t"
      by (simp add: snapshot_row_fields(2))
  qed
  have "build_rows run processed rows (seen @ ids) = Inr []"
  proof (rule build_rows_done)
    fix r u assume r: "r \<in> set rows" "row_ts r = JStr u" "u \<in> set processed"
    show "snapshot_id u \<in> set (seen @ ids)"
    proof (cases "snapshot_id u \<in> set seen")
      case False
      then obtain t where t: "t \<in> set news" "snapshot_row run r u = Inr t"
        using build_rows_frozen[OF b r _ d] by blast
      then have "JStr (snapshot_id u) \<in> set (map JStr ids)"
        unfolding ids[symmetric] set_map by (intro image_eqI[OF _ t(1)]) (simp add: snapshot_row_fields(2)[OF t(2)])
      then show ?thesis by auto
    qed simp
  next
    show "r \<in> set rows \<Longrightarrow> hashable (row_ts r)" for r by (rule build_rows_hashable[OF b])
  qed
  with ids show ?thesis by blast
qed

section \<open>Properties\<close>

text \<open>
  C22. Freezing is final: once the snapshots of a run are appended, the divergence check of a later
  row for a frozen bar depends on its digest alone. It is clean for every row with the digest of the
  consumed row, and otherwise reports the bar with the frozen and the current digest; a list of
  later rows that passes holds no other row for that bar. Building the snapshots again adds nothing. (Two bars of the run whose 64-bit
  snapshot ids collide would share one snapshot, so they are assumed not to.)
\<close>

theorem snapshot_freezes_consumed_row:
  assumes "build_snapshots forward_obs processed existing_ids run = Inr news"
    and "distinct (map row_ts forward_obs)" "inj_on snapshot_id {u. JStr u \<in> row_ts ` set forward_obs}"
    and "row \<in> set forward_obs" "row_ts row = JStr ts" "ts \<in> set processed" "snapshot_id ts \<notin> set existing_ids"
    and "list_all (\<lambda>s. hashable (obj_get s ''bar_ts'' JNull)) old"
  shows "(\<forall>row'. row_ts row' = JStr ts \<longrightarrow> check_divergence (old @ news) [row'] =
        (if consumed_row_digest row' = consumed_row_digest row then Inr None
         else Inr (Some \<lparr>dv_bar_ts = JStr ts, dv_frozen = JStr (consumed_row_digest row),
           dv_current = consumed_row_digest row'\<rparr>)))
    \<and> (\<forall>later row'. check_divergence (old @ news) later = Inr None \<and> row' \<in> set later \<and> row_ts row' = JStr ts
          \<longrightarrow> consumed_row_digest row' = consumed_row_digest row)
    \<and> (\<exists>ids. map (\<lambda>s. obj_get s ''snapshot_id'' JNull) news = map JStr ids
          \<and> build_snapshots forward_obs processed (existing_ids @ ids) run = Inr [])"
proof -
  note b = assms(1)[unfolded build_snapshots_def]
  obtain s where s: "snap_by_ts news (JStr ts) = Some s"
    "obj_get s ''source_observation_digest'' JNull = JStr (consumed_row_digest row)"
    using frozen_snapshot[OF b assms(2-7)] .
  have snap: "snap_by_ts (old @ news) (JStr ts) = Some s" by (simp add: snap_by_ts_append s)
  note chk = built_checkable[OF b assms(8)]
  have "check_divergence (old @ news) [row'] =
      (if consumed_row_digest row' = consumed_row_digest row then Inr None
       else Inr (Some \<lparr>dv_bar_ts = JStr ts, dv_frozen = JStr (consumed_row_digest row),
         dv_current = consumed_row_digest row'\<rparr>))" if "row_ts row' = JStr ts" for row'
    unfolding chk check_rows.simps(2) that[unfolded row_ts_def] Let_def snap option.case s(2)
    by (auto simp: hashable_def)
  moreover have "consumed_row_digest row' = consumed_row_digest row"
    if "check_divergence (old @ news) later = Inr None" "row' \<in> set later" "row_ts row' = JStr ts" for later row'
    using that s(2) by (force simp: chk check_rows_None_iff snap)
  ultimately show ?thesis using rebuild_adds_nothing[OF b assms(2,3)] unfolding build_snapshots_def by blast
qed

theorem snapshot_freezes_consumed_row_witness:
  "\<exists>news. build_snapshots [[(''timestamp'', JStr ''2026-06-14T00:00:00'')]] [''2026-06-14T00:00:00''] []
       \<lparr>sn_mtime = JNull, sn_run_ts = ''now'', sn_engine_version = ''v1'', sn_config_hash = ''h''\<rparr> = Inr news
     \<and> check_divergence news [[(''timestamp'', JStr ''2026-06-14T00:00:00'')]] = Inr None
     \<and> check_divergence news [[(''timestamp'', JStr ''2026-06-14T00:00:00''), (''bar_index'', JInt 1)]] =
       (if consumed_row_digest [(''timestamp'', JStr ''2026-06-14T00:00:00''), (''bar_index'', JInt 1)]
           = consumed_row_digest [(''timestamp'', JStr ''2026-06-14T00:00:00'')] then Inr None
        else Inr (Some \<lparr>dv_bar_ts = JStr ''2026-06-14T00:00:00'',
          dv_frozen = JStr (consumed_row_digest [(''timestamp'', JStr ''2026-06-14T00:00:00'')]),
          dv_current = consumed_row_digest [(''timestamp'', JStr ''2026-06-14T00:00:00''), (''bar_index'', JInt 1)]\<rparr>))"
proof -
  let ?row = "[(''timestamp'', JStr ''2026-06-14T00:00:00'')]" and ?ts = "''2026-06-14T00:00:00''"
  let ?run = "\<lparr>sn_mtime = JNull, sn_run_ts = ''now'', sn_engine_version = ''v1'', sn_config_hash = ''h''\<rparr>"
  have ts: "obj_get ?row ''timestamp'' JNull = JStr ?ts" by (simp add: obj_get_def)
  obtain s where s: "snapshot_row ?run ?row ?ts = Inr s"
    by (simp add: snapshot_row_def obj_get_def Let_def)
  then have b: "build_snapshots [?row] [?ts] [] ?run = Inr [s]"
    by (simp add: build_snapshots_def ts del: obj_get_def)
  have "\<forall>row'. row_ts row' = JStr ?ts \<longrightarrow> check_divergence [s] [row'] =
      (if consumed_row_digest row' = consumed_row_digest ?row then Inr None
       else Inr (Some \<lparr>dv_bar_ts = JStr ?ts, dv_frozen = JStr (consumed_row_digest ?row),
         dv_current = consumed_row_digest row'\<rparr>))"
    using conjunct1[OF snapshot_freezes_consumed_row[OF b, of ?row ?ts "[]"]] by (simp add: row_ts_def ts)
  then show ?thesis using b by (auto simp: row_ts_def obj_get_def)
qed

end
