(* ===== verification/JsonLoads.thy ===== *)
theory JsonLoads
  imports PyStr
begin

text \<open>
  \<open>json.loads\<close> of CPython 3.12 and strict UTF-8 decoding. The number, string and literal grammars
  are the C scanner's; an object is closed by a hook, as \<open>object_pairs_hook\<close> is. A lone surrogate,
  which Python keeps in a string that no longer has a UTF-8 form, is reported as such.
\<close>

section \<open>UTF-8\<close>

datatype 'e json_error =
    JSONDecodeError
  | DigitLimit \<comment> \<open>\<open>ValueError\<close>: an integer of more than 4300 digits\<close>
  | LoneSurrogate \<comment> \<open>outside the model: the string has no UTF-8 form\<close>
  | HookError 'e

datatype decoded = BadUtf8 | Text string

definition utf8_decode :: "string \<Rightarrow> decoded" where
  "utf8_decode bytes = (if is_str bytes then Text bytes else BadUtf8)"

section \<open>Scalars\<close>

definition json_ws :: "char \<Rightarrow> bool" where
  "json_ws c \<longleftrightarrow> c = CHR '' '' \<or> c = CHR 0x09 \<or> c = CHR 0x0A \<or> c = CHR 0x0D"

definition skip_ws :: "string \<Rightarrow> string" where
  "skip_ws s = dropWhile json_ws s"

definition is_digit :: "char \<Rightarrow> bool" where
  "is_digit c \<longleftrightarrow> digit_val c \<noteq> None"

definition hex_val :: "char \<Rightarrow> nat option" where
  "hex_val c = (let n = (of_char c :: nat) in
     if 48 \<le> n \<and> n \<le> 57 then Some (n - 48) else if 97 \<le> n \<and> n \<le> 102 then Some (n - 87)
     else if 65 \<le> n \<and> n \<le> 70 then Some (n - 55) else None)"

definition hex4 :: "string \<Rightarrow> nat option" where
  "hex4 s = (case s of [a, b, c, d] \<Rightarrow> do {
       w \<leftarrow> hex_val a; x \<leftarrow> hex_val b; y \<leftarrow> hex_val c; z \<leftarrow> hex_val d;
       Some (((w * 16 + x) * 16 + y) * 16 + z) } | _ \<Rightarrow> None)"

definition simple_escape :: "char \<Rightarrow> char option" where
  "simple_escape e = (let n = (of_char e :: nat) in
     if n = 34 \<or> n = 92 \<or> n = 47 then Some e else if n = 98 then Some (CHR 0x08)
     else if n = 102 then Some (CHR 0x0C) else if n = 110 then Some (CHR 0x0A)
     else if n = 114 then Some (CHR 0x0D) else if n = 116 then Some (CHR 0x09) else None)"

definition keep_text :: "string \<Rightarrow> 'e json_error + (string \<times> string) \<Rightarrow> 'e json_error + (string \<times> string)" where
  "keep_text x r = rbind r (\<lambda>(s, rest). Inr (x @ s, rest))"

datatype escaped = BadEscape | Lone | Point nat string

definition unicode_escape :: "string \<Rightarrow> escaped" where
  \<comment> \<open>after the \<open>u\<close>: a code point, which a surrogate pair encodes in two escapes, and what follows\<close>
  "unicode_escape es = (case hex4 (take 4 es) of None \<Rightarrow> BadEscape
     | Some k \<Rightarrow> if \<not> (55296 \<le> k \<and> k < 57344) then Point k (drop 4 es)
       else if 56320 \<le> k then Lone
       else (case drop 4 es of b # u # tl2 \<Rightarrow> if b \<noteq> CHR 0x5C \<or> u \<noteq> CHR ''u'' then Lone
           else (case hex4 (take 4 tl2) of None \<Rightarrow> BadEscape
             | Some l \<Rightarrow> if 56320 \<le> l \<and> l < 57344 then Point (65536 + (k - 55296) * 1024 + (l - 56320)) (drop 4 tl2)
                 else Lone)
         | _ \<Rightarrow> Lone))"

lemma unicode_escape_length [termination_simp]: "unicode_escape es = Point n rest \<Longrightarrow> length rest < Suc (Suc (length es))"
proof -
  have "length (drop 4 (m :: string)) < Suc (Suc (length es))" if "drop 4 es = b # u # m" for b u m
    using arg_cong[OF that, of length] by simp
  moreover assume "unicode_escape es = Point n rest"
  ultimately show ?thesis by (auto simp: unicode_escape_def split: option.splits list.splits if_splits)
qed

fun scan_string :: "string \<Rightarrow> 'e json_error + (string \<times> string)" where
  \<comment> \<open>after the opening quote\<close>
  "scan_string [] = Inl JSONDecodeError"
| "scan_string (c # cs) = (let n = (of_char c :: nat) in
     if n = 34 then Inr ([], cs)
     else if n = 92 then (case cs of [] \<Rightarrow> Inl JSONDecodeError
       | e # es \<Rightarrow> if e = CHR ''u'' then (case unicode_escape es of BadEscape \<Rightarrow> Inl JSONDecodeError | Lone \<Rightarrow> Inl LoneSurrogate
             | Point k rest \<Rightarrow> keep_text (utf8_encode [k]) (scan_string rest))
           else (case simple_escape e of None \<Rightarrow> Inl JSONDecodeError | Some x \<Rightarrow> keep_text [x] (scan_string es)))
     else if n < 32 then Inl JSONDecodeError else keep_text [c] (scan_string cs))"

definition nat_of_digits :: "string \<Rightarrow> int" where
  "nat_of_digits ds = foldl (\<lambda>acc c. 10 * acc + (case digit_val c of Some d \<Rightarrow> d | None \<Rightarrow> 0)) 0 ds"

definition int_part :: "string \<Rightarrow> (string \<times> string) option" where
  \<comment> \<open>\<open>0\<close>, or digits that do not start with \<open>0\<close>\<close>
  "int_part s = (case s of [] \<Rightarrow> None
     | c # cs \<Rightarrow> if c = CHR ''0'' then Some ([c], cs)
       else if is_digit c then Some (takeWhile is_digit s, dropWhile is_digit s) else None)"

definition frac_part :: "string \<Rightarrow> string \<times> string" where
  \<comment> \<open>the digits after the point, \<open>[]\<close> when there is no fraction\<close>
  "frac_part s = (case s of c # d # cs \<Rightarrow> if c = CHR ''.'' \<and> is_digit d
       then (takeWhile is_digit (d # cs), dropWhile is_digit (d # cs)) else ([], s) | _ \<Rightarrow> ([], s))"

definition exp_part :: "string \<Rightarrow> int option \<times> string" where
  "exp_part s = (case s of c # cs \<Rightarrow> if c = CHR ''e'' \<or> c = CHR ''E'' then
       (let (sg, ds) = (case cs of d # es \<Rightarrow> if d = CHR ''-'' then (-1, es) else if d = CHR ''+'' then (1, es)
             else (1, cs) | [] \<Rightarrow> (1::int, []));
            digits = takeWhile is_digit ds
        in if digits = [] then (None, s) else (Some (sg * nat_of_digits digits), dropWhile is_digit ds))
       else (None, s) | [] \<Rightarrow> (None, s))"

definition decimal :: "bool \<Rightarrow> string \<Rightarrow> string \<Rightarrow> int \<Rightarrow> rat" where
  "decimal neg ds fs e = (let r = of_int (nat_of_digits (ds @ fs)) * 10 powi (e - int (length fs))
     in if neg then - r else r)"

definition scan_number :: "string \<Rightarrow> ('e json_error + (json \<times> string)) option" where
  \<comment> \<open>\<open>None\<close>: no number here\<close>
  "scan_number s = (let (neg, body) = (case s of c # cs \<Rightarrow> if c = CHR ''-'' then (True, cs) else (False, s)
         | [] \<Rightarrow> (False, [])) in
     (case int_part body of None \<Rightarrow> None | Some (ds, rest) \<Rightarrow>
       (let (fs, rest1) = frac_part rest; (ex, rest2) = exp_part rest1 in
        Some (if fs = [] \<and> ex = None then
            (if 4300 < length ds then Inl DigitLimit
             else Inr (JInt (if neg then - nat_of_digits ds else nat_of_digits ds), rest1))
          else Inr (JFloat (to_dbl (decimal neg ds fs (case ex of None \<Rightarrow> 0 | Some e \<Rightarrow> e))), rest2)))))"

section \<open>Values\<close>

definition expect :: "string \<Rightarrow> string \<Rightarrow> 'a \<Rightarrow> 'e json_error + ('a \<times> string)" where
  "expect word s v = (if str_prefix word s then Inr (v, drop (length word) s) else Inl JSONDecodeError)"

definition scan_scalar :: "string \<Rightarrow> 'e json_error + (json \<times> string)" where
  "scan_scalar s = (case s of [] \<Rightarrow> Inl JSONDecodeError
     | c # cs \<Rightarrow>
       if c = CHR ''n'' then expect ''null'' s JNull
       else if c = CHR ''t'' then expect ''true'' s (JBool True)
       else if c = CHR ''f'' then expect ''false'' s (JBool False)
       else if c = CHR ''N'' then expect ''NaN'' s (JFloat PNaN)
       else if c = CHR ''I'' then expect ''Infinity'' s (JFloat (PInf False))
       else if str_prefix ''-Infinity'' s then expect ''-Infinity'' s (JFloat (PInf True))
       else (case scan_number s of None \<Rightarrow> Inl JSONDecodeError | Some r \<Rightarrow> r))"

type_synonym 'e pairs_hook = "(string, json) dict \<Rightarrow> 'e + json"

definition close_object :: "'e pairs_hook \<Rightarrow> (string, json) dict \<Rightarrow> 'e json_error + json" where
  "close_object hook pairs = (case hook pairs of Inl e \<Rightarrow> Inl (HookError e) | Inr v \<Rightarrow> Inr v)"

text \<open>
  One function scans a value, the elements of an array and the members of an object. Of two nested
  calls one consumes a character, so twice the length of the text bounds the depth of calls:
  \<open>scan_fuel_enough\<close> below.
\<close>

datatype scan_mode = Value | Elements "json list" | Members "(string, json) dict"

fun scan :: "'e pairs_hook \<Rightarrow> nat \<Rightarrow> scan_mode \<Rightarrow> string \<Rightarrow> 'e json_error + (json \<times> string)" where
  "scan hook 0 mode s = Inl JSONDecodeError"
| "scan hook (Suc n) Value s = (case s of [] \<Rightarrow> Inl JSONDecodeError
     | c # cs \<Rightarrow>
       if c = CHR 0x22 then rbind (scan_string cs) (\<lambda>(t, rest). Inr (JStr t, rest))
       else if c = CHR ''['' then (let r = skip_ws cs in
         (case r of d # ds \<Rightarrow> if d = CHR '']'' then Inr (JList [], ds) else scan hook n (Elements []) r
          | [] \<Rightarrow> Inl JSONDecodeError))
       else if c = CHR ''{'' then (let r = skip_ws cs in
         (case r of d # ds \<Rightarrow> if d = CHR ''}'' then rbind (close_object hook []) (\<lambda>v. Inr (v, ds))
              else scan hook n (Members []) r
          | [] \<Rightarrow> Inl JSONDecodeError))
       else scan_scalar s)"
| "scan hook (Suc n) (Elements vs) s = rbind (scan hook n Value s) (\<lambda>(v, rest).
     (case skip_ws rest of d # ds \<Rightarrow>
         if d = CHR '']'' then Inr (JList (rev (v # vs)), ds)
         else if d = CHR '','' then scan hook n (Elements (v # vs)) (skip_ws ds)
         else Inl JSONDecodeError
      | [] \<Rightarrow> Inl JSONDecodeError))"
| "scan hook (Suc n) (Members ms) s = (case s of [] \<Rightarrow> Inl JSONDecodeError
     | c # cs \<Rightarrow> if c \<noteq> CHR 0x22 then Inl JSONDecodeError
       else rbind (scan_string cs) (\<lambda>(key, rest).
       (case skip_ws rest of [] \<Rightarrow> Inl JSONDecodeError
        | k # ks \<Rightarrow> if k \<noteq> CHR '':'' then Inl JSONDecodeError
          else rbind (scan hook n Value (skip_ws ks)) (\<lambda>(v, rest2).
          (case skip_ws rest2 of d # ds \<Rightarrow>
              if d = CHR ''}'' then rbind (close_object hook (rev ((key, v) # ms))) (\<lambda>w. Inr (w, ds))
              else if d = CHR '','' then scan hook n (Members ((key, v) # ms)) (skip_ws ds)
              else Inl JSONDecodeError
           | [] \<Rightarrow> Inl JSONDecodeError)))))"

definition json_loads_hook :: "'e pairs_hook \<Rightarrow> string \<Rightarrow> 'e json_error + json" where
  "json_loads_hook hook s = rbind (scan hook (2 * length s + 2) Value (skip_ws s)) (\<lambda>(v, rest).
     if skip_ws rest = [] then Inr v else Inl JSONDecodeError)"

definition plain_hook :: "(string, json) dict \<Rightarrow> unit + json" where
  \<comment> \<open>a \<open>dict\<close>: the last value of a repeated key, at its first position\<close>
  "plain_hook pairs = Inr (JObj (fold (\<lambda>(k, v) d. dict_set k v d) pairs []))"

definition json_loads :: "string \<Rightarrow> unit json_error + json" where
  "json_loads s = json_loads_hook plain_hook s"

section \<open>The fuel is enough\<close>

lemmas scan_steps = scan.simps
declare scan.simps [simp del]

lemma length_dropWhile_le': "length (dropWhile P s) \<le> length s"
  by (rule length_dropWhile_le)

lemma skip_ws_length: "length (skip_ws s) \<le> length s"
  by (simp add: skip_ws_def length_dropWhile_le)

lemma skip_ws_Cons_length: "skip_ws s = d # ds \<Longrightarrow> length ds < length s"
  using skip_ws_length[of s] by simp

lemma keep_text_Inr: "keep_text x r = Inr (t, rest) \<longleftrightarrow> (\<exists>u. t = x @ u \<and> r = Inr (u, rest))"
  by (cases r) (auto simp: keep_text_def)

lemma scan_string_length: "(scan_string s :: 'e json_error + _) = Inr (t, rest) \<Longrightarrow> length rest < length s"
proof (induction s arbitrary: t rest rule: scan_string.induct)
  case (2 c cs)
  note IH = 2(1-3) and prem = 2(4)
  let ?n = "of_char c :: nat"
  consider "?n = 34" | "?n = 92" | "?n \<noteq> 34" "?n \<noteq> 92" "32 \<le> ?n" using prem by (cases "?n = 34 \<or> ?n = 92") (auto simp: Let_def not_le split: if_splits)
  then show ?case
  proof cases
    case 2
    then obtain e es where e: "cs = e # es" using prem by (cases cs) auto
    show ?thesis
    proof (cases "e = CHR ''u''")
      case True
      then obtain k r u where "unicode_escape es = Point k r" "(scan_string r :: 'e json_error + _) = Inr (u, rest)"
        using prem \<open>?n = 92\<close> by (auto simp: e keep_text_Inr split: escaped.splits)
      then show ?thesis using IH(1)[OF refl _ _ e True] \<open>?n = 92\<close> unicode_escape_length[of es k r] by (fastforce simp: e)
    next
      case False
      then obtain x u where "simple_escape e = Some x" "(scan_string es :: 'e json_error + _) = Inr (u, rest)"
        using prem \<open>?n = 92\<close> by (auto simp: e keep_text_Inr split: option.splits)
      then show ?thesis using IH(2)[OF refl _ _ e False] \<open>?n = 92\<close> by (fastforce simp: e)
    qed
  next
    case 3
    then obtain u where "(scan_string cs :: 'e json_error + _) = Inr (u, rest)" using prem by (auto simp: keep_text_Inr)
    then show ?thesis using IH(3)[OF refl] 3 by fastforce
  qed (use prem in simp)
qed simp

lemma int_part_length: "int_part s = Some (ds, rest) \<Longrightarrow> length rest < length s"
proof (cases s)
  case (Cons c cs)
  have "length (dropWhile is_digit cs) \<le> length cs" by (rule length_dropWhile_le)
  then show "int_part s = Some (ds, rest) \<Longrightarrow> length rest < length s"
    using Cons by (auto simp: int_part_def split: if_splits)
qed (simp add: int_part_def)

lemma frac_part_length: "frac_part s = (fs, rest) \<Longrightarrow> length rest \<le> length s"
  using length_dropWhile_le[of is_digit] by (auto simp: frac_part_def le_SucI split: list.splits if_splits)

lemma exp_part_length: "exp_part s = (ex, rest) \<Longrightarrow> length rest \<le> length s"
proof -
  assume a: "exp_part s = (ex, rest)"
  have d: "length (dropWhile is_digit xs) \<le> length xs" for xs by (rule length_dropWhile_le)
  then have d2: "length (dropWhile is_digit xs) \<le> Suc (Suc (length xs))" "length (dropWhile is_digit xs) \<le> Suc (length xs)" for xs
    by (simp_all add: le_SucI)
  show ?thesis using a d d2[of "tl (tl s)"] d2[of "tl s"]
    by (auto simp: exp_part_def Let_def split: list.splits if_splits prod.splits)
qed

lemma scan_number_length: "scan_number s = Some (Inr (v, rest)) \<Longrightarrow> length rest < length s"
proof -
  assume a: "scan_number s = Some (Inr (v, rest))"
  obtain neg body where b: "(case s of c # cs \<Rightarrow> if c = CHR ''-'' then (True, cs) else (False, s) | [] \<Rightarrow> (False, []))
      = (neg, body)" by (metis surj_pair)
  then have l: "length body \<le> length s" by (auto split: list.splits if_splits)
  obtain ds r where i: "int_part body = Some (ds, r)"
    using a b by (auto simp: scan_number_def split: option.splits)
  obtain fs r1 where f: "frac_part r = (fs, r1)" by (metis surj_pair)
  obtain ex r2 where e: "exp_part r1 = (ex, r2)" by (metis surj_pair)
  have "rest = r1 \<or> rest = r2"
    using a by (auto simp: scan_number_def b i f e split: if_splits)
  then show ?thesis
    using l int_part_length[OF i] frac_part_length[OF f] exp_part_length[OF e] by auto
qed

lemma expect_length: "expect word s v = Inr (w, rest) \<Longrightarrow> word \<noteq> [] \<Longrightarrow> length rest < length s \<or> s = []"
  by (auto simp: expect_def split: if_splits)

lemma scan_scalar_length: "scan_scalar s = Inr (v, rest) \<Longrightarrow> length rest < length s"
  by (auto simp: scan_scalar_def dest!: expect_length scan_number_length split: list.splits if_splits option.splits)

lemma scan_Value_scalar:
  "c \<noteq> CHR 0x22 \<Longrightarrow> c \<noteq> CHR ''['' \<Longrightarrow> c \<noteq> CHR ''{'' \<Longrightarrow> scan hook (Suc n) Value (c # cs) = scan_scalar (c # cs)"
  by (simp add: scan_steps)

lemma scan_Value_string:
  "scan hook (Suc n) Value (CHR 0x22 # cs) = rbind (scan_string cs) (\<lambda>(t, rest). Inr (JStr t, rest))"
  by (simp add: scan_steps)

lemma scan_Value_array: "scan hook (Suc n) Value (CHR ''['' # cs) = (case skip_ws cs of
    d # ds \<Rightarrow> if d = CHR '']'' then Inr (JList [], ds) else scan hook n (Elements []) (d # ds)
  | [] \<Rightarrow> Inl JSONDecodeError)"
  by (simp add: scan_steps(2) Let_def split: list.split)

lemma scan_Value_object: "scan hook (Suc n) Value (CHR ''{'' # cs) = (case skip_ws cs of
    d # ds \<Rightarrow> if d = CHR ''}'' then rbind (close_object hook []) (\<lambda>v. Inr (v, ds)) else scan hook n (Members []) (d # ds)
  | [] \<Rightarrow> Inl JSONDecodeError)"
  by (simp add: scan_steps(2) Let_def split: list.split)

lemma scan_Value_cases:
  obtains "s = []" | cs where "s = CHR 0x22 # cs" | cs where "s = CHR ''['' # cs" | cs where "s = CHR ''{'' # cs"
  | c cs where "s = c # cs" "c \<noteq> CHR 0x22" "c \<noteq> CHR ''[''" "c \<noteq> CHR ''{''"
  by (cases s) (simp, metis)

lemma scan_Elements_Inr:
  assumes "scan hook (Suc n) (Elements vs) s = Inr (v, rest)"
  obtains u r d ds where "scan hook n Value s = Inr (u, r)" "skip_ws r = d # ds"
    "rest = ds \<or> scan hook n (Elements (u # vs)) (skip_ws ds) = Inr (v, rest)"
proof -
  from assms obtain u r where u: "scan hook n Value s = Inr (u, r)"
    by (auto simp: scan_steps(3) rbind_Inr_iff)
  then obtain d ds where d: "skip_ws r = d # ds"
    using assms by (cases "skip_ws r") (simp_all add: scan_steps(3))
  have "rest = ds \<or> scan hook n (Elements (u # vs)) (skip_ws ds) = Inr (v, rest)"
    using assms by (simp add: scan_steps(3) u d split: if_splits)
  with u d show thesis by (rule that)
qed

lemma scan_Members_Inr:
  assumes "scan (hook :: 'e pairs_hook) (Suc n) (Members ms) s = Inr (v, rest)"
  obtains c cs key r k ks u r2 d ds where "s = c # cs"
    "scan_string cs = (Inr (key, r) :: 'e json_error + (string \<times> string))" "skip_ws r = k # ks"
    "scan hook n Value (skip_ws ks) = Inr (u, r2)" "skip_ws r2 = d # ds"
    "rest = ds \<or> scan hook n (Members ((key, u) # ms)) (skip_ws ds) = Inr (v, rest)"
proof -
  obtain c cs where s: "s = c # cs" "c = CHR 0x22"
    using assms by (cases s) (simp_all add: scan_steps(4) split: if_splits)
  from assms obtain key r where k: "scan_string cs = (Inr (key, r) :: 'e json_error + (string \<times> string))"
    by (auto simp: scan_steps(4) s rbind_Inr_iff)
  obtain k ks where r: "skip_ws r = k # ks" "k = CHR '':''"
    using assms by (cases "skip_ws r") (simp_all add: scan_steps(4) s k split: if_splits)
  from assms obtain u r2 where u: "scan hook n Value (skip_ws ks) = Inr (u, r2)"
    by (auto simp: scan_steps(4) s k r rbind_Inr_iff)
  obtain d ds where d: "skip_ws r2 = d # ds"
    using assms by (cases "skip_ws r2") (simp_all add: scan_steps(4) s k r u)
  have "rest = ds \<or> scan hook n (Members ((key, u) # ms)) (skip_ws ds) = Inr (v, rest)"
    using assms by (auto simp: scan_steps(4) s k r u d rbind_Inr_iff split: if_splits)
  with s(1) k r(1) u d show thesis by (rule that)
qed

lemma scan_length: "scan hook n mode s = Inr (v, rest) \<Longrightarrow> length rest < length s"
proof (induction n arbitrary: mode s v rest)
  case (Suc n)
  show ?case
  proof (cases mode)
    case Value
    show ?thesis
    proof (cases s rule: scan_Value_cases)
      case 1
      then show ?thesis using Suc.prems Value by (simp add: scan_steps)
    next
      case (2 cs)
      then show ?thesis using Suc.prems Value
        by (auto simp: scan_Value_string result_simps less_SucI dest!: scan_string_length)
    next
      case (3 cs)
      then obtain d ds where d: "skip_ws cs = d # ds" using Suc.prems Value
        by (cases "skip_ws cs") (simp_all add: scan_Value_array)
      then show ?thesis
        using Suc.prems Value 3 Suc.IH[of "Elements []" "d # ds"] skip_ws_length[of cs]
        by (fastforce simp: scan_Value_array split: if_splits)
    next
      case (4 cs)
      then obtain d ds where d: "skip_ws cs = d # ds" using Suc.prems Value
        by (cases "skip_ws cs") (simp_all add: scan_Value_object)
      then show ?thesis
        using Suc.prems Value 4 Suc.IH[of "Members []" "d # ds"] skip_ws_length[of cs]
        by (fastforce simp: scan_Value_object result_simps split: if_splits)
    next
      case (5 c cs)
      then show ?thesis using Suc.prems Value by (auto simp: scan_Value_scalar dest!: scan_scalar_length)
    qed
  next
    case (Elements vs)
    then obtain u r d ds where u: "scan hook n Value s = Inr (u, r)" and d: "skip_ws r = d # ds"
      and c: "rest = ds \<or> scan hook n (Elements (u # vs)) (skip_ws ds) = Inr (v, rest)"
      using Suc.prems by (auto elim: scan_Elements_Inr)
    have "length ds < length s" using Suc.IH[OF u] skip_ws_Cons_length[OF d] by linarith
    then show ?thesis using c Suc.IH skip_ws_length[of ds] by fastforce
  next
    case (Members ms)
    then obtain c cs key r k ks u r2 d ds where s: "s = c # cs"
      and k: "scan_string cs = (Inr (key, r) :: 'a json_error + (string \<times> string))" "skip_ws r = k # ks"
      and u: "scan hook n Value (skip_ws ks) = Inr (u, r2)" and d: "skip_ws r2 = d # ds"
      and c: "rest = ds \<or> scan hook n (Members ((key, u) # ms)) (skip_ws ds) = Inr (v, rest)"
      using Suc.prems by (auto elim: scan_Members_Inr)
    have "length ds < length s"
      using Suc.IH[OF u] skip_ws_Cons_length[OF d] skip_ws_length[of ks] skip_ws_Cons_length[OF k(2)]
        scan_string_length[OF k(1)] s by simp
    then show ?thesis using c Suc.IH skip_ws_length[of ds] by fastforce
  qed
qed (simp add: scan_steps)

fun fuel_need :: "scan_mode \<Rightarrow> string \<Rightarrow> nat" where
  "fuel_need Value s = 2 * length s + 1"
| "fuel_need (Elements _) s = 2 * length s + 2"
| "fuel_need (Members _) s = 2 * length s + 1"

lemma scan_fuel_Suc:
  "fuel_need mode s \<le> n \<Longrightarrow> scan hook (Suc n) mode s = scan hook n mode s"
proof (induction n arbitrary: mode s)
  case 0
  then show ?case by (cases mode) simp_all
next
  case (Suc n)
  show ?case
  proof (cases mode)
    case Value
    show ?thesis
    proof (cases s rule: scan_Value_cases)
      case 1
      then show ?thesis by (simp add: Value scan_steps)
    next
      case (3 cs)
      have "scan hook (Suc n) (Elements []) r = scan hook n (Elements []) r" if "skip_ws cs = r" for r
        using Suc.prems Value 3 skip_ws_length[of cs] that by (auto intro: Suc.IH)
      from this[OF refl] show ?thesis by (cases "skip_ws cs") (simp_all add: Value 3 scan_Value_array)
    next
      case (4 cs)
      have "scan hook (Suc n) (Members []) r = scan hook n (Members []) r" if "skip_ws cs = r" for r
        using Suc.prems Value 4 skip_ws_length[of cs] that by (auto intro: Suc.IH)
      from this[OF refl] show ?thesis by (cases "skip_ws cs") (simp_all add: Value 4 scan_Value_object)
    qed (simp_all add: Value scan_Value_string scan_Value_scalar)
  next
    case (Elements vs)
    have v: "scan hook (Suc n) Value s = scan hook n Value s"
      using Suc.prems Elements by (simp add: Suc.IH)
    have e: "scan hook (Suc n) (Elements ws) (skip_ws ds) = scan hook n (Elements ws) (skip_ws ds)"
      if "scan hook n Value s = Inr (v, rest)" "skip_ws rest = d # ds" for v rest d ds ws
      using Suc.prems Elements scan_length[OF that(1)] skip_ws_Cons_length[OF that(2)] skip_ws_length[of ds]
      by (simp add: Suc.IH)
    show ?thesis
      unfolding Elements scan_steps(3)[of hook "Suc n" vs s] scan_steps(3)[of hook n vs s] v
      by (auto intro!: rbind_cong simp: e split: list.splits)
  next
    case (Members ms)
    show ?thesis
    proof (cases s)
      case (Cons c cs)
      have v: "scan hook (Suc n) Value (skip_ws ks) = scan hook n Value (skip_ws ks)"
        if "scan_string cs = (Inr (key, rest) :: 'a json_error + (string \<times> string))" "skip_ws rest = k # ks" for key rest k ks
        using Suc.prems Members Cons scan_string_length[OF that(1)] skip_ws_Cons_length[OF that(2)] skip_ws_length[of ks]
        by (simp add: Suc.IH)
      have e: "scan hook (Suc n) (Members ws) (skip_ws ds) = scan hook n (Members ws) (skip_ws ds)"
        if "scan_string cs = (Inr (key, rest) :: 'a json_error + (string \<times> string))" "skip_ws rest = k # ks"
          "scan hook n Value (skip_ws ks) = Inr (v, rest2)" "skip_ws rest2 = d # ds" for key rest k ks v rest2 d ds ws
        using Suc.prems Members Cons scan_string_length[OF that(1)] skip_ws_Cons_length[OF that(2)] skip_ws_length[of ks]
          scan_length[OF that(3)] skip_ws_Cons_length[OF that(4)] skip_ws_length[of ds]
        by (simp add: Suc.IH)
      show ?thesis
        unfolding Members Cons scan_steps(4)[of hook "Suc n" ms "c # cs"] scan_steps(4)[of hook n ms "c # cs"]
        by (auto intro!: rbind_cong simp: v e split: list.splits)
    qed (simp add: Members scan_steps)
  qed
qed

lemma scan_fuel_enough: "fuel_need mode s \<le> n \<Longrightarrow> scan hook (n + k) mode s = scan hook n mode s"
  by (induction k) (simp_all add: scan_fuel_Suc)

end
