(* ===== verification/PyConv.thy ===== *)
theory PyConv
  imports JsonLoads
begin

text \<open>
  Conversions the gates apply to parsed values (\<open>int\<close>, \<open>float\<close>, \<open>timedelta(hours=...)\<close>), and files:
  what \<open>open\<close> finds at a path, its lines, and the JSON value it holds.
\<close>

section \<open>float of a string\<close>

definition lower :: "string \<Rightarrow> string" where
  "lower s = map (\<lambda>c. let n = (of_char c :: nat) in if 65 \<le> n \<and> n \<le> 90 then char_of (n + 32) else c) s"

fun underscores_ok :: "char \<Rightarrow> string \<Rightarrow> bool" where
  \<comment> \<open>every underscore stands between two digits\<close>
  "underscores_ok prev [] = (prev \<noteq> CHR ''_'')"
| "underscores_ok prev (c # cs) = ((if c = CHR ''_'' then is_digit prev
     else prev = CHR ''_'' \<longrightarrow> is_digit c) \<and> underscores_ok c cs)"

definition parse_float :: "string \<Rightarrow> pyfloat option" where
  "parse_float raw = (let t = py_strip raw;
     s = filter (\<lambda>c. c \<noteq> CHR ''_'') t;
     (neg, body) = (case s of c # cs \<Rightarrow> if c = CHR ''-'' then (True, cs)
        else if c = CHR ''+'' then (False, cs) else (False, s) | [] \<Rightarrow> (False, []));
     ds = takeWhile is_digit body; rest = dropWhile is_digit body;
     (fs, rest1) = (case rest of c # cs \<Rightarrow> if c = CHR ''.'' then (takeWhile is_digit cs, dropWhile is_digit cs)
        else ([], rest) | [] \<Rightarrow> ([], []));
     (ex, rest2) = exp_part rest1
     in if \<not> underscores_ok CHR ''x'' t then None
        else if lower body = ''inf'' \<or> lower body = ''infinity'' then Some (PInf neg)
        else if lower body = ''nan'' then Some PNaN
        else if ds @ fs = [] \<or> rest2 \<noteq> [] then None
        else Some (to_dbl (decimal neg ds fs (case ex of None \<Rightarrow> 0 | Some e \<Rightarrow> e))))"

section \<open>Conversions\<close>

definition py_float :: "json \<Rightarrow> pyfloat result" where
  "py_float v = (case v of JFloat x \<Rightarrow> Inr x | JInt n \<Rightarrow> of_option OverflowError (fl_of_int n)
     | JBool b \<Rightarrow> Inr (PFin (if b then 1 else 0)) | JStr s \<Rightarrow> of_option ValueError (parse_float s)
     | _ \<Rightarrow> Inl TypeError)"

definition trunc :: "rat \<Rightarrow> int" where
  "trunc r = (if r < 0 then - \<lfloor>- r\<rfloor> else \<lfloor>r\<rfloor>)"

definition py_int :: "json \<Rightarrow> int result" where
  "py_int v = (case v of JInt n \<Rightarrow> Inr n | JBool b \<Rightarrow> Inr (if b then 1 else 0)
     | JFloat x \<Rightarrow> (case x of PFin r \<Rightarrow> Inr (trunc r) | PInf _ \<Rightarrow> Inl OverflowError | PNaN \<Rightarrow> Inl ValueError)
     | JStr s \<Rightarrow> of_option ValueError (parse_int s) | _ \<Rightarrow> Inl TypeError)"

type_synonym delta = int

definition max_delta_days :: int where "max_delta_days = 999999999"

definition delta_ok :: "delta \<Rightarrow> bool" where
  "delta_ok d \<longleftrightarrow> \<bar>d div us_per_day\<bar> \<le> max_delta_days"

definition timedelta_hours :: "pyfloat \<Rightarrow> delta result" where
  \<comment> \<open>\<open>timedelta(hours=x)\<close>: the whole hours exactly, the fraction as a double product, then half-even
    to microseconds\<close>
  "timedelta_hours x = (case x of PFin r \<Rightarrow>
       (let whole = trunc r; part = fl_mul (PFin (of_int us_per_hour)) (PFin (r - of_int whole));
            us = round_half_even (of_int (whole * us_per_hour) + (case part of PFin f \<Rightarrow> f | _ \<Rightarrow> 0))
        in if delta_ok us then Inr us else Inl OverflowError)
     | PInf _ \<Rightarrow> Inl OverflowError | PNaN \<Rightarrow> Inl ValueError)"

section \<open>Files\<close>

datatype fs_entry = Absent | Unopenable | Bytes string

function text_lines :: "string \<Rightarrow> string list" where
  \<comment> \<open>universal newlines; the line ends are dropped\<close>
  "text_lines s = (if s = [] then [] else (let nl = (\<lambda>c. c = CHR 0x0A \<or> c = CHR 0x0D);
       line = takeWhile (\<lambda>c. \<not> nl c) s; rest = dropWhile (\<lambda>c. \<not> nl c) s
     in line # text_lines (if take 2 rest = [CHR 0x0D, CHR 0x0A] then drop 2 rest else drop 1 rest)))"
  by pat_completeness auto
termination
proof (relation "measure length", simp, goal_cases)
  case (1 s nl line rest)
  have "length rest \<le> length s" unfolding 1 by (rule length_dropWhile_le)
  moreover have "length line + length rest = length s"
    unfolding 1 by (metis length_append takeWhile_dropWhile_id)
  moreover have "0 < length s" using 1 by simp
  ultimately show ?case by (cases rest) auto
qed

declare text_lines.simps [simp del]

definition text_of :: "string \<Rightarrow> string option" where
  \<comment> \<open>the text of a file's bytes; \<open>None\<close> is \<open>UnicodeDecodeError\<close>\<close>
  "text_of bytes = (case utf8_decode bytes of BadUtf8 \<Rightarrow> None | Text s \<Rightarrow> Some s)"

definition data_lines :: "string \<Rightarrow> string list" where
  \<comment> \<open>the stripped lines that are not empty\<close>
  "data_lines s = filter (\<lambda>l. l \<noteq> []) (map py_strip (text_lines s))"

end
