(* ===== verification/Freshness.thy ===== *)
theory Freshness
  imports PyConv
begin

text \<open>
  \<open>quantbot/paper/freshness.py\<close>: the gate that runs before any ledger row is written. The text of a
  result's \<open>reason\<close> is diagnostics and is left out; code and timestamps are kept. \<open>now\<close> is an
  instant, the observation log the parsed JSON value, the heartbeat file its bytes.
\<close>

section \<open>Results\<close>

record freshness_result =
  fr_ok :: bool
  fr_code :: string
  fr_latest_bar_ts :: "string option"
  fr_heartbeat_ts :: "string option"

definition REQUIRED_OBS_FIELDS :: "string list" where
  "REQUIRED_OBS_FIELDS = [''bar_index'', ''timestamp'', ''active_symbols'', ''portfolio_heat'',
     ''heat_cap_triggered'', ''weighted_return'']"

definition DEFAULT_MAX_FUTURE_SKEW_HOURS :: pyfloat where "DEFAULT_MAX_FUTURE_SKEW_HOURS = PFin 1"

definition fresh_ok :: "string \<Rightarrow> string option \<Rightarrow> freshness_result" where
  "fresh_ok latest hb = \<lparr>fr_ok = True, fr_code = ''OK'', fr_latest_bar_ts = Some latest, fr_heartbeat_ts = hb\<rparr>"

definition refuse :: "string \<Rightarrow> string option \<Rightarrow> string option \<Rightarrow> freshness_result" where
  "refuse code latest hb = \<lparr>fr_ok = False, fr_code = code, fr_latest_bar_ts = latest, fr_heartbeat_ts = hb\<rparr>"

definition on_grid :: "instant \<Rightarrow> int \<Rightarrow> bool" where
  "on_grid t hours \<longleftrightarrow> t mod us_per_hour = 0 \<and> (hours \<le> 0 \<or> (t mod us_per_day div us_per_hour) mod hours = 0)"

section \<open>The heartbeat\<close>

datatype heartbeat = HbAbsent | HbMalformed | HbNewest "string option"

fun heartbeat_lines :: "string list \<Rightarrow> string option \<Rightarrow> heartbeat result" where
  "heartbeat_lines [] newest = Inr (HbNewest newest)"
| "heartbeat_lines (line # ls) newest = (case json_loads line of
       Inl e \<Rightarrow> (if e = LoneSurrogate then Inl OutOfModel else Inr HbMalformed)
     | Inr (JObj d) \<Rightarrow> (case obj_get d ''bar_processed_at'' JNull of
           JStr ts \<Rightarrow> if ts = [] \<or> dict_get d ''commit_sha'' = None then Inr HbMalformed
             else heartbeat_lines ls (Some ts)
         | _ \<Rightarrow> Inr HbMalformed)
     | Inr _ \<Rightarrow> Inr HbMalformed)"

definition latest_heartbeat_ts :: "fs_entry \<Rightarrow> heartbeat result" where
  "latest_heartbeat_ts entry = (case entry of Absent \<Rightarrow> Inr HbAbsent | Unopenable \<Rightarrow> Inr HbMalformed
     | Bytes bytes \<Rightarrow> (case text_of bytes of None \<Rightarrow> Inr HbMalformed
         | Some s \<Rightarrow> heartbeat_lines (data_lines s) None))"

section \<open>Limits\<close>

record limits =
  li_interval :: int
  li_max_staleness :: delta
  li_heartbeat_max_age :: delta
  li_future_skew :: delta

definition read_limits :: "json \<Rightarrow> limits result" where
  "read_limits cfg = rbind (if \<not> py_truthy cfg then Inr [] else case cfg of JObj d \<Rightarrow> Inr d | _ \<Rightarrow> Inl AttributeError) (\<lambda>d.
     let hours = (\<lambda>key dflt. rbind (py_float (obj_get d key dflt)) timedelta_hours) in
     rbind (py_int (obj_get d ''bar_interval_hours'' (JInt 8))) (\<lambda>interval.
     rbind (hours ''max_bar_staleness_hours'' (JInt 24)) (\<lambda>staleness.
     rbind (hours ''heartbeat_max_age_hours'' (JInt 24)) (\<lambda>age.
     rbind (hours ''max_future_skew_hours'' (JFloat DEFAULT_MAX_FUTURE_SKEW_HOURS)) (\<lambda>skew.
     Inr \<lparr>li_interval = interval, li_max_staleness = staleness, li_heartbeat_max_age = age, li_future_skew = skew\<rparr>)))))"

section \<open>The rows\<close>

record scan_state =
  ss_seen :: "string list"
  ss_consumed :: nat
  ss_latest_consumed :: "string option"
  ss_latest_overall :: "(string \<times> instant) option"

definition initial_scan :: scan_state where
  "initial_scan = \<lparr>ss_seen = [], ss_consumed = 0, ss_latest_consumed = None, ss_latest_overall = None\<rparr>"

definition string_list :: "json \<Rightarrow> bool" where
  "string_list v \<longleftrightarrow> (case v of JList xs \<Rightarrow> list_all (\<lambda>x. case x of JStr _ \<Rightarrow> True | _ \<Rightarrow> False) xs | _ \<Rightarrow> False)"

definition parse_bar :: "json \<Rightarrow> instant result" where
  "parse_bar v = (case v of JStr ts \<Rightarrow> parse_bar_utc ts | _ \<Rightarrow> Inl TypeError)"

definition count_row :: "instant option \<Rightarrow> string \<Rightarrow> instant \<Rightarrow> scan_state \<Rightarrow> scan_state" where
  \<comment> \<open>a row that passed every check\<close>
  "count_row fwd ts dt st = (let
     st1 = st\<lparr>ss_seen := ts # ss_seen st,
       ss_latest_overall := (case ss_latest_overall st of None \<Rightarrow> Some (ts, dt)
         | Some (old, old_dt) \<Rightarrow> if old_dt < dt then Some (ts, dt) else Some (old, old_dt))\<rparr>
     in if (case fwd of None \<Rightarrow> False | Some f \<Rightarrow> dt < f) then st1
        else st1\<lparr>ss_consumed := ss_consumed st + 1,
          ss_latest_consumed := (case ss_latest_consumed st of None \<Rightarrow> Some ts
            | Some old \<Rightarrow> if old < ts then Some ts else Some old)\<rparr>)"

definition check_row :: "limits \<Rightarrow> instant \<Rightarrow> instant option \<Rightarrow> json \<Rightarrow> scan_state \<Rightarrow> freshness_result + scan_state" where
  "check_row lm now fwd row st = (case row of
     JObj d \<Rightarrow>
       if list_ex (\<lambda>f. dict_get d f = None) REQUIRED_OBS_FIELDS then Inl (refuse ''MALFORMED_OBSERVATION_LOG'' None None)
       else if \<not> string_list (obj_get d ''active_symbols'' JNull) then Inl (refuse ''MALFORMED_OBSERVATION_LOG'' None None)
       else (case parse_bar (obj_get d ''timestamp'' JNull) of
           Inl _ \<Rightarrow> Inl (refuse ''MALFORMED_BAR_TIMESTAMP'' None None)
         | Inr dt \<Rightarrow> (let ts = py_str (obj_get d ''timestamp'' JNull) in
             if \<not> on_grid dt (li_interval lm) then Inl (refuse ''OFF_GRID_BAR'' (Some ts) None)
             else if li_future_skew lm < dt - now then Inl (refuse ''FUTURE_OBSERVATION'' (Some ts) None)
             else if ts \<in> set (ss_seen st) then Inl (refuse ''DUPLICATE_OBSERVATION_TS'' (Some ts) None)
             else Inr (count_row fwd ts dt st)))
   | _ \<Rightarrow> Inl (refuse ''MALFORMED_OBSERVATION_LOG'' None None))"

section \<open>The gate\<close>

definition parse_heartbeat :: "string \<Rightarrow> instant option" where
  \<comment> \<open>the format with a trailing \<open>Z\<close>, matched in either case, then the bar format\<close>
  "parse_heartbeat ts = (case (if ends_with CHR ''Z'' ts \<or> ends_with CHR ''z'' ts then strptime_bar (butlast ts) else None) of
       Some t \<Rightarrow> Some t | None \<Rightarrow> (case parse_bar_utc ts of Inr t \<Rightarrow> Some t | Inl _ \<Rightarrow> None))"

definition check_heartbeat :: "limits \<Rightarrow> instant \<Rightarrow> string \<Rightarrow> heartbeat \<Rightarrow> freshness_result + string option" where
  "check_heartbeat lm now latest hb = (case hb of HbAbsent \<Rightarrow> Inr None
     | HbMalformed \<Rightarrow> Inl (refuse ''MALFORMED_HEARTBEAT'' (Some latest) None)
     | HbNewest None \<Rightarrow> Inl (refuse ''MALFORMED_HEARTBEAT'' (Some latest) None)
     | HbNewest (Some ts) \<Rightarrow> (case parse_heartbeat ts of
           None \<Rightarrow> Inl (refuse ''MALFORMED_HEARTBEAT'' (Some latest) (Some ts))
         | Some t \<Rightarrow> if li_future_skew lm < t - now then Inl (refuse ''FUTURE_HEARTBEAT'' (Some latest) (Some ts))
             else if li_heartbeat_max_age lm < now - t then Inl (refuse ''STALE_HEARTBEAT'' (Some latest) (Some ts))
             else Inr (Some ts)))"

definition latest_ts :: "scan_state \<Rightarrow> string" where
  \<comment> \<open>\<open>latest_consumed_ts or latest_overall_ts\<close>\<close>
  "latest_ts st = (case ss_latest_consumed st of Some ts \<Rightarrow> if ts \<noteq> [] then ts else (case ss_latest_overall st of
       Some (o1, _) \<Rightarrow> o1 | None \<Rightarrow> [])
     | None \<Rightarrow> (case ss_latest_overall st of Some (o1, _) \<Rightarrow> o1 | None \<Rightarrow> []))"

definition finish :: "limits \<Rightarrow> instant \<Rightarrow> fs_entry \<Rightarrow> scan_state \<Rightarrow> freshness_result result" where
  "finish lm now hb_file st = (let latest = latest_ts st in
     rbind (parse_bar_utc latest) (\<lambda>latest_dt.
     if li_max_staleness lm < now - latest_dt then Inr (refuse ''STALE_OBSERVATION'' (Some latest) None)
     else rbind (latest_heartbeat_ts hb_file) (\<lambda>hb.
       Inr (case check_heartbeat lm now latest hb of Inl r \<Rightarrow> r
         | Inr hb_ts \<Rightarrow> if ss_consumed st = 0 then \<lparr>fr_ok = True, fr_code = ''NO_ELIGIBLE_BARS_YET'',
             fr_latest_bar_ts = Some latest, fr_heartbeat_ts = hb_ts\<rparr> else fresh_ok latest hb_ts))))"

definition check_freshness ::
    "bool \<Rightarrow> json \<Rightarrow> fs_entry \<Rightarrow> instant \<Rightarrow> json \<Rightarrow> string option \<Rightarrow> freshness_result result" where
  "check_freshness obs_exists obs_log hb_file now cfg forward_start_ts =
     rbind (read_limits cfg) (\<lambda>lm.
     if \<not> obs_exists then Inr (refuse ''MISSING_OBSERVATION_LOG'' None None)
     else if \<not> dict_with ''per_bar_obs'' obs_log then Inr (refuse ''MALFORMED_OBSERVATION_LOG'' None None)
     else (case obs_log of JObj d \<Rightarrow> (case obj_get d ''per_bar_obs'' JNull of
         JList (row # rows) \<Rightarrow>
           rbind (case forward_start_ts of None \<Rightarrow> Inr None | Some f \<Rightarrow> rbind (parse_bar_utc f) (\<lambda>t. Inr (Some t))) (\<lambda>fwd.
           (case rfold (check_row lm now fwd) (row # rows) initial_scan of
             Inl r \<Rightarrow> Inr r | Inr st \<Rightarrow> finish lm now hb_file st))
       | _ \<Rightarrow> Inr (refuse ''EMPTY_PER_BAR_OBS'' None None))
     | _ \<Rightarrow> Inr (refuse ''MALFORMED_OBSERVATION_LOG'' None None)))"

section \<open>What the row scan establishes\<close>

definition row_accepted :: "limits \<Rightarrow> instant \<Rightarrow> json \<Rightarrow> string \<times> instant \<Rightarrow> bool" where
  "row_accepted lm now row x \<longleftrightarrow> (case row of JObj d \<Rightarrow>
       list_all (\<lambda>f. dict_get d f \<noteq> None) REQUIRED_OBS_FIELDS
       \<and> string_list (obj_get d ''active_symbols'' JNull) \<and> obj_get d ''timestamp'' JNull = JStr (fst x)
       \<and> parse_bar_utc (fst x) = Inr (snd x) \<and> on_grid (snd x) (li_interval lm) \<and> snd x - now \<le> li_future_skew lm
     | _ \<Rightarrow> False)"

lemma row_accepted_parse: "row_accepted lm now row x \<Longrightarrow> parse_bar_utc (fst x) = Inr (snd x)"
  by (cases row) (simp_all add: row_accepted_def)

lemma parse_bar_Inr: "parse_bar v = Inr t \<longleftrightarrow> (\<exists>ts. v = JStr ts \<and> parse_bar_utc ts = Inr t)"
  by (cases v) (auto simp: parse_bar_def)

lemma check_row_Inr:
  "check_row lm now fwd row st = Inr st' \<longleftrightarrow>
     (\<exists>ts dt. row_accepted lm now row (ts, dt) \<and> ts \<notin> set (ss_seen st) \<and> st' = count_row fwd ts dt st)"
proof (cases row)
  case (JObj d)
  have ex: "list_ex (\<lambda>f. dict_get d f = None) REQUIRED_OBS_FIELDS \<longleftrightarrow>
      \<not> list_all (\<lambda>f. dict_get d f \<noteq> None) REQUIRED_OBS_FIELDS"
    by (auto simp: list_ex_iff list_all_iff)
  show ?thesis
    by (cases "parse_bar (obj_get d ''timestamp'' JNull)")
      (auto simp: JObj check_row_def row_accepted_def ex parse_bar_Inr Let_def parse_bar_def split: json.splits)
qed (simp_all add: check_row_def row_accepted_def)

lemma count_row_seen [simp]: "ss_seen (count_row fwd ts dt st) = ts # ss_seen st"
  by (simp add: count_row_def Let_def)

definition eligible :: "instant option \<Rightarrow> string \<times> instant \<Rightarrow> bool" where
  "eligible fwd x \<longleftrightarrow> (case fwd of None \<Rightarrow> True | Some f \<Rightarrow> f \<le> snd x)"

definition count_rows :: "instant option \<Rightarrow> (string \<times> instant) list \<Rightarrow> scan_state" where
  "count_rows fwd tds = fold (\<lambda>(ts, dt). count_row fwd ts dt) tds initial_scan"

lemma count_rows_snoc: "count_rows fwd (tds @ [(ts, dt)]) = count_row fwd ts dt (count_rows fwd tds)"
  by (simp add: count_rows_def)

lemma count_rows_seen: "ss_seen (count_rows fwd tds) = rev (map fst tds)"
  by (induction tds rule: rev_induct) (auto simp: count_rows_snoc, simp add: count_rows_def initial_scan_def)

lemma count_rows_consumed: "ss_consumed (count_rows fwd tds) = length (filter (eligible fwd) tds)"
proof (induction tds rule: rev_induct)
  case (snoc x xs)
  then show ?case
    by (cases x) (auto simp: count_rows_snoc count_row_def eligible_def Let_def split: option.splits)
qed (simp add: count_rows_def initial_scan_def)

lemma count_rows_latest_mem:
  "ss_latest_consumed (count_rows fwd tds) = Some ts \<Longrightarrow> \<exists>dt. (ts, dt) \<in> set (filter (eligible fwd) tds)"
proof (induction tds arbitrary: ts rule: rev_induct)
  case (snoc x xs)
  then show ?case
    by (cases x) (auto simp: count_rows_snoc count_row_def eligible_def Let_def split: option.splits if_splits)
qed (simp add: count_rows_def initial_scan_def)

lemma count_rows_latest_overall:
  "tds \<noteq> [] \<Longrightarrow> \<exists>x. ss_latest_overall (count_rows fwd tds) = Some x \<and> x \<in> set tds"
proof (induction tds rule: rev_induct)
  case (snoc x xs)
  then show ?case
    by (cases x; cases "xs = []")
      (auto simp: count_rows_snoc count_row_def Let_def count_rows_def initial_scan_def split: option.splits if_splits)
qed simp

lemma latest_ts_mem:
  assumes "tds \<noteq> []"
  shows "\<exists>dt. (latest_ts (count_rows fwd tds), dt) \<in> set tds"
proof -
  obtain x where x: "ss_latest_overall (count_rows fwd tds) = Some x" "x \<in> set tds"
    using count_rows_latest_overall[OF assms] by blast
  show ?thesis
  proof (cases "ss_latest_consumed (count_rows fwd tds)")
    case (Some ts)
    then obtain dt where "(ts, dt) \<in> set tds" using count_rows_latest_mem by fastforce
    then show ?thesis using x Some by (cases x) (auto simp: latest_ts_def split: if_splits)
  qed (use x in \<open>cases x, auto simp: latest_ts_def\<close>)
qed

lemma scan_rows_gen:
  assumes "rfold (check_row lm now fwd) rows (count_rows fwd pre) = Inr st" "distinct (map fst pre)"
  shows "\<exists>tds. list_all2 (row_accepted lm now) rows tds \<and> distinct (map fst (pre @ tds)) \<and> st = count_rows fwd (pre @ tds)"
  using assms
proof (induction rows arbitrary: pre)
  case (Cons row rows)
  then obtain ts dt where r: "row_accepted lm now row (ts, dt)" "ts \<notin> set (map fst pre)"
    and rest: "rfold (check_row lm now fwd) rows (count_rows fwd (pre @ [(ts, dt)])) = Inr st"
    by (auto simp: result_simps check_row_Inr count_rows_seen count_rows_snoc)
  obtain tds where "list_all2 (row_accepted lm now) rows tds" "distinct (map fst ((pre @ [(ts, dt)]) @ tds))"
    "st = count_rows fwd ((pre @ [(ts, dt)]) @ tds)"
    using Cons.IH[OF rest] r Cons.prems(2) by auto
  then show ?case using r by (intro exI[of _ "(ts, dt) # tds"]) auto
qed auto

lemma scan_rows:
  assumes "rfold (check_row lm now fwd) rows initial_scan = Inr st"
  obtains tds where "list_all2 (row_accepted lm now) rows tds" "distinct (map fst tds)" "st = count_rows fwd tds"
proof -
  have "count_rows fwd [] = initial_scan" by (simp add: count_rows_def)
  then show thesis using scan_rows_gen[of lm now fwd rows "[]" st] assms that by auto
qed

section \<open>Properties\<close>

lemma finish_ok:
  assumes "finish lm now hb_file st = Inr r" "fr_ok r"
  obtains t hb where "parse_bar_utc (latest_ts st) = Inr t" "now - t \<le> li_max_staleness lm"
    "fr_latest_bar_ts r = Some (latest_ts st)" "latest_heartbeat_ts hb_file = Inr hb"
    "check_heartbeat lm now (latest_ts st) hb = Inr (fr_heartbeat_ts r)"
    "fr_code r = (if ss_consumed st = 0 then ''NO_ELIGIBLE_BARS_YET'' else ''OK'')"
proof -
  obtain t where t: "parse_bar_utc (latest_ts st) = Inr t"
    using assms(1) by (auto simp: finish_def Let_def rbind_Inr_iff)
  have s: "now - t \<le> li_max_staleness lm"
    using assms by (auto simp: finish_def Let_def t refuse_def split: if_splits)
  then obtain hb where hb: "latest_heartbeat_ts hb_file = Inr hb"
    using assms(1) by (auto simp: finish_def Let_def t rbind_Inr_iff split: if_splits)
  have bad: "\<not> fr_ok x" if "check_heartbeat lm now (latest_ts st) hb = Inl x" for x
    using that by (auto simp: check_heartbeat_def refuse_def split: heartbeat.splits option.splits if_splits)
  obtain h where h: "check_heartbeat lm now (latest_ts st) hb = Inr h"
    using assms s bad by (cases "check_heartbeat lm now (latest_ts st) hb") (auto simp: finish_def Let_def t hb)
  have "fr_heartbeat_ts r = h" "fr_latest_bar_ts r = Some (latest_ts st)"
    "fr_code r = (if ss_consumed st = 0 then ''NO_ELIGIBLE_BARS_YET'' else ''OK'')"
    using assms(1) s by (auto simp: finish_def Let_def t hb h fresh_ok_def split: if_splits)
  with t s hb h show thesis using that by blast
qed

lemma check_freshness_ok:
  assumes "check_freshness exists_log obs_log hb_file now cfg start = Inr r" "fr_ok r"
  obtains lm d rows fwd tds where "read_limits cfg = Inr lm" "obs_log = JObj d" "dict_get d ''per_bar_obs'' = Some (JList rows)"
    "rows \<noteq> []" "exists_log" "(case start of None \<Rightarrow> fwd = None | Some f \<Rightarrow> \<exists>t. parse_bar_utc f = Inr t \<and> fwd = Some t)"
    "list_all2 (row_accepted lm now) rows tds" "distinct (map fst tds)" "finish lm now hb_file (count_rows fwd tds) = Inr r"
proof -
  obtain lm where lm: "read_limits cfg = Inr lm"
    using assms(1) by (auto simp: check_freshness_def rbind_Inr_iff)
  have ex: "exists_log" "dict_with ''per_bar_obs'' obs_log"
    using assms by (auto simp: check_freshness_def lm refuse_def split: if_splits)
  then obtain d where d: "obs_log = JObj d" "dict_get d ''per_bar_obs'' \<noteq> None"
    by (auto simp: dict_with_def split: json.splits)
  obtain row rows where rows: "obj_get d ''per_bar_obs'' JNull = JList (row # rows)"
  proof (cases "\<exists>row rows. obj_get d ''per_bar_obs'' JNull = JList (row # rows)")
    case False
    then have "r = refuse ''EMPTY_PER_BAR_OBS'' None None"
      using assms(1) ex d(1) by (auto simp: check_freshness_def lm split: json.splits list.splits)
    then show ?thesis using assms(2) by (simp add: refuse_def)
  qed (use that in blast)
  obtain fwd where fwd: "(case start of None \<Rightarrow> Inr None | Some f \<Rightarrow> rbind (parse_bar_utc f) (\<lambda>t. Inr (Some t))) = Inr fwd"
    using assms(1) ex d(1) rows by (auto simp: check_freshness_def lm rbind_Inr_iff)
  have bad: "\<not> fr_ok x" if "rfold (check_row lm now fwd) rs st = Inl x" for x rs st
    using that
  proof (induction rs arbitrary: st)
    case (Cons a rs)
    then show ?case
      by (auto simp: rbind_Inl_iff check_row_def refuse_def Let_def split: json.splits if_splits sum.splits)
  qed simp
  obtain st where st: "rfold (check_row lm now fwd) (row # rows) initial_scan = Inr st"
    "finish lm now hb_file st = Inr r"
    using assms ex d(1) rows fwd bad[of "row # rows" initial_scan]
    by (cases "rfold (check_row lm now fwd) (row # rows) initial_scan") (auto simp: check_freshness_def lm simp del: rfold.simps)
  obtain tds where "list_all2 (row_accepted lm now) (row # rows) tds" "distinct (map fst tds)" "st = count_rows fwd tds"
    using scan_rows[OF st(1)] by blast
  moreover have "dict_get d ''per_bar_obs'' = Some (JList (row # rows))"
    using rows d(2) by (auto simp: obj_get_def)
  moreover have "(case start of None \<Rightarrow> fwd = None | Some f \<Rightarrow> \<exists>t. parse_bar_utc f = Inr t \<and> fwd = Some t)"
    using fwd by (auto simp: rbind_Inr_iff split: option.splits)
  ultimately show thesis using that[OF lm d(1)] ex(1) st(2) by blast
qed

text \<open>
  C21. The gate is sound: when it lets a run proceed, the log has rows, every row carries the full
  contract with a list of strings as active symbols and a timestamp that parses, lies on the grid
  and is not beyond the skew, no timestamp string occurs twice, some row is not older than the
  allowed staleness, a heartbeat file that exists is well formed with a newest stamp that is neither
  beyond the skew nor too old, and the verdict is the no-op exactly when no row has reached the
  forward boundary.
\<close>

theorem freshness_gate_sound:
  assumes "check_freshness exists_log obs_log hb_file now cfg start = Inr r" "fr_ok r"
  shows "\<exists>lm d rows tds. read_limits cfg = Inr lm \<and> obs_log = JObj d
    \<and> dict_get d ''per_bar_obs'' = Some (JList rows) \<and> rows \<noteq> []
    \<and> list_all2 (row_accepted lm now) rows tds \<and> distinct (map fst tds)
    \<and> (\<exists>(ts, t) \<in> set tds. fr_latest_bar_ts r = Some ts \<and> now - t \<le> li_max_staleness lm)
    \<and> (hb_file = Absent \<or> (\<exists>ts t. latest_heartbeat_ts hb_file = Inr (HbNewest (Some ts)) \<and> parse_heartbeat ts = Some t
          \<and> t - now \<le> li_future_skew lm \<and> now - t \<le> li_heartbeat_max_age lm))
    \<and> (fr_code r = ''NO_ELIGIBLE_BARS_YET'' \<longleftrightarrow>
          (\<exists>f b. start = Some f \<and> parse_bar_utc f = Inr b \<and> list_all (\<lambda>(ts, t). t < b) tds))"
proof -
  obtain lm d rows fwd tds where c: "read_limits cfg = Inr lm" "obs_log = JObj d" "dict_get d ''per_bar_obs'' = Some (JList rows)"
    "rows \<noteq> []" "exists_log" "case start of None \<Rightarrow> fwd = None | Some f \<Rightarrow> \<exists>t. parse_bar_utc f = Inr t \<and> fwd = Some t"
    "list_all2 (row_accepted lm now) rows tds" "distinct (map fst tds)" "finish lm now hb_file (count_rows fwd tds) = Inr r"
    by (rule check_freshness_ok[OF assms])
  have ne: "tds \<noteq> []" using c(4,7) by auto
  obtain t hb where f: "parse_bar_utc (latest_ts (count_rows fwd tds)) = Inr t" "now - t \<le> li_max_staleness lm"
    "fr_latest_bar_ts r = Some (latest_ts (count_rows fwd tds))" "latest_heartbeat_ts hb_file = Inr hb"
    "check_heartbeat lm now (latest_ts (count_rows fwd tds)) hb = Inr (fr_heartbeat_ts r)"
    "fr_code r = (if ss_consumed (count_rows fwd tds) = 0 then ''NO_ELIGIBLE_BARS_YET'' else ''OK'')"
    by (rule finish_ok[OF c(9) assms(2)])
  have parsed: "parse_bar_utc (fst x) = Inr (snd x)" if "x \<in> set tds" for x
    using c(7) that by (auto simp: list_all2_conv_all_nth in_set_conv_nth dest: row_accepted_parse)
  obtain u where u: "(latest_ts (count_rows fwd tds), u) \<in> set tds" using latest_ts_mem[OF ne] by blast
  then have "u = t" using parsed[OF u] f(1) by simp
  then have 1: "\<exists>(ts, t) \<in> set tds. fr_latest_bar_ts r = Some ts \<and> now - t \<le> li_max_staleness lm"
    using u f(2,3) by blast
  have 2: "hb_file = Absent \<or> (\<exists>ts t. latest_heartbeat_ts hb_file = Inr (HbNewest (Some ts)) \<and> parse_heartbeat ts = Some t
      \<and> t - now \<le> li_future_skew lm \<and> now - t \<le> li_heartbeat_max_age lm)"
  proof (cases hb_file)
    case (Bytes b)
    have "heartbeat_lines ls n \<noteq> Inr HbAbsent" for ls n
      by (induction ls n rule: heartbeat_lines.induct) (auto split: sum.splits json.splits)
    then have "hb \<noteq> HbAbsent" using f(4) Bytes
      by (auto simp: latest_heartbeat_ts_def rbind_Inr_iff split: option.splits)
    then show ?thesis using f(4,5)
      by (auto simp: check_heartbeat_def split: heartbeat.splits option.splits if_splits)
  qed (use f(4,5) in \<open>auto simp: latest_heartbeat_ts_def check_heartbeat_def\<close>)
  have 3: "fr_code r = ''NO_ELIGIBLE_BARS_YET'' \<longleftrightarrow>
      (\<exists>f b. start = Some f \<and> parse_bar_utc f = Inr b \<and> list_all (\<lambda>(ts, t). t < b) tds)"
    using c(6) ne f(6)
    by (cases start) (auto simp: count_rows_consumed filter_empty_conv eligible_def list_all_iff not_le
        split: if_splits; cases tds; auto)+
  show ?thesis using c 1 2 3 by blast
qed

section \<open>A concrete log\<close>

definition fx_row :: "string \<Rightarrow> json" where
  "fx_row ts = JObj [(''bar_index'', JInt 0), (''timestamp'', JStr ts), (''active_symbols'', JList [JStr ''A'']),
     (''portfolio_heat'', JInt 0), (''heat_cap_triggered'', JBool False), (''weighted_return'', JInt 0)]"

definition fx_bar :: fields where
  "fx_bar = \<lparr>f_year = 2026, f_month = 6, f_day = 14, f_hour = 8, f_minute = 0, f_second = 0\<rparr>"

definition fx_log :: json where
  "fx_log = JObj [(''per_bar_obs'', JList [fx_row (fmt_fields fx_bar), fx_row (fmt_fields fx_bar @ ''Z'')])]"

definition fx_now :: instant where "fx_now = fields_instant fx_bar + us_per_hour"

definition fx_limits :: limits where
  "fx_limits = \<lparr>li_interval = 8, li_max_staleness = 24 * us_per_hour, li_heartbeat_max_age = 24 * us_per_hour,
     li_future_skew = us_per_hour\<rparr>"

lemma fx_limits: "read_limits JNull = Inr fx_limits"
proof -
  have "round_half_even 86400000000 = 86400000000" "round_half_even 3600000000 = 3600000000"
    using round_half_even_of_int[of 86400000000] round_half_even_of_int[of 3600000000] by simp_all
  then show ?thesis
    by (simp add: read_limits_def obj_get_def py_int_def py_float_def fl_of_int_def timedelta_hours_def trunc_def
      us_per_hour_def DEFAULT_MAX_FUTURE_SKEW_HOURS_def delta_ok_def us_per_day_def max_delta_days_def fx_limits_def Let_def)
qed

lemma fx_bar_facts: "valid_fields fx_bar" "on_grid (fields_instant fx_bar) 8"
  by (simp_all add: fx_bar_def valid_fields_def days_in_month_def on_grid_def fields_instant_def ymd2ord_def
    days_before_year_def days_before_month_def is_leap_def us_per_day_def us_per_second_def us_per_hour_def Let_def)

lemma fx_row_accepted:
  assumes "parse_bar_utc ts = Inr (fields_instant fx_bar)"
  shows "row_accepted fx_limits fx_now (fx_row ts) (ts, fields_instant fx_bar)"
  using assms fx_bar_facts
  by (simp add: row_accepted_def fx_row_def REQUIRED_OBS_FIELDS_def obj_get_def string_list_def fx_limits_def fx_now_def
    us_per_hour_def)

lemma fx_row_step:
  assumes "parse_bar_utc ts = Inr (fields_instant fx_bar)" "ts \<notin> set (ss_seen st)"
  shows "check_row fx_limits fx_now fwd (fx_row ts) st = Inr (count_row fwd ts (fields_instant fx_bar) st)"
  using fx_row_accepted[OF assms(1)] assms(2) check_row_Inr by blast

lemma fx_bar_less: "fmt_fields fx_bar < fmt_fields fx_bar @ ''Z''"
proof -
  have "xs < xs @ [c]" for xs and c :: char by (induction xs) simp_all
  then show ?thesis .
qed

lemma fx_fresh: "check_freshness True fx_log Absent fx_now JNull None = Inr (fresh_ok (fmt_fields fx_bar @ ''Z'') None)"
proof -
  note p = parse_bar_fmt[OF fx_bar_facts(1)]
  have rows: "rfold (check_row fx_limits fx_now None) [fx_row (fmt_fields fx_bar), fx_row (fmt_fields fx_bar @ ''Z'')] initial_scan
      = Inr (count_row None (fmt_fields fx_bar @ ''Z'') (fields_instant fx_bar)
          (count_row None (fmt_fields fx_bar) (fields_instant fx_bar) initial_scan))"
    using p by (simp add: fx_row_step initial_scan_def)
  have latest: "latest_ts (count_row None (fmt_fields fx_bar @ ''Z'') (fields_instant fx_bar)
      (count_row None (fmt_fields fx_bar) (fields_instant fx_bar) initial_scan)) = fmt_fields fx_bar @ ''Z''"
    using fx_bar_less by (simp add: count_row_def latest_ts_def initial_scan_def Let_def)
  have cons: "ss_consumed (count_row None (fmt_fields fx_bar @ ''Z'') (fields_instant fx_bar)
      (count_row None (fmt_fields fx_bar) (fields_instant fx_bar) initial_scan)) = 2"
    by (simp add: count_row_def initial_scan_def Let_def)
  have fin: "finish fx_limits fx_now Absent (count_row None (fmt_fields fx_bar @ ''Z'') (fields_instant fx_bar)
      (count_row None (fmt_fields fx_bar) (fields_instant fx_bar) initial_scan)) = Inr (fresh_ok (fmt_fields fx_bar @ ''Z'') None)"
    unfolding finish_def latest cons Let_def p rbind_simps
    by (simp add: fx_limits_def fx_now_def us_per_hour_def latest_heartbeat_ts_def check_heartbeat_def)
  show ?thesis
    using rows fin by (simp add: check_freshness_def fx_limits fx_log_def dict_with_def obj_get_def del: rfold.simps)
qed

theorem freshness_gate_sound_witness:
  "\<exists>tds. list_all2 (row_accepted fx_limits fx_now) [fx_row (fmt_fields fx_bar), fx_row (fmt_fields fx_bar @ ''Z'')] tds
     \<and> distinct (map fst tds)"
  using freshness_gate_sound[OF fx_fresh] by (auto simp: fx_limits fx_log_def fresh_ok_def)

text \<open>
  The gate tells bars apart by their spelling: a log that holds one bar twice, once with and once
  without the trailing zone letter, passes as fresh.
\<close>

theorem freshness_passes_respelled_bar:
  "check_freshness True (JObj [(''per_bar_obs'', JList [fx_row (fmt_fields fx_bar), fx_row (fmt_fields fx_bar @ ''Z'')])])
     Absent fx_now JNull None = Inr (fresh_ok (fmt_fields fx_bar @ ''Z'') None)
   \<and> parse_bar_utc (fmt_fields fx_bar) = parse_bar_utc (fmt_fields fx_bar @ ''Z'')"
  using fx_fresh parse_bar_fmt[OF fx_bar_facts(1)] by (simp add: fx_log_def)

end
