(* ===== verification/LedgerIO.thy ===== *)
theory LedgerIO
  imports PyConv
begin

text \<open>
  \<open>quantbot/paper/ledger.py\<close>: reading the JSONL ledgers, the summary and the position state with a
  deep check of their shape, and appending rows by id. A corrupt artifact is \<open>Corrupt\<close> (the
  \<open>LedgerCorruptionError\<close> the runner turns into a status); any other exception is \<open>Raised\<close>.
  Messages are diagnostics and are reduced to what they are about.
\<close>

section \<open>Errors and small predicates\<close>

datatype corruption =
    CannotRead
  | InvalidUtf8
  | InvalidJson
  | NotAnObject
  | MissingFields "string list"
  | UnexpectedFields "string list"
  | BadField string
  | BadSummary string
  | BadState string

datatype ledger_error = Corrupt corruption | Raised py_error

type_synonym row = "(string, json) dict"

definition SCHEMA_VERSION :: int where "SCHEMA_VERSION = 1"
definition PAPER_ENGINE_VERSION :: string where "PAPER_ENGINE_VERSION = ''0.3.0''"
definition BASELINE_LABEL :: string where "BASELINE_LABEL = ''fixed_notional_active_symbols_paper_v1''"

definition get :: "row \<Rightarrow> string \<Rightarrow> json" where
  \<comment> \<open>\<open>row.get(f)\<close>\<close>
  "get r f = obj_get r f JNull"

definition has_field :: "row \<Rightarrow> string \<Rightarrow> bool" where
  "has_field r f \<longleftrightarrow> dict_get r f \<noteq> None"

definition finite_number :: "json \<Rightarrow> bool result" where
  \<comment> \<open>\<open>math.isfinite\<close> converts an int to a float first, which overflows from 2 to the 1024 on\<close>
  "finite_number v = (case v of JInt n \<Rightarrow> if fl_of_int n = None then Inl OverflowError else Inr True
     | JFloat x \<Rightarrow> Inr (is_finite x) | _ \<Rightarrow> Inr False)"

definition nonneg_finite :: "json \<Rightarrow> bool result" where
  "nonneg_finite v = rbind (finite_number v) (\<lambda>b. Inr (b \<and> (case num_value v of Some x \<Rightarrow> fl_le (PFin 0) x | None \<Rightarrow> False)))"

definition positive_finite :: "json \<Rightarrow> bool result" where
  "positive_finite v = rbind (finite_number v) (\<lambda>b. Inr (b \<and> (case num_value v of Some x \<Rightarrow> fl_lt (PFin 0) x | None \<Rightarrow> False)))"

definition nonneg_int :: "json \<Rightarrow> bool" where
  "nonneg_int v \<longleftrightarrow> (case v of JInt n \<Rightarrow> 0 \<le> n | _ \<Rightarrow> False)"

definition nonempty_str :: "json \<Rightarrow> bool" where
  "nonempty_str v \<longleftrightarrow> (case v of JStr s \<Rightarrow> s \<noteq> [] | _ \<Rightarrow> False)"

definition str_list :: "json \<Rightarrow> bool" where
  "str_list v \<longleftrightarrow> (case v of JList xs \<Rightarrow> list_all nonempty_str xs | _ \<Rightarrow> False)"

definition parseable_timestamp :: "json \<Rightarrow> bool" where
  "parseable_timestamp v \<longleftrightarrow> (case v of JStr s \<Rightarrow> s \<noteq> [] \<and> fromisoformat (zulu_offset s) \<noteq> None | _ \<Rightarrow> False)"

definition parseable_bar_ts :: "json \<Rightarrow> bool" where
  "parseable_bar_ts v \<longleftrightarrow> (case v of JStr s \<Rightarrow> (case parse_bar_utc s of Inr _ \<Rightarrow> True | Inl _ \<Rightarrow> False) | _ \<Rightarrow> False)"

definition is_bool :: "json \<Rightarrow> bool" where
  "is_bool v \<longleftrightarrow> (case v of JBool _ \<Rightarrow> True | _ \<Rightarrow> False)"

section \<open>Reading\<close>

definition parse_line :: "string \<Rightarrow> ledger_error + row" where
  "parse_line line = (case json_loads line of
       Inl e \<Rightarrow> Inl (if e = LoneSurrogate then Raised OutOfModel else if e = DigitLimit then Raised ValueError
         else Corrupt InvalidJson)
     | Inr (JObj d) \<Rightarrow> Inr d
     | Inr _ \<Rightarrow> Inl (Corrupt NotAnObject))"

definition read_jsonl :: "fs_entry \<Rightarrow> ledger_error + row list" where
  "read_jsonl entry = (case entry of Absent \<Rightarrow> Inr [] | Unopenable \<Rightarrow> Inl (Corrupt CannotRead)
     | Bytes bytes \<Rightarrow> (case text_of bytes of None \<Rightarrow> Inl (Corrupt InvalidUtf8)
         | Some s \<Rightarrow> rmap parse_line (data_lines s)))"

definition read_json_obj :: "fs_entry \<Rightarrow> ledger_error + row option" where
  \<comment> \<open>\<open>None\<close>: the default for a file that does not exist\<close>
  "read_json_obj entry = (case entry of Absent \<Rightarrow> Inr None | Unopenable \<Rightarrow> Inl (Corrupt CannotRead)
     | Bytes bytes \<Rightarrow> (case text_of bytes of None \<Rightarrow> Inl (Corrupt InvalidUtf8)
         | Some s \<Rightarrow> rbind (parse_line s) (\<lambda>d. Inr (Some d))))"

section \<open>Schemas\<close>

record schema =
  sc_required :: "string list"
  sc_numeric :: "string list"
  sc_nonneg :: "string list"
  sc_positive :: "string list"
  sc_nonneg_ints :: "string list"
  sc_strings :: "string list"
  sc_timestamps :: "string list"
  sc_str_lists :: "string list"
  sc_bools :: "string list"
  sc_enums :: "(string \<times> string list) list"

definition in_enum :: "string list \<Rightarrow> json \<Rightarrow> bool result" where
  \<comment> \<open>\<open>v in frozenset(...)\<close>\<close>
  "in_enum allowed v = (if \<not> hashable v then Inl TypeError
     else Inr (case v of JStr s \<Rightarrow> s \<in> set allowed | _ \<Rightarrow> False))"

definition require :: "bool result \<Rightarrow> corruption \<Rightarrow> ledger_error + unit" where
  "require r c = (case r of Inl e \<Rightarrow> Inl (Raised e) | Inr b \<Rightarrow> if b then Inr () else Inl (Corrupt c))"

fun in_order :: "(ledger_error + unit) list \<Rightarrow> ledger_error + unit" where
  \<comment> \<open>a sequence of checks: the first that raises\<close>
  "in_order [] = Inr ()"
| "in_order (c # cs) = rbind c (\<lambda>_. in_order cs)"

definition field_checks :: "(json \<Rightarrow> bool result) \<Rightarrow> row \<Rightarrow> string list \<Rightarrow> (ledger_error + unit) list" where
  "field_checks ok r names = map (\<lambda>f. require (ok (get r f)) (BadField f)) names"

definition row_checks :: "schema \<Rightarrow> row \<Rightarrow> (ledger_error + unit) list" where
  "row_checks sc r = (let
     missing = filter (\<lambda>f. \<not> has_field r f) (sc_required sc);
     unexpected = sorted_set (filter (\<lambda>f. f \<notin> set (sc_required sc)) (dict_keys r));
     total = (\<lambda>p v. Inr (p v))
     in require (Inr (missing = [])) (MissingFields missing)
        # require (Inr (unexpected = [])) (UnexpectedFields unexpected)
        # field_checks finite_number r (sc_numeric sc)
        @ field_checks nonneg_finite r (sc_nonneg sc)
        @ field_checks positive_finite r (sc_positive sc)
        @ field_checks (total nonneg_int) r (sc_nonneg_ints sc)
        @ field_checks (total nonempty_str) r (sc_strings sc)
        @ field_checks (total parseable_timestamp) r (sc_timestamps sc)
        @ field_checks (total str_list) r (sc_str_lists sc)
        @ field_checks (total is_bool) r (sc_bools sc)
        @ map (\<lambda>(f, allowed). require (in_enum allowed (get r f)) (BadField f)) (sc_enums sc))"

definition validate_row :: "schema \<Rightarrow> row \<Rightarrow> ledger_error + unit" where
  "validate_row sc r = in_order (row_checks sc r)"

definition read_jsonl_validated :: "schema \<Rightarrow> fs_entry \<Rightarrow> ledger_error + row list" where
  "read_jsonl_validated sc entry = rbind (read_jsonl entry) (\<lambda>rows.
     rbind (rmap (validate_row sc) rows) (\<lambda>_. Inr rows))"

section \<open>The persisted summary\<close>

definition KNOWN_SUMMARY_STATUSES :: "string list" where
  "KNOWN_SUMMARY_STATUSES = [''OK'', ''RUNNING'', ''ABORTED'', ''CONFIG_ERROR'', ''CORRUPT_LEDGER'', ''NO_ELIGIBLE_BARS_YET'']"

definition summary_common :: "string list" where
  "summary_common = [''schema_version'', ''status'', ''baseline_label'', ''forward_start_ts'', ''current_verdict'', ''disclaimer'']"

definition summary_by_status :: "string \<Rightarrow> string list" where
  "summary_by_status status = (
     if status = ''OK'' then [''baseline_note'', ''bars_elapsed'', ''closed_trades'', ''winrate'', ''realized_net_pnl'',
       ''total_pnl'', ''max_drawdown'', ''profit_factor'', ''expectancy'', ''open_positions'', ''num_open'', ''funding_gap'',
       ''funding_gap_count'']
     else if status = ''RUNNING'' then [''run_id'', ''started_at'', ''phase'', ''previous_watermark'']
     else if status = ''ABORTED'' then [''abort_code'', ''abort_reason'', ''aborted_at'']
     else if status = ''CONFIG_ERROR'' then [''config_error'', ''detected_at'']
     else if status = ''CORRUPT_LEDGER'' then [''detected_at'', ''reconcile_failures'', ''reconcile_failure_count'']
     else [''reason'', ''checked_at'', ''bars_elapsed''])"

definition summary_required :: "string \<Rightarrow> row \<Rightarrow> string list" where
  "summary_required status s = filter (\<lambda>f. \<not> (status = ''RUNNING'' \<and> get s ''phase'' = JStr ''preflight_config_error''
       \<and> f = ''previous_watermark'')) (summary_common @ summary_by_status status)"

definition summary_string_fields :: "string \<Rightarrow> string list" where
  "summary_string_fields status = (if status = ''RUNNING'' then [''run_id'', ''phase'']
     else if status = ''ABORTED'' then [''abort_code'', ''abort_reason'']
     else if status = ''CONFIG_ERROR'' then [''config_error'']
     else if status = ''NO_ELIGIBLE_BARS_YET'' then [''reason''] else [])"

definition summary_timestamp_fields :: "string \<Rightarrow> string list" where
  "summary_timestamp_fields status = (if status = ''RUNNING'' then [''started_at'']
     else if status = ''ABORTED'' then [''aborted_at'']
     else if status = ''CONFIG_ERROR'' \<or> status = ''CORRUPT_LEDGER'' then [''detected_at''] else [''checked_at''])"

definition summary_head_checks :: "string \<Rightarrow> row \<Rightarrow> (ledger_error + unit) list" where
  "summary_head_checks status s = (let check = (\<lambda>b f. require (Inr b) (BadSummary f));
     required = summary_required status s in
     [check (get s ''schema_version'' = JInt SCHEMA_VERSION) ''schema_version'',
      check (get s ''baseline_label'' = JStr BASELINE_LABEL) ''baseline_label'',
      check (parseable_bar_ts (get s ''forward_start_ts'') \<or> (status = ''RUNNING''
         \<and> get s ''phase'' = JStr ''preflight_config_error'' \<and> get s ''forward_start_ts'' = JStr ''unknown''))
        ''forward_start_ts'',
      check (list_all (has_field s) required \<and> set (dict_keys s) \<subseteq> set required) ''fields'',
      check (nonempty_str (get s ''current_verdict'')) ''current_verdict'',
      check (nonempty_str (get s ''disclaimer'')) ''disclaimer''])"

definition ok_summary_checks :: "row \<Rightarrow> (ledger_error + unit) list" where
  "ok_summary_checks s = (let check = (\<lambda>b f. require (Inr b) (BadSummary f));
     number = (\<lambda>f. require (finite_number (get s f)) (BadSummary f)) in
     [check (nonempty_str (get s ''baseline_note'')) ''baseline_note'']
     @ map (\<lambda>f. check (nonneg_int (get s f)) f) [''closed_trades'', ''bars_elapsed'', ''num_open'', ''funding_gap_count'']
     @ map number [''realized_net_pnl'', ''total_pnl'', ''max_drawdown'']
     @ map (\<lambda>f. if get s f = JNull then Inr () else number f) [''winrate'', ''profit_factor'', ''expectancy'']
     @ [check (str_list (get s ''open_positions'')) ''open_positions'',
        check (is_bool (get s ''funding_gap'')) ''funding_gap'',
        check (case (get s ''open_positions'', get s ''num_open'') of (JList xs, JInt n) \<Rightarrow> int (length xs) = n | _ \<Rightarrow> False)
          ''num_open'',
        check (case (get s ''funding_gap'', get s ''funding_gap_count'') of (JBool b, JInt n) \<Rightarrow> b = (0 < n) | _ \<Rightarrow> False)
          ''funding_gap''])"

definition other_summary_checks :: "string \<Rightarrow> row \<Rightarrow> (ledger_error + unit) list" where
  "other_summary_checks status s = (let check = (\<lambda>b f. require (Inr b) (BadSummary f)) in
     map (\<lambda>f. check (nonempty_str (get s f)) f) (summary_string_fields status)
     @ map (\<lambda>f. check (parseable_timestamp (get s f)) f) (summary_timestamp_fields status)
     @ (if status = ''RUNNING'' then
          [check (get s ''phase'' = JStr ''preflight'' \<or> get s ''phase'' = JStr ''preflight_config_error'') ''phase'',
           check (has_field s ''previous_watermark'' \<longrightarrow>
             (get s ''previous_watermark'' = JStr [] \<or> parseable_bar_ts (get s ''previous_watermark''))) ''previous_watermark'']
        else if status = ''CORRUPT_LEDGER'' then
          [check (case (get s ''reconcile_failures'', get s ''reconcile_failure_count'') of
               (JList xs, JInt n) \<Rightarrow> list_all nonempty_str xs \<and> xs \<noteq> [] \<and> n = int (length xs) | _ \<Rightarrow> False) ''reconcile_failures'']
        else if status = ''NO_ELIGIBLE_BARS_YET'' then [check (nonneg_int (get s ''bars_elapsed'')) ''bars_elapsed'']
        else []))"

definition validate_summary_shape :: "row \<Rightarrow> ledger_error + unit" where
  "validate_summary_shape s = (case get s ''status'' of
       JStr status \<Rightarrow> if status \<notin> set KNOWN_SUMMARY_STATUSES then Inl (Corrupt (BadSummary ''status''))
         else in_order (summary_head_checks status s
           @ (if status = ''OK'' then ok_summary_checks s else other_summary_checks status s))
     | _ \<Rightarrow> Inl (Corrupt (BadSummary ''status'')))"

definition read_summary_obj :: "fs_entry \<Rightarrow> ledger_error + row" where
  "read_summary_obj entry = rbind (read_json_obj entry) (\<lambda>m. case m of None \<Rightarrow> Inr []
     | Some s \<Rightarrow> rbind (validate_summary_shape s) (\<lambda>_. Inr s))"

section \<open>The persisted position state\<close>

definition STATE_ACCUMULATOR_KEYS :: "string list" where
  "STATE_ACCUMULATOR_KEYS = [''realized_gross'', ''fees_cum'', ''funding_cum'']"
definition OPEN_POSITION_STR_KEYS :: "string list" where
  "OPEN_POSITION_STR_KEYS = [''entry_fill_id'', ''entry_bar_ts'', ''entry_fill_ts'']"
definition OPEN_POSITION_NUM_KEYS :: "string list" where
  "OPEN_POSITION_NUM_KEYS = [''entry_price'', ''qty'', ''funding_accrued'', ''entry_fee'']"
definition STATE_KEYS :: "string list" where
  "STATE_KEYS = [''watermark_bar_ts'', ''open_positions'', ''accumulators'', ''peak_equity'', ''bars_elapsed'']"

definition same_keys :: "row \<Rightarrow> string list \<Rightarrow> bool" where
  "same_keys r ks \<longleftrightarrow> list_all (has_field r) ks \<and> list_all (\<lambda>k. k \<in> set ks) (dict_keys r)"

definition position_ok :: "row \<Rightarrow> bool result" where
  \<comment> \<open>no field is missing, unexpected or invalid\<close>
  "position_ok pos = (let expected = OPEN_POSITION_STR_KEYS @ OPEN_POSITION_NUM_KEYS @ [''hold_bars''] in
     rbind (rmap (\<lambda>k. finite_number (get pos k)) OPEN_POSITION_NUM_KEYS) (\<lambda>finite.
     rbind (positive_finite (get pos ''entry_price'')) (\<lambda>price.
     rbind (if price then positive_finite (get pos ''qty'') else Inr False) (\<lambda>amount.
     rbind (nonneg_finite (get pos ''entry_fee'')) (\<lambda>fee.
     Inr (same_keys pos expected
       \<and> list_all (\<lambda>k. nonempty_str (get pos k)) OPEN_POSITION_STR_KEYS \<and> list_all id finite
       \<and> list_all (\<lambda>k. parseable_bar_ts (get pos k)) [''entry_bar_ts'', ''entry_fill_ts'']
       \<and> amount \<and> fee \<and> nonneg_int (get pos ''hold_bars'')))))))"

fun rall :: "('a \<Rightarrow> bool result) \<Rightarrow> 'a list \<Rightarrow> bool result" where
  "rall p [] = Inr True"
| "rall p (x # xs) = rbind (p x) (\<lambda>b. if b then rall p xs else Inr False)"

definition position_check :: "string \<times> json \<Rightarrow> ledger_error + unit" where
  "position_check entry = (case entry of (symbol, v) \<Rightarrow>
     in_order [require (Inr (symbol \<noteq> [])) (BadState ''open_positions''),
       (case v of JObj pos \<Rightarrow> require (position_ok pos) (BadState ''open_positions'')
        | _ \<Rightarrow> Inl (Corrupt (BadState ''open_positions'')))])"

definition validate_state_shape :: "row \<Rightarrow> ledger_error + unit" where
  "validate_state_shape s = (let check = (\<lambda>b f. require (Inr b) (BadState f)) in
     in_order ([check (same_keys s STATE_KEYS) ''fields'',
       check (get s ''watermark_bar_ts'' = JStr [] \<or> parseable_bar_ts (get s ''watermark_bar_ts'')) ''watermark_bar_ts'']
     @ (case get s ''open_positions'' of JObj ps \<Rightarrow> map position_check ps
        | _ \<Rightarrow> [Inl (Corrupt (BadState ''open_positions''))])
     @ [(case get s ''accumulators'' of
           JObj acc \<Rightarrow> require (rbind (rall (\<lambda>k. finite_number (get acc k)) STATE_ACCUMULATOR_KEYS) (\<lambda>b.
             Inr (b \<and> same_keys acc STATE_ACCUMULATOR_KEYS))) (BadState ''accumulators'')
         | _ \<Rightarrow> Inl (Corrupt (BadState ''accumulators''))),
        require (finite_number (get s ''peak_equity'')) (BadState ''peak_equity''),
        check (nonneg_int (get s ''bars_elapsed'')) ''bars_elapsed'']))"

definition read_state_obj :: "fs_entry \<Rightarrow> ledger_error + row option" where
  "read_state_obj entry = rbind (read_json_obj entry) (\<lambda>m. case m of None \<Rightarrow> Inr None
     | Some s \<Rightarrow> rbind (validate_state_shape s) (\<lambda>_. Inr (Some s)))"

end
