(* ===== verification/JsonDump.thy ===== *)
theory JsonDump
  imports PyConv
begin

text \<open>
  The three layouts of \<open>json.dumps(..., sort_keys=True)\<close> the program writes: compact (hashing), the
  default separators (JSONL rows) and an indent of two (JSON files). A layout is the white space
  after an opening bracket, after a comma, before a closing bracket and after a colon.
\<close>

record layout =
  ly_open :: "nat \<Rightarrow> string"
  ly_item :: "nat \<Rightarrow> string"
  ly_close :: "nat \<Rightarrow> string"
  ly_colon :: string

definition compact_layout :: layout where
  "compact_layout = \<lparr>ly_open = \<lambda>_. [], ly_item = \<lambda>_. [], ly_close = \<lambda>_. [], ly_colon = []\<rparr>"

definition spaced :: layout where
  "spaced = \<lparr>ly_open = \<lambda>_. [], ly_item = \<lambda>_. '' '', ly_close = \<lambda>_. [], ly_colon = '' ''\<rparr>"

definition newline_indent :: "nat \<Rightarrow> string" where
  "newline_indent n = CHR 0x0A # replicate (2 * n) CHR '' ''"

definition indented :: layout where
  "indented = \<lparr>ly_open = (\<lambda>n. newline_indent (Suc n)), ly_item = (\<lambda>n. newline_indent (Suc n)),
     ly_close = newline_indent, ly_colon = '' ''\<rparr>"

definition bracketed :: "layout \<Rightarrow> nat \<Rightarrow> char \<Rightarrow> char \<Rightarrow> string list \<Rightarrow> string" where
  "bracketed ly n op cl items = (if items = [] then [op, cl]
     else [op] @ ly_open ly n @ join ('','' @ ly_item ly n) items @ ly_close ly n @ [cl])"

fun json_dumps :: "layout \<Rightarrow> nat \<Rightarrow> json \<Rightarrow> string" where
  "json_dumps ly n JNull = ''null''"
| "json_dumps ly n (JBool b) = (if b then ''true'' else ''false'')"
| "json_dumps ly n (JInt k) = show_int k"
| "json_dumps ly n (JFloat f) = float_repr f"
| "json_dumps ly n (JStr s) = dump_string s"
| "json_dumps ly n (JList xs) = bracketed ly n CHR ''['' CHR '']'' (map (json_dumps ly (Suc n)) xs)"
| "json_dumps ly n (JObj kvs) = bracketed ly n CHR ''{'' CHR ''}'' (map snd (sort_key fst
     (map (\<lambda>(k, v). (k, dump_string k @ '':'' @ ly_colon ly @ json_dumps ly (Suc n) v)) kvs)))"

lemma compact_sel [simp]: "ly_open compact_layout n = []" "ly_item compact_layout n = []" "ly_close compact_layout n = []" "ly_colon compact_layout = []"
  by (simp_all add: compact_layout_def)

lemma bracketed_compact: "bracketed compact_layout n op cl items = [op] @ join '','' items @ [cl]"
  by (simp add: bracketed_def join_def)

lemma canonical_is_compact: "canonical_json_dumps v = json_dumps compact_layout n v"
proof (induction v arbitrary: n)
  case (JList xs)
  have m: "map canonical_json_dumps xs = map (json_dumps compact_layout (Suc n)) xs" using JList by simp
  show ?case unfolding canonical_json_dumps.simps json_dumps.simps bracketed_compact m by simp
next
  case (JObj kvs)
  have m: "map (\<lambda>(k, v). (k, dump_string k @ '':'' @ canonical_json_dumps v)) kvs
      = map (\<lambda>(k, v). (k, dump_string k @ '':'' @ ly_colon compact_layout @ json_dumps compact_layout (Suc n) v)) kvs"
    using JObj by (intro map_cong) auto
  show ?case unfolding canonical_json_dumps.simps json_dumps.simps bracketed_compact m by simp
qed simp_all

end
