(* ===== verification/FloatRepr.thy ===== *)
theory FloatRepr
  imports PyJson
begin

text \<open>
  The decimal rendering of a float is exact: the digits that \<open>shortest_digits\<close> chooses read back, after
  rounding to a double, as the float itself. When no shorter digits do, seventeen digits do, because
  their error is smaller than half the distance of a double to its neighbours.
\<close>

lemma rhe_near: "\<bar>of_int k - z\<bar> < 1 / 2 \<Longrightarrow> round_half_even z = k"
proof -
  assume "\<bar>of_int k - z\<bar> < 1 / 2"
  then have "\<bar>(of_int (round_half_even z) :: rat) - of_int k\<bar> < 1"
    using round_half_even_err[of z] by linarith
  then have "\<bar>of_int (round_half_even z - k)\<bar> < (1 :: rat)" by simp
  then show ?thesis by linarith
qed

lemma double_on_grid:
  assumes "is_dbl x"
  obtains k where "x = of_int k * pow2 (ulp_exp x)"
  using round_dbl_id[OF assms] by (metis round_dbl_def)

lemma coarser_grid: "u \<le> v \<Longrightarrow> \<exists>j. of_int k * pow2 v = of_int j * pow2 u"
proof -
  assume "u \<le> v"
  then have "pow2 v = of_int (2 ^ nat (v - u)) * pow2 u"
    using pow2_add[of "v - u" u] by (simp add: pow2_nat)
  then have "of_int k * pow2 v = of_int (k * 2 ^ nat (v - u)) * pow2 u" by simp
  then show ?thesis by blast
qed

lemma round_dbl_near:
  assumes x: "is_dbl x" "0 < x" and near: "\<bar>y - x\<bar> \<le> x / 20000000000000000"
  shows "round_dbl y = x"
proof -
  have y: "0 < y" using near x(2) by linarith
  let ?u = "ulp_exp y" and ?v = "ulp_exp x"
  obtain k where k: "x = of_int k * pow2 ?v" using double_on_grid[OF x(1)] .
  have "?u \<le> ?v"
  proof (rule ccontr)
    assume uv: "\<not> ?u \<le> ?v"
    then have "of_int (2 ^ 52) \<le> y / pow2 ?u" using ulp_exp_ge[of x] by (intro scaled_ge y) linarith
    then have "pow2 (?u + 52) \<le> y" by (simp add: le_divide_eq pow2_add mult.commute)
    moreover have "pow2 (?v + 53) \<le> pow2 (?u + 52)" using uv by (intro pow2_mono) linarith
    ultimately have ly: "of_int (2 ^ 53) * pow2 ?v \<le> y" by (simp add: pow2_add mult.commute)
    have lx: "of_int k < (of_int (2 ^ 53) :: rat)" using scaled_lt[OF x(2)] by (subst (asm) k) simp
    then have "k + 1 \<le> 2 ^ 53" by (simp only: of_int_less_iff)
    then have "(of_int (k + 1) :: rat) \<le> of_int (2 ^ 53)" by (simp only: of_int_le_iff)
    then have "of_int (k + 1) * pow2 ?v \<le> of_int (2 ^ 53) * pow2 ?v" by (intro mult_right_mono) simp_all
    then have gap: "x + pow2 ?v \<le> y" using ly k by (simp add: distrib_right)
    have "x < of_int (2 ^ 53) * pow2 ?v" using lx by (subst k) simp
    then show False using gap near pow2_pos[of ?v] by (simp add: field_simps)
  qed
  then obtain j where j: "x = of_int j * pow2 ?u" using coarser_grid k by metis
  have lt: "y / pow2 ?u < of_int (2 ^ 53)" by (rule scaled_lt[OF y])
  have "y / pow2 ?u - of_int j = (y - x) / pow2 ?u" using j by (simp add: diff_divide_distrib)
  then have "\<bar>y / pow2 ?u - of_int j\<bar> = \<bar>y - x\<bar> / pow2 ?u" by (simp add: abs_divide)
  also have "\<dots> \<le> of_int j / 20000000000000000"
    using near j by (simp add: divide_le_eq)
  finally have d: "\<bar>of_int j - y / pow2 ?u\<bar> \<le> of_int j / 20000000000000000" by (simp add: abs_minus_commute)
  have "\<bar>of_int j - z\<bar> < 1 / 2" if "z < of_int (2 ^ 53)" "\<bar>of_int j - z\<bar> \<le> of_int j / 20000000000000000" for z :: rat
    using that by (simp add: abs_le_iff abs_less_iff, linarith)
  with lt d have "\<bar>of_int j - y / pow2 ?u\<bar> < 1 / 2" by blast
  then have "round_half_even (y / pow2 ?u) = j" by (rule rhe_near)
  then show ?thesis using j by (simp add: round_dbl_def)
qed

lemma ilog10_le:
  assumes "is_dbl x" "0 < x"
  shows "10 powi (ilog10 x) \<le> x"
proof (cases "List.find (\<lambda>k. 10 powi k \<le> x) (rev [-324..308])")
  case None
  obtain m e where x: "-1074 \<le> e" "x = of_int m * pow2 e" using assms(1) by (auto simp: is_dbl_def)
  have "1 \<le> m" using assms(2) x(2) pow2_pos[of e] by (simp add: zero_less_mult_iff not_less[symmetric])
  then have "1 * pow2 e \<le> of_int m * pow2 e" by (intro mult_right_mono) simp_all
  then have "pow2 (-1074) \<le> x" unfolding x(2) using pow2_mono[OF x(1)] by (metis mult_1 order_trans)
  moreover have "10 powi (-324) \<le> pow2 (-1074)" by (simp add: power_int_minus)
  ultimately have "10 powi (-324) \<le> x" by (rule order_trans[rotated])
  moreover have "-324 \<in> set (rev [-324..308::int])" by (simp only: set_rev set_upto atLeastAtMost_iff) simp
  ultimately show ?thesis using None unfolding find_None_iff by blast
next
  case (Some k)
  then have "10 powi k \<le> x" unfolding find_Some_iff by blast
  then show ?thesis by (simp only: ilog10_def Some option.case)
qed

lemma seventeen_digits:
  assumes "is_dbl x" "0 < x"
  shows "round_dbl (of_int (digits_candidate x (ilog10 x) 17) * 10 powi (ilog10 x - 16)) = x"
proof (rule round_dbl_near[OF assms])
  let ?k = "ilog10 x" let ?p = "10 powi (?k - 16) :: rat"
  have p: "0 < ?p" by simp
  have "digits_candidate x ?k 17 = round_half_even (x / ?p)" by (simp add: digits_candidate_def)
  then have "\<bar>of_int (digits_candidate x ?k 17) - x / ?p\<bar> \<le> 1 / 2" by (simp only: round_half_even_err)
  then have "\<bar>of_int (digits_candidate x ?k 17) - x / ?p\<bar> * ?p \<le> 1 / 2 * ?p" by (rule mult_right_mono) simp
  also have "\<bar>of_int (digits_candidate x ?k 17) - x / ?p\<bar> * ?p = \<bar>(of_int (digits_candidate x ?k 17) - x / ?p) * ?p\<bar>"
    by (simp add: abs_mult)
  also have "\<dots> = \<bar>of_int (digits_candidate x ?k 17) * ?p - x\<bar>" by (simp add: left_diff_distrib)
  finally have "\<bar>of_int (digits_candidate x ?k 17) * ?p - x\<bar> \<le> 1 / 2 * ?p" .
  moreover have "?p * 10000000000000000 = 10 powi ?k" by (simp add: power_int_diff)
  ultimately show "\<bar>of_int (digits_candidate x ?k 17) * ?p - x\<bar> \<le> x / 20000000000000000"
    using ilog10_le[OF assms] by linarith
qed

lemma shortest_from_exact: "shortest_from x k ns = Some (d, e) \<Longrightarrow> round_dbl (of_int d * 10 powi e) = x"
proof (induction ns)
  case (Cons n ns)
  then show ?case
    by (auto simp: Let_def find_Some_iff simp del: find.simps split: option.splits)
qed simp

lemma shortest_exact:
  assumes "is_dbl x" "0 < x" "shortest_digits x = (d, e)"
  shows "round_dbl (of_int d * 10 powi e) = x" "0 < d"
proof -
  let ?k = "ilog10 x"
  show r: "round_dbl (of_int d * 10 powi e) = x"
  proof (cases "shortest_from x ?k [1..<17]")
    case None
    then show ?thesis using assms(3) seventeen_digits[OF assms(1,2)]
      by (simp only: shortest_digits_def Let_def None option.case) auto
  next
    case (Some de)
    then have "shortest_from x ?k [1..<17] = Some (d, e)"
      using assms(3) by (simp only: shortest_digits_def Let_def option.case)
    then show ?thesis by (rule shortest_from_exact)
  qed
  show "0 < d"
  proof (rule ccontr)
    assume "\<not> 0 < d"
    then have "of_int d * 10 powi e \<le> (0::rat)" by (simp add: mult_le_0_iff)
    then have "round_dbl (of_int d * 10 powi e) \<le> 0" using round_dbl_mono[of _ 0] by simp
    with r assms(2) show False by simp
  qed
qed

end
