(* ===== verification/JsonRoundtrip.thy ===== *)
theory JsonRoundtrip
  imports JsonDump FloatRepr
begin

text \<open>
  Reading back what was written: \<open>json.loads\<close> of \<open>json.dumps(v, sort_keys=True)\<close> in any layout is the
  value with its keys sorted, floats included (the shortest rendering is exact, and seventeen digits
  always are).
\<close>

section \<open>The scanner without fuel\<close>

definition parse :: "'e pairs_hook \<Rightarrow> scan_mode \<Rightarrow> string \<Rightarrow> 'e json_error + (json \<times> string)" where
  "parse hook mode s = scan hook (fuel_need mode s) mode s"

lemma scan_parse: "fuel_need mode s \<le> n \<Longrightarrow> scan hook n mode s = parse hook mode s"
  using scan_fuel_enough[of mode s "fuel_need mode s" hook "n - fuel_need mode s"] by (simp add: parse_def)

lemma parse_string: "parse hook Value (CHR 0x22 # cs) = rbind (scan_string cs) (\<lambda>(t, rest). Inr (JStr t, rest))"
  by (simp add: parse_def scan_Value_string)

lemma parse_scalar:
  "c \<noteq> CHR 0x22 \<Longrightarrow> c \<noteq> CHR ''['' \<Longrightarrow> c \<noteq> CHR ''{'' \<Longrightarrow> parse hook Value (c # cs) = scan_scalar (c # cs)"
  by (simp add: parse_def scan_Value_scalar)

lemma parse_array: "parse hook Value (CHR ''['' # cs) = (case skip_ws cs of
    d # ds \<Rightarrow> if d = CHR '']'' then Inr (JList [], ds) else parse hook (Elements []) (d # ds)
  | [] \<Rightarrow> Inl JSONDecodeError)"
proof -
  have "scan hook (Suc (Suc (2 * length cs))) (Elements []) (d # ds) = parse hook (Elements []) (d # ds)"
    if "skip_ws cs = d # ds" for d ds
    using skip_ws_length[of cs] that by (intro scan_parse) simp
  then show ?thesis by (auto simp: parse_def[of hook Value] scan_Value_array split: list.split)
qed

lemma parse_object: "parse hook Value (CHR ''{'' # cs) = (case skip_ws cs of
    d # ds \<Rightarrow> if d = CHR ''}'' then rbind (close_object hook []) (\<lambda>v. Inr (v, ds)) else parse hook (Members []) (d # ds)
  | [] \<Rightarrow> Inl JSONDecodeError)"
proof -
  have "scan hook (Suc (Suc (2 * length cs))) (Members []) (d # ds) = parse hook (Members []) (d # ds)"
    if "skip_ws cs = d # ds" for d ds
    using skip_ws_length[of cs] that by (intro scan_parse) simp
  then show ?thesis by (auto simp: parse_def[of hook Value] scan_Value_object split: list.split)
qed

lemma parse_element:
  assumes "parse hook Value s = Inr (v, rest)" "skip_ws rest = d # ds"
  shows "parse hook (Elements vs) s = (if d = CHR '']'' then Inr (JList (rev (v # vs)), ds)
    else if d = CHR '','' then parse hook (Elements (v # vs)) (skip_ws ds) else Inl JSONDecodeError)"
proof -
  have v: "scan hook (Suc (2 * length s)) Value s = Inr (v, rest)"
    using assms(1) by (simp add: parse_def)
  have "length rest < length s" by (rule scan_length[OF v])
  then have l: "fuel_need (Elements (v # vs)) (skip_ws ds) \<le> Suc (2 * length s)"
    using skip_ws_Cons_length[OF assms(2)] skip_ws_length[of ds] by simp
  have "fuel_need (Elements vs) s = Suc (Suc (2 * length s))" by simp
  then show ?thesis
    unfolding parse_def[of hook "Elements vs"] by (simp only: scan_steps(3)[of hook "Suc (2 * length s)" vs s] v rbind_simps assms(2) prod.case list.case scan_parse[OF l])
qed

lemma parse_member:
  assumes "scan_string cs = (Inr (key, r1) :: 'e json_error + (string \<times> string))" "skip_ws r1 = CHR '':'' # ks"
    and "parse (hook :: 'e pairs_hook) Value (skip_ws ks) = Inr (v, rest)" "skip_ws rest = d # ds"
  shows "parse hook (Members ms) (CHR 0x22 # cs) =
    (if d = CHR ''}'' then rbind (close_object hook (rev ((key, v) # ms))) (\<lambda>w. Inr (w, ds))
     else if d = CHR '','' then parse hook (Members ((key, v) # ms)) (skip_ws ds) else Inl JSONDecodeError)"
proof -
  let ?s = "CHR 0x22 # cs"
  have k: "length (skip_ws ks) < length cs"
    using scan_string_length[OF assms(1)] skip_ws_Cons_length[OF assms(2)] skip_ws_length[of ks] by linarith
  have v: "scan hook (2 * length ?s) Value (skip_ws ks) = Inr (v, rest)"
    using scan_parse[of Value "skip_ws ks" "2 * length ?s" hook] k assms(3) by simp
  have l: "fuel_need (Members ((key, v) # ms)) (skip_ws ds) \<le> 2 * length ?s"
    using scan_length[OF v] skip_ws_Cons_length[OF assms(4)] skip_ws_length[of ds] k by simp
  have "fuel_need (Members ms) ?s = Suc (2 * length ?s)" by simp
  then show ?thesis
    unfolding parse_def[of hook "Members ms"]
    by (simp only: scan_steps(4) assms(1,2,4) v rbind_simps prod.case list.case scan_parse[OF l] simp_thms if_True if_False)
qed

section \<open>White space\<close>

definition blank :: "string \<Rightarrow> bool" where
  "blank w \<longleftrightarrow> list_all json_ws w"

lemma skip_ws_blank: "blank w \<Longrightarrow> skip_ws (w @ s) = skip_ws s"
  by (induction w) (auto simp: blank_def skip_ws_def)

lemma skip_ws_id: "s \<noteq> [] \<Longrightarrow> \<not> json_ws (hd s) \<Longrightarrow> skip_ws s = s"
  by (cases s) (auto simp: skip_ws_def)

definition number_end :: "string \<Rightarrow> bool" where
  \<comment> \<open>what may follow a number\<close>
  "number_end s \<longleftrightarrow> (case s of [] \<Rightarrow> True | c # _ \<Rightarrow> \<not> is_digit c \<and> c \<notin> {CHR ''.'', CHR ''e'', CHR ''E''})"

definition blank_layout :: "layout \<Rightarrow> bool" where
  "blank_layout ly \<longleftrightarrow> (\<forall>n. blank (ly_open ly n) \<and> blank (ly_item ly n) \<and> blank (ly_close ly n)) \<and> blank (ly_colon ly)"

section \<open>Strings\<close>

lemma hex_val_char: "k < 16 \<Longrightarrow> hex_val (hex_char k) = Some k"
  by (auto simp: hex_val_def hex_char_def Let_def of_char_of)

lemma char_of_is: "of_char c = (n::nat) \<Longrightarrow> char_of n = c"
  by auto

lemma char_of_quote: "char_of (34::nat) = CHR 0x22" "char_of (92::nat) = CHR 0x5C"
  and char_of_control: "char_of (10::nat) = CHR 0x0A" "char_of (13::nat) = CHR 0x0D" "char_of (9::nat) = CHR 0x09"
    "char_of (8::nat) = CHR 0x08" "char_of (12::nat) = CHR 0x0C"
  by (rule char_of_is, simp)+

lemma hex4_unit:
  assumes "n < 65536"
  shows "hex4 (take 4 (hex_char (n div 4096 mod 16) # hex_char (n div 256 mod 16) # hex_char (n div 16 mod 16) # hex_char (n mod 16) # t)) = Some n"
proof -
  have "n div 16 div 16 = n div 256" "n div 256 div 16 = n div 4096" by (simp_all add: div_mult2_eq[symmetric])
  then have "n div 4096 * 16 + n div 256 mod 16 = n div 256" "n div 256 * 16 + n div 16 mod 16 = n div 16"
    using div_mult_mod_eq[of "n div 16" 16] div_mult_mod_eq[of "n div 256" 16] by simp_all
  then have "((n div 4096 * 16 + n div 256 mod 16) * 16 + n div 16 mod 16) * 16 + n mod 16 = n" by (simp only: div_mult_mod_eq)
  moreover have "n div 4096 mod 16 = n div 4096" "n div 4096 < 16" using assms by simp_all
  ultimately show ?thesis by (simp add: hex4_def hex_val_char)
qed

lemma unicode_escape_unit:
  assumes "n < 65536" "\<not> (55296 \<le> n \<and> n < 57344)"
  shows "scan_string (escape_unit n @ t) = keep_text (utf8_encode [n]) (scan_string t)"
proof -
  let ?h = "hex_char (n div 4096 mod 16) # hex_char (n div 256 mod 16) # hex_char (n div 16 mod 16) # hex_char (n mod 16) # t"
  have "unicode_escape ?h = Point n t" using hex4_unit[OF assms(1), of t] assms(2) by (simp add: unicode_escape_def)
  then show ?thesis by (simp add: escape_unit_def char_of_quote)
qed

lemma unicode_escape_pair:
  assumes "65536 \<le> n" "n < 1114112"
  shows "scan_string (escape_unit (55296 + (n - 65536) div 1024) @ escape_unit (56320 + (n - 65536) mod 1024) @ t)
    = keep_text (utf8_encode [n]) (scan_string t)"
proof -
  define hi lo where "hi = 55296 + (n - 65536) div 1024" and "lo = 56320 + (n - 65536) mod 1024"
  have "(n - 65536) div 1024 < 1024" "(n - 65536) mod 1024 < 1024" using assms by simp_all
  then have b: "55296 \<le> hi" "hi < 56320" "56320 \<le> lo" "lo < 57344" by (auto simp: hi_def lo_def)
  have "(n - 65536) div 1024 * 1024 + (n - 65536) mod 1024 = n - 65536" by (rule div_mult_mod_eq)
  then have n: "65536 + (hi - 55296) * 1024 + (lo - 56320) = n" using assms(1) by (simp add: hi_def lo_def)
  let ?h = "\<lambda>k t. hex_char (k div 4096 mod 16) # hex_char (k div 256 mod 16) # hex_char (k div 16 mod 16) # hex_char (k mod 16) # t"
  have "hex4 (take 4 (?h hi u)) = Some hi" "hex4 (take 4 (?h lo u)) = Some lo" for u
    by (rule hex4_unit, use b in simp)+
  then have "unicode_escape (?h hi (CHR 0x5C # CHR ''u'' # ?h lo t)) = Point n t"
    using b n by (simp add: unicode_escape_def)
  then show ?thesis unfolding hi_def[symmetric] lo_def[symmetric] by (simp add: escape_unit_def char_of_quote)
qed

lemma scan_escape:
  assumes "scalar_value n"
  shows "scan_string (escape_point n @ t) = keep_text (utf8_encode [n]) (scan_string t)"
proof -
  consider "n \<in> {34, 92, 10, 13, 9, 8, 12}" | "32 \<le> n \<and> n \<le> 126" "n \<noteq> 34" "n \<noteq> 92"
    | "n < 65536" "escape_point n = escape_unit n" | "65536 \<le> n"
  proof (cases "n \<in> {34, 92, 10, 13, 9, 8, 12} \<or> (32 \<le> n \<and> n \<le> 126) \<or> 65536 \<le> n")
    case False
    then have "escape_point n = escape_unit n" by (auto simp: escape_point_def)
    then show thesis using that False by simp
  qed (use that in auto)
  then show ?thesis
  proof cases
    case 1
    then show ?thesis
      by (auto simp: escape_point_def char_of_quote char_of_control simple_escape_def utf8_encode_def utf8_bytes_def)
  next
    case 2
    then show ?thesis by (simp add: escape_point_def utf8_encode_def utf8_bytes_def)
  next
    case 3
    moreover have "\<not> (55296 \<le> n \<and> n < 57344)" using assms unfolding scalar_value_def by linarith
    ultimately show ?thesis using unicode_escape_unit by simp
  next
    case 4
    moreover have "n < 1114112" using assms 4 by (simp add: scalar_value_def)
    ultimately show ?thesis using unicode_escape_pair by (simp add: escape_point_def)
  qed
qed

lemma scan_points:
  "list_all scalar_value ns \<Longrightarrow> scan_string (concat (map escape_point ns) @ CHR 0x22 # rest) = Inr (utf8_encode ns, rest)"
  by (induction ns) (simp_all add: scan_escape keep_text_def utf8_encode_def)

lemma scan_dump_string:
  "is_str s \<Longrightarrow> scan_string (concat (map escape_point (str_points s)) @ CHR 0x22 # rest) = Inr (s, rest)"
  using str_points_sound scan_points by fastforce

lemma dump_string_Cons: "dump_string s = CHR 0x22 # concat (map escape_point (str_points s)) @ [CHR 0x22]"
  by (simp add: dump_string_def char_of_quote)

section \<open>Digits\<close>

definition no_digit :: "string \<Rightarrow> bool" where
  "no_digit s \<longleftrightarrow> (case s of [] \<Rightarrow> True | c # _ \<Rightarrow> \<not> is_digit c)"

definition digits :: "string \<Rightarrow> bool" where
  "digits ds \<longleftrightarrow> ds \<noteq> [] \<and> list_all is_digit ds"

definition whole_digits :: "string \<Rightarrow> bool" where
  "whole_digits ds \<longleftrightarrow> digits ds \<and> (ds = ''0'' \<or> hd ds \<noteq> CHR ''0'')"

lemma number_endD: "number_end t \<Longrightarrow> no_digit t"
  by (cases t) (auto simp: number_end_def no_digit_def)

lemma digit_val_char_of: "n < 10 \<Longrightarrow> digit_val (char_of (48 + n)) = Some (int n)"
  by (simp add: digit_val_def Let_def of_char_of)

lemma is_digit_char_of: "n < 10 \<Longrightarrow> is_digit (char_of (48 + n :: nat))"
  by (simp add: is_digit_def digit_val_char_of)

lemma nat_of_digits_snoc: "nat_of_digits (ds @ [c]) = 10 * nat_of_digits ds + (case digit_val c of Some d \<Rightarrow> d | None \<Rightarrow> 0)"
  by (simp add: nat_of_digits_def)

lemma nat_of_digits_append: "nat_of_digits (xs @ ys) = nat_of_digits xs * 10 ^ length ys + nat_of_digits ys"
proof (induction ys rule: rev_induct)
  case (snoc y ys)
  have "nat_of_digits (xs @ ys @ [y]) = nat_of_digits ((xs @ ys) @ [y])" by simp
  then show ?case using snoc by (simp only: nat_of_digits_snoc) (simp add: algebra_simps)
qed (simp add: nat_of_digits_def)

lemma zero_digit: "digit_val CHR ''0'' = Some 0"
  by (simp add: digit_val_def)

lemma nat_of_digits_zeros: "nat_of_digits (replicate z CHR ''0'') = 0"
proof (induction z)
  case (Suc z)
  have "replicate (Suc z) CHR ''0'' = replicate z CHR ''0'' @ [CHR ''0'']" by (simp add: replicate_append_same)
  then show ?case using Suc by (simp only: nat_of_digits_snoc zero_digit) simp
qed (simp add: nat_of_digits_def)

lemma show_nat_digits: "digits (show_nat n) \<and> nat_of_digits (show_nat n) = int n \<and> (0 < n \<longrightarrow> hd (show_nat n) \<noteq> CHR ''0'')"
proof (induction n rule: show_nat.induct)
  case (1 n)
  show ?case
  proof (cases "n < 10")
    case True
    then have s: "show_nat n = [char_of (48 + n)]" by (subst show_nat.simps) simp
    have "char_of (48 + n) \<noteq> CHR ''0''" if "0 < n"
    proof
      assume "char_of (48 + n) = CHR ''0''"
      then have "Some (int n) = Some 0" using digit_val_char_of[OF True] zero_digit by metis
      then show False using that by simp
    qed
    then show ?thesis unfolding s using True
      by (simp add: digits_def is_digit_char_of nat_of_digits_def digit_val_char_of)
  next
    case False
    then have s: "show_nat n = show_nat (n div 10) @ [char_of (48 + n mod 10)]" by (subst show_nat.simps) simp
    have m: "n mod 10 < 10" by simp
    have ih: "digits (show_nat (n div 10))" "nat_of_digits (show_nat (n div 10)) = int (n div 10)"
      "hd (show_nat (n div 10)) \<noteq> CHR ''0''" using 1 False by simp_all
    have "nat_of_digits (show_nat n) = 10 * int (n div 10) + int (n mod 10)"
      unfolding s nat_of_digits_snoc ih(2) digit_val_char_of[OF m] by simp
    also have "\<dots> = int n" by presburger
    finally show ?thesis using ih(1,3) is_digit_char_of[OF m] unfolding s by (simp add: digits_def)
  qed
qed

lemma whole_digits_show: "whole_digits (show_nat n)"
proof (cases "n = 0")
  case True
  have "char_of (48::nat) = CHR ''0''" by (rule char_of_is) simp
  then have "show_nat n = ''0''" using True by (subst show_nat.simps) simp
  then show ?thesis using show_nat_digits[of n] by (simp add: whole_digits_def)
qed (use show_nat_digits[of n] in \<open>simp add: whole_digits_def\<close>)

lemma length_show_nat: "n < 10 ^ Suc k \<Longrightarrow> length (show_nat n) \<le> Suc k"
proof (induction k arbitrary: n)
  case (Suc k)
  show ?case
  proof (cases "n < 10")
    case False
    have "n div 10 < 10 ^ Suc k" using Suc(2) by (simp add: less_mult_imp_div_less mult.commute)
    from Suc(1)[OF this] show ?thesis using False by (subst show_nat.simps) simp
  qed (subst show_nat.simps, simp)
qed (subst show_nat.simps, simp)

section \<open>Numbers\<close>

lemma digits_span:
  assumes "list_all is_digit ds" "no_digit t"
  shows "takeWhile is_digit (ds @ t) = ds" "dropWhile is_digit (ds @ t) = t"
proof -
  have "takeWhile is_digit t = []" "dropWhile is_digit t = t"
    using assms(2) by (cases t; simp add: no_digit_def)+
  then show "takeWhile is_digit (ds @ t) = ds" "dropWhile is_digit (ds @ t) = t"
    using assms(1) by (simp_all add: takeWhile_append2 dropWhile_append2 list_all_iff)
qed

lemma int_part_digits: "whole_digits ds \<Longrightarrow> no_digit t \<Longrightarrow> int_part (ds @ t) = Some (ds, t)"
proof (cases "ds = ''0''")
  case False
  assume a: "whole_digits ds" "no_digit t"
  then obtain c cs where ds: "ds = c # cs" by (cases ds) (auto simp: whole_digits_def digits_def)
  have c: "c \<noteq> CHR ''0''" "is_digit c" using a(1) False by (auto simp: whole_digits_def digits_def ds)
  then show ?thesis using digits_span[of ds t] a by (simp add: int_part_def ds whole_digits_def digits_def)
qed (simp add: int_part_def)

lemma frac_part_digits: "digits ds \<Longrightarrow> no_digit t \<Longrightarrow> frac_part (CHR ''.'' # ds @ t) = (ds, t)"
proof -
  assume a: "digits ds" "no_digit t"
  then obtain c cs where ds: "ds = c # cs" by (cases ds) (auto simp: digits_def)
  then show ?thesis using digits_span[of ds t] a by (simp add: frac_part_def digits_def)
qed

lemma frac_part_none: "(case t of [] \<Rightarrow> True | c # _ \<Rightarrow> c \<noteq> CHR ''.'') \<Longrightarrow> frac_part t = ([], t)"
  by (auto simp: frac_part_def split: list.splits)

lemma exp_part_none: "number_end t \<Longrightarrow> exp_part t = (None, t)"
  by (auto simp: exp_part_def number_end_def split: list.splits)

definition signed :: "bool \<Rightarrow> int \<Rightarrow> int" where
  "signed neg n = (if neg then - n else n)"

lemma exp_part_digits:
  assumes "digits ds" "no_digit t"
  shows "exp_part (CHR ''e'' # (if neg then CHR ''-'' else CHR ''+'') # ds @ t) = (Some (signed neg (nat_of_digits ds)), t)"
  using digits_span[of ds t] assms by (simp add: exp_part_def digits_def signed_def)

lemma whole_digits_Cons: "whole_digits ds \<Longrightarrow> \<exists>c cs. ds = c # cs \<and> is_digit c"
  by (cases ds) (auto simp: whole_digits_def digits_def)

lemma digit_not_special: "is_digit c \<Longrightarrow> c \<notin> set ''-.eENIntf[{''" "is_digit c \<Longrightarrow> c \<noteq> CHR 0x22"
  by (auto simp: is_digit_def digit_val_def)

lemma scan_number_sign:
  fixes neg ds t defines "s \<equiv> if neg then CHR ''-'' # ds @ t else ds @ t"
  assumes "whole_digits ds"
  shows "(case s of [] \<Rightarrow> (False, []) | c # cs \<Rightarrow> if c = CHR ''-'' then (True, cs) else (False, s)) = (neg, ds @ t)"
  using whole_digits_Cons[OF assms(2)] digit_not_special(1) by (cases neg) (auto simp: s_def)

lemma scan_int:
  assumes "number_end t" "length (show_nat (nat \<bar>k\<bar>)) \<le> 4300"
  shows "scan_number (show_int k @ t) = Some (Inr (JInt k, t))"
proof -
  let ?ds = "show_nat (nat \<bar>k\<bar>)"
  have s: "show_int k @ t = (if k < 0 then CHR ''-'' # ?ds @ t else ?ds @ t)" by (simp add: show_int_def)
  have v: "nat_of_digits ?ds = \<bar>k\<bar>" using show_nat_digits[of "nat \<bar>k\<bar>"] by simp
  have f: "frac_part t = ([], t)"
    by (rule frac_part_none) (use assms(1) in \<open>simp add: number_end_def split: list.splits\<close>)
  have i: "int_part (?ds @ t) = Some (?ds, t)" by (rule int_part_digits[OF whole_digits_show number_endD[OF assms(1)]])
  have n: "(if k < 0 then - \<bar>k\<bar> else \<bar>k\<bar>) = k" by simp
  have l: "\<not> 4300 < length ?ds" using assms(2) by simp
  show ?thesis unfolding scan_number_def s scan_number_sign[OF whole_digits_show] prod.case i option.case f
      exp_part_none[OF assms(1)] Let_def v n if_not_P[OF l] by simp
qed

definition float_text :: "string \<Rightarrow> rat \<Rightarrow> bool" where
  \<comment> \<open>digits with a fraction or an exponent or both, and what they denote\<close>
  "float_text s v \<longleftrightarrow> (\<exists>ip fs ex. whole_digits ip \<and> list_all is_digit fs \<and> (fs \<noteq> [] \<or> ex \<noteq> None)
     \<and> (case ex of None \<Rightarrow> True | Some (neg, es) \<Rightarrow> digits es)
     \<and> s = ip @ (if fs = [] then [] else CHR ''.'' # fs)
         @ (case ex of None \<Rightarrow> [] | Some (neg, es) \<Rightarrow> CHR ''e'' # (if neg then CHR ''-'' else CHR ''+'') # es)
     \<and> v = of_int (nat_of_digits (ip @ fs)) * 10 powi
         ((case ex of None \<Rightarrow> 0 | Some (neg, es) \<Rightarrow> signed neg (nat_of_digits es)) - int (length fs)))"

lemma scan_float:
  assumes "float_text s v" "number_end t"
  shows "scan_number ((if neg then CHR ''-'' # s else s) @ t) = Some (Inr (JFloat (to_dbl (if neg then - v else v)), t))"
proof -
  obtain ip fs ex where f: "whole_digits ip" "list_all is_digit fs" "fs \<noteq> [] \<or> ex \<noteq> None"
    "case ex of None \<Rightarrow> True | Some (neg, es) \<Rightarrow> digits es"
    and s: "s = ip @ (if fs = [] then [] else CHR ''.'' # fs)
         @ (case ex of None \<Rightarrow> [] | Some (neg, es) \<Rightarrow> CHR ''e'' # (if neg then CHR ''-'' else CHR ''+'') # es)"
    and v: "v = of_int (nat_of_digits (ip @ fs)) * 10 powi
         ((case ex of None \<Rightarrow> 0 | Some (neg, es) \<Rightarrow> signed neg (nat_of_digits es)) - int (length fs))"
    using assms(1) unfolding float_text_def by (elim exE conjE) (rule that)
  define et where "et = (case ex of None \<Rightarrow> [] | Some (neg, es) \<Rightarrow> CHR ''e'' # (if neg then CHR ''-'' else CHR ''+'') # es)"
  define ft where "ft = (if fs = [] then [] else CHR ''.'' # fs)"
  define x where "x = (case ex of None \<Rightarrow> None | Some (neg, es) \<Rightarrow> Some (signed neg (nat_of_digits es)))"
  have e: "exp_part (et @ t) = (x, t)"
    using f(4) exp_part_none[OF assms(2)] exp_part_digits[OF _ number_endD[OF assms(2)], where neg = True]
      exp_part_digits[OF _ number_endD[OF assms(2)], where neg = False]
    by (auto simp: et_def x_def split: option.splits)
  have nd: "no_digit (et @ t)" "\<And>c cs. et @ t = c # cs \<Longrightarrow> c \<noteq> CHR ''.''"
    using assms(2) by (auto simp: et_def no_digit_def number_end_def is_digit_def digit_val_def split: option.splits list.splits)
  have fr: "frac_part (ft @ et @ t) = (fs, et @ t)"
  proof (cases "fs = []")
    case True
    then show ?thesis using nd(2) by (auto simp: ft_def intro!: frac_part_none split: list.split)
  next
    case False
    then show ?thesis using f(2) nd(1) frac_part_digits[of fs "et @ t"] by (simp add: ft_def digits_def)
  qed
  have nd2: "no_digit (ft @ et @ t)" using nd(1) by (simp add: ft_def no_digit_def is_digit_def digit_val_def)
  have ne: "\<not> (fs = [] \<and> x = None)" using f(3) by (auto simp: x_def split: option.splits)
  have st: "(if neg then CHR ''-'' # s else s) @ t = (if neg then CHR ''-'' # ip @ ft @ et @ t else ip @ ft @ et @ t)"
    by (simp add: s ft_def[symmetric] et_def[symmetric])
  have d: "decimal neg ip fs (case x of None \<Rightarrow> 0 | Some e \<Rightarrow> e) = (if neg then - v else v)"
    by (auto simp: decimal_def v x_def split: option.splits)
  show ?thesis unfolding scan_number_def st scan_number_sign[OF f(1)] prod.case int_part_digits[OF f(1) nd2] option.case
      fr e Let_def if_not_P[OF ne] d ..
qed

section \<open>Floats\<close>

lemma strip_zeros_append: "\<exists>z. s = strip_zeros s @ replicate z CHR ''0''"
proof -
  have "rev s = takeWhile (\<lambda>c. c = CHR ''0'') (rev s) @ dropWhile (\<lambda>c. c = CHR ''0'') (rev s)" by simp
  moreover have "takeWhile (\<lambda>c. c = CHR ''0'') (rev s) = replicate (length (takeWhile (\<lambda>c. c = CHR ''0'') (rev s))) CHR ''0''"
    by (rule replicate_eqI[symmetric, THEN sym]) (auto dest: set_takeWhileD)
  ultimately have "s = strip_zeros s @ rev (replicate (length (takeWhile (\<lambda>c. c = CHR ''0'') (rev s))) CHR ''0'')"
    by (metis rev_append rev_rev_ident strip_zeros_def)
  then show ?thesis by (metis rev_replicate)
qed

lemma stripped_digits:
  assumes "0 < n" "ds = strip_zeros (show_nat n)"
  obtains z where "show_nat n = ds @ replicate z CHR ''0''" "whole_digits ds" "int n = nat_of_digits ds * 10 ^ z"
    "hd ds \<noteq> CHR ''0''" "ds \<noteq> []"
proof -
  obtain z where z: "show_nat n = ds @ replicate z CHR ''0''" using strip_zeros_append assms(2) by blast
  have d: "digits (show_nat n)" "nat_of_digits (show_nat n) = int n" "hd (show_nat n) \<noteq> CHR ''0''"
    using show_nat_digits[of n] assms(1) by simp_all
  have ne: "ds \<noteq> []" using d(1,3) z by (cases z) (auto simp: digits_def)
  then have h: "hd ds \<noteq> CHR ''0''" using d(3) z by simp
  then have "whole_digits ds" using d(1) z ne by (simp add: whole_digits_def digits_def)
  moreover have "int n = nat_of_digits ds * 10 ^ z"
    using d(2) by (simp add: z nat_of_digits_append nat_of_digits_zeros)
  ultimately show thesis using z h ne that by blast
qed

lemma powi_shift: "0 \<le> k \<Longrightarrow> (10 :: rat) ^ nat k * 10 powi q = 10 powi (k + q)"
  by (simp add: power_int_add power_int_nonneg_exp)

lemma float_textI:
  assumes "whole_digits ip" "list_all is_digit fs" "fs \<noteq> []" "s = ip @ CHR ''.'' # fs"
    and "v = of_int (nat_of_digits (ip @ fs)) * 10 powi (- int (length fs))"
  shows "float_text s v"
  unfolding float_text_def assms(4,5)
  by (rule exI[of _ ip], rule exI[of _ fs], rule exI[of _ None]) (simp add: assms(1-3))

lemma whole_zero: "whole_digits ''0''"
  by (simp add: whole_digits_def digits_def is_digit_def zero_digit)

lemma zero_text: "nat_of_digits ''0'' = 0"
  by (simp add: nat_of_digits_def zero_digit)

lemma zeros_digits: "list_all is_digit (replicate z CHR ''0'')"
  by (simp add: list_all_iff is_digit_def zero_digit)

lemma whole_digitsD: "whole_digits ds \<Longrightarrow> list_all is_digit ds"
  by (simp add: whole_digits_def digits_def)

lemma float_text_small:
  assumes ds: "whole_digits ds" "ds \<noteq> []" and q: "decpt \<le> 0"
  shows "float_text (''0.'' @ replicate (nat (- decpt)) CHR ''0'' @ ds) (of_int (nat_of_digits ds) * 10 powi (decpt - int (length ds)))"
proof (rule float_textI[OF whole_zero])
  show "list_all is_digit (replicate (nat (- decpt)) CHR ''0'' @ ds)" using zeros_digits whole_digitsD[OF ds(1)] by simp
  have "nat_of_digits (''0'' @ replicate k CHR ''0'' @ ds) = nat_of_digits ds" for k
    by (simp only: nat_of_digits_append zero_text nat_of_digits_zeros mult_zero_left add_0)
  then show "of_int (nat_of_digits ds) * 10 powi (decpt - int (length ds)) = (of_int (nat_of_digits (''0'' @ replicate (nat (- decpt)) CHR ''0'' @ ds)) :: rat)
      * 10 powi (- int (length (replicate (nat (- decpt)) CHR ''0'' @ ds)))"
    using q by (simp only: length_append length_replicate) (simp add: algebra_simps)
qed (use ds in simp_all)

lemma float_text_whole:
  assumes ds: "whole_digits ds" "hd ds \<noteq> CHR ''0''" and q: "int (length ds) \<le> decpt"
  shows "float_text (ds @ replicate (nat (decpt - int (length ds))) CHR ''0'' @ ''.0'')
    (of_int (nat_of_digits ds) * 10 powi (decpt - int (length ds)))"
proof -
  let ?z = "nat (decpt - int (length ds))"
  have w: "whole_digits (ds @ replicate ?z CHR ''0'')" using ds zeros_digits[of ?z] by (auto simp: whole_digits_def digits_def)
  have p: "(10::rat) powi (decpt - int (length ds)) = 10 ^ ?z" using q by (simp add: power_int_def)
  have "nat_of_digits ((ds @ replicate ?z CHR ''0'') @ ''0'') = nat_of_digits ds * 10 ^ ?z * 10"
    by (simp only: nat_of_digits_append zero_text nat_of_digits_zeros) simp
  then have v: "(of_int (nat_of_digits ((ds @ replicate ?z CHR ''0'') @ ''0'')) :: rat) = of_int (nat_of_digits ds) * 10 ^ ?z * 10"
    by simp
  show ?thesis by (rule float_textI[OF w, of "''0''"]) (simp_all add: p v[simplified] is_digit_def zero_digit power_int_minus)
qed

lemma float_text_point:
  assumes ds: "whole_digits ds" "hd ds \<noteq> CHR ''0''" and q: "0 < decpt" "decpt < int (length ds)"
  shows "float_text (take (nat decpt) ds @ ''.'' @ drop (nat decpt) ds) (of_int (nat_of_digits ds) * 10 powi (decpt - int (length ds)))"
proof -
  have l: "list_all is_digit (take (nat decpt) ds)" "list_all is_digit (drop (nat decpt) ds)"
    using whole_digitsD[OF ds(1)] by (auto simp: list_all_iff dest: in_set_takeD in_set_dropD)
  have "take (nat decpt) ds \<noteq> []" using q by auto
  then have w: "whole_digits (take (nat decpt) ds)" using l(1) ds(2) q by (simp add: whole_digits_def digits_def hd_take)
  have e: "- int (length (drop (nat decpt) ds)) = decpt - int (length ds)" using q by simp
  show ?thesis by (rule float_textI[OF w l(2)]) (use q e in simp_all)
qed

lemma float_text_exp:
  assumes ds: "whole_digits ds" "hd ds \<noteq> CHR ''0''" "ds \<noteq> []" and es: "digits es" "nat_of_digits es = \<bar>ex\<bar>"
  shows "float_text ((if length ds = 1 then ds else take 1 ds @ ''.'' @ drop 1 ds) @ ''e'' @ (if ex < 0 then ''-'' else ''+'') @ es)
    (of_int (nat_of_digits ds) * 10 powi (ex + 1 - int (length ds)))"
proof -
  obtain c cs where c: "ds = c # cs" using ds(3) by (cases ds) auto
  have l: "is_digit c" "list_all is_digit cs" using whole_digitsD[OF ds(1)] by (simp_all add: c)
  have w: "whole_digits [c]" using l ds(2) by (simp add: whole_digits_def digits_def c)
  have e: "signed (ex < 0) (nat_of_digits es) = ex" using es(2) by (simp add: signed_def)
  show ?thesis unfolding float_text_def
    by (rule exI[of _ "[c]"], rule exI[of _ cs], rule exI[of _ "Some (ex < 0, es)"]) (use w l es(1) in \<open>simp add: c e\<close>)
qed

lemma pad_digits:
  assumes "digits w"
  shows "digits (if length w < 2 then ''0'' @ w else w)"
    "nat_of_digits (if length w < 2 then ''0'' @ w else w) = nat_of_digits w"
proof -
  have "nat_of_digits (''0'' @ w) = nat_of_digits w" by (simp only: nat_of_digits_append zero_text mult_zero_left add_0)
  then show "nat_of_digits (if length w < 2 then ''0'' @ w else w) = nat_of_digits w" by simp
qed (use assms in \<open>simp add: digits_def is_digit_def zero_digit\<close>)

lemma repr_pos_text:
  assumes "is_dbl x" "0 < x" "shortest_digits x = (d, e)"
  shows "float_text (repr_pos x) (of_int d * 10 powi e)"
proof -
  define ds where "ds = strip_zeros (show_nat (nat d))"
  have d: "0 < d" by (rule shortest_exact(2)[OF assms])
  then have "0 < nat d" by simp
  then obtain z where z: "show_nat (nat d) = ds @ replicate z CHR ''0''" and w: "whole_digits ds"
    and n: "int (nat d) = nat_of_digits ds * 10 ^ z" and h: "hd ds \<noteq> CHR ''0''" "ds \<noteq> []"
    using stripped_digits[of "nat d" ds] ds_def by blast
  let ?decpt = "int (length (show_nat (nat d))) + e" let ?es = "show_nat (nat \<bar>?decpt - 1\<bar>)"
  have v: "of_int d * 10 powi e = (of_int (nat_of_digits ds) * 10 powi (?decpt - int (length ds)) :: rat)"
  proof -
    have "?decpt - int (length ds) = int z + e" by (simp add: z)
    moreover have "(of_int d :: rat) = of_int (nat_of_digits ds * 10 ^ z)" using n d by simp
    ultimately show ?thesis using powi_shift[of "int z" e] by (simp only:) simp
  qed
  have es: "digits (if length ?es < 2 then ''0'' @ ?es else ?es)"
    "nat_of_digits (if length ?es < 2 then ''0'' @ ?es else ?es) = \<bar>?decpt - 1\<bar>"
    using pad_digits[of ?es] show_nat_digits[of "nat \<bar>?decpt - 1\<bar>"] by simp_all
  have r: "repr_pos x = (if -4 < ?decpt \<and> ?decpt \<le> 16 then
          (if ?decpt \<le> 0 then ''0.'' @ replicate (nat (- ?decpt)) CHR ''0'' @ ds
           else if int (length ds) \<le> ?decpt then ds @ replicate (nat (?decpt - int (length ds))) CHR ''0'' @ ''.0''
           else take (nat ?decpt) ds @ ''.'' @ drop (nat ?decpt) ds)
        else (if length ds = 1 then ds else take 1 ds @ ''.'' @ drop 1 ds) @ ''e'' @ (if ?decpt - 1 < 0 then ''-'' else ''+'')
          @ (if length ?es < 2 then ''0'' @ ?es else ?es))"
    by (simp add: repr_pos_def assms(3) ds_def[symmetric] Let_def)
  show ?thesis unfolding r v
    using float_text_small[OF w h(2), of ?decpt] float_text_whole[OF w h(1), of ?decpt] float_text_point[OF w h(1), of ?decpt]
      float_text_exp[OF w h es] by simp
qed

lemma float_repr_pos:
  assumes "wf_float (PFin x)" "0 < x" "number_end t"
  shows "scan_number ((if neg then CHR ''-'' # repr_pos x else repr_pos x) @ t) = Some (Inr (JFloat (PFin (if neg then - x else x)), t))"
proof -
  obtain d e where s: "shortest_digits x = (d, e)" by (cases "shortest_digits x")
  have x: "is_dbl x" "\<bar>x\<bar> < dbl_max_exp" using assms(1) by simp_all
  have r: "round_dbl (of_int d * 10 powi e) = x" by (rule shortest_exact(1)[OF x(1) assms(2) s])
  have "to_dbl (if neg then - (of_int d * 10 powi e) else of_int d * 10 powi e) = PFin (if neg then - x else x)"
    using r x(2) by (simp add: to_dbl_def Let_def round_dbl_minus)
  then show ?thesis using scan_float[OF repr_pos_text[OF x(1) assms(2) s] assms(3), of neg] by simp
qed

lemma scan_zero:
  assumes "number_end t"
  shows "scan_number (''0.0'' @ t) = Some (Inr (JFloat (PFin 0), t))"
proof -
  have "float_text ''0.0'' 0" by (rule float_textI[OF whole_zero, of "''0''"]) (simp_all add: is_digit_def zero_digit nat_of_digits_def)
  from scan_float[OF this assms, of False] show ?thesis by (simp add: to_dbl_def dbl_max_exp_def)
qed

section \<open>Values\<close>

fun key_sorted :: "json \<Rightarrow> json" where
  \<comment> \<open>the same value with the keys of every object in order\<close>
  "key_sorted (JList xs) = JList (map key_sorted xs)"
| "key_sorted (JObj kvs) = JObj (sort_key fst (map (\<lambda>(k, v). (k, key_sorted v)) kvs))"
| "key_sorted v = v"

fun storable :: "json \<Rightarrow> bool" where
  \<comment> \<open>integers of at most 4300 digits, floats that are doubles, strings that are UTF-8, objects without a
    repeated key\<close>
  "storable (JInt k) = (length (show_nat (nat \<bar>k\<bar>)) \<le> 4300)"
| "storable (JFloat f) = wf_float f"
| "storable (JStr s) = is_str s"
| "storable (JList xs) = list_all storable xs"
| "storable (JObj kvs) = (distinct (map fst kvs) \<and> list_all (\<lambda>(k, v). is_str k \<and> storable v) kvs)"
| "storable _ = True"

definition nonblank :: "string \<Rightarrow> bool" where
  "nonblank s \<longleftrightarrow> s \<noteq> [] \<and> \<not> json_ws (hd s)"

lemma nonblank_append: "nonblank s \<Longrightarrow> nonblank (s @ t)"
  by (simp add: nonblank_def)

lemma skip_to: "blank w \<Longrightarrow> nonblank s \<Longrightarrow> skip_ws (w @ s) = s"
  by (simp add: skip_ws_blank skip_ws_id nonblank_def)

lemma digits_nonblank: "digits ds \<Longrightarrow> nonblank ds"
  by (cases ds) (auto simp: digits_def nonblank_def json_ws_def is_digit_def digit_val_def)

lemma float_text_head: "float_text s v \<Longrightarrow> \<exists>c cs. s = c # cs \<and> is_digit c"
  using whole_digits_Cons by (fastforce simp: float_text_def)

lemma digit_nonblank: "is_digit c \<Longrightarrow> nonblank (c # s)"
  by (auto simp: nonblank_def json_ws_def is_digit_def digit_val_def)

lemma parse_number:
  assumes "scan_number s = Some r" "s = c # cs" "is_digit c \<or> (c = CHR ''-'' \<and> (\<exists>d ds. cs = d # ds \<and> is_digit d))"
  shows "parse hook Value s = r"
proof -
  have c: "c \<notin> {CHR 0x22, CHR ''['', CHR ''{'', CHR ''n'', CHR ''t'', CHR ''f'', CHR ''N'', CHR ''I''}"
    using assms(3) by (auto simp: is_digit_def digit_val_def)
  moreover have "\<not> str_prefix ''-Infinity'' s"
    using assms(2,3) by (auto simp: str_prefix_def is_digit_def digit_val_def)
  ultimately show ?thesis using assms(1,2) by (simp add: parse_scalar scan_scalar_def)
qed

lemma parse_int: "number_end t \<Longrightarrow> storable (JInt k) \<Longrightarrow> parse hook Value (show_int k @ t) = Inr (JInt k, t)"
proof -
  assume a: "number_end t" "storable (JInt k)"
  obtain c cs where c: "show_nat (nat \<bar>k\<bar>) = c # cs" "is_digit c" using whole_digits_Cons[OF whole_digits_show] by blast
  have "show_int k = (if k < 0 then CHR ''-'' # c # cs else c # cs)"
    unfolding c(1)[symmetric] by (simp add: show_int_def)
  then show ?thesis using parse_number[OF scan_int[OF a(1), of k]] a(2) c(2) by (auto split: if_splits)
qed

lemma parse_float_repr:
  assumes "number_end t" "wf_float f"
  shows "parse hook Value (float_repr f @ t) = Inr (JFloat f, t)"
proof (cases f)
  case (PFin x)
  consider "x = 0" | neg y where "x = (if neg then - y else y)" "0 < y" "x \<noteq> 0" "float_repr f = (if neg then CHR ''-'' # repr_pos y else repr_pos y)"
  proof -
    assume a: "x = 0 \<Longrightarrow> thesis" "\<And>neg y. x = (if neg then - y else y) \<Longrightarrow> 0 < y \<Longrightarrow> x \<noteq> 0
      \<Longrightarrow> float_repr f = (if neg then CHR ''-'' # repr_pos y else repr_pos y) \<Longrightarrow> thesis"
    consider "x = 0" | "x < 0" | "0 < x" by linarith
    then show thesis by cases (use a(1) a(2)[of True "- x"] a(2)[of False x] PFin in simp_all)
  qed
  then show ?thesis
  proof cases
    case 1
    have "parse hook Value (''0.0'' @ t) = Inr (JFloat (PFin 0), t)"
      by (rule parse_number[OF scan_zero[OF assms(1)], of "CHR ''0''" "''.0'' @ t"]) (simp_all add: is_digit_def zero_digit)
    then show ?thesis using 1 PFin by simp
  next
    case 2
    have w: "wf_float (PFin y)" using assms(2) PFin 2(1) is_dbl_minus[of x] by (cases neg) auto
    obtain d e where s: "shortest_digits y = (d, e)" by (cases "shortest_digits y")
    obtain c cs where c: "repr_pos y = c # cs" "is_digit c" using float_text_head[OF repr_pos_text[OF _ 2(2) s]] w by auto
    show ?thesis using parse_number[OF float_repr_pos[OF w 2(2) assms(1), of neg]] c 2 PFin by (cases neg) auto
  qed
next
  case (PInf s)
  then show ?thesis by (cases s) (simp_all add: parse_scalar scan_scalar_def expect_def str_prefix_def)
qed (simp add: parse_scalar scan_scalar_def expect_def str_prefix_def)

section \<open>Arrays and objects\<close>

lemma dumps_nonblank: "storable v \<Longrightarrow> nonblank (json_dumps ly n v)"
proof (cases v)
  case (JInt k)
  have "nonblank (show_nat j)" for j using show_nat_digits[of j] digits_nonblank by blast
  then show ?thesis by (simp add: JInt show_int_def nonblank_def json_ws_def)
next
  case (JFloat f)
  have "nonblank (repr_pos x)" if "is_dbl x" "0 < x" for x
  proof -
    obtain d e where "shortest_digits x = (d, e)" by (cases "shortest_digits x")
    from float_text_head[OF repr_pos_text[OF that this]] show ?thesis using digit_nonblank by auto
  qed
  moreover assume "storable v"
  ultimately show ?thesis using JFloat is_dbl_minus by (cases f) (auto simp: nonblank_def json_ws_def)
qed (simp_all add: nonblank_def json_ws_def dump_string_Cons bracketed_def)

lemma number_end_closing:
  assumes "blank w" "c \<in> {CHR '','', CHR '']'', CHR ''}''}"
  shows "number_end (w @ c # t)"
proof (cases w)
  case (Cons d ds)
  then have "json_ws d" using assms(1) by (simp add: blank_def)
  then show ?thesis by (auto simp: Cons number_end_def json_ws_def is_digit_def digit_val_def)
qed (use assms(2) in \<open>auto simp: number_end_def is_digit_def digit_val_def\<close>)

text \<open>What the induction gives for one value: its text is read back up to what follows it.\<close>

definition reads_back :: "'e pairs_hook \<Rightarrow> ('a \<Rightarrow> string) \<Rightarrow> ('a \<Rightarrow> json) \<Rightarrow> 'a \<Rightarrow> bool" where
  "reads_back hook f g x \<longleftrightarrow> nonblank (f x) \<and> (\<forall>t. number_end t \<longrightarrow> parse hook Value (f x @ t) = Inr (g x, t))"

lemma reads_backD: "reads_back hook f g x \<Longrightarrow> number_end t \<Longrightarrow> parse hook Value (f x @ t) = Inr (g x, t)"
  and reads_back_nonblank: "reads_back hook f g x \<Longrightarrow> nonblank (f x @ t)"
  by (simp_all add: reads_back_def nonblank_append)

definition sep_items :: "string \<Rightarrow> ('a \<Rightarrow> string) \<Rightarrow> 'a list \<Rightarrow> string" where
  "sep_items w f ys = concat (map (\<lambda>y. '','' @ w @ f y) ys)"

lemma sep_items_simps: "sep_items w f [] = []" "sep_items w f (y # ys) = CHR '','' # w @ f y @ sep_items w f ys"
  by (simp_all add: sep_items_def)

lemma items_end:
  assumes "blank cl" "c \<in> {CHR '']'', CHR ''}''}"
  shows "number_end (sep_items w f ys @ cl @ c # t)"
  using number_end_closing[OF assms(1)] number_end_closing[of "[]" "CHR '',''"] assms(2)
  by (cases ys) (auto simp: sep_items_simps blank_def)

lemma punctuation: "\<not> json_ws CHR '',''" "\<not> json_ws CHR '']''" "\<not> json_ws CHR ''}''" "\<not> json_ws CHR '':''" "\<not> json_ws CHR 0x22"
  by (simp_all add: json_ws_def)

lemma parse_elements:
  assumes "blank w" "blank cl" "list_all (reads_back hook f g) (x # ys)"
  shows "parse hook (Elements vs) (f x @ sep_items w f ys @ cl @ CHR '']'' # t) = Inr (JList (rev vs @ map g (x # ys)), t)"
  using assms(3)
proof (induction ys arbitrary: x vs)
  case Nil
  have e: "skip_ws (cl @ CHR '']'' # t) = CHR '']'' # t" by (rule skip_to[OF assms(2)]) (simp add: nonblank_def punctuation)
  have "parse hook Value (f x @ cl @ CHR '']'' # t) = Inr (g x, cl @ CHR '']'' # t)"
    by (rule reads_backD[of hook f g x]) (use Nil number_end_closing[OF assms(2)] in simp_all)
  from parse_element[OF this e] show ?case by (simp add: sep_items_simps)
next
  case (Cons y ys)
  let ?rest = "sep_items w f ys @ cl @ CHR '']'' # t"
  have v: "parse hook Value (f x @ sep_items w f (y # ys) @ cl @ CHR '']'' # t) = Inr (g x, sep_items w f (y # ys) @ cl @ CHR '']'' # t)"
    by (rule reads_backD[of hook f g x]) (use Cons.prems in \<open>auto intro: items_end[OF assms(2)]\<close>)
  have c: "skip_ws (sep_items w f (y # ys) @ cl @ CHR '']'' # t) = CHR '','' # w @ f y @ ?rest"
    by (simp add: sep_items_simps skip_ws_def punctuation)
  have s: "skip_ws (w @ f y @ ?rest) = f y @ ?rest"
    by (rule skip_to[OF assms(1)]) (use Cons.prems reads_back_nonblank in auto)
  show ?case using parse_element[OF v c, of vs] Cons.IH[of y "g x # vs"] Cons.prems by (simp add: s)
qed

definition member_text :: "string \<Rightarrow> ('a \<Rightarrow> string) \<Rightarrow> string \<times> 'a \<Rightarrow> string" where
  "member_text col f p = dump_string (fst p) @ '':'' @ col @ f (snd p)"

lemma member_text_Cons: "member_text col f p @ t = CHR 0x22 # concat (map escape_point (str_points (fst p))) @ CHR 0x22 # CHR '':'' # col @ f (snd p) @ t"
  by (simp add: member_text_def dump_string_Cons)

lemma parse_members:
  assumes "blank w" "blank cl" "blank col" "list_all (\<lambda>p. is_str (fst p) \<and> reads_back hook f g (snd p)) (p # ps)"
  shows "parse hook (Members ms) (member_text col f p @ sep_items w (member_text col f) ps @ cl @ CHR ''}'' # t) =
    rbind (close_object hook (rev ms @ map (\<lambda>p. (fst p, g (snd p))) (p # ps))) (\<lambda>v. Inr (v, t))"
  using assms(4)
proof (induction ps arbitrary: p ms)
  case Nil
  let ?t = "cl @ CHR ''}'' # t"
  have e: "skip_ws ?t = CHR ''}'' # t" by (rule skip_to[OF assms(2)]) (simp add: nonblank_def punctuation)
  have v: "parse hook Value (skip_ws (col @ f (snd p) @ ?t)) = Inr (g (snd p), ?t)"
    using Nil reads_backD[of hook f g "snd p" ?t] reads_back_nonblank[of hook f g "snd p"] number_end_closing[OF assms(2)]
    by (simp add: skip_to[OF assms(3)])
  have k: "skip_ws (CHR '':'' # u) = CHR '':'' # u" for u by (simp add: skip_ws_def punctuation)
  show ?case unfolding member_text_Cons sep_items_simps append_Nil
    by (subst parse_member[OF scan_dump_string k v e]) (use Nil in simp_all)
next
  case (Cons q ps)
  let ?rest = "sep_items w (member_text col f) ps @ cl @ CHR ''}'' # t"
  let ?t = "CHR '','' # w @ member_text col f q @ ?rest"
  have e: "skip_ws ?t = ?t" by (simp add: skip_ws_def punctuation)
  have "number_end ?t" using number_end_closing[of "[]" "CHR '',''"] by (simp add: blank_def)
  then have v: "parse hook Value (skip_ws (col @ f (snd p) @ ?t)) = Inr (g (snd p), ?t)"
    using Cons.prems reads_backD[of hook f g "snd p" ?t] reads_back_nonblank[of hook f g "snd p"]
    by (simp add: skip_to[OF assms(3)])
  have k: "skip_ws (CHR '':'' # u) = CHR '':'' # u" for u by (simp add: skip_ws_def punctuation)
  have s: "skip_ws (w @ member_text col f q @ ?rest) = member_text col f q @ ?rest"
    by (rule skip_to[OF assms(1)]) (simp add: member_text_Cons nonblank_def punctuation)
  have "parse hook (Members ms) (member_text col f p @ ?t) = parse hook (Members ((fst p, g (snd p)) # ms)) (member_text col f q @ ?rest)"
    unfolding member_text_Cons[of _ _ p] by (subst parse_member[OF scan_dump_string k v e]) (use Cons.prems s in simp_all)
  then show ?case using Cons.IH[of q "(fst p, g (snd p)) # ms"] Cons.prems by (simp add: sep_items_simps)
qed

section \<open>The round trip\<close>

lemma bracketed_items: "bracketed ly n op cl (map f (y # ys)) =
    op # ly_open ly n @ f y @ sep_items (ly_item ly n) f ys @ ly_close ly n @ [cl]"
proof -
  have "join ('','' @ w) (map f (y # ys)) = f y @ sep_items w f ys" for w
    by (simp add: join_def sep_items_def o_def)
  then show ?thesis by (simp add: bracketed_def del: list.map)
qed

lemma bracketed_empty: "bracketed ly n op cl [] = [op, cl]"
  by (simp add: bracketed_def)

lemma insort_key_map: "insort_key f (g x) (map g xs) = map g (insort_key (\<lambda>y. f (g y)) x xs)"
  by (induction xs) auto

lemma sort_key_map: "sort_key f (map g xs) = map g (sort_key (\<lambda>y. f (g y)) xs)"
  by (induction xs) (simp_all add: insort_key_map)

lemma sort_fst_map: "sort_key fst (map (\<lambda>(k, v). (k, h k v)) kvs) = map (\<lambda>(k, v). (k, h k v)) (sort_key fst kvs)"
  by (simp add: sort_key_map case_prod_beta)

lemma plain_hook_distinct: "distinct (map fst kvs) \<Longrightarrow> plain_hook kvs = Inr (JObj kvs)"
proof -
  have "dict_set k v d = d @ [(k, v)]" if "k \<notin> fst ` set d" for k v and d :: "(string, json) dict"
    using that by (induction d) auto
  then have "fold (\<lambda>(k, v) d. dict_set k v d) ps d = d @ ps" if "distinct (map fst (d @ ps))" for ps d :: "(string, json) dict"
    using that by (induction ps arbitrary: d) (auto simp: image_iff)
  from this[of "[]" kvs] show "distinct (map fst kvs) \<Longrightarrow> plain_hook kvs = Inr (JObj kvs)" by (simp add: plain_hook_def)
qed

lemma dumps_object: "json_dumps ly n (JObj kvs) = bracketed ly n CHR ''{'' CHR ''}''
    (map (member_text (ly_colon ly) (json_dumps ly (Suc n))) (sort_key fst kvs))"
proof -
  have "map snd (sort_key fst (map (\<lambda>(k, v). (k, h k v)) kvs)) = map (\<lambda>(k, v). h k v) (sort_key fst kvs)" for h :: "string \<Rightarrow> json \<Rightarrow> string"
    unfolding sort_fst_map by (simp add: case_prod_beta)
  moreover have "member_text (ly_colon ly) (json_dumps ly (Suc n))
      = (\<lambda>(k, v). dump_string k @ '':'' @ ly_colon ly @ json_dumps ly (Suc n) v)"
    by (simp add: fun_eq_iff member_text_def)
  ultimately show ?thesis by (simp only: json_dumps.simps)
qed

lemma parse_closing: "parse hook Value (CHR '']'' # cs) = Inl JSONDecodeError"
  by (simp add: parse_scalar scan_scalar_def str_prefix_def scan_number_def int_part_def is_digit_def digit_val_def)

lemma parse_list:
  assumes "blank_layout ly" "list_all (reads_back hook f g) xs"
  shows "parse hook Value (bracketed ly n CHR ''['' CHR '']'' (map f xs) @ t) = Inr (JList (map g xs), t)"
proof (cases xs)
  case (Cons y ys)
  have b: "blank (ly_open ly n)" "blank (ly_item ly n)" "blank (ly_close ly n)" using assms(1) by (simp_all add: blank_layout_def)
  have y: "reads_back hook f g y" and ys: "list_all (reads_back hook f g) (y # ys)" using assms(2) Cons by simp_all
  obtain c cs where c: "f y = c # cs" using y by (cases "f y") (auto simp: reads_back_def nonblank_def)
  have "c \<noteq> CHR '']''"
  proof
    assume "c = CHR '']''"
    then have "parse hook Value (f y @ []) = Inl JSONDecodeError" by (simp add: c parse_closing)
    then show False using reads_backD[OF y, of "[]"] by (simp add: number_end_def)
  qed
  moreover have "skip_ws (ly_open ly n @ f y @ u) = f y @ u" for u by (rule skip_to[OF b(1) reads_back_nonblank[OF y]])
  ultimately show ?thesis using parse_elements[OF b(2,3) ys, of "[]" t] unfolding Cons bracketed_items
    by (simp add: parse_array c)
qed (simp add: bracketed_empty parse_array skip_ws_def punctuation)

lemma parse_dict:
  assumes "blank_layout ly" "list_all (\<lambda>p. is_str (fst p) \<and> reads_back hook f g (snd p)) ps"
  shows "parse hook Value (bracketed ly n CHR ''{'' CHR ''}'' (map (member_text (ly_colon ly) f) ps) @ t) =
    rbind (close_object hook (map (\<lambda>p. (fst p, g (snd p))) ps)) (\<lambda>v. Inr (v, t))"
proof (cases ps)
  case (Cons p qs)
  have b: "blank (ly_open ly n)" "blank (ly_item ly n)" "blank (ly_close ly n)" "blank (ly_colon ly)"
    using assms(1) by (simp_all add: blank_layout_def)
  have "nonblank (member_text (ly_colon ly) f p @ u)" for u by (simp add: member_text_Cons nonblank_def punctuation)
  then have "skip_ws (ly_open ly n @ member_text (ly_colon ly) f p @ u) = member_text (ly_colon ly) f p @ u" for u
    by (rule skip_to[OF b(1)])
  then show ?thesis using parse_members[OF b(2-4), of hook f g p qs "[]" t] assms(2) unfolding Cons bracketed_items
    by (simp add: parse_object member_text_Cons)
qed (simp add: bracketed_empty parse_object skip_ws_def punctuation)

definition honest_hook :: "'e pairs_hook \<Rightarrow> bool" where
  \<comment> \<open>keeps the pairs of an object without a repeated key\<close>
  "honest_hook hook \<longleftrightarrow> (\<forall>kvs. distinct (map fst kvs) \<longrightarrow> hook kvs = Inr (JObj kvs))"

lemma plain_hook_honest: "honest_hook plain_hook"
  by (simp add: honest_hook_def plain_hook_distinct)

lemma parse_dumps:
  assumes "blank_layout ly" "honest_hook hook"
  shows "storable v \<Longrightarrow> reads_back hook (json_dumps ly n) key_sorted v"
proof (induction v arbitrary: n)
  case (JList xs)
  then have "list_all (reads_back hook (json_dumps ly (Suc n)) key_sorted) xs" by (simp add: list_all_iff)
  from parse_list[OF assms(1) this] show ?case using dumps_nonblank[OF JList.prems, of ly n] by (simp add: reads_back_def)
next
  case (JObj kvs)
  let ?ps = "sort_key fst kvs"
  have "is_str (fst p) \<and> reads_back hook (json_dumps ly (Suc n)) key_sorted (snd p)" if "p \<in> set kvs" for p
    using JObj.IH[OF that, of "snd p"] JObj.prems that by (cases p) (auto simp: list_all_iff)
  then have "list_all (\<lambda>p. is_str (fst p) \<and> reads_back hook (json_dumps ly (Suc n)) key_sorted (snd p)) ?ps" by (simp add: list_all_iff)
  note p = parse_dict[OF assms(1) this]
  have "distinct (map fst ?ps)" using JObj.prems by (simp add: distinct_map inj_on_def)
  then have d: "distinct (map fst (map (\<lambda>p. (fst p, key_sorted (snd p))) ?ps))" by (simp add: o_def)
  have "JObj (map (\<lambda>p. (fst p, key_sorted (snd p))) ?ps) = key_sorted (JObj kvs)"
    unfolding key_sorted.simps sort_fst_map by (simp add: case_prod_beta)
  then have "parse hook Value (json_dumps ly n (JObj kvs) @ t) = Inr (key_sorted (JObj kvs), t)" for t
    unfolding dumps_object using p[of n t] d assms(2)
    by (simp add: honest_hook_def close_object_def del: json_dumps.simps key_sorted.simps)
  then show ?case using dumps_nonblank[OF JObj.prems] by (simp add: reads_back_def)
next
  case (JFloat f)
  then show ?case using parse_float_repr[of _ f hook] dumps_nonblank[of "JFloat f"] by (simp add: reads_back_def)
next
  case (JInt k)
  then show ?case using parse_int[of _ k hook] dumps_nonblank[of "JInt k"] by (simp add: reads_back_def)
next
  case (JStr s)
  then show ?case using dumps_nonblank[of "JStr s"] by (simp add: reads_back_def dump_string_Cons parse_string scan_dump_string)
next
  case (JBool b)
  then show ?case by (cases b) (simp_all add: reads_back_def nonblank_def json_ws_def parse_scalar scan_scalar_def expect_def str_prefix_def)
qed (simp add: reads_back_def nonblank_def json_ws_def parse_scalar scan_scalar_def expect_def str_prefix_def)

lemma loads_dumps_hook:
  assumes "honest_hook hook" "blank_layout ly" "storable v" "blank w"
  shows "json_loads_hook hook (json_dumps ly n v @ w) = Inr (key_sorted v)"
proof -
  let ?s = "json_dumps ly n v @ w"
  have r: "reads_back hook (json_dumps ly n) key_sorted v" by (rule parse_dumps[OF assms(2,1,3)])
  have "number_end w" using assms(4) number_end_closing[of "[]" "CHR '',''"]
    by (cases w) (auto simp: number_end_def blank_def json_ws_def is_digit_def digit_val_def)
  then have "parse hook Value ?s = Inr (key_sorted v, w)" by (rule reads_backD[OF r])
  moreover have "skip_ws ?s = ?s" using skip_to[of "[]" ?s] reads_back_nonblank[OF r] by (simp add: blank_def)
  moreover have "skip_ws w = []" using assms(4) by (simp add: skip_ws_def blank_def list_all_iff)
  ultimately show ?thesis
    using scan_parse[of Value ?s "2 * length ?s + 2" hook] by (simp add: json_loads_hook_def)
qed

lemma loads_dumps:
  assumes "blank_layout ly" "storable v" "blank w"
  shows "json_loads (json_dumps ly n v @ w) = Inr (key_sorted v)"
  unfolding json_loads_def by (rule loads_dumps_hook[OF plain_hook_honest assms])

lemma layouts_blank: "blank_layout compact_layout" "blank_layout spaced" "blank_layout indented"
  by (auto simp: blank_layout_def compact_layout_def spaced_def indented_def newline_indent_def blank_def json_ws_def list_all_iff)

lemma sort_key_again: "sort_key f (sort_key f xs) = sort_key f xs"
  by (simp add: sort_key_id)

lemma dumps_key_sorted: "json_dumps ly n (key_sorted v) = json_dumps ly n v"
proof (induction v arbitrary: n)
  case (JList xs)
  have "map (\<lambda>x. json_dumps ly (Suc n) (key_sorted x)) xs = map (json_dumps ly (Suc n)) xs" using JList by simp
  then show ?case by (simp only: key_sorted.simps json_dumps.simps map_map o_def)
next
  case (JObj kvs)
  let ?t = "member_text (ly_colon ly) (json_dumps ly (Suc n))"
  have m: "?t (k, key_sorted v) = ?t (k, v)" if "(k, v) \<in> set kvs" for k v
    using JObj[OF that, of v] by (simp add: member_text_def)
  have "key_sorted (JObj kvs) = JObj (map (\<lambda>(k, v). (k, key_sorted v)) (sort_key fst kvs))"
    by (simp only: key_sorted.simps sort_fst_map)
  moreover have "sort_key fst (map (\<lambda>(k, v). (k, key_sorted v)) (sort_key fst kvs)) = map (\<lambda>(k, v). (k, key_sorted v)) (sort_key fst kvs)"
    unfolding sort_fst_map sort_key_again ..
  moreover have "map (?t \<circ> (\<lambda>(k, v). (k, key_sorted v))) (sort_key fst kvs) = map ?t (sort_key fst kvs)"
    using m by (intro map_cong) auto
  ultimately show ?case unfolding dumps_object by (simp only: dumps_object map_map)
qed simp_all

text \<open>
  C35. Writing and reading back: for every value whose integers have at most 4300 digits, whose floats
  are doubles, whose strings have a UTF-8 form and whose objects have no repeated key, \<open>json.loads\<close> of \<open>json.dumps(v, sort_keys=True)\<close>,
  with the compact separators, the default ones or an indent of two, and with a newline after it or
  not, is the value with its keys in order; the canonical text is that of the compact layout.
\<close>

theorem json_round_trip:
  assumes "storable v" "ly \<in> {compact_layout, spaced, indented}" "w \<in> {[], [CHR 0x0A]}"
  shows "json_loads (json_dumps ly n v @ w) = Inr (key_sorted v)
    \<and> json_loads (canonical_json_dumps v) = Inr (key_sorted v)"
  using assms layouts_blank loads_dumps[OF _ assms(1), of ly w n] loads_dumps[OF layouts_blank(1) assms(1), of "[]" 0]
  by (auto simp: blank_def json_ws_def canonical_is_compact[of v 0])

theorem json_round_trip_witness:
  "json_loads (json_dumps spaced 0 (JObj [(''b'', JList [JInt (-3), JFloat (PFin (3/2))]), (''a'', JNull)]) @ [CHR 0x0A])
    = Inr (JObj [(''a'', JNull), (''b'', JList [JInt (-3), JFloat (PFin (3/2))])])"
proof -
  let ?v = "JObj [(''b'', JList [JInt (-3), JFloat (PFin (3/2))]), (''a'', JNull)]"
  have "is_dbl (3 / 2)" by (rule is_dblI[of 3 "-1"]) simp_all
  moreover have "show_nat 3 = [char_of (51::nat)]" by (subst show_nat.simps) simp
  ultimately have s: "storable ?v" by (simp add: dbl_max_exp_def)
  have "key_sorted ?v = JObj [(''a'', JNull), (''b'', JList [JInt (-3), JFloat (PFin (3/2))])]"
    by (simp add: Cons_less_Cons less_char_def)
  then show ?thesis using json_round_trip[OF s, of spaced "[CHR 0x0A]" 0] by (simp del: json_dumps.simps key_sorted.simps)
qed

text \<open>
  C36. The canonical text identifies a value: two such values have the same canonical text exactly when
  they differ in the order of keys only. So the digests the program takes of canonical texts (commit
  ids, snapshots, config hashes) separate any two different values up to a collision of SHA-256.
\<close>

theorem canonical_text_injective:
  assumes "storable v" "storable w"
  shows "canonical_json_dumps v = canonical_json_dumps w \<longleftrightarrow> key_sorted v = key_sorted w"
proof
  assume "canonical_json_dumps v = canonical_json_dumps w"
  then show "key_sorted v = key_sorted w"
    using loads_dumps[OF layouts_blank(1) assms(1), of "[]" 0] loads_dumps[OF layouts_blank(1) assms(2), of "[]" 0]
    by (simp add: blank_def canonical_is_compact[of _ 0])
next
  assume "key_sorted v = key_sorted w"
  then show "canonical_json_dumps v = canonical_json_dumps w"
    using dumps_key_sorted[of compact_layout 0 v] dumps_key_sorted[of compact_layout 0 w] by (simp add: canonical_is_compact[of _ 0])
qed

theorem canonical_text_injective_witness:
  "canonical_json_dumps (JObj [(''b'', JInt 1), (''a'', JNull)]) \<noteq> canonical_json_dumps (JObj [(''b'', JBool True), (''a'', JNull)])
   \<and> canonical_json_dumps (JObj [(''b'', JInt 1), (''a'', JNull)]) = canonical_json_dumps (JObj [(''a'', JNull), (''b'', JInt 1)])"
proof -
  have "show_nat 1 = [char_of (49::nat)]" by (subst show_nat.simps) simp
  then have s: "storable (JObj [(''b'', JInt 1), (''a'', JNull)])" "storable (JObj [(''b'', JBool True), (''a'', JNull)])"
    "storable (JObj [(''a'', JNull), (''b'', JInt 1)])" by simp_all
  show ?thesis using canonical_text_injective[OF s(1,2)] canonical_text_injective[OF s(1,3)]
    by (simp add: Cons_less_Cons less_char_def del: canonical_json_dumps.simps)
qed

end
