(* ===== verification/JsonText.thy ===== *)
theory JsonText
  imports JsonRoundtrip
begin

text \<open>
  The characters of rendered values, and what files made of them decode to: rendered text is ASCII, in
  the default layout it has no line break, so a file of such lines is read back line by line.
\<close>

section \<open>Printable text\<close>

definition printable :: "string \<Rightarrow> bool" where
  "printable s \<longleftrightarrow> list_all (\<lambda>c. 32 \<le> (of_char c :: nat) \<and> of_char c \<le> (126 :: nat)) s"

lemma printable_append [simp]: "printable (s @ t) \<longleftrightarrow> printable s \<and> printable t"
  by (simp add: printable_def)

lemma printable_subset: "printable s \<Longrightarrow> set t \<subseteq> set s \<Longrightarrow> printable t"
  by (auto simp: printable_def list_all_iff)

lemma printable_concat: "(\<And>s. s \<in> set ss \<Longrightarrow> printable s) \<Longrightarrow> printable (concat ss)"
  by (fastforce simp: printable_def list_all_iff)

lemma digits_printable: "list_all is_digit ds \<Longrightarrow> printable ds"
  by (auto simp: printable_def list_all_iff is_digit_def digit_val_def Let_def split: if_splits)

lemma show_nat_printable: "printable (show_nat n)"
  using show_nat_digits[of n] digits_printable by (simp add: digits_def)

lemma show_int_printable: "printable (show_int k)"
  using show_nat_printable by (simp add: show_int_def) (simp add: printable_def)

lemma set_strip_zeros: "set (strip_zeros s) \<subseteq> set s"
  by (auto simp: strip_zeros_def dest: set_dropWhileD)

lemma repr_pos_printable: "printable (repr_pos x)"
proof -
  have z: "printable (strip_zeros (show_nat n))" for n by (rule printable_subset[OF show_nat_printable set_strip_zeros])
  have r: "printable (replicate k CHR ''0'')" for k by (simp add: printable_def list_all_iff)
  have t: "printable (take k s)" "printable (drop k s)" if "printable s" for k s
    using that by (auto intro: printable_subset dest: in_set_takeD in_set_dropD)
  have c: "printable ''0.''" "printable ''.0''" "printable ''.''" "printable ''e''" "printable ''-''" "printable ''+''" "printable ''0''"
    by (simp_all add: printable_def)
  obtain d e where s: "shortest_digits x = (d, e)" by (cases "shortest_digits x")
  show ?thesis unfolding repr_pos_def s Let_def prod.case
    by (simp only: printable_append z r t c show_nat_printable if_bool_eq_conj simp_thms split: if_split)
qed

lemma float_repr_printable: "printable (float_repr f)"
  using repr_pos_printable by (cases f) (simp_all add: printable_def)

lemma hex_char_printable: "k < 16 \<Longrightarrow> printable [hex_char k]"
  by (auto simp: printable_def hex_char_def of_char_of)

lemma escape_unit_printable: "printable (escape_unit n)"
  using hex_char_printable[of "n div 4096 mod 16"] hex_char_printable[of "n div 256 mod 16"] hex_char_printable[of "n div 16 mod 16"]
    hex_char_printable[of "n mod 16"] by (simp add: escape_unit_def printable_def char_of_quote)

lemma escape_printable: "printable (escape_point n)"
  using escape_unit_printable by (auto simp: escape_point_def printable_def char_of_quote of_char_of)

lemma dump_string_printable: "printable (dump_string s)"
proof -
  have "printable (concat (map escape_point (str_points s)))" by (rule printable_concat) (auto simp: escape_printable)
  then show ?thesis by (simp add: dump_string_Cons printable_def)
qed

lemma printable_ascii: "printable s \<Longrightarrow> ascii s"
  by (fastforce simp: printable_def ascii_def list_all_iff)

text \<open>Every character of a rendered value is printable or belongs to the layout.\<close>

definition layout_chars :: "(char \<Rightarrow> bool) \<Rightarrow> layout \<Rightarrow> bool" where
  "layout_chars ok ly \<longleftrightarrow> (\<forall>n. list_all ok (ly_open ly n) \<and> list_all ok (ly_item ly n) \<and> list_all ok (ly_close ly n))
     \<and> list_all ok (ly_colon ly) \<and> (\<forall>c. 32 \<le> (of_char c :: nat) \<and> of_char c \<le> (126 :: nat) \<longrightarrow> ok c)"

lemma layout_chars_printable: "layout_chars ok ly \<Longrightarrow> printable s \<Longrightarrow> list_all ok s"
  by (auto simp: layout_chars_def printable_def list_all_iff)

lemma list_all_concat: "(\<And>s. s \<in> set ss \<Longrightarrow> list_all ok s) \<Longrightarrow> list_all ok (concat ss)"
  by (auto simp: list_all_iff)

lemma bracketed_chars:
  assumes "layout_chars ok ly" "\<And>i. i \<in> set items \<Longrightarrow> list_all ok i" "printable [op, cl]"
  shows "list_all ok (bracketed ly n op cl items)"
proof -
  have c: "ok op" "ok cl" "ok CHR '',''"
    using assms(1,3) by (simp_all add: layout_chars_def printable_def)
  then have "list_all ok (join ('','' @ ly_item ly n) items)"
    using assms(1,2) by (auto simp: join_def layout_chars_def split: list.split intro!: list_all_concat)
  then show ?thesis using assms(1) c by (auto simp: bracketed_def layout_chars_def)
qed

lemma dumps_chars: "layout_chars ok ly \<Longrightarrow> list_all ok (json_dumps ly n v)"
proof (induction v arbitrary: n)
  case (JList xs)
  show ?case unfolding json_dumps.simps
    by (rule bracketed_chars) (use JList in \<open>auto simp: printable_def\<close>)
next
  case (JObj kvs)
  have "list_all ok (member_text (ly_colon ly) (json_dumps ly (Suc n)) p)" if "p \<in> set kvs" for p
    using JObj(1)[of p "snd p"] JObj(2) that layout_chars_printable[OF JObj(2) dump_string_printable]
    by (cases p) (auto simp: member_text_def layout_chars_def)
  then show ?case unfolding dumps_object
    by (intro bracketed_chars[OF JObj(2)]) (auto simp: printable_def)
next
  case JNull
  then show ?case by (simp add: layout_chars_def)
next
  case (JBool b)
  then show ?case by (simp add: layout_chars_def)
qed (simp_all add: layout_chars_printable show_int_printable float_repr_printable dump_string_printable)

section \<open>Decoding and lines\<close>

lemma utf8_append: "utf8_points a = Some p \<Longrightarrow> utf8_points (a @ b) = map_option ((@) p) (utf8_points b)"
proof (induction a arbitrary: p rule: utf8_points.induct)
  case 1
  then show ?case by (simp add: option.map_id0[unfolded id_def])
next
  case (2 a bs)
  have step: "map_option ((#) x) (utf8_points (cs @ b)) = map_option ((@) p) (utf8_points b)"
    if "map_option ((#) x) (utf8_points cs) = Some p"
      and "\<And>q. utf8_points cs = Some q \<Longrightarrow> utf8_points (cs @ b) = map_option ((@) q) (utf8_points b)" for x cs
    using that by (cases "utf8_points b") auto
  consider "a < 128" | "194 \<le> a" "a < 224" | "224 \<le> a" "a < 240" | "240 \<le> a" "a < 245"
    using 2(5) by (simp split: if_splits)
  then show ?case
  proof cases
    case 1
    then show ?thesis using 2(1,5) step[of a bs] by simp
  next
    case b: 2
    then obtain c cs where bs: "bs = c # cs" "continuation c" using 2(5) by (simp split: list.splits if_splits)
    then show ?thesis using b 2(2)[OF _ _ bs] 2(5) step[of _ cs] by simp
  next
    case b: 3
    then obtain c d cs where bs: "bs = c # d # cs" using 2(5) by (simp split: list.splits)
    show ?thesis using b 2(3)[OF _ _ _ bs] 2(5) step[of _ cs]
      by (simp add: bs Let_def split: if_splits) blast
  next
    case b: 4
    then obtain c d e cs where bs: "bs = c # d # e # cs" using 2(5) by (simp split: list.splits)
    show ?thesis using b 2(4)[OF _ _ _ _ bs] 2(5) step[of _ cs] by (simp add: bs Let_def split: if_splits)
  qed
qed

definition newline_ended :: "string \<Rightarrow> bool" where
  "newline_ended s \<longleftrightarrow> s = [] \<or> last s = CHR 0x0A"

lemma text_lines_append: "newline_ended s \<Longrightarrow> text_lines (s @ t) = text_lines s @ text_lines t"
proof (induction s rule: text_lines.induct)
  case (1 s)
  show ?case
  proof (cases "s = []")
    case False
    define nl where "nl = (\<lambda>c. c = CHR 0x0A \<or> c = CHR 0x0D)"
    define rest where "rest = dropWhile (\<lambda>c. \<not> nl c) s"
    have l: "last s = CHR 0x0A" "CHR 0x0A \<in> set s" using 1(2) False by (auto simp: newline_ended_def) (metis last_in_set)
    then have d: "dropWhile (\<lambda>c. \<not> nl c) (s @ t) = rest @ t" "takeWhile (\<lambda>c. \<not> nl c) (s @ t) = takeWhile (\<lambda>c. \<not> nl c) s"
      unfolding rest_def by (auto simp: nl_def intro!: dropWhile_append1 takeWhile_append1)
    have ne: "rest \<noteq> []" using l(2) by (auto simp: rest_def nl_def dropWhile_eq_Nil_conv)
    then have lr: "last rest = CHR 0x0A" using l(1) False by (metis last_appendR rest_def takeWhile_dropWhile_id)
    define after where "after = (\<lambda>r :: string. if take 2 r = [CHR 0x0D, CHR 0x0A] then drop 2 r else drop 1 r)"
    have n: "after (rest @ t) = after rest @ t \<and> newline_ended (after rest)"
    proof (cases rest)
      case (Cons c cs)
      show ?thesis using lr ne by (cases cs) (auto simp: Cons after_def newline_ended_def split: if_splits)
    qed (use ne in simp)
    have "text_lines (after rest @ t) = text_lines (after rest) @ text_lines t"
      using 1(1)[OF False nl_def _ rest_def] n by (simp add: after_def)
    then show ?thesis using False n
      by (simp only: text_lines.simps[of s] text_lines.simps[of "s @ t"] append_is_Nil_conv if_False Let_def
        d[unfolded nl_def] rest_def[unfolded nl_def, symmetric] after_def[symmetric] fun_cong[OF after_def, symmetric] append_Cons simp_thms)
  qed (simp add: text_lines.simps)
qed

lemma utf8_decode_append: "utf8_decode bytes = Text s \<Longrightarrow> ascii t \<Longrightarrow> utf8_decode (bytes @ t) = Text (s @ t)"
  by (auto simp: utf8_decode_def is_str_def ascii_points utf8_append split: if_splits)

lemma utf8_decode_ascii: "ascii t \<Longrightarrow> utf8_decode t = Text t"
  by (simp add: utf8_decode_def)

section \<open>Objects with their keys in order\<close>

definition sorted_row :: "(string, json) dict \<Rightarrow> (string, json) dict" where
  "sorted_row r = sort_key fst (map (\<lambda>(k, v). (k, key_sorted v)) r)"

lemma map_of_sort_key: "distinct (map fst kvs) \<Longrightarrow> map_of (sort_key fst kvs) = map_of kvs"
  by (intro map_of_inject_set[THEN iffD2]) (simp_all add: distinct_map)

lemma sorted_row_get:
  assumes "storable (JObj r)"
  shows "dict_get (sorted_row r) f = map_option key_sorted (dict_get r f)"
proof -
  have d: "distinct (map fst (map (\<lambda>(k, v). (k, key_sorted v)) r))" using assms by (simp add: o_def case_prod_beta)
  show ?thesis unfolding sorted_row_def map_of_sort_key[OF d] by (simp add: map_of_map)
qed

end
