(* ===== verification/PaperConfig.thy ===== *)
theory PaperConfig
  imports LedgerIO JsonText Freshness PaperEngine PySha256
begin

text \<open>
  \<open>quantbot/paper/config.py\<close>: the write-once configuration, its hash and the contract a stored
  configuration must meet. All refusals are the one exception \<open>ConfigContractError\<close>; an exception of
  another type that escapes the validation is \<open>Escaped\<close>.
\<close>

section \<open>Constants\<close>

definition FILL_MODEL :: string where "FILL_MODEL = ''next_bar_open_pessimistic''"
definition SIGNAL_SOURCE :: string where "SIGNAL_SOURCE = ''observation_log.json:per_bar_obs''"
definition REQUIRED_CONFIG_FIELDS :: "string list" where
  "REQUIRED_CONFIG_FIELDS = [''schema_version'', ''engine_version'', ''baseline_label'', ''forward_start_ts'',
     ''initial_equity_usd'', ''notional_usd'', ''leverage'', ''fee_model'', ''slippage_model'', ''fill_model'',
     ''funding_model'', ''signal_source'', ''freshness'', ''config_hash'']"
definition REQUIRED_FRESHNESS_FIELDS :: "string list" where
  "REQUIRED_FRESHNESS_FIELDS = [''bar_interval_hours'', ''max_bar_staleness_hours'', ''heartbeat_max_age_hours'']"
definition EXPECTED_FEE_MODEL_TYPE :: string where "EXPECTED_FEE_MODEL_TYPE = ''flat_taker''"
definition EXPECTED_SLIPPAGE_MODEL_TYPE :: string where "EXPECTED_SLIPPAGE_MODEL_TYPE = ''fixed''"
definition EXPECTED_FUNDING_MODEL :: json where
  "EXPECTED_FUNDING_MODEL = JObj [(''type'', JStr ''accrual''), (''applied_as'', JStr ''cash_flow'')]"

datatype config_fault = ConfigContractError | Escaped py_error

section \<open>The contract\<close>

definition is_positive_number :: "json \<Rightarrow> bool result" where
  "is_positive_number v = (case v of JInt n \<Rightarrow> if fl_of_int n = None then Inl OverflowError else Inr (0 < n)
     | JFloat x \<Rightarrow> Inr (is_finite x \<and> fl_lt (PFin 0) x) | _ \<Rightarrow> Inr False)"

definition is_nonneg_number :: "json \<Rightarrow> bool result" where
  "is_nonneg_number v = (case v of JInt n \<Rightarrow> if fl_of_int n = None then Inl OverflowError else Inr (0 \<le> n)
     | JFloat x \<Rightarrow> Inr (is_finite x \<and> fl_le (PFin 0) x) | _ \<Rightarrow> Inr False)"

definition config_hash_of :: "row \<Rightarrow> string" where
  "config_hash_of config = sha256_hex (canonical_json_dumps (JObj (filter (\<lambda>(k, v). k \<noteq> ''config_hash'') config)))"

definition is_obj :: "json \<Rightarrow> bool" where
  "is_obj v \<longleftrightarrow> (case v of JObj _ \<Rightarrow> True | _ \<Rightarrow> False)"

definition obj_fields :: "json \<Rightarrow> row" where
  \<comment> \<open>the fields of a value already known to be an object\<close>
  "obj_fields v = (case v of JObj d \<Rightarrow> d | _ \<Rightarrow> [])"

definition exactly_eight :: "json \<Rightarrow> bool" where
  "exactly_eight v \<longleftrightarrow> (case v of JInt n \<Rightarrow> n = 8 | JFloat x \<Rightarrow> fl_eq x (PFin 8) | _ \<Rightarrow> False)"

definition start_on_grid :: "json \<Rightarrow> json \<Rightarrow> bool result" where
  "start_on_grid interval start = (case parse_bar start of Inl _ \<Rightarrow> Inr False
     | Inr dt \<Rightarrow> rbind (py_int interval) (\<lambda>h. Inr (on_grid dt h)))"

definition contract_checks :: "row \<Rightarrow> bool result list" where
  "contract_checks config = (let v = get config; fr = obj_fields (v ''freshness'');
     fee = obj_fields (v ''fee_model''); slip = obj_fields (v ''slippage_model'') in
     [Inr (list_all (has_field config) REQUIRED_CONFIG_FIELDS),
      Inr (v ''schema_version'' = JInt SCHEMA_VERSION),
      Inr (py_eq (v ''engine_version'') (JStr PAPER_ENGINE_VERSION)),
      Inr (py_eq (v ''baseline_label'') (JStr BASELINE_LABEL)),
      Inr (is_obj (v ''freshness'')),
      Inr (list_all (has_field fr) REQUIRED_FRESHNESS_FIELDS)]
     @ map (\<lambda>f. is_positive_number (get fr f)) REQUIRED_FRESHNESS_FIELDS
     @ [Inr (exactly_eight (get fr ''bar_interval_hours'')),
        if has_field fr ''max_future_skew_hours'' then is_nonneg_number (get fr ''max_future_skew_hours'') else Inr True]
     @ map (\<lambda>f. is_positive_number (v f)) [''initial_equity_usd'', ''notional_usd'', ''leverage'']
     @ [Inr (is_obj (v ''fee_model'') \<and> py_eq (get fee ''type'') (JStr EXPECTED_FEE_MODEL_TYPE)),
        is_nonneg_number (get fee ''fee_bps''),
        Inr (is_obj (v ''slippage_model'') \<and> py_eq (get slip ''type'') (JStr EXPECTED_SLIPPAGE_MODEL_TYPE)),
        is_nonneg_number (get slip ''slippage_bps''),
        Inr (py_eq (v ''fill_model'') (JStr FILL_MODEL)),
        Inr (py_eq (v ''signal_source'') (JStr SIGNAL_SOURCE)),
        Inr (py_eq (v ''funding_model'') EXPECTED_FUNDING_MODEL),
        Inr (case v ''forward_start_ts'' of JStr _ \<Rightarrow> True | _ \<Rightarrow> False),
        start_on_grid (get fr ''bar_interval_hours'') (v ''forward_start_ts'')])"

fun all_hold :: "bool result list \<Rightarrow> config_fault + unit" where
  \<comment> \<open>the first check that raises or is false decides\<close>
  "all_hold [] = Inr ()"
| "all_hold (c # cs) = (case c of Inl e \<Rightarrow> Inl (Escaped e) | Inr b \<Rightarrow> if b then all_hold cs else Inl ConfigContractError)"

definition validate_config_contract :: "json \<Rightarrow> config_fault + unit" where
  "validate_config_contract v = (case v of JObj config \<Rightarrow> all_hold (contract_checks config) | _ \<Rightarrow> Inl ConfigContractError)"

section \<open>Building, loading, writing\<close>

definition build_config :: "string \<Rightarrow> json \<Rightarrow> json \<Rightarrow> json \<Rightarrow> json \<Rightarrow> json \<Rightarrow> json \<Rightarrow> json \<Rightarrow> json \<Rightarrow> row result" where
  "build_config forward_start equity notional leverage fee slip interval staleness heartbeat_age =
     rbind (py_float equity) (\<lambda>eq. rbind (py_float notional) (\<lambda>no. rbind (py_float leverage) (\<lambda>le.
     rbind (py_float fee) (\<lambda>fe. rbind (py_float slip) (\<lambda>sl. rbind (py_int interval) (\<lambda>iv.
     rbind (py_float staleness) (\<lambda>st. rbind (py_float heartbeat_age) (\<lambda>hb.
       let config = [(''schema_version'', JInt SCHEMA_VERSION), (''engine_version'', JStr PAPER_ENGINE_VERSION),
         (''baseline_label'', JStr BASELINE_LABEL), (''forward_start_ts'', JStr forward_start),
         (''initial_equity_usd'', JFloat eq), (''notional_usd'', JFloat no), (''leverage'', JFloat le),
         (''fee_model'', JObj [(''type'', JStr ''flat_taker''), (''fee_bps'', JFloat fe)]),
         (''slippage_model'', JObj [(''type'', JStr ''fixed''), (''slippage_bps'', JFloat sl)]),
         (''fill_model'', JStr FILL_MODEL),
         (''funding_model'', JObj [(''type'', JStr ''accrual''), (''applied_as'', JStr ''cash_flow'')]),
         (''signal_source'', JStr SIGNAL_SOURCE),
         (''freshness'', JObj [(''bar_interval_hours'', JInt iv), (''max_bar_staleness_hours'', JFloat st),
           (''heartbeat_max_age_hours'', JFloat hb)])]
       in Inr (dict_set ''config_hash'' (JStr (config_hash_of config)) config)))))))))"

definition load_config :: "fs_entry \<Rightarrow> config_fault + row" where
  "load_config entry = (case entry of Absent \<Rightarrow> Inl ConfigContractError | Unopenable \<Rightarrow> Inl ConfigContractError
     | Bytes raw \<Rightarrow> (case utf8_decode raw of BadUtf8 \<Rightarrow> Inl ConfigContractError
       | Text text \<Rightarrow> (case json_loads text of
           Inl e \<Rightarrow> Inl (if e = LoneSurrogate then Escaped OutOfModel else if e = DigitLimit then Escaped ValueError
             else ConfigContractError)
         | Inr v \<Rightarrow> rbind (validate_config_contract v) (\<lambda>_. let config = obj_fields v in
             if py_eq (get config ''config_hash'') (JStr (config_hash_of config)) then Inr config
             else Inl ConfigContractError))))"

definition write_config_once :: "row \<Rightarrow> fs_entry \<Rightarrow> bool \<Rightarrow> fs_entry result" where
  \<comment> \<open>\<open>FileExistsError\<close> is an \<open>OSError\<close>\<close>
  "write_config_once config entry force = (if entry \<noteq> Absent \<and> \<not> force then Inl OSError
     else if entry = Unopenable then Inl OSError
     else Inr (Bytes (json_dumps indented 0 (JObj config) @ [CHR 0x0A])))"

text \<open>What the engine reads of a configuration.\<close>

definition engine_config_of :: "row \<Rightarrow> engine_config result" where
  "engine_config_of config = (let str = (\<lambda>f. rbind (lookup config f) (\<lambda>v. case v of JStr s \<Rightarrow> Inr s | _ \<Rightarrow> Inl TypeError));
       number = (\<lambda>d f. rbind (lookup d f) py_float);
       sub = (\<lambda>f. rbind (lookup config f) (\<lambda>v. case v of JObj d \<Rightarrow> Inr d | _ \<Rightarrow> Inl TypeError)) in
     rbind (str ''forward_start_ts'') (\<lambda>start. rbind (number config ''notional_usd'') (\<lambda>notional.
     rbind (number config ''initial_equity_usd'') (\<lambda>equity.
     rbind (rbind (sub ''fee_model'') (\<lambda>d. number d ''fee_bps'')) (\<lambda>fee.
     rbind (rbind (sub ''slippage_model'') (\<lambda>d. number d ''slippage_bps'')) (\<lambda>slip.
     rbind (rbind (case obj_get config ''freshness'' (JObj []) of JObj d \<Rightarrow> Inr d | _ \<Rightarrow> Inl AttributeError)
       (\<lambda>d. py_int (obj_get d ''bar_interval_hours'' (JInt 8)))) (\<lambda>interval.
     rbind (str ''engine_version'') (\<lambda>version. rbind (str ''config_hash'') (\<lambda>hash.
     Inr \<lparr>forward_start_ts = start, notional_usd = notional, initial_equity_usd = equity, fee_bps = fee,
       slippage_bps = slip, bar_interval_hours = Some interval, engine_version = version, config_hash = hash\<rparr>)))))))))"

section \<open>What the contract guarantees\<close>

lemma all_hold_iff: "all_hold cs = Inr () \<longleftrightarrow> list_all (\<lambda>c. c = Inr True) cs"
  by (induction cs) (auto split: sum.split)

lemma fl_of_int_pos: "fl_of_int n = Some y \<Longrightarrow> 0 < n \<Longrightarrow> \<exists>x. y = PFin x \<and> 0 < x"
proof -
  assume a: "fl_of_int n = Some y" "0 < n"
  have "round_dbl 1 = 1" using round_dbl_id[of 1] is_dblI[of 1 0 1] by simp
  moreover have "round_dbl 1 \<le> round_dbl (of_int n)" using a(2) by (intro round_dbl_mono) simp
  ultimately have "0 < round_dbl (of_int n)" by linarith
  then show ?thesis using a(1) by (auto simp: fl_of_int_def to_dbl_def Let_def split: if_splits)
qed

lemma positive_number_float:
  assumes "is_positive_number v = Inr True"
  obtains x where "py_float v = Inr (PFin x)" "0 < x"
proof (cases v)
  case (JInt n)
  then obtain y where "fl_of_int n = Some y" "0 < n" using assms by (auto simp: is_positive_number_def split: if_splits)
  then show ?thesis using fl_of_int_pos[of n y] that by (auto simp: JInt py_float_def)
next
  case (JFloat x)
  then show ?thesis using assms that by (cases x) (auto simp: is_positive_number_def py_float_def)
qed (use assms in \<open>simp_all add: is_positive_number_def\<close>)

lemma nonneg_number_float:
  assumes "is_nonneg_number v = Inr True"
  obtains x where "py_float v = Inr (PFin x)" "0 \<le> x"
proof (cases v)
  case (JInt n)
  then obtain y where y: "fl_of_int n = Some y" "0 \<le> n" using assms by (auto simp: is_nonneg_number_def split: if_splits)
  then obtain x where x: "y = PFin x" "x = round_dbl (of_int n)"
    by (auto simp: fl_of_int_def to_dbl_def Let_def split: if_splits)
  then have "0 \<le> x" using y(2) by (simp add: round_dbl_nonneg)
  then show ?thesis using y x that by (simp add: JInt py_float_def)
next
  case (JFloat x)
  then show ?thesis using assms that by (cases x) (auto simp: is_nonneg_number_def py_float_def fl_le_def fl_eq_def)
qed (use assms in \<open>simp_all add: is_nonneg_number_def\<close>)

lemma exactly_eight_int: "exactly_eight v \<Longrightarrow> py_int v = Inr 8"
  by (auto simp: exactly_eight_def py_int_def fl_eq_def trunc_def split: json.splits)

lemma get_has_field: "get d f = v \<Longrightarrow> v \<noteq> JNull \<Longrightarrow> dict_get d f = Some v"
  by (auto simp: get_def obj_get_def split: option.splits)

lemma number_present: "is_positive_number JNull \<noteq> Inr True" "is_nonneg_number JNull \<noteq> Inr True"
  by (simp_all add: is_positive_number_def is_nonneg_number_def)

lemma is_obj_fields: "is_obj v \<Longrightarrow> v = JObj (obj_fields v)"
  by (cases v) (auto simp: is_obj_def obj_fields_def)

lemma contract_facts:
  assumes "validate_config_contract (JObj d) = Inr ()"
  defines "fr \<equiv> obj_fields (get d ''freshness'')" and "fee \<equiv> obj_fields (get d ''fee_model'')" and "slip \<equiv> obj_fields (get d ''slippage_model'')"
  shows "get d ''freshness'' = JObj fr" "get d ''fee_model'' = JObj fee" "get d ''slippage_model'' = JObj slip"
    and "get d ''engine_version'' = JStr PAPER_ENGINE_VERSION"
    and "is_positive_number (get d ''notional_usd'') = Inr True" "is_positive_number (get d ''initial_equity_usd'') = Inr True"
    and "is_nonneg_number (get fee ''fee_bps'') = Inr True" "is_nonneg_number (get slip ''slippage_bps'') = Inr True"
    and "exactly_eight (get fr ''bar_interval_hours'')"
    and "is_positive_number (get fr ''max_bar_staleness_hours'') = Inr True"
    and "is_positive_number (get fr ''heartbeat_max_age_hours'') = Inr True"
    and "has_field fr ''max_future_skew_hours'' \<Longrightarrow> is_nonneg_number (get fr ''max_future_skew_hours'') = Inr True"
    and "\<exists>ts. get d ''forward_start_ts'' = JStr ts" "start_on_grid (get fr ''bar_interval_hours'') (get d ''forward_start_ts'') = Inr True"
proof -
  have "list_all (\<lambda>c. c = Inr True) (contract_checks d)"
    using assms(1) by (simp add: validate_config_contract_def all_hold_iff)
  then have c: "is_obj (get d ''freshness'')" "is_obj (get d ''fee_model'')" "is_obj (get d ''slippage_model'')"
      "get d ''engine_version'' = JStr PAPER_ENGINE_VERSION"
      "is_positive_number (get d ''notional_usd'') = Inr True" "is_positive_number (get d ''initial_equity_usd'') = Inr True"
      "is_nonneg_number (get fee ''fee_bps'') = Inr True" "is_nonneg_number (get slip ''slippage_bps'') = Inr True"
      "exactly_eight (get fr ''bar_interval_hours'')"
      "is_positive_number (get fr ''max_bar_staleness_hours'') = Inr True"
      "is_positive_number (get fr ''heartbeat_max_age_hours'') = Inr True"
      "has_field fr ''max_future_skew_hours'' \<longrightarrow> is_nonneg_number (get fr ''max_future_skew_hours'') = Inr True"
      "case get d ''forward_start_ts'' of JStr _ \<Rightarrow> True | _ \<Rightarrow> False"
      "start_on_grid (get fr ''bar_interval_hours'') (get d ''forward_start_ts'') = Inr True"
    unfolding contract_checks_def Let_def REQUIRED_FRESHNESS_FIELDS_def fr_def fee_def slip_def
    by (simp_all add: py_eq_JStr split: if_splits)
  then show "get d ''freshness'' = JObj fr" "get d ''fee_model'' = JObj fee" "get d ''slippage_model'' = JObj slip"
    unfolding fr_def fee_def slip_def by (simp_all add: is_obj_fields[symmetric])
  show "\<exists>ts. get d ''forward_start_ts'' = JStr ts" using c(13) by (simp split: json.splits)
  show "has_field fr ''max_future_skew_hours'' \<Longrightarrow> is_nonneg_number (get fr ''max_future_skew_hours'') = Inr True"
    using c(12) by simp
  show "get d ''engine_version'' = JStr PAPER_ENGINE_VERSION"
    "is_positive_number (get d ''notional_usd'') = Inr True" "is_positive_number (get d ''initial_equity_usd'') = Inr True"
    "is_nonneg_number (get fee ''fee_bps'') = Inr True" "is_nonneg_number (get slip ''slippage_bps'') = Inr True"
    "exactly_eight (get fr ''bar_interval_hours'')"
    "is_positive_number (get fr ''max_bar_staleness_hours'') = Inr True"
    "is_positive_number (get fr ''heartbeat_max_age_hours'') = Inr True"
    "start_on_grid (get fr ''bar_interval_hours'') (get d ''forward_start_ts'') = Inr True"
    by (fact c)+
qed

lemma number_lookup:
  assumes "py_float (get d f) = Inr y"
  shows "dict_get d f = Some (get d f)"
  using assms by (cases "dict_get d f") (auto simp: get_def obj_get_def py_float_def)

lemma hour_fraction:
  assumes "0 \<le> f" "f < 1"
  obtains p where "fl_mul (PFin (of_int us_per_hour)) (PFin f) = PFin p" "0 \<le> p" "p \<le> of_int us_per_hour"
proof -
  have id: "round_dbl 3600000000 = 3600000000"
    using round_dbl_id[of 3600000000] is_dblI[of 3600000000 0 3600000000] by simp
  have b: "0 \<le> round_dbl (3600000000 * f)" "round_dbl (3600000000 * f) \<le> 3600000000"
    using round_dbl_nonneg[of "3600000000 * f"] round_dbl_mono[of "3600000000 * f" 3600000000] assms id by simp_all
  have "(3600000000 :: rat) < dbl_max_exp" by (simp add: dbl_max_exp_def)
  then have "to_dbl (3600000000 * f) = PFin (round_dbl (3600000000 * f))"
    using b by (simp add: to_dbl_def Let_def)
  then show ?thesis using that[of "round_dbl (3600000000 * f)"] b by (simp add: us_per_hour_def)
qed

lemma timedelta_hours_bounds:
  assumes "0 \<le> x"
  obtains us where "\<lfloor>x\<rfloor> * us_per_hour \<le> us" "us \<le> (\<lfloor>x\<rfloor> + 1) * us_per_hour"
    "x = of_int \<lfloor>x\<rfloor> \<longrightarrow> us = \<lfloor>x\<rfloor> * us_per_hour"
    "timedelta_hours (PFin x) = (if delta_ok us then Inr us else Inl OverflowError)"
proof -
  define f where "f = x - of_int \<lfloor>x\<rfloor>"
  have f: "0 \<le> f" "f < 1" by (simp_all add: f_def) linarith+
  obtain p where p: "fl_mul (PFin (of_int us_per_hour)) (PFin f) = PFin p" "0 \<le> p" "p \<le> of_int us_per_hour"
    using hour_fraction[OF f] .
  define us where "us = round_half_even (of_int (\<lfloor>x\<rfloor> * us_per_hour) + p)"
  have "round_half_even (of_int (\<lfloor>x\<rfloor> * us_per_hour)) \<le> us"
    unfolding us_def using p(2) by (intro round_half_even_mono) simp
  moreover have "us \<le> round_half_even (of_int ((\<lfloor>x\<rfloor> + 1) * us_per_hour))"
    unfolding us_def using p(3) by (intro round_half_even_mono) (simp add: algebra_simps)
  moreover have "us = \<lfloor>x\<rfloor> * us_per_hour" if "x = of_int \<lfloor>x\<rfloor>"
  proof -
    have "f = 0" using that by (simp add: f_def)
    then have "p = 0" using p(1) by (simp add: to_dbl_def Let_def dbl_max_exp_def)
    then show ?thesis by (simp add: us_def del: of_int_mult)
  qed
  moreover have "timedelta_hours (PFin x) = (if delta_ok us then Inr us else Inl OverflowError)"
    using assms p(1) by (simp add: timedelta_hours_def trunc_def us_def f_def Let_def)
  ultimately show ?thesis using that by (simp del: of_int_mult)
qed

definition hours_read :: "rat \<Rightarrow> delta \<Rightarrow> bool" where
  \<comment> \<open>a duration read from a number of hours: exact for whole hours, and within the right hour otherwise\<close>
  "hours_read x d \<longleftrightarrow> \<lfloor>x\<rfloor> * us_per_hour \<le> d \<and> d \<le> (\<lfloor>x\<rfloor> + 1) * us_per_hour
     \<and> (x = of_int \<lfloor>x\<rfloor> \<longrightarrow> d = \<lfloor>x\<rfloor> * us_per_hour)"

definition max_hours :: rat where
  \<comment> \<open>999999999 days\<close>
  "max_hours = 23999999976"

lemma timedelta_hours_cases:
  assumes "0 \<le> x"
  shows "(\<exists>d. timedelta_hours (PFin x) = Inr d \<and> hours_read x d)
      \<or> (max_hours < x \<and> timedelta_hours (PFin x) = Inl OverflowError)"
    and "max_hours + 24 \<le> x \<Longrightarrow> timedelta_hours (PFin x) = Inl OverflowError"
proof -
  obtain us where us: "\<lfloor>x\<rfloor> * us_per_hour \<le> us" "us \<le> (\<lfloor>x\<rfloor> + 1) * us_per_hour"
    "x = of_int \<lfloor>x\<rfloor> \<longrightarrow> us = \<lfloor>x\<rfloor> * us_per_hour"
    "timedelta_hours (PFin x) = (if delta_ok us then Inr us else Inl OverflowError)"
    using timedelta_hours_bounds[OF assms] .
  have fl: "0 \<le> \<lfloor>x\<rfloor>" using assms by simp
  have day: "us_per_day = 24 * us_per_hour" by (simp add: us_per_day_def us_per_hour_def)
  have ok: "delta_ok us" if "x \<le> max_hours"
  proof -
    have "us \<le> 23999999976 * us_per_hour"
    proof (cases "x = of_int \<lfloor>x\<rfloor>")
      case True
      then have "\<lfloor>x\<rfloor> \<le> 23999999976" using that unfolding max_hours_def by linarith
      moreover have "us = \<lfloor>x\<rfloor> * us_per_hour" using us(3) True by blast
      ultimately show ?thesis unfolding us_per_hour_def by linarith
    next
      case False
      then have "of_int \<lfloor>x\<rfloor> < x" using of_int_floor_le[of x] by linarith
      then have "\<lfloor>x\<rfloor> + 1 \<le> 23999999976" using that unfolding max_hours_def by linarith
      then have "(\<lfloor>x\<rfloor> + 1) * us_per_hour \<le> 23999999976 * us_per_hour"
        by (intro mult_right_mono) (simp_all add: us_per_hour_def)
      then show ?thesis using us(2) by linarith
    qed
    moreover have "0 \<le> \<lfloor>x\<rfloor> * us_per_hour" using fl by (intro mult_nonneg_nonneg) (simp_all add: us_per_hour_def)
    then have "0 \<le> us" using us(1) by linarith
    ultimately show ?thesis unfolding delta_ok_def day max_delta_days_def us_per_hour_def by simp
  qed
  then show "(\<exists>d. timedelta_hours (PFin x) = Inr d \<and> hours_read x d)
      \<or> (max_hours < x \<and> timedelta_hours (PFin x) = Inl OverflowError)"
    using us unfolding hours_read_def by (cases "x \<le> max_hours") auto
  show "timedelta_hours (PFin x) = Inl OverflowError" if "max_hours + 24 \<le> x"
  proof -
    have "24000000000 \<le> \<lfloor>x\<rfloor>" using that unfolding max_hours_def by linarith
    then have "24000000000 * us_per_hour \<le> \<lfloor>x\<rfloor> * us_per_hour"
      by (intro mult_right_mono) (simp_all add: us_per_hour_def)
    then have "24000000000 * us_per_hour \<le> us" using us(1) by linarith
    then have "\<not> delta_ok us" unfolding delta_ok_def day max_delta_days_def us_per_hour_def by simp
    then show ?thesis using us(4) by simp
  qed
qed

lemma limits_read:
  assumes i: "py_int (obj_get fr ''bar_interval_hours'' (JInt 8)) = Inr 8" and ne: "fr \<noteq> []"
    and st: "py_float (obj_get fr ''max_bar_staleness_hours'' (JInt 24)) = Inr (PFin staleness)" "0 \<le> staleness"
    and hb: "py_float (obj_get fr ''heartbeat_max_age_hours'' (JInt 24)) = Inr (PFin age)" "0 \<le> age"
    and sk: "py_float (obj_get fr ''max_future_skew_hours'' (JFloat DEFAULT_MAX_FUTURE_SKEW_HOURS)) = Inr (PFin skew)" "0 \<le> skew"
  shows "(\<exists>lm. read_limits (JObj fr) = Inr lm \<and> li_interval lm = 8 \<and> hours_read staleness (li_max_staleness lm)
        \<and> hours_read age (li_heartbeat_max_age lm) \<and> hours_read skew (li_future_skew lm))
      \<or> (max_hours < max staleness (max age skew) \<and> read_limits (JObj fr) = Inl OverflowError)"
    and "max_hours + 24 \<le> max staleness (max age skew) \<Longrightarrow> read_limits (JObj fr) = Inl OverflowError"
proof -
  note t = timedelta_hours_cases[OF st(2)] timedelta_hours_cases[OF hb(2)] timedelta_hours_cases[OF sk(2)]
  have r: "read_limits (JObj fr) = rbind (timedelta_hours (PFin staleness)) (\<lambda>a. rbind (timedelta_hours (PFin age)) (\<lambda>b.
      rbind (timedelta_hours (PFin skew)) (\<lambda>c.
      Inr \<lparr>li_interval = 8, li_max_staleness = a, li_heartbeat_max_age = b, li_future_skew = c\<rparr>)))"
    by (simp add: read_limits_def Let_def i ne st hb sk)
  show "(\<exists>lm. read_limits (JObj fr) = Inr lm \<and> li_interval lm = 8 \<and> hours_read staleness (li_max_staleness lm)
        \<and> hours_read age (li_heartbeat_max_age lm) \<and> hours_read skew (li_future_skew lm))
      \<or> (max_hours < max staleness (max age skew) \<and> read_limits (JObj fr) = Inl OverflowError)"
    using t(1,3,5) unfolding r by (elim disjE exE conjE) (simp_all add: less_max_iff_disj)
  assume "max_hours + 24 \<le> max staleness (max age skew)"
  then show "read_limits (JObj fr) = Inl OverflowError"
    using t unfolding r le_max_iff_disj by (elim disjE exE conjE) simp_all
qed

lemma obj_get_present: "get d f \<noteq> JNull \<Longrightarrow> obj_get d f w = get d f"
  by (auto simp: get_def obj_get_def split: option.splits)

lemma load_config_Inr:
  assumes "load_config entry = Inr d"
  shows "validate_config_contract (JObj d) = Inr () \<and> get d ''config_hash'' = JStr (config_hash_of d)"
proof -
  obtain v where v: "validate_config_contract v = Inr ()"
    "(if py_eq (get (obj_fields v) ''config_hash'') (JStr (config_hash_of (obj_fields v))) then Inr (obj_fields v)
      else Inl ConfigContractError) = (Inr d :: config_fault + row)"
    using assms by (auto simp: load_config_def rbind_Inr_iff Let_def split: fs_entry.splits decoded.splits sum.splits)
  moreover have "v = JObj (obj_fields v)"
    using v(1) by (cases v) (simp_all add: validate_config_contract_def obj_fields_def)
  ultimately show ?thesis by (auto simp: py_eq_JStr split: if_splits)
qed

text \<open>
  C39. A configuration that loads is typed as its readers need it: the engine reads it without an
  exception, with positive notional and equity, non-negative fee and slippage, all finite, a bar
  interval of eight hours and a start on the eight-hour grid, and its stored hash is its own. Its
  freshness hours are finite, positive for staleness and heartbeat age, non-negative for the future
  skew. The freshness gate reads them as its limits, whole hours exactly, whenever none exceeds the
  999999999 days of a \<open>timedelta\<close>; the contract bounds the hours by nothing, and from 24 hours more on
  the gate raises an overflow. It never raises anything else.
\<close>

theorem loaded_config_typed:
  assumes "load_config entry = Inr d"
  shows "\<exists>cfg fr notional equity fee slip start staleness age skew. engine_config_of d = Inr cfg
    \<and> notional_usd cfg = PFin notional \<and> 0 < notional \<and> initial_equity_usd cfg = PFin equity \<and> 0 < equity
    \<and> fee_bps cfg = PFin fee \<and> 0 \<le> fee \<and> slippage_bps cfg = PFin slip \<and> 0 \<le> slip
    \<and> bar_interval_hours cfg = Some 8 \<and> engine_version cfg = PAPER_ENGINE_VERSION \<and> config_hash cfg = config_hash_of d
    \<and> parse_bar_utc (forward_start_ts cfg) = Inr start \<and> on_grid start 8 \<and> get d ''freshness'' = JObj fr
    \<and> py_float (get fr ''max_bar_staleness_hours'') = Inr (PFin staleness) \<and> 0 < staleness
    \<and> py_float (get fr ''heartbeat_max_age_hours'') = Inr (PFin age) \<and> 0 < age
    \<and> py_float (obj_get fr ''max_future_skew_hours'' (JFloat (PFin 1))) = Inr (PFin skew) \<and> 0 \<le> skew
    \<and> ((\<exists>lm. read_limits (JObj fr) = Inr lm \<and> li_interval lm = 8 \<and> hours_read staleness (li_max_staleness lm)
          \<and> hours_read age (li_heartbeat_max_age lm) \<and> hours_read skew (li_future_skew lm))
        \<or> (max_hours < max staleness (max age skew) \<and> read_limits (JObj fr) = Inl OverflowError))
    \<and> (max_hours + 24 \<le> max staleness (max age skew) \<longrightarrow> read_limits (JObj fr) = Inl OverflowError)"
proof -
  have v: "validate_config_contract (JObj d) = Inr ()" and h: "get d ''config_hash'' = JStr (config_hash_of d)"
    using load_config_Inr[OF assms] by simp_all
  note c = contract_facts[OF v]
  let ?fr = "obj_fields (get d ''freshness'')" and ?fee = "obj_fields (get d ''fee_model'')" and ?slip = "obj_fields (get d ''slippage_model'')"
  obtain notional where n: "py_float (get d ''notional_usd'') = Inr (PFin notional)" "0 < notional" using positive_number_float[OF c(5)] .
  obtain equity where e: "py_float (get d ''initial_equity_usd'') = Inr (PFin equity)" "0 < equity" using positive_number_float[OF c(6)] .
  obtain fee where f: "py_float (get ?fee ''fee_bps'') = Inr (PFin fee)" "0 \<le> fee" using nonneg_number_float[OF c(7)] .
  obtain slip where s: "py_float (get ?slip ''slippage_bps'') = Inr (PFin slip)" "0 \<le> slip" using nonneg_number_float[OF c(8)] .
  obtain ts where ts: "get d ''forward_start_ts'' = JStr ts" using c(13) by blast
  have i: "py_int (get ?fr ''bar_interval_hours'') = Inr 8" by (rule exactly_eight_int[OF c(9)])
  then have bi: "dict_get ?fr ''bar_interval_hours'' = Some (get ?fr ''bar_interval_hours'')"
    by (cases "dict_get ?fr ''bar_interval_hours''") (auto simp: get_def obj_get_def py_int_def)
  obtain start where st: "parse_bar_utc ts = Inr start" "on_grid start 8"
    using c(14) by (auto simp: start_on_grid_def ts parse_bar_def i split: sum.splits)
  have nonnull: "dict_get d g = Some w" if "get d g = w" "w \<noteq> JNull" for g w using that by (rule get_has_field)
  have fr: "obj_get d ''freshness'' (JObj []) = JObj ?fr" using nonnull[OF c(1)] by (simp add: obj_get_def)
  have cfg: "engine_config_of d = Inr \<lparr>forward_start_ts = ts, notional_usd = PFin notional, initial_equity_usd = PFin equity,
      fee_bps = PFin fee, slippage_bps = PFin slip, bar_interval_hours = Some 8, engine_version = PAPER_ENGINE_VERSION,
      config_hash = config_hash_of d\<rparr>"
    using nonnull[OF ts] nonnull[OF c(2)] nonnull[OF c(3)] nonnull[OF c(4)] nonnull[OF h] number_lookup[OF n(1)] number_lookup[OF e(1)]
      number_lookup[OF f(1)] number_lookup[OF s(1)] n(1) e(1) f(1) s(1) i bi
    unfolding engine_config_of_def Let_def fr lookup_def
    by (simp only: json.distinct simp_thms of_option_simps rbind_simps json.case obj_get_def option.case)
  obtain staleness where la: "py_float (get ?fr ''max_bar_staleness_hours'') = Inr (PFin staleness)" "0 < staleness"
    using positive_number_float[OF c(10)] .
  obtain age where lb: "py_float (get ?fr ''heartbeat_max_age_hours'') = Inr (PFin age)" "0 < age"
    using positive_number_float[OF c(11)] .
  have "is_nonneg_number (obj_get ?fr ''max_future_skew_hours'' (JFloat (PFin 1))) = Inr True"
  proof (cases "has_field ?fr ''max_future_skew_hours''")
    case True
    from c(12)[OF this] number_present(2) show ?thesis by (metis obj_get_present)
  qed (simp add: has_field_def obj_get_def is_nonneg_number_def fl_le_def)
  from nonneg_number_float[OF this] obtain skew
    where lc: "py_float (obj_get ?fr ''max_future_skew_hours'' (JFloat (PFin 1))) = Inr (PFin skew)" "0 \<le> skew" .
  have ne: "?fr \<noteq> []" and ei: "py_int (obj_get ?fr ''bar_interval_hours'' (JInt 8)) = Inr 8" using bi i by (auto simp: obj_get_def)
  have pres: "obj_get ?fr f w = get ?fr f" if "py_float (get ?fr f) = Inr y" for f w y
    using number_lookup[OF that] by (simp add: obj_get_def)
  note lim = limits_read[OF ei ne la(1)[folded pres[OF la(1), of "JInt 24"]] less_imp_le[OF la(2)]
    lb(1)[folded pres[OF lb(1), of "JInt 24"]] less_imp_le[OF lb(2)] lc(1)[folded DEFAULT_MAX_FUTURE_SKEW_HOURS_def] lc(2)]
  show ?thesis
    by (rule exI, rule exI[of _ ?fr], rule exI[of _ notional], rule exI[of _ equity], rule exI[of _ fee], rule exI[of _ slip],
        rule exI[of _ start], rule exI[of _ staleness], rule exI[of _ age], rule exI[of _ skew], rule conjI[OF cfg])
      (intro conjI impI c(1) lim n(2) e(2) f(2) s(2) st(2) la lb lc; simp add: st(1))
qed

section \<open>Writing and loading\<close>

lemma key_sorted_scalar:
  "key_sorted v = JNull \<longleftrightarrow> v = JNull" "key_sorted v = JBool b \<longleftrightarrow> v = JBool b" "key_sorted v = JInt n \<longleftrightarrow> v = JInt n"
  "key_sorted v = JFloat x \<longleftrightarrow> v = JFloat x" "key_sorted v = JStr s \<longleftrightarrow> v = JStr s"
  by (cases v; simp)+

lemma number_key_sorted: "is_positive_number (key_sorted v) = is_positive_number v" "is_nonneg_number (key_sorted v) = is_nonneg_number v"
  "exactly_eight (key_sorted v) = exactly_eight v" "py_int (key_sorted v) = py_int v" "parse_bar (key_sorted v) = parse_bar v"
  "is_obj (key_sorted v) = is_obj v" "num_value (key_sorted v) = num_value v"
  by (cases v; simp add: is_positive_number_def is_nonneg_number_def exactly_eight_def py_int_def parse_bar_def is_obj_def)+

lemma sort_keys_perm: "list_all P (sort_key f xs) \<longleftrightarrow> list_all P xs"
  by (simp add: list_all_iff)

lemma py_eq_key_sorted: "py_eq (key_sorted v) w = py_eq v w"
proof (induction v w rule: py_eq.induct)
  case (1 xs ys)
  have "list_all (\<lambda>(x, y). py_eq x y) (zip (map key_sorted xs) ys) = list_all (\<lambda>(x, y). py_eq x y) (zip xs ys)"
    using 1 by (fastforce simp: list_all_iff zip_map1)
  then show ?case by simp
next
  case (2 d e)
  have "list_all (\<lambda>(k, v). case map_of e k of None \<Rightarrow> False | Some w \<Rightarrow> py_eq v w) (map (\<lambda>(k, v). (k, key_sorted v)) d)
      = list_all (\<lambda>(k, v). case map_of e k of None \<Rightarrow> False | Some w \<Rightarrow> py_eq v w) d"
    using 2 by (force simp: list_all_iff split: option.splits)
  then show ?case by (simp add: sort_keys_perm del: list.pred_map)
qed (simp_all add: number_key_sorted(7))

lemma get_sorted: "storable (JObj d) \<Longrightarrow> get (sorted_row d) f = key_sorted (get d f)"
  using sorted_row_get[of d f] by (simp add: get_def obj_get_def split: option.split)

lemma has_field_sorted: "storable (JObj d) \<Longrightarrow> has_field (sorted_row d) f = has_field d f"
  using sorted_row_get[of d f] by (simp add: has_field_def)

lemma get_storable: "storable (JObj d) \<Longrightarrow> storable (get d f)"
  by (cases "dict_get d f") (auto simp: get_def obj_get_def list_all_iff dest!: dict_get_mem)

lemma obj_fields_sorted: "obj_fields (key_sorted v) = sorted_row (obj_fields v)"
  by (cases v) (simp_all add: obj_fields_def sorted_row_def)

lemma obj_fields_storable: "storable v \<Longrightarrow> storable (JObj (obj_fields v))"
  by (cases v) (simp_all add: obj_fields_def)

lemma start_sorted: "(case key_sorted v of JStr _ \<Rightarrow> True | _ \<Rightarrow> False) = (case v of JStr _ \<Rightarrow> True | _ \<Rightarrow> False)"
  by (cases v) simp_all

lemma contract_checks_sorted:
  assumes "storable (JObj d)"
  shows "contract_checks (sorted_row d) = contract_checks d"
proof -
  have f: "storable (JObj (obj_fields (get d k)))" for k using obj_fields_storable get_storable assms by blast
  have h: "has_field (sorted_row d) = has_field d" "has_field (sorted_row (obj_fields (get d k))) = has_field (obj_fields (get d k))" for k
    using has_field_sorted assms f by (auto simp: fun_eq_iff)
  show ?thesis unfolding contract_checks_def Let_def get_sorted[OF assms] obj_fields_sorted get_sorted[OF f] h
      number_key_sorted py_eq_key_sorted start_sorted key_sorted_scalar start_on_grid_def ..
qed

lemma config_hash_sorted: "config_hash_of (sorted_row d) = config_hash_of d"
proof -
  let ?P = "\<lambda>(k, v). k \<noteq> ''config_hash''"
  have "filter ?P (sorted_row d) = sorted_row (filter ?P d)"
    by (simp add: sorted_row_def filter_sort filter_map o_def case_prod_unfold)
  moreover have "canonical_json_dumps (JObj (sorted_row xs)) = canonical_json_dumps (JObj xs)" for xs
    using dumps_key_sorted[of compact_layout 0 "JObj xs"]
    by (simp add: canonical_is_compact[of _ 0] sorted_row_def del: json_dumps.simps)
  ultimately show ?thesis by (simp only: config_hash_of_def)
qed

lemma indented_ascii: "ascii (json_dumps indented n v)"
  unfolding ascii_def by (rule dumps_chars) (auto simp: layout_chars_def indented_def newline_indent_def list_all_iff)

text \<open>Loading a file that \<open>write_config_once\<close> wrote is validating what was written.\<close>

lemma load_written:
  assumes "storable (JObj d)" "get d ''config_hash'' = JStr (config_hash_of d)"
  shows "load_config (Bytes (json_dumps indented 0 (JObj d) @ [CHR 0x0A])) =
    rbind (validate_config_contract (JObj d)) (\<lambda>_. Inr (sorted_row d))"
proof -
  let ?t = "json_dumps indented 0 (JObj d) @ [CHR 0x0A]"
  have k: "key_sorted (JObj d) = JObj (sorted_row d)" by (simp add: sorted_row_def)
  have "utf8_decode ?t = Text ?t" by (intro utf8_decode_ascii) (simp add: indented_ascii del: json_dumps.simps)
  moreover have "json_loads ?t = Inr (JObj (sorted_row d))"
    using loads_dumps[OF layouts_blank(3) assms(1), of "[CHR 0x0A]" 0] unfolding k by (simp add: blank_def json_ws_def)
  moreover have "validate_config_contract (JObj (sorted_row d)) = validate_config_contract (JObj d)"
    by (simp add: validate_config_contract_def contract_checks_sorted[OF assms(1)])
  moreover have "obj_fields (JObj (sorted_row d)) = sorted_row d" by (simp add: obj_fields_def)
  moreover have "get (sorted_row d) ''config_hash'' = JStr (config_hash_of (sorted_row d))"
    by (simp add: get_sorted[OF assms(1)] assms(2) config_hash_sorted)
  ultimately show ?thesis unfolding load_config_def fs_entry.case by (simp only: decoded.case sum.case Let_def py_eq.simps if_True refl)
qed

lemma build_config_shape:
  assumes "build_config start equity notional leverage fee slip interval staleness age = Inr d"
  shows "get d ''config_hash'' = JStr (config_hash_of d) \<and> get d ''forward_start_ts'' = JStr start"
proof -
  obtain eq no le fe sl iv st hb where d: "d = (let config = [(''schema_version'', JInt SCHEMA_VERSION), (''engine_version'', JStr PAPER_ENGINE_VERSION),
         (''baseline_label'', JStr BASELINE_LABEL), (''forward_start_ts'', JStr start),
         (''initial_equity_usd'', JFloat eq), (''notional_usd'', JFloat no), (''leverage'', JFloat le),
         (''fee_model'', JObj [(''type'', JStr ''flat_taker''), (''fee_bps'', JFloat fe)]),
         (''slippage_model'', JObj [(''type'', JStr ''fixed''), (''slippage_bps'', JFloat sl)]),
         (''fill_model'', JStr FILL_MODEL),
         (''funding_model'', JObj [(''type'', JStr ''accrual''), (''applied_as'', JStr ''cash_flow'')]),
         (''signal_source'', JStr SIGNAL_SOURCE),
         (''freshness'', JObj [(''bar_interval_hours'', JInt iv), (''max_bar_staleness_hours'', JFloat st),
           (''heartbeat_max_age_hours'', JFloat hb)])]
       in dict_set ''config_hash'' (JStr (config_hash_of config)) config)"
    using assms by (auto simp: build_config_def rbind_Inr_iff Let_def)
  then show ?thesis by (simp add: Let_def get_def obj_get_def config_hash_of_def)
qed

text \<open>
  C40. Initialising a lane: the configuration that \<open>build_config\<close> makes of its parameters is written
  once, a second write is refused, and loading the file gives the configuration with its keys in
  order exactly when the parameters meet the contract, and the contract's refusal when they do not.
\<close>

theorem config_init_round_trip:
  assumes "build_config start equity notional leverage fee slip interval staleness age = Inr d" "storable (JObj d)"
  shows "\<exists>file. write_config_once d Absent False = Inr file
    \<and> load_config file = rbind (validate_config_contract (JObj d)) (\<lambda>_. Inr (sorted_row d))
    \<and> (\<forall>other. write_config_once other file False = Inl OSError)"
  using load_written[OF assms(2) conjunct1[OF build_config_shape[OF assms(1)]]] by (simp add: write_config_once_def)

section \<open>The default configuration\<close>

definition default_config :: row where
  "default_config = (case build_config (fmt_fields fx_bar) (JFloat (PFin 10000)) (JFloat (PFin 1000)) (JFloat (PFin 1))
     (JFloat (PFin 5)) (JFloat (PFin 5)) (JInt 8) (JFloat (PFin 24)) (JFloat (PFin 24)) of Inr d \<Rightarrow> d | Inl _ \<Rightarrow> [])"

lemma default_built: "build_config (fmt_fields fx_bar) (JFloat (PFin 10000)) (JFloat (PFin 1000)) (JFloat (PFin 1))
     (JFloat (PFin 5)) (JFloat (PFin 5)) (JInt 8) (JFloat (PFin 24)) (JFloat (PFin 24)) = Inr default_config"
  by (simp add: default_config_def build_config_def py_float_def py_int_def Let_def)

lemma default_storable: "storable (JObj default_config)"
proof -
  have w: "wf_float (PFin (numeral k)) \<longleftrightarrow> True" if "(numeral k :: int) \<le> 2 ^ 53" for k
    using wf_PFin_int[of "numeral k"] that by simp
  have one: "wf_float (PFin 1)" using wf_PFin_int[of 1] by simp
  have n: "length (show_nat m) \<le> 4300" if "m < 10" for m using that by (subst show_nat.simps) simp
  have c: "is_str PAPER_ENGINE_VERSION" "is_str BASELINE_LABEL" "is_str FILL_MODEL" "is_str SIGNAL_SOURCE" "is_str (config_hash_of d)" for d
    by (simp_all add: PAPER_ENGINE_VERSION_def BASELINE_LABEL_def FILL_MODEL_def SIGNAL_SOURCE_def config_hash_of_def)
  show ?thesis using one by (simp add: default_config_def build_config_def py_float_def py_int_def Let_def w n SCHEMA_VERSION_def c del: wf_float.simps)
qed

lemma default_valid: "validate_config_contract (JObj default_config) = Inr ()"
proof -
  have p: "parse_bar_utc (fmt_fields fx_bar) = Inr (fields_instant fx_bar)" by (rule parse_bar_fmt(1)[OF fx_bar_facts(1)])
  show ?thesis
    by (simp add: validate_config_contract_def all_hold_iff contract_checks_def Let_def default_config_def build_config_def
      py_float_def py_int_def get_def obj_get_def has_field_def obj_fields_def is_obj_def REQUIRED_CONFIG_FIELDS_def
      REQUIRED_FRESHNESS_FIELDS_def is_positive_number_def is_nonneg_number_def fl_of_int_def fl_le_def exactly_eight_def
      EXPECTED_FEE_MODEL_TYPE_def EXPECTED_SLIPPAGE_MODEL_TYPE_def EXPECTED_FUNDING_MODEL_def start_on_grid_def parse_bar_def p
      fx_bar_facts(2))
qed

theorem config_init_round_trip_witness:
  "\<exists>file. write_config_once default_config Absent False = Inr file \<and> load_config file = Inr (sorted_row default_config)
    \<and> write_config_once [] file False = Inl OSError"
  using config_init_round_trip[OF default_built default_storable] by (auto simp: default_valid)

lemma default_loads: "load_config (Bytes (json_dumps indented 0 (JObj default_config) @ [CHR 0x0A])) = Inr (sorted_row default_config)"
  using load_written[OF default_storable conjunct1[OF build_config_shape[OF default_built]]] by (simp only: default_valid rbind_simps)

lemma default_freshness: "get (sorted_row default_config) ''freshness'' =
    JObj [(''bar_interval_hours'', JInt 8), (''heartbeat_max_age_hours'', JFloat (PFin 24)), (''max_bar_staleness_hours'', JFloat (PFin 24))]"
  unfolding get_sorted[OF default_storable]
  by (simp add: default_config_def build_config_def py_float_def py_int_def get_def obj_get_def Let_def Cons_less_Cons less_char_def)

theorem loaded_config_typed_witness:
  "\<exists>cfg lm. engine_config_of (sorted_row default_config) = Inr cfg \<and> bar_interval_hours cfg = Some 8
    \<and> read_limits (get (sorted_row default_config) ''freshness'') = Inr lm
    \<and> li_max_staleness lm = 24 * us_per_hour \<and> li_heartbeat_max_age lm = 24 * us_per_hour \<and> li_future_skew lm = us_per_hour"
  using loaded_config_typed[OF default_loads] unfolding default_freshness
  by (auto simp: get_def obj_get_def py_float_def hours_read_def max_hours_def)

end
