(* ===== verification/PyNum.thy ===== *)
theory PyNum
  imports PyConv
begin

text \<open>
  Python's mixed arithmetic on numbers read from JSON: integers are exact, an operation with a float
  converts the other side to a float first, which overflows for large integers, and comparisons are
  exact. \<open>sum\<close> is CPython 3.12's.
\<close>

datatype num = NInt int | NFlt pyfloat

definition num_of :: "json \<Rightarrow> num result" where
  "num_of v = (case v of JInt n \<Rightarrow> Inr (NInt n) | JFloat x \<Rightarrow> Inr (NFlt x)
     | JBool b \<Rightarrow> Inr (NInt (if b then 1 else 0)) | _ \<Rightarrow> Inl TypeError)"

fun num_float :: "num \<Rightarrow> pyfloat result" where
  "num_float (NInt n) = of_option OverflowError (fl_of_int n)"
| "num_float (NFlt x) = Inr x"

definition num_op :: "(int \<Rightarrow> int \<Rightarrow> int) \<Rightarrow> (pyfloat \<Rightarrow> pyfloat \<Rightarrow> pyfloat) \<Rightarrow> num \<Rightarrow> num \<Rightarrow> num result" where
  "num_op iop fop a b = (case (a, b) of (NInt m, NInt n) \<Rightarrow> Inr (NInt (iop m n))
     | _ \<Rightarrow> rbind (num_float a) (\<lambda>x. rbind (num_float b) (\<lambda>y. Inr (NFlt (fop x y)))))"

definition num_add :: "num \<Rightarrow> num \<Rightarrow> num result" where "num_add = num_op (+) fl_add"
definition num_sub :: "num \<Rightarrow> num \<Rightarrow> num result" where "num_sub = num_op (-) fl_sub"
definition num_mul :: "num \<Rightarrow> num \<Rightarrow> num result" where "num_mul = num_op (*) fl_mul"

definition num_div :: "num \<Rightarrow> num \<Rightarrow> num result" where
  \<comment> \<open>true division; of two integers the correctly rounded quotient\<close>
  "num_div a b = (case (a, b) of (NInt m, NInt n) \<Rightarrow>
       if n = 0 then Inl ZeroDivisionError
       else (case to_dbl (of_int m / of_int n) of PFin x \<Rightarrow> Inr (NFlt (PFin x)) | _ \<Rightarrow> Inl OverflowError)
     | _ \<Rightarrow> rbind (num_float a) (\<lambda>x. rbind (num_float b) (\<lambda>y. rbind (of_option ZeroDivisionError (fl_div x y)) (\<lambda>z. Inr (NFlt z)))))"

fun num_abs :: "num \<Rightarrow> num" where
  "num_abs (NInt n) = NInt \<bar>n\<bar>"
| "num_abs (NFlt x) = NFlt (fl_abs x)"

fun num_exact :: "num \<Rightarrow> pyfloat" where
  \<comment> \<open>the value compared, which need not be a double\<close>
  "num_exact (NInt n) = PFin (of_int n)"
| "num_exact (NFlt x) = x"

definition num_lt :: "num \<Rightarrow> num \<Rightarrow> bool" where "num_lt a b \<longleftrightarrow> fl_lt (num_exact a) (num_exact b)"
definition num_le :: "num \<Rightarrow> num \<Rightarrow> bool" where "num_le a b \<longleftrightarrow> fl_le (num_exact a) (num_exact b)"

definition num_max :: "num \<Rightarrow> num \<Rightarrow> num" where
  \<comment> \<open>\<open>max(a, b)\<close>\<close>
  "num_max a b = (if num_lt a b then b else a)"

definition far :: "num \<Rightarrow> num \<Rightarrow> pyfloat \<Rightarrow> bool result" where
  \<comment> \<open>\<open>abs(a - b) > eps\<close>\<close>
  "far a b eps = rbind (num_sub a b) (\<lambda>d. Inr (num_lt (NFlt eps) (num_abs d)))"

section \<open>sum\<close>

definition in_long :: "int \<Rightarrow> bool" where
  "in_long n \<longleftrightarrow> - (2 ^ 63) \<le> n \<and> n < 2 ^ 63"

definition compensated :: "pyfloat \<Rightarrow> pyfloat \<Rightarrow> pyfloat" where
  "compensated s c = (if c \<noteq> PFin 0 \<and> is_finite c then fl_add s c else s)"

fun sum_plain :: "num \<Rightarrow> num list \<Rightarrow> num result" where
  "sum_plain acc [] = Inr acc"
| "sum_plain acc (x # xs) = rbind (num_add acc x) (\<lambda>a. sum_plain a xs)"

fun sum_floats :: "pyfloat \<Rightarrow> pyfloat \<Rightarrow> num list \<Rightarrow> num result" where
  \<comment> \<open>the running sum and its compensation; a machine integer is added without one\<close>
  "sum_floats s c [] = Inr (NFlt (compensated s c))"
| "sum_floats s c (NFlt x # xs) = (let t = fl_add s x;
     d = (if fl_le (fl_abs x) (fl_abs s) then fl_add (fl_sub s t) x else fl_add (fl_sub x t) s)
     in sum_floats t (fl_add c d) xs)"
| "sum_floats s c (NInt n # xs) = (if in_long n then sum_floats (fl_add s (to_dbl (of_int n))) c xs
     else rbind (num_add (NFlt (compensated s c)) (NInt n)) (\<lambda>a. sum_plain a xs))"

fun sum_ints :: "int \<Rightarrow> num list \<Rightarrow> num result" where
  "sum_ints acc [] = Inr (NInt acc)"
| "sum_ints acc (NInt n # xs) = (if in_long n \<and> in_long (acc + n) then sum_ints (acc + n) xs
     else sum_plain (NInt (acc + n)) xs)"
| "sum_ints acc (NFlt x # xs) = rbind (num_add (NInt acc) (NFlt x)) (\<lambda>a. case a of NFlt s \<Rightarrow> sum_floats s (PFin 0) xs
     | NInt n \<Rightarrow> sum_plain a xs)"

definition py_sum :: "num list \<Rightarrow> num result" where
  "py_sum xs = sum_ints 0 xs"

lemma sum_floats_loop:
  "sum_floats s c (map NFlt xs) = Inr (NFlt (case sum_loop s c xs of (t, d) \<Rightarrow> compensated t d))"
  by (induction xs arbitrary: s c) (simp_all add: Let_def)

lemma far_floats: "far (NFlt x) (NFlt y) eps = Inr (fl_lt eps (fl_abs (fl_sub x y)))"
  by (simp add: far_def num_sub_def num_op_def num_lt_def)

end
