(* ===== verification/Reconcile.thy ===== *)
theory Reconcile
  imports PaperConfig PyNum
begin

text \<open>
  \<open>quantbot/paper/reconcile.py\<close>: the structural reconciliation of the persisted ledgers. The output
  directory is a map from file names to what is there. A failure message is reduced to the rule that
  failed and the row it names.
\<close>

type_synonym dir = "string \<Rightarrow> fs_entry"

datatype failure = Failure string string
datatype gate_error = BadConfig | Crash py_error

section \<open>Schemas\<close>

definition any_row :: schema where
  "any_row = \<lparr>sc_required = [], sc_numeric = [], sc_nonneg = [], sc_positive = [], sc_nonneg_ints = [], sc_strings = [],
     sc_timestamps = [], sc_str_lists = [], sc_bools = [], sc_enums = []\<rparr>"

definition LEDGER_JSONL_SCHEMAS :: "(string \<times> schema) list" where
  "LEDGER_JSONL_SCHEMAS = [
    (''paper_fills.jsonl'', any_row\<lparr>
      sc_required := [''fill_id'', ''bar_commit_id'', ''signal_bar_ts'', ''fill_ts'', ''symbol'', ''side'', ''kind'', ''qty'',
        ''open_price'', ''fill_price'', ''slippage_bps'', ''fee'', ''backfill''],
      sc_positive := [''qty'', ''open_price'', ''fill_price''], sc_nonneg := [''slippage_bps'', ''fee''],
      sc_strings := [''fill_id'', ''symbol''], sc_timestamps := [''signal_bar_ts'', ''fill_ts''], sc_bools := [''backfill''],
      sc_enums := [(''side'', [''BUY'', ''SELL'']), (''kind'', [''entry'', ''exit''])]\<rparr>),
    (''paper_trades.jsonl'', any_row\<lparr>
      sc_required := [''trade_id'', ''bar_commit_id'', ''symbol'', ''entry_fill_id'', ''exit_fill_id'', ''entry_bar_ts'',
        ''exit_bar_ts'', ''qty'', ''entry_price'', ''exit_price'', ''gross_pnl'', ''fees'', ''funding'', ''net_pnl'', ''hold_bars'', ''backfill''],
      sc_positive := [''qty'', ''entry_price'', ''exit_price''], sc_numeric := [''gross_pnl'', ''funding'', ''net_pnl''],
      sc_nonneg := [''fees''], sc_nonneg_ints := [''hold_bars''],
      sc_strings := [''trade_id'', ''symbol'', ''entry_fill_id'', ''exit_fill_id''],
      sc_timestamps := [''entry_bar_ts'', ''exit_bar_ts''], sc_bools := [''backfill'']\<rparr>),
    (''paper_funding.jsonl'', any_row\<lparr>
      sc_required := [''funding_id'', ''bar_ts'', ''bar_commit_id'', ''symbol'', ''window_start'', ''window_end'', ''notional_usd'',
        ''funding_rate'', ''funding_events'', ''rate_available'', ''funding_amount''],
      sc_positive := [''notional_usd''], sc_numeric := [''funding_rate'', ''funding_amount''],
      sc_nonneg_ints := [''funding_events''], sc_strings := [''funding_id'', ''symbol''],
      sc_timestamps := [''bar_ts'', ''window_start'', ''window_end''], sc_bools := [''rate_available'']\<rparr>),
    (''paper_positions.jsonl'', any_row\<lparr>
      sc_required := [''bar_ts'', ''bar_commit_id'', ''open_symbols'', ''num_open'', ''gross_exposure_usd''],
      sc_nonneg := [''gross_exposure_usd''], sc_nonneg_ints := [''num_open''], sc_timestamps := [''bar_ts''],
      sc_str_lists := [''open_symbols'']\<rparr>),
    (''paper_equity.jsonl'', any_row\<lparr>
      sc_required := [''bar_ts'', ''bar_commit_id'', ''realized_gross_pnl'', ''unrealized_pnl'', ''funding_cum'', ''fees_cum'',
        ''equity'', ''drawdown'', ''num_open''],
      sc_numeric := [''realized_gross_pnl'', ''unrealized_pnl'', ''funding_cum'', ''fees_cum'', ''equity''],
      sc_nonneg := [''drawdown''], sc_nonneg_ints := [''num_open''], sc_timestamps := [''bar_ts'']\<rparr>),
    (''paper_signal_snapshots.jsonl'', any_row\<lparr>
      sc_required := [''snapshot_id'', ''bar_ts'', ''bar_commit_id'', ''bar_index'', ''active_symbols'', ''portfolio_heat'',
        ''heat_cap_triggered'', ''weighted_return'', ''source_observation_digest'', ''source_observation_mtime'', ''run_ts'', ''backfill''],
      sc_numeric := [''portfolio_heat'', ''weighted_return'', ''source_observation_mtime''], sc_nonneg_ints := [''bar_index''],
      sc_strings := [''snapshot_id'', ''source_observation_digest''], sc_timestamps := [''bar_ts'', ''run_ts''],
      sc_str_lists := [''active_symbols''], sc_bools := [''heat_cap_triggered'', ''backfill'']\<rparr>)]"

definition LEDGER_JSONL_FILES :: "string list" where
  "LEDGER_JSONL_FILES = map fst LEDGER_JSONL_SCHEMAS"

definition schema_of :: "string \<Rightarrow> schema" where
  "schema_of fname = (case map_of LEDGER_JSONL_SCHEMAS fname of Some sc \<Rightarrow> sc | None \<Rightarrow> any_row)"

definition read_ledger_validated :: "dir \<Rightarrow> string \<Rightarrow> ledger_error + row list" where
  "read_ledger_validated dir fname = read_jsonl_validated (schema_of fname) (dir fname)"

definition caught :: "ledger_error \<Rightarrow> bool" where
  \<comment> \<open>\<open>except (LedgerCorruptionError, OSError)\<close>\<close>
  "caught e \<longleftrightarrow> (case e of Corrupt _ \<Rightarrow> True | Raised x \<Rightarrow> x = OSError)"

section \<open>Tolerances and access\<close>

definition EPS :: pyfloat where "EPS = to_dbl (1 / 10 ^ 6)"
definition REDERIVE_EPS :: pyfloat where "REDERIVE_EPS = to_dbl (1 / 10 ^ 4)"
definition DRAWDOWN_EPS :: pyfloat where "DRAWDOWN_EPS = to_dbl (1 / 10 ^ 6)"
definition EXPOSURE_EPS :: pyfloat where "EXPOSURE_EPS = to_dbl (1 / 10 ^ 2)"

definition item :: "row \<Rightarrow> string \<Rightarrow> json result" where
  \<comment> \<open>\<open>row[key]\<close>\<close>
  "item r k = lookup r k"

definition num_item :: "row \<Rightarrow> string \<Rightarrow> num result" where
  "num_item r k = rbind (item r k) num_of"

definition str_item :: "row \<Rightarrow> string \<Rightarrow> string result" where
  "str_item r k = rbind (item r k) (\<lambda>v. case v of JStr s \<Rightarrow> Inr s | _ \<Rightarrow> Inl TypeError)"

definition named :: "row \<Rightarrow> string \<Rightarrow> string \<Rightarrow> failure" where
  \<comment> \<open>a failure that names the row by its id\<close>
  "named r id_key rule = Failure rule (py_str (get r id_key))"

definition flag :: "bool \<Rightarrow> failure \<Rightarrow> failure list" where
  "flag b f = (if b then [f] else [])"

definition collect :: "('a \<Rightarrow> failure list result) \<Rightarrow> 'a list \<Rightarrow> failure list result" where
  "collect f xs = rbind (rmap f xs) (\<lambda>fss. Inr (concat fss))"

section \<open>Ids and commit ids\<close>

definition valid_commit_id :: "json \<Rightarrow> bool" where
  "valid_commit_id v \<longleftrightarrow> (case v of JStr s \<Rightarrow> lower_hex 16 s | _ \<Rightarrow> False)"

fun dups_from :: "string list \<Rightarrow> string list \<Rightarrow> string list" where
  "dups_from seen [] = []"
| "dups_from seen (v # vs) = (if v \<in> set seen then [v] else []) @ dups_from (v # seen) vs"

definition dup_ids :: "row list \<Rightarrow> string \<Rightarrow> string list" where
  "dup_ids rows key = dups_from [] (map (\<lambda>r. py_str (get r key)) rows)"

record ledgers =
  lg_fills :: "row list"
  lg_trades :: "row list"
  lg_equity :: "row list"
  lg_funding :: "row list"
  lg_positions :: "row list"
  lg_snaps :: "row list"
  lg_summary :: row

definition unique_checks :: "ledgers \<Rightarrow> failure list" where
  "unique_checks lg = concat (map (\<lambda>(rows, key, name). flag (dup_ids rows key \<noteq> []) (Failure (name @ '' duplicate'') key))
     [(lg_fills lg, ''fill_id'', ''fills''), (lg_trades lg, ''trade_id'', ''trades''), (lg_funding lg, ''funding_id'', ''funding''),
      (lg_equity lg, ''bar_ts'', ''equity''), (lg_positions lg, ''bar_ts'', ''positions''), (lg_snaps lg, ''snapshot_id'', ''snapshots'')])"

definition snapshot_checks :: "ledgers \<Rightarrow> failure list" where
  "snapshot_checks lg = (let snap_ts = map (\<lambda>s. get s ''bar_ts'') (lg_snaps lg); equity_ts = map (\<lambda>e. get e ''bar_ts'') (lg_equity lg) in
     flag (dup_ids (lg_snaps lg) ''bar_ts'' \<noteq> []) (Failure ''snapshots duplicate'' ''bar_ts'')
     @ concat (map (\<lambda>e. flag (get e ''bar_ts'' \<notin> set snap_ts) (named e ''bar_ts'' ''equity without snapshot'')) (lg_equity lg))
     @ concat (map (\<lambda>s. flag (get s ''bar_ts'' \<notin> set equity_ts) (named s ''snapshot_id'' ''orphan snapshot'')) (lg_snaps lg))
     @ concat (map (\<lambda>s. flag (\<not> valid_commit_id (get s ''bar_commit_id'')) (named s ''snapshot_id'' ''snapshot commit id'')) (lg_snaps lg)))"

definition commit_by_bar :: "row list \<Rightarrow> (json, json) dict" where
  "commit_by_bar snaps = fold (\<lambda>s d. dict_set (get s ''bar_ts'') (get s ''bar_commit_id'') d) snaps []"

definition commit_check :: "(json, json) dict \<Rightarrow> string \<Rightarrow> string \<Rightarrow> row \<Rightarrow> failure list" where
  "commit_check commits bar_key id_key r = (let got = get r ''bar_commit_id'' in
     flag (\<not> valid_commit_id got) (named r id_key ''row commit id'')
     @ (case dict_get commits (get r bar_key) of None \<Rightarrow> [named r id_key ''row without snapshot'']
        | Some expected \<Rightarrow> flag (valid_commit_id got \<and> valid_commit_id expected \<and> got \<noteq> expected) (named r id_key ''commit ids disagree'')))"

definition commit_checks :: "ledgers \<Rightarrow> failure list" where
  "commit_checks lg = (let commits = commit_by_bar (lg_snaps lg) in
     concat (map (\<lambda>(rows, bar_key, id_key). concat (map (commit_check commits bar_key id_key) rows))
     [(lg_fills lg, ''signal_bar_ts'', ''fill_id''), (lg_trades lg, ''exit_bar_ts'', ''trade_id''), (lg_funding lg, ''bar_ts'', ''funding_id''),
      (lg_positions lg, ''bar_ts'', ''bar_ts''), (lg_equity lg, ''bar_ts'', ''bar_ts'')]))"

section \<open>Fills\<close>

definition backfill_check :: "instant \<Rightarrow> row \<Rightarrow> failure list" where
  "backfill_check start f = flag (get f ''backfill'' \<noteq> JBool False) (named f ''fill_id'' ''backfill'')
     @ flag (case parse_bar (get f ''fill_ts'') of Inl _ \<Rightarrow> True | Inr t \<Rightarrow> t < start) (named f ''fill_id'' ''fill before start'')"

definition fill_check :: "pyfloat \<Rightarrow> row \<Rightarrow> failure list result" where
  "fill_check fee f = (let side = get f ''side''; kind = get f ''kind'' in
     rbind (num_of (obj_get f ''qty'' (JInt 0))) (\<lambda>qty. rbind (num_item f ''fill_price'') (\<lambda>price.
     rbind (num_mul price qty) (\<lambda>n. rbind (num_mul n (NFlt fee)) (\<lambda>n. rbind (num_div n (NFlt (PFin 10000))) (\<lambda>expected.
     rbind (num_item f ''fee'') (\<lambda>stored. rbind (far expected stored REDERIVE_EPS) (\<lambda>wrong.
     Inr (flag ((kind = JStr ''entry'' \<and> side \<noteq> JStr ''BUY'') \<or> (kind = JStr ''exit'' \<and> side \<noteq> JStr ''SELL'')) (named f ''fill_id'' ''side/kind'')
       @ flag (num_le qty (NInt 0)) (named f ''fill_id'' ''qty'')
       @ flag wrong (named f ''fill_id'' ''fee''))))))))))"

section \<open>Trades\<close>

definition price_check :: "row list \<Rightarrow> row \<Rightarrow> string \<times> string \<Rightarrow> failure list result" where
  \<comment> \<open>the price of the last fill with the referenced id\<close>
  "price_check fills t ref = (case ref of (fill_key, price_key) \<Rightarrow>
     (case find (\<lambda>f. get f ''fill_id'' = get t fill_key) (rev fills) of None \<Rightarrow> Inr []
      | Some f \<Rightarrow> if get f ''fill_price'' = JNull then Inr []
         else rbind (num_of (get f ''fill_price'')) (\<lambda>p. rbind (num_of (obj_get t price_key (JFloat (PFin 0)))) (\<lambda>q.
           rbind (far p q EPS) (\<lambda>wrong. Inr (flag wrong (named t ''trade_id'' price_key)))))))"

definition trade_check :: "row list \<Rightarrow> row \<Rightarrow> failure list result" where
  "trade_check fills t = rbind (num_item t ''exit_price'') (\<lambda>exit. rbind (num_item t ''entry_price'') (\<lambda>entry.
     rbind (num_sub exit entry) (\<lambda>move. rbind (num_item t ''qty'') (\<lambda>qty. rbind (num_mul move qty) (\<lambda>expect_gross.
     rbind (num_item t ''gross_pnl'') (\<lambda>gross. rbind (far expect_gross gross REDERIVE_EPS) (\<lambda>bad_gross.
     rbind (num_item t ''fees'') (\<lambda>fees. rbind (num_sub gross fees) (\<lambda>n. rbind (num_item t ''funding'') (\<lambda>funding.
     rbind (num_sub n funding) (\<lambda>expect_net. rbind (num_item t ''net_pnl'') (\<lambda>net. rbind (far expect_net net EPS) (\<lambda>bad_net.
     rbind (num_of (obj_get t ''hold_bars'' (JInt 0))) (\<lambda>hold.
     rbind (collect (price_check fills t) [(''entry_fill_id'', ''entry_price''), (''exit_fill_id'', ''exit_price'')]) (\<lambda>prices.
     Inr (flag bad_gross (named t ''trade_id'' ''gross'') @ flag bad_net (named t ''trade_id'' ''net'')
       @ flag (num_lt hold (NInt 1)) (named t ''trade_id'' ''hold'')
       @ concat (map (\<lambda>ref. flag (get t ref \<notin> set (map (\<lambda>f. get f ''fill_id'') fills)) (named t ''trade_id'' ref))
           [''entry_fill_id'', ''exit_fill_id''])
       @ prices))))))))))))))))"

section \<open>Equity and funding\<close>

definition equity_check :: "num \<Rightarrow> row \<Rightarrow> num option \<times> num \<Rightarrow> (failure list \<times> num option \<times> num) result" where
  \<comment> \<open>one row, after the previous fees and the peak so far\<close>
  "equity_check initial e st = (case st of (prev_fees, peak) \<Rightarrow>
     rbind (num_item e ''realized_gross_pnl'') (\<lambda>realized. rbind (num_add initial realized) (\<lambda>n.
     rbind (num_item e ''fees_cum'') (\<lambda>fees. rbind (num_sub n fees) (\<lambda>n.
     rbind (num_item e ''funding_cum'') (\<lambda>funding. rbind (num_sub n funding) (\<lambda>n.
     rbind (num_item e ''unrealized_pnl'') (\<lambda>unrealized. rbind (num_add n unrealized) (\<lambda>recomputed.
     rbind (num_item e ''equity'') (\<lambda>equity. rbind (far recomputed equity (to_dbl (1 / 10 ^ 4))) (\<lambda>mismatch.
     rbind (num_item e ''drawdown'') (\<lambda>dd. let peak' = num_max peak equity in
     rbind (if num_lt (NInt 0) peak' then rbind (num_sub peak' equity) (\<lambda>n. num_div n peak') else Inr (NFlt (PFin 0))) (\<lambda>expect_dd.
     rbind (far expect_dd dd DRAWDOWN_EPS) (\<lambda>bad_dd.
     rbind (case prev_fees of None \<Rightarrow> Inr False | Some p \<Rightarrow> rbind (num_add fees (NFlt EPS)) (\<lambda>n. Inr (num_lt n p))) (\<lambda>decreased.
     Inr (flag mismatch (named e ''bar_ts'' ''equity mismatch'')
       @ flag (\<not> (num_le (NFlt (fl_sub (PFin 0) EPS)) dd \<and> num_le dd (NFlt (fl_add (PFin 1) EPS)))) (named e ''bar_ts'' ''drawdown range'')
       @ flag bad_dd (named e ''bar_ts'' ''drawdown'') @ flag decreased (named e ''bar_ts'' ''fees_cum decreased''),
       Some fees, peak'))))))))))))))))"

fun equity_checks :: "num \<Rightarrow> row list \<Rightarrow> num option \<times> num \<Rightarrow> failure list result" where
  "equity_checks initial [] st = Inr []"
| "equity_checks initial (e # es) st = rbind (equity_check initial e st) (\<lambda>(fs, st').
     rbind (equity_checks initial es st') (\<lambda>gs. Inr (fs @ gs)))"

definition funding_check :: "row \<Rightarrow> failure list result" where
  "funding_check f = rbind (item f ''rate_available'') (\<lambda>available.
     rbind (if py_truthy available then rbind (num_item f ''notional_usd'') (\<lambda>n. rbind (num_item f ''funding_rate'') (num_mul n))
       else Inr (NFlt (PFin 0))) (\<lambda>expected.
     rbind (num_item f ''funding_amount'') (\<lambda>amount. rbind (far expected amount REDERIVE_EPS) (\<lambda>wrong.
     Inr (flag wrong (named f ''funding_id'' ''funding_amount''))))))"

definition amount_of :: "string \<Rightarrow> row \<Rightarrow> num result" where
  "amount_of field r = num_of (obj_get r field (JFloat (PFin 0)))"

definition funding_total_check :: "row list \<Rightarrow> row list \<Rightarrow> failure list result" where
  "funding_total_check funding equity = (if equity = [] then Inr []
     else rbind (rbind (rmap (amount_of ''funding_amount'') funding) py_sum) (\<lambda>total.
       rbind (num_item (last equity) ''funding_cum'') (\<lambda>cum. rbind (far total cum (to_dbl (1 / 10 ^ 4))) (\<lambda>wrong.
       Inr (flag wrong (Failure ''funding sum'' []))))))"

section \<open>Positions\<close>

definition of_kind :: "string \<Rightarrow> row list \<Rightarrow> row list" where
  "of_kind kind fills = filter (\<lambda>f. get f ''kind'' = JStr kind) fills"

definition fill_count :: "row list \<Rightarrow> json \<Rightarrow> nat" where
  "fill_count fills symbol = length (filter (\<lambda>f. get f ''symbol'' = symbol) fills)"

definition open_book :: "row list \<Rightarrow> string list result" where
  \<comment> \<open>the symbols with more entries than exits, sorted\<close>
  "open_book fills = rbind (rmap (\<lambda>f. str_item f ''symbol'') (of_kind ''entry'' fills)) (\<lambda>symbols.
     Inr (sorted_set (filter (\<lambda>s. fill_count (of_kind ''exit'' fills) (JStr s) < fill_count (of_kind ''entry'' fills) (JStr s)) symbols)))"

definition entry_notional :: "row list \<Rightarrow> string \<Rightarrow> num result" where
  \<comment> \<open>of the last entry fill of a symbol\<close>
  "entry_notional fills symbol = (case find (\<lambda>f. get f ''symbol'' = JStr symbol) (rev (of_kind ''entry'' fills)) of
       None \<Rightarrow> Inl (KeyError symbol)
     | Some f \<Rightarrow> rbind (num_item f ''fill_price'') (\<lambda>price. rbind (num_item f ''qty'') (num_mul price)))"

definition position_row_check :: "row list \<Rightarrow> row list \<Rightarrow> row \<Rightarrow> failure list result" where
  "position_row_check fills equity p = rbind (str_item p ''bar_ts'') (\<lambda>ts.
     rbind (rmap (\<lambda>f. rbind (str_item f ''signal_bar_ts'') (\<lambda>t. Inr (t, f))) fills) (\<lambda>timed.
     let before = map snd (filter (\<lambda>(t, f). t < ts) timed) in
     rbind (open_book before) (\<lambda>book. rbind (item p ''open_symbols'') (\<lambda>symbols. rbind (item p ''num_open'') (\<lambda>num_open.
     let fs = flag (\<not> py_eq symbols (JList (map JStr book))) (named p ''bar_ts'' ''open_symbols'')
       @ flag (\<not> py_eq num_open (JInt (int (length book)))) (named p ''bar_ts'' ''num_open'') in
     (case find (\<lambda>e. get e ''bar_ts'' = JStr ts) (rev equity) of None \<Rightarrow> Inr fs
      | Some e \<Rightarrow> rbind (rbind (rmap (entry_notional before) book) py_sum) (\<lambda>max_notional.
          rbind (num_item p ''gross_exposure_usd'') (\<lambda>exposure. rbind (num_item e ''unrealized_pnl'') (\<lambda>unrealized.
          rbind (num_sub exposure unrealized) (\<lambda>diff. rbind (num_add max_notional (NFlt EXPOSURE_EPS)) (\<lambda>upper.
          Inr (fs @ flag (num_lt diff (NFlt (fl_neg EXPOSURE_EPS)) \<or> num_lt upper diff) (named p ''bar_ts'' ''gross_exposure'')))))))))))))"

definition summary_check :: "row \<Rightarrow> failure list result" where
  "summary_check summary = (if summary = [] then Inr []
     else let closed = obj_get summary ''closed_trades'' (JInt 0); winrate = get summary ''winrate'' in
       rbind (num_of closed) (\<lambda>n.
       Inr (flag (py_eq closed (JInt 0) \<and> winrate \<noteq> JNull) (Failure ''winrate must be null'' [])
         @ flag (num_lt (NInt 0) n \<and> winrate = JNull) (Failure ''winrate must be set'' []))))"

section \<open>Reconciliation\<close>

definition read_ledgers :: "dir \<Rightarrow> ledger_error + ledgers" where
  "read_ledgers dir = (let rd = read_ledger_validated dir in
     rbind (rd ''paper_fills.jsonl'') (\<lambda>fills. rbind (rd ''paper_trades.jsonl'') (\<lambda>trades.
     rbind (rd ''paper_equity.jsonl'') (\<lambda>equity. rbind (rd ''paper_funding.jsonl'') (\<lambda>funding.
     rbind (rd ''paper_positions.jsonl'') (\<lambda>positions. rbind (rd ''paper_signal_snapshots.jsonl'') (\<lambda>snaps.
     rbind (read_summary_obj (dir ''paper_pnl_summary.json'')) (\<lambda>summary.
     Inr \<lparr>lg_fills = fills, lg_trades = trades, lg_equity = equity, lg_funding = funding, lg_positions = positions,
       lg_snaps = snaps, lg_summary = summary\<rparr>))))))))"

definition structural_checks :: "instant \<Rightarrow> pyfloat \<Rightarrow> pyfloat \<Rightarrow> ledgers \<Rightarrow> failure list result" where
  "structural_checks start initial fee lg =
     rbind (collect (fill_check fee) (lg_fills lg)) (\<lambda>fill_fs.
     rbind (collect (trade_check (lg_fills lg)) (lg_trades lg)) (\<lambda>trade_fs.
     rbind (equity_checks (NFlt initial) (lg_equity lg) (None, NFlt initial)) (\<lambda>equity_fs.
     rbind (collect funding_check (lg_funding lg)) (\<lambda>funding_fs.
     rbind (funding_total_check (lg_funding lg) (lg_equity lg)) (\<lambda>total_fs.
     rbind (collect (position_row_check (lg_fills lg) (lg_equity lg)) (lg_positions lg)) (\<lambda>position_fs.
     rbind (summary_check (lg_summary lg)) (\<lambda>summary_fs.
     Inr (unique_checks lg @ snapshot_checks lg @ commit_checks lg @ concat (map (backfill_check start) (lg_fills lg))
       @ fill_fs @ trade_fs @ equity_fs @ funding_fs @ total_fs @ position_fs @ summary_fs))))))))"

definition config_of :: "dir \<Rightarrow> gate_error + row" where
  "config_of dir = (case load_config (dir ''paper_config.json'') of Inr d \<Rightarrow> Inr d
     | Inl ConfigContractError \<Rightarrow> Inl BadConfig | Inl (Escaped e) \<Rightarrow> Inl (Crash e))"

definition crash :: "'a result \<Rightarrow> gate_error + 'a" where
  "crash r = (case r of Inl e \<Rightarrow> Inl (Crash e) | Inr x \<Rightarrow> Inr x)"

definition error_failures :: "ledger_error \<Rightarrow> gate_error + failure list" where
  \<comment> \<open>a corrupt artifact is the one failure returned; any other exception propagates\<close>
  "error_failures e = (if caught e then Inr [Failure ''corrupt'' []]
     else Inl (Crash (case e of Raised x \<Rightarrow> x | Corrupt _ \<Rightarrow> ValueError)))"

definition or_failures :: "ledger_error + 'a \<Rightarrow> ('a \<Rightarrow> gate_error + failure list) \<Rightarrow> gate_error + failure list" where
  "or_failures r k = (case r of Inr x \<Rightarrow> k x | Inl e \<Rightarrow> error_failures e)"

definition reconcile :: "dir \<Rightarrow> gate_error + failure list" where
  "reconcile dir = rbind (config_of dir) (\<lambda>config. rbind (crash (engine_config_of config)) (\<lambda>cfg.
     or_failures (read_ledgers dir) (\<lambda>lg.
     rbind (crash (parse_bar_utc (forward_start_ts cfg))) (\<lambda>start.
     crash (structural_checks start (initial_equity_usd cfg) (fee_bps cfg) lg)))))"

end
