(* ===== verification/ReconcileState.thy ===== *)
theory ReconcileState
  imports Reconcile
begin

text \<open>
  \<open>quantbot/paper/reconcile.py\<close>, second part: the position state against the ledgers, the health gate
  before a run and the integrity gate before a summary with status OK is written.
\<close>

section \<open>The open book of the ledgers\<close>

definition STATE_ACC_EPS :: pyfloat where "STATE_ACC_EPS = to_dbl (1 / 10 ^ 4)"
definition OPEN_POS_EPS :: pyfloat where "OPEN_POS_EPS = to_dbl (1 / 10 ^ 6)"

definition ledger_sum :: "row list \<Rightarrow> string \<Rightarrow> num result" where
  \<comment> \<open>the sum of the values as floats\<close>
  "ledger_sum rows field = rbind (rmap (\<lambda>r. rbind (py_float (obj_get r field (JFloat (PFin 0)))) (\<lambda>x. Inr (NFlt x))) rows) py_sum"

definition ledger_open_position :: "row list \<Rightarrow> row list \<Rightarrow> row list \<Rightarrow> string \<Rightarrow> row result" where
  "ledger_open_position fills funding equity symbol =
     (case find (\<lambda>f. get f ''symbol'' = JStr symbol) (rev (of_kind ''entry'' fills)) of
       None \<Rightarrow> Inl (KeyError symbol)
     | Some entry \<Rightarrow> rbind (str_item entry ''signal_bar_ts'') (\<lambda>entry_ts.
         rbind (rmap (\<lambda>f. rbind (str_item f ''bar_ts'') (\<lambda>t. Inr (t, f))) (filter (\<lambda>f. get f ''symbol'' = JStr symbol) funding)) (\<lambda>timed.
         rbind (rbind (rmap (amount_of ''funding_amount'') (map snd (filter (\<lambda>(t, f). entry_ts < t) timed))) py_sum) (\<lambda>accrued.
         rbind (rmap (\<lambda>e. str_item e ''bar_ts'') equity) (\<lambda>equity_ts.
         Inr [(''entry_fill_id'', get entry ''fill_id''), (''entry_price'', get entry ''fill_price''), (''entry_bar_ts'', JStr entry_ts),
           (''entry_fill_ts'', get entry ''fill_ts''), (''qty'', get entry ''qty''),
           (''funding_accrued'', case accrued of NInt n \<Rightarrow> JInt n | NFlt x \<Rightarrow> JFloat x),
           (''hold_bars'', JInt (int (length (filter (\<lambda>t. entry_ts < t) equity_ts))))])))))"

definition is_number :: "json \<Rightarrow> bool" where
  "is_number v \<longleftrightarrow> (case v of JInt _ \<Rightarrow> True | JFloat _ \<Rightarrow> True | _ \<Rightarrow> False)"

definition number_off :: "json \<Rightarrow> num result \<Rightarrow> pyfloat \<Rightarrow> bool result" where
  \<comment> \<open>not a number, or too far from what is expected\<close>
  "number_off got expected eps = (if \<not> is_number got then Inr True
     else rbind (py_float got) (\<lambda>x. rbind expected (\<lambda>want. far (NFlt x) want eps)))"

definition position_detail_check :: "string \<Rightarrow> row \<Rightarrow> row \<Rightarrow> failure list result" where
  "position_detail_check symbol state_pos ledger_pos = (let
       ids = concat (map (\<lambda>f. flag (py_str (get state_pos f) \<noteq> py_str (get ledger_pos f)) (Failure f symbol))
         [''entry_fill_id'', ''entry_bar_ts'', ''entry_fill_ts'']);
       hold = flag (\<not> py_eq (get state_pos ''hold_bars'') (get ledger_pos ''hold_bars'')) (Failure ''hold_bars'' symbol) in
     rbind (collect (\<lambda>(f, eps). rbind (if is_number (get ledger_pos f)
           then number_off (get state_pos f) (rbind (py_float (get ledger_pos f)) (\<lambda>x. Inr (NFlt x))) eps else Inr True)
         (\<lambda>off. Inr (flag off (Failure f symbol))))
       [(''entry_price'', OPEN_POS_EPS), (''qty'', OPEN_POS_EPS), (''funding_accrued'', STATE_ACC_EPS)]) (\<lambda>numbers.
     Inr (ids @ hold @ numbers)))"

section \<open>The state against the ledgers\<close>

definition latest_bar :: "row list \<Rightarrow> string option result" where
  \<comment> \<open>\<open>max((e["bar_ts"] for e in equity), default=None)\<close>\<close>
  "latest_bar equity = rbind (rmap (\<lambda>e. str_item e ''bar_ts'') equity) (\<lambda>ts. Inr (if ts = [] then None else Some (fold max (tl ts) (hd ts))))"

definition empty_state_checks :: "row \<Rightarrow> pyfloat \<Rightarrow> failure list result" where
  \<comment> \<open>no equity row is committed: the state must be pristine\<close>
  "empty_state_checks state initial = rbind (number_off (get state ''peak_equity'') (Inr (NFlt initial)) STATE_ACC_EPS) (\<lambda>peak_off.
     Inr (flag (obj_get state ''watermark_bar_ts'' (JStr []) \<noteq> JStr []) (Failure ''watermark without equity'' [])
       @ flag (\<not> py_eq (obj_get state ''bars_elapsed'' (JInt 0)) (JInt 0)) (Failure ''bars_elapsed'' [])
       @ flag (py_truthy (obj_get state ''open_positions'' (JObj []))) (Failure ''open_positions'' [])
       @ flag peak_off (Failure ''peak_equity'' [])))"

definition strict_state_invariants ::
    "row \<Rightarrow> row list \<Rightarrow> row list \<Rightarrow> row list \<Rightarrow> row list \<Rightarrow> pyfloat \<Rightarrow> failure list result" where
  "strict_state_invariants state equity trades fills funding initial = (if equity = [] then empty_state_checks state initial
     else let acc = obj_fields (get state ''accumulators''); ps = obj_fields (get state ''open_positions'') in
     rbind (latest_bar equity) (\<lambda>latest.
     rbind (collect (\<lambda>(key, rows, field). rbind (number_off (get acc key) (ledger_sum rows field) STATE_ACC_EPS) (\<lambda>off.
         Inr (flag off (Failure ''accumulator'' key))))
       [(''realized_gross'', trades, ''gross_pnl''), (''fees_cum'', fills, ''fee''), (''funding_cum'', funding, ''funding_amount'')]) (\<lambda>acc_fs.
     rbind (rmap (\<lambda>e. num_item e ''equity'') equity) (\<lambda>equities.
     rbind (number_off (get state ''peak_equity'') (Inr (fold (\<lambda>e m. num_max m e) equities (NFlt initial))) STATE_ACC_EPS) (\<lambda>peak_off.
     rbind (open_book fills) (\<lambda>book.
     rbind (collect (\<lambda>s. case get ps s of JObj sp \<Rightarrow> rbind (ledger_open_position fills funding equity s) (position_detail_check s sp)
         | _ \<Rightarrow> Inr []) (filter (\<lambda>s. s \<in> set book) (sorted_set (dict_keys ps)))) (\<lambda>detail_fs.
     Inr (flag (obj_get state ''watermark_bar_ts'' (JStr []) \<noteq> (case latest of None \<Rightarrow> JNull | Some t \<Rightarrow> JStr t)) (Failure ''watermark'' [])
       @ flag (\<not> py_eq (obj_get state ''bars_elapsed'' (JInt 0)) (JInt (int (length equity)))) (Failure ''bars_elapsed'' [])
       @ acc_fs @ flag peak_off (Failure ''peak_equity'' [])
       @ flag (set (dict_keys ps) \<noteq> set book) (Failure ''open_positions'' []) @ detail_fs))))))))"

definition always_state_checks :: "row \<Rightarrow> row list \<Rightarrow> failure list result" where
  "always_state_checks state equity = (let watermark = obj_get state ''watermark_bar_ts'' (JStr []) in
     rbind (latest_bar equity) (\<lambda>latest. (case latest of None \<Rightarrow> Inr (flag (watermark \<noteq> JStr []) (Failure ''watermark without equity'' []))
       | Some t \<Rightarrow> (case watermark of JStr w \<Rightarrow> Inr (flag (w \<noteq> [] \<and> t < w) (Failure ''watermark ahead'' [])) | _ \<Rightarrow> Inl TypeError))))"

definition reconcile_state_dict ::
    "row option \<Rightarrow> row list \<Rightarrow> row list \<Rightarrow> row list \<Rightarrow> row list \<Rightarrow> bool \<Rightarrow> pyfloat \<Rightarrow> failure list result" where
  "reconcile_state_dict state equity trades fills funding require_committed initial = (case state of
       None \<Rightarrow> Inr (flag (require_committed \<and> equity \<noteq> []) (Failure ''state absent'' []))
     | Some st \<Rightarrow> rbind (always_state_checks st equity) (\<lambda>fs. if \<not> require_committed then Inr fs
         else rbind (strict_state_invariants st equity trades fills funding initial) (\<lambda>gs. Inr (fs @ gs))))"

definition STATE_FILE :: string where "STATE_FILE = ''paper_position_state.json''"

definition reconcile_state_against_ledgers :: "dir \<Rightarrow> bool \<Rightarrow> gate_error + failure list" where
  "reconcile_state_against_ledgers dir require_committed = (let rd = read_ledger_validated dir in
     or_failures (read_state_obj (dir STATE_FILE)) (\<lambda>state. or_failures (rd ''paper_equity.jsonl'') (\<lambda>equity.
     if \<not> require_committed then crash (reconcile_state_dict state equity [] [] [] False (PFin 0))
     else or_failures (rd ''paper_trades.jsonl'') (\<lambda>trades. or_failures (rd ''paper_fills.jsonl'') (\<lambda>fills.
     or_failures (rd ''paper_funding.jsonl'') (\<lambda>funding.
     (case rbind (config_of dir) (\<lambda>config. crash (rbind (item config ''initial_equity_usd'') py_float)) of
         Inl BadConfig \<Rightarrow> Inr [Failure ''config'' []]
       | Inl (Crash e) \<Rightarrow> Inl (Crash e)
       | Inr initial \<Rightarrow> crash (reconcile_state_dict state equity trades fills funding True initial))))))))"

section \<open>The committed bundle\<close>

definition digest_file :: "fs_entry \<Rightarrow> string option" where
  \<comment> \<open>\<open>None\<close>: the file cannot be read\<close>
  "digest_file entry = (case entry of Absent \<Rightarrow> Some ''absent'' | Unopenable \<Rightarrow> None | Bytes b \<Rightarrow> Some (sha256_hex b))"

definition digest_check :: "row \<Rightarrow> string \<Rightarrow> string option \<Rightarrow> failure list" where
  "digest_check digests key actual = (case actual of None \<Rightarrow> [Failure ''cannot digest'' key]
     | Some h \<Rightarrow> flag (get digests key \<noteq> JStr h) (Failure ''digest'' key))"

definition check_provenance_committed :: "dir \<Rightarrow> string option \<Rightarrow> gate_error + failure list" where
  "check_provenance_committed dir ok_summary = or_failures (read_json_obj (dir ''paper_provenance.json'')) (\<lambda>m. Inr (case m of
       None \<Rightarrow> [Failure ''provenance absent'' []]
     | Some prov \<Rightarrow> flag (get prov ''status'' \<noteq> JStr ''OK'') (Failure ''provenance status'' [])
         @ (case get prov ''output_digests'' of
              JObj digests \<Rightarrow> (case ok_summary of None \<Rightarrow> []
                  | Some path \<Rightarrow> digest_check digests ''paper_pnl_summary.json'' (digest_file (dir path)))
                @ digest_check digests STATE_FILE (digest_file (dir STATE_FILE))
            | _ \<Rightarrow> [Failure ''output_digests'' []])))"

definition read_failures :: "(ledger_error + 'a) list \<Rightarrow> gate_error + failure list" where
  \<comment> \<open>every artifact is tried; the corrupt ones are the failures\<close>
  "read_failures rs = rbind (rmap (\<lambda>r. case r of Inr _ \<Rightarrow> Inr [] | Inl e \<Rightarrow> error_failures e) rs) (\<lambda>fss. Inr (concat fss))"

definition prior_ok :: "dir \<Rightarrow> string list \<Rightarrow> string option" where
  \<comment> \<open>the last prior summary that is readable with status OK\<close>
  "prior_ok dir paths = find (\<lambda>p. case read_summary_obj (dir p) of Inr s \<Rightarrow> get s ''status'' = JStr ''OK'' | Inl _ \<Rightarrow> False) (rev paths)"

definition check_existing_ledgers :: "dir \<Rightarrow> string list \<Rightarrow> gate_error + failure list" where
  "check_existing_ledgers dir prior_paths = (let paths = (if prior_paths = [] then [''paper_pnl_summary.json''] else prior_paths) in
     rbind (read_failures (map (read_ledger_validated dir) LEDGER_JSONL_FILES)) (\<lambda>ledger_fs.
     rbind (read_failures (map (\<lambda>p. read_summary_obj (dir p)) paths)) (\<lambda>summary_fs.
     rbind (read_failures [read_state_obj (dir STATE_FILE)]) (\<lambda>state_fs.
     if ledger_fs @ summary_fs @ state_fs \<noteq> [] then Inr (ledger_fs @ summary_fs @ state_fs)
     else let ok = prior_ok dir paths in
       rbind (reconcile dir) (\<lambda>structural.
       rbind (reconcile_state_against_ledgers dir (ok \<noteq> None)) (\<lambda>state.
       rbind (if ok = None then Inr [] else check_provenance_committed dir ok) (\<lambda>prov.
       Inr (structural @ state @ prov))))))))"

definition check_ok_commit_semantics :: "dir \<Rightarrow> string \<Rightarrow> string \<Rightarrow> string \<Rightarrow> gate_error + failure list" where
  "check_ok_commit_semantics dir summary_bytes state_bytes receipt_bytes = (case utf8_decode summary_bytes of
       BadUtf8 \<Rightarrow> Inr [Failure ''summary'' []]
     | Text text \<Rightarrow> (case json_loads text of
         Inl e \<Rightarrow> if e = LoneSurrogate then Inl (Crash OutOfModel) else Inr [Failure ''summary'' []]
       | Inr (JObj summary) \<Rightarrow> (case validate_summary_shape summary of
           Inl (Corrupt _) \<Rightarrow> Inr [Failure ''summary'' []]
         | Inl (Raised e) \<Rightarrow> if e = ValueError then Inr [Failure ''summary'' []] else Inl (Crash e)
         | Inr _ \<Rightarrow> (let status_fs = flag (get summary ''status'' \<noteq> JStr ''OK'') (Failure ''summary status'' []) in
             (case read_json_obj (dir ''paper_provenance.json'') of
               Inl e \<Rightarrow> rbind (error_failures e) (\<lambda>fs. Inr (status_fs @ fs))
             | Inr None \<Rightarrow> Inr (status_fs @ [Failure ''provenance missing'' []])
             | Inr (Some prov) \<Rightarrow> Inr (status_fs @ (case get prov ''output_digests'' of
                 JObj digests \<Rightarrow> digest_check digests ''paper_pnl_summary.json'' (Some (sha256_hex summary_bytes))
                   @ digest_check digests STATE_FILE (Some (sha256_hex state_bytes))
                   @ digest_check digests ''paper_receipt.md'' (Some (sha256_hex receipt_bytes))
                   @ (case dir ''paper_receipt.md'' of Bytes b \<Rightarrow> flag (b \<noteq> receipt_bytes) (Failure ''receipt'' [])
                      | _ \<Rightarrow> [Failure ''receipt unreadable'' []])
               | _ \<Rightarrow> [Failure ''output_digests'' []])))))
       | Inr _ \<Rightarrow> Inl (Crash AttributeError)))"

definition final_integrity_gate :: "dir \<Rightarrow> row \<Rightarrow> pyfloat \<Rightarrow> string \<Rightarrow> string \<Rightarrow> string \<Rightarrow> gate_error + failure list" where
  "final_integrity_gate dir state initial summary_bytes state_bytes receipt_bytes = (let rd = read_ledger_validated dir in
     or_failures (rd ''paper_fills.jsonl'') (\<lambda>fills. or_failures (rd ''paper_trades.jsonl'') (\<lambda>trades.
     or_failures (rd ''paper_equity.jsonl'') (\<lambda>equity. or_failures (rd ''paper_funding.jsonl'') (\<lambda>funding.
     or_failures (rd ''paper_positions.jsonl'') (\<lambda>_. or_failures (rd ''paper_signal_snapshots.jsonl'') (\<lambda>_.
     rbind (reconcile dir) (\<lambda>structural.
     rbind (crash (reconcile_state_dict (Some state) equity trades fills funding True initial)) (\<lambda>state_fs.
     rbind (check_ok_commit_semantics dir summary_bytes state_bytes receipt_bytes) (\<lambda>commit_fs.
     Inr (structural @ state_fs @ commit_fs)))))))))))"

end
