(* ===== verification/LedgerAppend.thy ===== *)
theory LedgerAppend
  imports LedgerIO JsonText
begin

text \<open>
  Appending to a JSONL ledger (\<open>existing_ids\<close>, \<open>append_rows\<close>, \<open>append_new\<close> of
  \<open>quantbot/paper/ledger.py\<close>). A file is its bytes; appending returns the file as it is afterwards.
\<close>

section \<open>Operations\<close>

definition row_id :: "string \<Rightarrow> row \<Rightarrow> ledger_error + string" where
  "row_id id_field r = (case dict_get r id_field of None \<Rightarrow> Inl (Raised (KeyError id_field)) | Some v \<Rightarrow> Inr (py_str v))"

definition existing_ids :: "fs_entry \<Rightarrow> string \<Rightarrow> ledger_error + string list" where
  "existing_ids entry id_field = rbind (read_jsonl entry) (\<lambda>rows.
     rmap (row_id id_field) (filter (\<lambda>r. has_field r id_field) rows))"

definition row_text :: "row \<Rightarrow> string" where
  "row_text r = json_dumps spaced 0 (JObj r)"

definition row_line :: "row \<Rightarrow> string" where
  "row_line r = row_text r @ [CHR 0x0A]"

definition append_rows :: "fs_entry \<Rightarrow> row list \<Rightarrow> ledger_error + (fs_entry \<times> nat)" where
  "append_rows entry rows = (if rows = [] then Inr (entry, 0)
     else let text = concat (map row_line rows) in
       (case entry of Unopenable \<Rightarrow> Inl (Raised OSError) | Absent \<Rightarrow> Inr (Bytes text, length rows)
        | Bytes bytes \<Rightarrow> Inr (Bytes (bytes @ text), length rows)))"

definition append_new :: "fs_entry \<Rightarrow> row list \<Rightarrow> string \<Rightarrow> ledger_error + (fs_entry \<times> nat)" where
  "append_new entry rows id_field = rbind (existing_ids entry id_field) (\<lambda>seen.
     rbind (rmap (row_id id_field) rows) (\<lambda>ids.
     append_rows entry (map snd (filter (\<lambda>(i, r). i \<notin> set seen) (zip ids rows)))))"

section \<open>Reading a ledger that was appended to\<close>

lemma text_line_first: "printable l \<Longrightarrow> text_lines (l @ CHR 0x0A # t) = l # text_lines t"
proof -
  assume "printable l"
  then have "\<And>c. c \<in> set l \<Longrightarrow> \<not> (c = CHR 0x0A \<or> c = CHR 0x0D)" by (auto simp: printable_def list_all_iff)
  then have "takeWhile (\<lambda>c. \<not> (c = CHR 0x0A \<or> c = CHR 0x0D)) (l @ CHR 0x0A # t) = l"
    "dropWhile (\<lambda>c. \<not> (c = CHR 0x0A \<or> c = CHR 0x0D)) (l @ CHR 0x0A # t) = CHR 0x0A # t"
    by (simp_all add: takeWhile_append2 dropWhile_append2)
  then show ?thesis by (subst text_lines.simps) (simp add: Let_def)
qed

definition terminated :: "fs_entry \<Rightarrow> bool" where
  \<comment> \<open>no file, or one whose text is empty or ends with a newline\<close>
  "terminated entry \<longleftrightarrow> (case entry of Absent \<Rightarrow> True | Unopenable \<Rightarrow> False
     | Bytes bytes \<Rightarrow> (case utf8_decode bytes of Text s \<Rightarrow> newline_ended s | _ \<Rightarrow> False))"

lemma row_text_shape: "\<exists>mid. row_text r = CHR ''{'' # mid @ ''}''"
  unfolding row_text_def dumps_object bracketed_def by auto

lemma row_text_printable: "printable (row_text r)"
  unfolding row_text_def printable_def
  by (rule dumps_chars) (simp add: layout_chars_def spaced_def printable_def)

lemma row_text_strip: "py_strip (row_text r) = row_text r" "row_text r \<noteq> []"
proof -
  obtain mid where m: "row_text r = CHR ''{'' # mid @ ''}''" using row_text_shape by blast
  then show "row_text r \<noteq> []" by simp
  have a: "ascii (row_text r)" by (rule printable_ascii[OF row_text_printable])
  have "\<not> is_space (of_char CHR ''{'')" "\<not> is_space (of_char CHR ''}'')" by (simp_all add: is_space_def)
  then have "rev (dropWhile is_space (rev (dropWhile is_space (map of_char (row_text r))))) = map of_char (row_text r)"
    by (simp add: m)
  then show "py_strip (row_text r) = row_text r"
    using str_points_sound[OF ascii_str[OF a]] by (simp only: py_strip_def str_points_ascii[OF a])
qed

lemma row_lines: "text_lines (concat (map row_line rows)) = map row_text rows"
proof (induction rows)
  case (Cons r rows)
  then show ?case using text_line_first[OF row_text_printable, of r "concat (map row_line rows)"]
    by (simp add: row_line_def[of r])
qed (simp add: text_lines.simps)

lemma row_data_lines: "newline_ended s \<Longrightarrow> data_lines (s @ concat (map row_line rows)) = data_lines s @ map row_text rows"
  by (simp add: data_lines_def text_lines_append row_lines o_def row_text_strip filter_id_conv)

lemma parse_row_text: "storable (JObj r) \<Longrightarrow> parse_line (row_text r) = Inr (sorted_row r)"
  using loads_dumps[OF layouts_blank(2), of "JObj r" "[]" 0]
  by (simp add: row_text_def parse_line_def blank_def sorted_row_def del: json_dumps.simps)

lemma parse_row_texts: "list_all (\<lambda>r. storable (JObj r)) rows \<Longrightarrow> rmap parse_line (map row_text rows) = Inr (map sorted_row rows)"
  by (induction rows) (simp_all add: parse_row_text del: storable.simps)

lemma decode_rows:
  assumes "utf8_decode bytes = Text s"
  shows "utf8_decode (bytes @ concat (map row_line rows)) = Text (s @ concat (map row_line rows))"
proof (rule utf8_decode_append[OF assms])
  have "list_all (\<lambda>c. of_char c < (128::nat)) l" if "l \<in> set (map row_line rows)" for l
    using that printable_ascii[OF row_text_printable] unfolding row_line_def ascii_def by auto
  then show "ascii (concat (map row_line rows))" unfolding ascii_def by (rule list_all_concat)
qed

lemma append_read_back:
  assumes "read_jsonl entry = Inr old" "terminated entry" "list_all (\<lambda>r. storable (JObj r)) rows"
  obtains after where "append_rows entry rows = Inr (after, length rows)" "read_jsonl after = Inr (old @ map sorted_row rows)"
    "terminated after"
proof (cases "rows = []")
  case True
  then show ?thesis using that assms by (simp add: append_rows_def)
next
  case False
  let ?t = "concat (map row_line rows)"
  obtain bytes s where b: "entry = Absent \<and> bytes = [] \<or> entry = Bytes bytes" "utf8_decode bytes = Text s" "newline_ended s"
    "rmap parse_line (data_lines s) = Inr old"
    using assms(1,2) that
    by (auto simp: terminated_def read_jsonl_def text_of_def utf8_decode_def newline_ended_def data_lines_def text_lines.simps
      split: fs_entry.splits decoded.splits)
  have "read_jsonl (Bytes (bytes @ ?t)) = Inr (old @ map sorted_row rows)"
    by (simp add: read_jsonl_def text_of_def decode_rows[OF b(2)] row_data_lines[OF b(3)] rmap_append b(4) parse_row_texts[OF assms(3)])
  moreover have "newline_ended (s @ ?t)"
    using False by (cases rows rule: rev_cases) (simp_all add: newline_ended_def row_line_def)
  then have "terminated (Bytes (bytes @ ?t))" by (simp add: terminated_def decode_rows[OF b(2)])
  moreover have "append_rows entry rows = Inr (Bytes (bytes @ ?t), length rows)" using b(1) False by (auto simp: append_rows_def)
  ultimately show ?thesis using that by blast
qed

section \<open>Appending by id\<close>

lemma row_id_Inr: "has_field r f \<Longrightarrow> row_id f r = Inr (py_str (get r f))"
  by (auto simp: row_id_def has_field_def get_def obj_get_def)

lemma row_ids: "list_all (\<lambda>r. has_field r f) rows \<Longrightarrow> rmap (row_id f) rows = Inr (map (\<lambda>r. py_str (get r f)) rows)"
  by (induction rows) (simp_all add: row_id_Inr)

lemma existing_ids_Inr:
  assumes "read_jsonl entry = Inr rows"
  shows "existing_ids entry f = Inr (map (\<lambda>r. py_str (get r f)) (filter (\<lambda>r. has_field r f) rows))"
  using row_ids[of f "filter (\<lambda>r. has_field r f) rows"] by (simp add: existing_ids_def assms list_all_iff)

lemma fresh_rows: "map snd (filter (\<lambda>(i, r). P i) (zip (map g rows) rows)) = filter (\<lambda>r. P (g r)) rows"
  by (induction rows) simp_all

lemma append_new_fresh:
  assumes "existing_ids entry f = Inr seen" "list_all (\<lambda>r. has_field r f) rows"
  shows "append_new entry rows f = append_rows entry (filter (\<lambda>r. py_str (get r f) \<notin> set seen) rows)"
  by (simp add: append_new_def assms(1) row_ids[OF assms(2)] fresh_rows[where P = "\<lambda>i. i \<notin> set seen"])

text \<open>
  C38. Appending by id is exact and idempotent: on a readable ledger whose last line is complete, the
  rows whose id is not there yet are appended in order and read back with their keys sorted, after
  the rows that were there; appending the same rows again changes nothing. (The ids are strings.)
\<close>

theorem ledger_append_idempotent:
  assumes "read_jsonl entry = Inr old" "terminated entry"
    and "list_all (\<lambda>r. storable (JObj r) \<and> (\<exists>i. dict_get r f = Some (JStr i))) rows"
  shows "\<exists>seen after fresh. existing_ids entry f = Inr seen \<and> fresh = filter (\<lambda>r. py_str (get r f) \<notin> set seen) rows
    \<and> append_new entry rows f = Inr (after, length fresh)
    \<and> read_jsonl after = Inr (old @ map sorted_row fresh) \<and> append_new after rows f = Inr (after, 0)"
proof -
  define seen where "seen = map (\<lambda>r. py_str (get r f)) (filter (\<lambda>r. has_field r f) old)"
  define fresh where "fresh = filter (\<lambda>r. py_str (get r f) \<notin> set seen) rows"
  have h: "list_all (\<lambda>r. has_field r f) rows" using assms(3) by (auto simp: list_all_iff has_field_def) (metis map_of_SomeD)
  have e: "existing_ids entry f = Inr seen" using existing_ids_Inr[OF assms(1)] by (simp add: seen_def)
  have "list_all (\<lambda>r. storable (JObj r)) fresh" using assms(3) by (auto simp: fresh_def list_all_iff)
  from append_read_back[OF assms(1,2) this] obtain after
    where a: "append_rows entry fresh = Inr (after, length fresh)" "read_jsonl after = Inr (old @ map sorted_row fresh)" .
  have same: "has_field (sorted_row r) f \<and> py_str (get (sorted_row r) f) = py_str (get r f)" if "r \<in> set fresh" for r
  proof -
    have "r \<in> set rows" using that by (simp add: fresh_def)
    then obtain i where "storable (JObj r)" "dict_get r f = Some (JStr i)" using assms(3) by (auto simp: list_all_iff)
    then show ?thesis using sorted_row_get[of r f] by (simp add: has_field_def get_def obj_get_def)
  qed
  define seen' where "seen' = map (\<lambda>r. py_str (get r f)) (filter (\<lambda>r. has_field r f) (old @ map sorted_row fresh))"
  have e': "existing_ids after f = Inr seen'" using existing_ids_Inr[OF a(2)] by (simp add: seen'_def)
  have "py_str (get r f) \<in> set seen'" if "r \<in> set rows" for r
  proof (cases "py_str (get r f) \<in> set seen")
    case False
    then have "r \<in> set fresh" using that by (simp add: fresh_def)
    then have "sorted_row r \<in> set (filter (\<lambda>r. has_field r f) (old @ map sorted_row fresh))" using same by simp
    then show ?thesis unfolding seen'_def set_map using same[OF \<open>r \<in> set fresh\<close>] by (metis imageI)
  qed (auto simp: seen_def seen'_def)
  then have "filter (\<lambda>r. py_str (get r f) \<notin> set seen') rows = []" by (simp add: filter_empty_conv)
  then have "append_new after rows f = Inr (after, 0)" using append_new_fresh[OF e' h] by (simp add: append_rows_def)
  moreover have "append_new entry rows f = Inr (after, length fresh)" using append_new_fresh[OF e h] a(1) by (simp add: fresh_def)
  ultimately show ?thesis using e a(2) fresh_def by blast
qed

theorem ledger_append_idempotent_witness:
  "\<exists>after. append_new Absent [[(''fill_id'', JStr ''x''), (''bar_ts'', JNull)]] ''fill_id'' = Inr (after, 1)
    \<and> read_jsonl after = Inr [[(''bar_ts'', JNull), (''fill_id'', JStr ''x'')]]
    \<and> append_new after [[(''fill_id'', JStr ''x''), (''bar_ts'', JNull)]] ''fill_id'' = Inr (after, 0)"
proof -
  let ?r = "[(''fill_id'', JStr ''x''), (''bar_ts'', JNull)]"
  have h: "read_jsonl Absent = Inr []" "terminated Absent"
    "list_all (\<lambda>r. storable (JObj r) \<and> (\<exists>i. dict_get r ''fill_id'' = Some (JStr i))) [?r]"
    by (simp_all add: read_jsonl_def terminated_def)
  have "existing_ids Absent ''fill_id'' = Inr []" by (simp add: existing_ids_def read_jsonl_def)
  moreover have "sorted_row ?r = [(''bar_ts'', JNull), (''fill_id'', JStr ''x'')]"
    by (simp add: sorted_row_def Cons_less_Cons less_char_def)
  ultimately show ?thesis using ledger_append_idempotent[OF h] by auto
qed

end
