(* ===== verification/ReconcileSound.thy ===== *)
theory ReconcileSound
  imports ReconcileState LedgerAppend
begin

text \<open>
  What a clean reconciliation and a clean integrity gate mean for the ledgers on disk.
\<close>

section \<open>Duplicates and commits\<close>

lemma dups_from_Nil: "dups_from seen vs = [] \<longleftrightarrow> distinct vs \<and> set vs \<inter> set seen = {}"
  by (induction vs arbitrary: seen) auto

lemma dup_ids_Nil: "dup_ids rows key = [] \<longleftrightarrow> distinct (map (\<lambda>r. py_str (get r key)) rows)"
  by (simp add: dup_ids_def dups_from_Nil)

lemma dup_ids_distinct: "dup_ids rows key = [] \<Longrightarrow> distinct (map (\<lambda>r. get r key) rows)"
proof -
  assume "dup_ids rows key = []"
  then have "distinct (map py_str (map (\<lambda>r. get r key) rows))" by (simp add: dup_ids_Nil o_def)
  then show ?thesis unfolding distinct_map by blast
qed

lemma flag_Nil [simp]: "flag b f = [] \<longleftrightarrow> \<not> b" "[] = flag b f \<longleftrightarrow> \<not> b"
  by (simp_all add: flag_def)

lemma fold_commits:
  "dict_get (fold (\<lambda>s d. dict_set (get s ''bar_ts'') (get s ''bar_commit_id'') d) snaps d) b
    = (case find (\<lambda>s. get s ''bar_ts'' = b) (rev snaps) of Some s \<Rightarrow> Some (get s ''bar_commit_id'') | None \<Rightarrow> dict_get d b)"
proof (induction snaps arbitrary: d)
  case (Cons s snaps)
  show ?case by (simp add: Cons find_append dict_get_set split: option.split)
qed simp

lemma commit_lookup:
  "dict_get (commit_by_bar snaps) b = map_option (\<lambda>s. get s ''bar_commit_id'') (find (\<lambda>s. get s ''bar_ts'' = b) (rev snaps))"
  by (simp add: commit_by_bar_def fold_commits split: option.split)

definition committed :: "row list \<Rightarrow> string \<Rightarrow> row \<Rightarrow> bool" where
  \<comment> \<open>the row of a bar agrees with the one snapshot of that bar\<close>
  "committed snaps bar_key r \<longleftrightarrow> valid_commit_id (get r ''bar_commit_id'')
     \<and> (\<exists>s. s \<in> set snaps \<and> get s ''bar_ts'' = get r bar_key \<and> get s ''bar_commit_id'' = get r ''bar_commit_id''
         \<and> (\<forall>s' \<in> set snaps. get s' ''bar_ts'' = get r bar_key \<longrightarrow> s' = s))"

lemma commit_check_Nil:
  assumes "commit_check (commit_by_bar snaps) bar_key id_key r = []" "distinct (map (\<lambda>s. get s ''bar_ts'') snaps)"
    and "\<forall>s \<in> set snaps. valid_commit_id (get s ''bar_commit_id'')"
  shows "committed snaps bar_key r"
proof -
  obtain s where s: "find (\<lambda>s. get s ''bar_ts'' = get r bar_key) (rev snaps) = Some s"
    using assms(1) by (auto simp: commit_check_def commit_lookup Let_def split: option.splits)
  then have m: "s \<in> set snaps" "get s ''bar_ts'' = get r bar_key"
    unfolding find_Some_iff by (metis length_rev nth_mem set_rev, blast)
  have "valid_commit_id (get r ''bar_commit_id'')" "get s ''bar_commit_id'' = get r ''bar_commit_id''"
    using assms(1,3) m(1) by (auto simp: commit_check_def commit_lookup s Let_def)
  moreover have "s' = s" if "s' \<in> set snaps" "get s' ''bar_ts'' = get r bar_key" for s'
    using assms(2) m that unfolding distinct_map inj_on_def by metis
  ultimately show ?thesis unfolding committed_def using m by blast
qed

section \<open>A clean reconciliation\<close>

lemma error_failures_Nil [simp]: "error_failures e \<noteq> Inr []"
  by (simp add: error_failures_def)

lemma or_failures_Nil: "or_failures r k = Inr [] \<longleftrightarrow> (\<exists>x. r = Inr x \<and> k x = Inr [])"
  by (cases r) (auto simp: or_failures_def error_failures_def)

lemma crash_Inr: "crash r = Inr x \<longleftrightarrow> r = Inr x"
  by (cases r) (auto simp: crash_def)

lemma reconcileE:
  assumes "reconcile dir = Inr []"
  obtains config cfg lg start where "load_config (dir ''paper_config.json'') = Inr config" "engine_config_of config = Inr cfg"
    "read_ledgers dir = Inr lg" "parse_bar_utc (forward_start_ts cfg) = Inr start"
    "structural_checks start (initial_equity_usd cfg) (fee_bps cfg) lg = Inr []"
  using assms that
  by (auto simp: reconcile_def rbind_Inr_iff or_failures_Nil crash_Inr config_of_def split: sum.splits config_fault.splits)

lemma structural_parts:
  assumes "structural_checks start initial fee lg = Inr []"
  shows "unique_checks lg = []" "snapshot_checks lg = []" "commit_checks lg = []"
    "\<forall>f \<in> set (lg_fills lg). backfill_check start f = []"
    "collect (fill_check fee) (lg_fills lg) = Inr []" "collect (trade_check (lg_fills lg)) (lg_trades lg) = Inr []"
    "equity_checks (NFlt initial) (lg_equity lg) (None, NFlt initial) = Inr []"
    "collect (position_row_check (lg_fills lg) (lg_equity lg)) (lg_positions lg) = Inr []"
  using assms by (auto simp: structural_checks_def rbind_Inr_iff)

lemma collect_Nil: "collect f xs = Inr [] \<Longrightarrow> x \<in> set xs \<Longrightarrow> f x = Inr []"
proof (induction xs)
  case (Cons y ys)
  then obtain fs gss where "f y = Inr fs" "rmap f ys = Inr gss" "fs @ concat gss = []"
    by (auto simp: collect_def rbind_Inr_iff)
  then show ?case using Cons by (auto simp: collect_def)
qed simp

lemma trade_refs:
  assumes "trade_check fills t = Inr []"
  shows "get t ''entry_fill_id'' \<in> set (map (\<lambda>f. get f ''fill_id'') fills)"
    "get t ''exit_fill_id'' \<in> set (map (\<lambda>f. get f ''fill_id'') fills)"
  using assms by (auto simp: trade_check_def rbind_Inr_iff)

text \<open>
  C7. A clean reconciliation means the ledgers are an atomic record of the frozen bars: every bar with
  an equity row has exactly one snapshot and one equity row and no snapshot is an orphan; every
  fill, trade, funding, position and equity row carries the well-formed commit id of the one snapshot
  of its bar; ids are unique; the fills of every trade exist; no fill is a backfill or before the
  configured start.
\<close>

theorem reconcile_clean_atomic:
  assumes "reconcile dir = Inr []"
  shows "\<exists>lg. read_ledgers dir = Inr lg
    \<and> (\<lambda>e. get e ''bar_ts'') ` set (lg_equity lg) = (\<lambda>s. get s ''bar_ts'') ` set (lg_snaps lg)
    \<and> (\<forall>(rows, key) \<in> {(lg_fills lg, ''fill_id''), (lg_trades lg, ''trade_id''), (lg_funding lg, ''funding_id''),
         (lg_equity lg, ''bar_ts''), (lg_positions lg, ''bar_ts''), (lg_snaps lg, ''bar_ts'')}. distinct (map (\<lambda>r. get r key) rows))
    \<and> (\<forall>(rows, key) \<in> {(lg_fills lg, ''signal_bar_ts''), (lg_trades lg, ''exit_bar_ts''), (lg_funding lg, ''bar_ts''),
         (lg_positions lg, ''bar_ts''), (lg_equity lg, ''bar_ts'')}. list_all (committed (lg_snaps lg) key) rows)
    \<and> (\<forall>t \<in> set (lg_trades lg). \<exists>e \<in> set (lg_fills lg). \<exists>x \<in> set (lg_fills lg).
         get e ''fill_id'' = get t ''entry_fill_id'' \<and> get x ''fill_id'' = get t ''exit_fill_id'')
    \<and> (\<exists>config cfg start. load_config (dir ''paper_config.json'') = Inr config \<and> engine_config_of config = Inr cfg
         \<and> parse_bar_utc (forward_start_ts cfg) = Inr start
         \<and> (\<forall>f \<in> set (lg_fills lg). get f ''backfill'' = JBool False \<and> (\<exists>t. parse_bar (get f ''fill_ts'') = Inr t \<and> start \<le> t)))"
proof -
  obtain config cfg lg start where r: "load_config (dir ''paper_config.json'') = Inr config" "engine_config_of config = Inr cfg"
    "read_ledgers dir = Inr lg" "parse_bar_utc (forward_start_ts cfg) = Inr start"
    "structural_checks start (initial_equity_usd cfg) (fee_bps cfg) lg = Inr []"
    by (rule reconcileE[OF assms])
  note p = structural_parts[OF r(5)]
  have u: "dup_ids (lg_fills lg) ''fill_id'' = []" "dup_ids (lg_trades lg) ''trade_id'' = []" "dup_ids (lg_funding lg) ''funding_id'' = []"
    "dup_ids (lg_equity lg) ''bar_ts'' = []" "dup_ids (lg_positions lg) ''bar_ts'' = []" "dup_ids (lg_snaps lg) ''bar_ts'' = []"
    using p(1,2) by (simp_all add: unique_checks_def snapshot_checks_def Let_def)
  have s: "\<forall>e \<in> set (lg_equity lg). get e ''bar_ts'' \<in> (\<lambda>s. get s ''bar_ts'') ` set (lg_snaps lg)"
    "\<forall>s \<in> set (lg_snaps lg). get s ''bar_ts'' \<in> (\<lambda>e. get e ''bar_ts'') ` set (lg_equity lg)"
    "\<forall>s \<in> set (lg_snaps lg). valid_commit_id (get s ''bar_commit_id'')"
    using p(2) by (auto simp: snapshot_checks_def Let_def)
  have c: "list_all (committed (lg_snaps lg) key) rows"
    if "\<And>r. r \<in> set rows \<Longrightarrow> commit_check (commit_by_bar (lg_snaps lg)) key id_key r = []" for rows key id_key
    using commit_check_Nil[OF that dup_ids_distinct[OF u(6)] s(3)] by (auto simp: list_all_iff)
  have cs: "list_all (committed (lg_snaps lg) ''signal_bar_ts'') (lg_fills lg)" "list_all (committed (lg_snaps lg) ''exit_bar_ts'') (lg_trades lg)"
    "list_all (committed (lg_snaps lg) ''bar_ts'') (lg_funding lg)" "list_all (committed (lg_snaps lg) ''bar_ts'') (lg_positions lg)"
    "list_all (committed (lg_snaps lg) ''bar_ts'') (lg_equity lg)"
    using p(3) unfolding commit_checks_def Let_def by (auto intro!: c)
  have t: "\<exists>e \<in> set (lg_fills lg). \<exists>x \<in> set (lg_fills lg). get e ''fill_id'' = get t ''entry_fill_id'' \<and> get x ''fill_id'' = get t ''exit_fill_id''"
    if "t \<in> set (lg_trades lg)" for t
    using trade_refs[OF collect_Nil[OF p(6) that]] by (auto simp: image_iff)
  have b: "get f ''backfill'' = JBool False \<and> (\<exists>t. parse_bar (get f ''fill_ts'') = Inr t \<and> start \<le> t)" if "f \<in> set (lg_fills lg)" for f
    using p(4) that by (cases "parse_bar (get f ''fill_ts'')") (auto simp: backfill_check_def not_less)
  show ?thesis using r u[THEN dup_ids_distinct] s(1,2) cs t b
    by (intro exI[of _ lg] conjI exI[of _ config] exI[of _ cfg] exI[of _ start]) auto
qed

section \<open>One committed bar\<close>

definition fx_snap :: row where
  "fx_snap = [(''active_symbols'', JList []), (''backfill'', JBool False), (''bar_commit_id'', JStr ''0123456789abcdef''),
     (''bar_index'', JInt 0), (''bar_ts'', JStr (fmt_fields fx_bar)), (''heat_cap_triggered'', JBool False), (''portfolio_heat'', JInt 0),
     (''run_ts'', JStr (fmt_fields fx_bar)), (''snapshot_id'', JStr ''s''), (''source_observation_digest'', JStr ''d''),
     (''source_observation_mtime'', JInt 0), (''weighted_return'', JInt 0)]"

definition fx_equity :: row where
  "fx_equity = [(''bar_commit_id'', JStr ''0123456789abcdef''), (''bar_ts'', JStr (fmt_fields fx_bar)), (''drawdown'', JFloat (PFin 0)),
     (''equity'', JFloat (PFin 10000)), (''fees_cum'', JFloat (PFin 0)), (''funding_cum'', JFloat (PFin 0)), (''num_open'', JInt 0),
     (''realized_gross_pnl'', JFloat (PFin 0)), (''unrealized_pnl'', JFloat (PFin 0))]"

definition fx_position :: row where
  "fx_position = [(''bar_commit_id'', JStr ''0123456789abcdef''), (''bar_ts'', JStr (fmt_fields fx_bar)),
     (''gross_exposure_usd'', JFloat (PFin 0)), (''num_open'', JInt 0), (''open_symbols'', JList [])]"

definition fx_dir :: dir where
  "fx_dir name = (if name = ''paper_config.json'' then Bytes (json_dumps indented 0 (JObj default_config) @ [CHR 0x0A])
     else if name = ''paper_signal_snapshots.jsonl'' then Bytes (row_line fx_snap)
     else if name = ''paper_equity.jsonl'' then Bytes (row_line fx_equity)
     else if name = ''paper_positions.jsonl'' then Bytes (row_line fx_position) else Absent)"

lemma read_one_row:
  assumes "storable (JObj r)" "sorted_row r = r"
  shows "read_jsonl (Bytes (row_line r)) = Inr [r]"
  using append_read_back[of Absent "[]" "[r]"] assms by (auto simp: read_jsonl_def terminated_def append_rows_def)

lemma fmt_nonempty: "fmt_fields f \<noteq> []"
  by (simp add: fmt_fields_def)

lemma fx_ts: "parseable_timestamp (JStr (fmt_fields fx_bar))"
proof -
  have "zulu_offset s = s" if "CHR ''Z'' \<notin> set s" for s using that by (induction s) (auto simp: zulu_offset_def)
  then have "zulu_offset (fmt_fields fx_bar) = fmt_fields fx_bar" using no_Z_in_fmt[OF fx_bar_facts(1)] by blast
  moreover have "fmt_fields fx_bar \<noteq> []" by (rule fmt_nonempty)
  ultimately show ?thesis using fromisoformat_naive[OF fx_bar_facts(1)] by (simp add: parseable_timestamp_def)
qed

lemma fx_rows_storable: "storable (JObj fx_snap)" "storable (JObj fx_equity)" "storable (JObj fx_position)"
proof -
  have z: "length (show_nat 0) \<le> 4300" by (subst show_nat.simps) simp
  have w: "wf_float (PFin 0)" "wf_float (PFin 10000)" using wf_PFin_int[of 0] wf_PFin_int[of 10000] by simp_all
  show "storable (JObj fx_snap)" "storable (JObj fx_equity)" "storable (JObj fx_position)"
    using z w by (simp_all add: fx_snap_def fx_equity_def fx_position_def del: wf_float.simps)
qed

lemma fx_rows_sorted: "sorted_row fx_snap = fx_snap" "sorted_row fx_equity = fx_equity" "sorted_row fx_position = fx_position"
  by (simp_all add: sorted_row_def fx_snap_def fx_equity_def fx_position_def Cons_less_Cons less_char_def)

lemma fx_rows_valid: "validate_row (schema_of ''paper_signal_snapshots.jsonl'') fx_snap = Inr ()"
  "validate_row (schema_of ''paper_equity.jsonl'') fx_equity = Inr ()"
  "validate_row (schema_of ''paper_positions.jsonl'') fx_position = Inr ()"
  by (simp_all add: validate_row_def row_checks_def Let_def schema_of_def LEDGER_JSONL_SCHEMAS_def any_row_def field_checks_def
    require_def fx_snap_def fx_equity_def fx_position_def has_field_def get_def obj_get_def finite_number_def nonneg_finite_def
    positive_finite_def fl_of_int_def fl_le_def fl_eq_def nonneg_int_def nonempty_str_def fx_ts str_list_def is_bool_def sorted_set_Nil_iff)

lemmas fx_reads = read_one_row[OF fx_rows_storable(1) fx_rows_sorted(1)] read_one_row[OF fx_rows_storable(2) fx_rows_sorted(2)]
  read_one_row[OF fx_rows_storable(3) fx_rows_sorted(3)]

lemma fx_ledgers: "read_ledgers fx_dir = Inr \<lparr>lg_fills = [], lg_trades = [], lg_equity = [fx_equity], lg_funding = [],
    lg_positions = [fx_position], lg_snaps = [fx_snap], lg_summary = []\<rparr>"
  by (simp add: read_ledgers_def Let_def read_ledger_validated_def fx_dir_def read_jsonl_validated_def read_summary_obj_def
    read_json_obj_def read_jsonl_def[of Absent] fx_reads fx_rows_valid)

lemma eps:
  obtains r where "to_dbl (1 / 10 ^ k) = PFin r" "0 \<le> r" "r \<le> 1" "is_dbl r"
proof -
  have "round_dbl 1 = 1" using round_dbl_id[of 1] is_dblI[of 1 0 1] by simp
  moreover have "round_dbl (1 / 10 ^ k) \<le> round_dbl 1" by (rule round_dbl_mono) simp
  moreover have "0 \<le> round_dbl (1 / 10 ^ k)" by (rule round_dbl_nonneg) simp
  ultimately show thesis using that[of "round_dbl (1 / 10 ^ k)"] round_dbl_is_dbl[of "1 / 10 ^ k"]
    by (simp add: to_dbl_def Let_def dbl_max_exp_def)
qed

lemma no_gap: "\<not> fl_lt (to_dbl (1 / 10 ^ k)) (PFin 0)"
  by (rule eps[of k]) simp

lemma eps_range: "fl_le (fl_sub (PFin 0) (to_dbl (1 / 10 ^ k))) (PFin 0)" "fl_le (PFin 0) (fl_add (PFin 1) (to_dbl (1 / 10 ^ k)))"
  "\<not> fl_lt (PFin 0) (fl_neg (to_dbl (1 / 10 ^ k)))" "\<not> fl_lt (fl_add (PFin 0) (to_dbl (1 / 10 ^ k))) (PFin 0)"
proof -
  obtain r where r: "to_dbl (1 / 10 ^ k) = PFin r" "0 \<le> r" "r \<le> 1" "is_dbl r" by (rule eps)
  have b: "round_dbl r = r" "round_dbl (- r) = - r" using r(4) is_dbl_minus round_dbl_id by blast+
  then have "to_dbl (- r) = PFin (- r)" "to_dbl r = PFin r" using r(2,3) by (simp_all add: to_dbl_def Let_def dbl_max_exp_def)
  moreover have "\<exists>q. to_dbl (1 + r) = PFin q \<and> 0 \<le> q"
  proof -
    have "round_dbl 2 = 2" using round_dbl_id[of 2] is_dblI[of 2 0 2] by simp
    moreover have "round_dbl (1 + r) \<le> round_dbl 2" by (rule round_dbl_mono) (use r in simp)
    moreover have "0 \<le> round_dbl (1 + r)" by (rule round_dbl_nonneg) (use r in simp)
    ultimately show ?thesis by (simp add: to_dbl_def Let_def dbl_max_exp_def)
  qed
  ultimately show "fl_le (fl_sub (PFin 0) (to_dbl (1 / 10 ^ k))) (PFin 0)" "fl_le (PFin 0) (fl_add (PFin 1) (to_dbl (1 / 10 ^ k)))"
    "\<not> fl_lt (PFin 0) (fl_neg (to_dbl (1 / 10 ^ k)))" "\<not> fl_lt (fl_add (PFin 0) (to_dbl (1 / 10 ^ k))) (PFin 0)"
    using r by (auto simp: fl_sub_def fl_le_def fl_eq_def)
qed

lemma sorted_set_Nil: "sorted_set [] = []"
  by simp

lemmas gap_facts = no_gap[of 4, simplified] no_gap[of 6, simplified] eps_range[of 6, simplified] no_gap[of 2, simplified]
  eps_range[of 2, simplified]

lemma fx_config: "load_config (fx_dir ''paper_config.json'') = Inr (sorted_row default_config)"
  by (simp add: fx_dir_def default_loads del: json_dumps.simps)

lemma fx_engine_config:
  obtains cfg where "engine_config_of (sorted_row default_config) = Inr cfg" "initial_equity_usd cfg = PFin 10000"
    "parse_bar_utc (forward_start_ts cfg) = Inr (fields_instant fx_bar)"
proof -
  have g: "dict_get (sorted_row default_config) f = map_option key_sorted (dict_get default_config f)" for f
    by (rule sorted_row_get[OF default_storable])
  have h: "dict_get default_config ''config_hash'' = Some (JStr (config_hash_of default_config))"
    using conjunct1[OF build_config_shape[OF default_built]] by (rule get_has_field) simp
  have d: "dict_get default_config ''forward_start_ts'' = Some (JStr (fmt_fields fx_bar))"
    "dict_get default_config ''notional_usd'' = Some (JFloat (PFin 1000))"
    "dict_get default_config ''initial_equity_usd'' = Some (JFloat (PFin 10000))"
    "dict_get default_config ''fee_model'' = Some (JObj [(''type'', JStr ''flat_taker''), (''fee_bps'', JFloat (PFin 5))])"
    "dict_get default_config ''slippage_model'' = Some (JObj [(''type'', JStr ''fixed''), (''slippage_bps'', JFloat (PFin 5))])"
    "dict_get default_config ''freshness'' = Some (JObj [(''bar_interval_hours'', JInt 8), (''max_bar_staleness_hours'', JFloat (PFin 24)),
           (''heartbeat_max_age_hours'', JFloat (PFin 24))])"
    "dict_get default_config ''engine_version'' = Some (JStr PAPER_ENGINE_VERSION)"
    by (simp_all add: default_config_def build_config_def py_float_def py_int_def Let_def)
  show thesis
  proof (rule that)
    show "engine_config_of (sorted_row default_config) = Inr \<lparr>forward_start_ts = fmt_fields fx_bar, notional_usd = PFin 1000,
        initial_equity_usd = PFin 10000, fee_bps = PFin 5, slippage_bps = PFin 5, bar_interval_hours = Some 8,
        engine_version = PAPER_ENGINE_VERSION, config_hash = config_hash_of default_config\<rparr>"
      unfolding engine_config_of_def Let_def lookup_def obj_get_def g d h
      by (simp add: py_float_def py_int_def Cons_less_Cons less_char_def)
  qed (simp_all add: parse_bar_fmt(1)[OF fx_bar_facts(1)])
qed

lemma fx_reconciles: "reconcile fx_dir = Inr []"
proof -
  obtain cfg where c: "engine_config_of (sorted_row default_config) = Inr cfg" "initial_equity_usd cfg = PFin 10000"
    "parse_bar_utc (forward_start_ts cfg) = Inr (fields_instant fx_bar)" by (rule fx_engine_config)
  let ?lg = "\<lparr>lg_fills = [], lg_trades = [], lg_equity = [fx_equity], lg_funding = [],
    lg_positions = [fx_position], lg_snaps = [fx_snap], lg_summary = []\<rparr>"
  have b: "get fx_snap ''bar_ts'' = JStr (fmt_fields fx_bar)" "get fx_equity ''bar_ts'' = JStr (fmt_fields fx_bar)"
    "get fx_position ''bar_ts'' = JStr (fmt_fields fx_bar)" "get fx_snap ''bar_commit_id'' = JStr ''0123456789abcdef''"
    "get fx_equity ''bar_commit_id'' = JStr ''0123456789abcdef''" "get fx_position ''bar_commit_id'' = JStr ''0123456789abcdef''"
    by (simp_all add: fx_snap_def fx_equity_def fx_position_def get_def obj_get_def)
  have v: "valid_commit_id (JStr ''0123456789abcdef'')" by (simp add: valid_commit_id_def lower_hex_def)
  have "unique_checks ?lg = []" "snapshot_checks ?lg = []" by (simp_all add: unique_checks_def snapshot_checks_def Let_def dup_ids_def b v)
  moreover have "commit_checks ?lg = []" by (simp add: commit_checks_def Let_def commit_check_def commit_lookup b v)
  moreover have "equity_check (NFlt (PFin 10000)) fx_equity (None, NFlt (PFin 10000)) = Inr ([], Some (NFlt (PFin 0)), NFlt (PFin 10000))"
    by (simp add: equity_check_def fx_equity_def num_item_def item_def lookup_def num_of_def num_add_def num_sub_def num_op_def far_floats
      num_max_def num_lt_def num_le_def num_div_def fl_sub_def[of "PFin 10000"] fl_sub_def[of "PFin 0" "PFin 0"] gap_facts DRAWDOWN_EPS_def EPS_def)
  moreover have "funding_total_check [] [fx_equity] = Inr []"
    by (simp add: funding_total_check_def fx_equity_def num_item_def item_def lookup_def num_of_def py_sum_def far_def num_sub_def num_op_def
      fl_of_int_def fl_sub_def num_lt_def gap_facts)
  moreover have "position_row_check [] [fx_equity] fx_position = Inr []"
    by (simp add: position_row_check_def b fx_position_def fx_equity_def str_item_def num_item_def item_def lookup_def open_book_def
      of_kind_def fl_eq_def py_sum_def num_of_def num_sub_def num_add_def num_op_def fl_of_int_def
      fl_sub_def[of "PFin 0" "PFin 0"] num_lt_def sorted_set_Nil EXPOSURE_EPS_def gap_facts get_def obj_get_def Let_def)
  ultimately show ?thesis
    by (simp add: reconcile_def config_of_def fx_config c crash_def or_failures_def fx_ledgers structural_checks_def collect_def
      summary_check_def)
qed

theorem reconcile_clean_atomic_witness:
  "committed [fx_snap] ''bar_ts'' fx_equity \<and> committed [fx_snap] ''bar_ts'' fx_position"
  using reconcile_clean_atomic[OF fx_reconciles] by (auto simp: fx_ledgers)

end
