(* ===== verification/IntegrityGate.thy ===== *)
theory IntegrityGate
  imports ReconcileSound
begin

text \<open>
  The bytes of a JSON artifact (\<open>ledger.json_bytes\<close>), what a pass of the integrity gate means, and a
  committed bundle on which it passes.
\<close>

definition json_bytes :: "row \<Rightarrow> string" where
  "json_bytes d = json_dumps indented 0 (JObj d) @ [CHR 0x0A]"

lemma json_bytes_text: "utf8_decode (json_bytes d) = Text (json_bytes d)"
  unfolding json_bytes_def by (intro utf8_decode_ascii) (simp add: indented_ascii del: json_dumps.simps)

lemma json_bytes_loads: "storable (JObj d) \<Longrightarrow> json_loads (json_bytes d) = Inr (JObj (sorted_row d))"
  using loads_dumps[OF layouts_blank(3), of "JObj d" "[CHR 0x0A]" 0]
  by (simp add: json_bytes_def blank_def json_ws_def sorted_row_def del: json_dumps.simps)

lemma read_json_bytes: "storable (JObj d) \<Longrightarrow> read_json_obj (Bytes (json_bytes d)) = Inr (Some (sorted_row d))"
  by (simp add: read_json_obj_def text_of_def json_bytes_text parse_line_def json_bytes_loads del: storable.simps)

section \<open>The integrity gate\<close>

definition gate_state :: "row list \<Rightarrow> row list \<Rightarrow> row \<Rightarrow> bool" where
  \<comment> \<open>the state is that of the last committed bar, with the open book of the fills\<close>
  "gate_state equity fills state \<longleftrightarrow> (let watermark = obj_get state ''watermark_bar_ts'' (JStr []) in
     if equity = [] then watermark = JStr [] \<and> \<not> py_truthy (obj_get state ''open_positions'' (JObj []))
     else (\<exists>t. latest_bar equity = Inr (Some t) \<and> watermark = JStr t)
       \<and> py_eq (obj_get state ''bars_elapsed'' (JInt 0)) (JInt (int (length equity)))
       \<and> (\<exists>book. open_book fills = Inr book \<and> set (dict_keys (obj_fields (get state ''open_positions''))) = set book))"

lemma latest_bar_Some: "latest_bar equity = Inr t \<Longrightarrow> equity \<noteq> [] \<Longrightarrow> t \<noteq> None"
  by (cases equity) (auto simp: latest_bar_def rbind_Inr_iff split: if_splits)

lemma strict_state_gate:
  assumes "strict_state_invariants state equity trades fills funding initial = Inr []"
  shows "gate_state equity fills state"
proof (cases "equity = []")
  case True
  then show ?thesis using assms
    by (auto simp: gate_state_def strict_state_invariants_def empty_state_checks_def rbind_Inr_iff)
next
  case False
  then obtain latest book where s: "latest_bar equity = Inr latest" "open_book fills = Inr book"
    "obj_get state ''watermark_bar_ts'' (JStr []) = (case latest of None \<Rightarrow> JNull | Some t \<Rightarrow> JStr t)"
    "py_eq (obj_get state ''bars_elapsed'' (JInt 0)) (JInt (int (length equity)))"
    "set (dict_keys (obj_fields (get state ''open_positions''))) = set book"
    using assms by (auto simp: strict_state_invariants_def Let_def rbind_Inr_iff simp del: py_eq.simps)
  then obtain t where t: "latest = Some t" using latest_bar_Some False by blast
  show ?thesis using s False t by (auto simp: gate_state_def simp del: py_eq.simps)
qed

lemma digest_check_Nil: "digest_check d key (Some h) = [] \<longleftrightarrow> get d key = JStr h"
  by (simp add: digest_check_def)

lemma commit_semantics_Nil:
  assumes "check_ok_commit_semantics dir summary_bytes state_bytes receipt_bytes = Inr []"
  shows "\<exists>text summary prov. utf8_decode summary_bytes = Text text \<and> json_loads text = Inr (JObj summary)
    \<and> validate_summary_shape summary = Inr () \<and> get summary ''status'' = JStr ''OK''
    \<and> read_json_obj (dir ''paper_provenance.json'') = Inr (Some prov)
    \<and> (\<exists>digests. get prov ''output_digests'' = JObj digests
         \<and> get digests ''paper_pnl_summary.json'' = JStr (sha256_hex summary_bytes)
         \<and> get digests STATE_FILE = JStr (sha256_hex state_bytes)
         \<and> get digests ''paper_receipt.md'' = JStr (sha256_hex receipt_bytes))
    \<and> dir ''paper_receipt.md'' = Bytes receipt_bytes"
  using assms unfolding check_ok_commit_semantics_def Let_def
  by (auto simp: rbind_Inr_iff digest_check_Nil split: decoded.splits sum.splits json.splits ledger_error.splits option.splits
    fs_entry.splits if_splits)

lemma gate_passes:
  assumes "final_integrity_gate dir state initial summary_bytes state_bytes receipt_bytes = Inr []"
  shows "reconcile dir = Inr []
    \<and> (\<exists>lg. read_ledgers dir = Inr lg \<and> gate_state (lg_equity lg) (lg_fills lg) state)
    \<and> (\<exists>text summary. utf8_decode summary_bytes = Text text \<and> json_loads text = Inr (JObj summary)
         \<and> validate_summary_shape summary = Inr () \<and> get summary ''status'' = JStr ''OK'')
    \<and> dir ''paper_receipt.md'' = Bytes receipt_bytes
    \<and> (\<exists>prov digests. read_json_obj (dir ''paper_provenance.json'') = Inr (Some prov)
         \<and> get prov ''output_digests'' = JObj digests
         \<and> (\<forall>(name, bytes) \<in> {(''paper_pnl_summary.json'', summary_bytes), (STATE_FILE, state_bytes), (''paper_receipt.md'', receipt_bytes)}.
              get digests name = JStr (sha256_hex bytes)))"
proof -
  obtain fills trades equity funding fs where g:
    "read_ledger_validated dir ''paper_fills.jsonl'' = Inr fills" "read_ledger_validated dir ''paper_equity.jsonl'' = Inr equity"
    "reconcile dir = Inr []" "reconcile_state_dict (Some state) equity trades fills funding True initial = Inr []"
    "check_ok_commit_semantics dir summary_bytes state_bytes receipt_bytes = Inr []"
    using assms by (auto simp: final_integrity_gate_def Let_def rbind_Inr_iff or_failures_Nil crash_Inr)
  then have "strict_state_invariants state equity trades fills funding initial = Inr []"
    by (auto simp: reconcile_state_dict_def rbind_Inr_iff)
  then have "gate_state equity fills state" by (rule strict_state_gate)
  moreover obtain lg where lg: "read_ledgers dir = Inr lg" using reconcileE[OF g(3)] by blast
  moreover have "lg_equity lg = equity" "lg_fills lg = fills"
    using lg g(1,2) by (auto simp: read_ledgers_def Let_def rbind_Inr_iff)
  ultimately show ?thesis using g(3) commit_semantics_Nil[OF g(5)] by auto
qed

text \<open>
  C6. The integrity gate lets an OK commit through only when the reconciliation of the ledgers on disk is
  clean, the state about to be written stands at the last equity bar with one elapsed bar per equity
  row and exactly the symbols the fills leave open, the summary about to be written is a well-formed
  OK summary, the receipt on disk is the one handed over, and the provenance on disk pins the SHA-256 of
  exactly the summary, state and receipt bytes that are about to be committed.
\<close>

theorem final_gate_sound:
  assumes "final_integrity_gate dir state initial summary_bytes state_bytes receipt_bytes = Inr []"
  shows "reconcile dir = Inr []
    \<and> (\<exists>lg. read_ledgers dir = Inr lg \<and> gate_state (lg_equity lg) (lg_fills lg) state)
    \<and> (\<exists>text summary. utf8_decode summary_bytes = Text text \<and> json_loads text = Inr (JObj summary)
         \<and> validate_summary_shape summary = Inr () \<and> get summary ''status'' = JStr ''OK'')
    \<and> dir ''paper_receipt.md'' = Bytes receipt_bytes
    \<and> (\<exists>prov digests. read_json_obj (dir ''paper_provenance.json'') = Inr (Some prov)
         \<and> get prov ''output_digests'' = JObj digests
         \<and> (\<forall>(name, bytes) \<in> {(''paper_pnl_summary.json'', summary_bytes), (STATE_FILE, state_bytes), (''paper_receipt.md'', receipt_bytes)}.
              get digests name = JStr (sha256_hex bytes)))"
  by (rule gate_passes[OF assms])

section \<open>A committed bar\<close>

definition fx_state :: row where
  "fx_state = [(''accumulators'', JObj [(''fees_cum'', JFloat (PFin 0)), (''funding_cum'', JFloat (PFin 0)), (''realized_gross'', JFloat (PFin 0))]),
     (''bars_elapsed'', JInt 1), (''open_positions'', JObj []), (''peak_equity'', JFloat (PFin 10000)),
     (''watermark_bar_ts'', JStr (fmt_fields fx_bar))]"

definition fx_summary :: row where
  "fx_summary = [(''bars_elapsed'', JInt 1), (''baseline_label'', JStr BASELINE_LABEL), (''baseline_note'', JStr ''fixed''),
     (''closed_trades'', JInt 0), (''current_verdict'', JStr ''FLAT''), (''disclaimer'', JStr ''paper''), (''expectancy'', JNull),
     (''forward_start_ts'', JStr (fmt_fields fx_bar)), (''funding_gap'', JBool False), (''funding_gap_count'', JInt 0),
     (''max_drawdown'', JFloat (PFin 0)), (''num_open'', JInt 0), (''open_positions'', JList []), (''profit_factor'', JNull),
     (''realized_net_pnl'', JFloat (PFin 0)), (''schema_version'', JInt 1), (''status'', JStr ''OK''), (''total_pnl'', JFloat (PFin 0)),
     (''winrate'', JNull)]"

definition fx_provenance :: row where
  "fx_provenance = [(''output_digests'', JObj [(''paper_pnl_summary.json'', JStr (sha256_hex (json_bytes fx_summary))),
       (STATE_FILE, JStr (sha256_hex (json_bytes fx_state))), (''paper_receipt.md'', JStr (sha256_hex ''FLAT''))]),
     (''status'', JStr ''OK'')]"

definition fx_bundle :: dir where
  "fx_bundle = fx_dir(''paper_provenance.json'' := Bytes (json_bytes fx_provenance), ''paper_receipt.md'' := Bytes ''FLAT'')"

lemma fx_bundle_storable: "storable (JObj fx_summary)" "storable (JObj fx_provenance)"
proof -
  have z: "length (show_nat 0) \<le> 4300" "length (show_nat 1) \<le> 4300" by (subst show_nat.simps, simp)+
  show "storable (JObj fx_summary)"
    using z wf_PFin_int[of 0] by (simp add: fx_summary_def BASELINE_LABEL_def del: wf_float.simps)
  show "storable (JObj fx_provenance)" by (simp add: fx_provenance_def STATE_FILE_def)
qed

lemma fx_bundle_sorted: "sorted_row fx_summary = fx_summary" "get (sorted_row fx_provenance) ''output_digests'' =
    JObj (sort_key fst (obj_fields (get fx_provenance ''output_digests'')))"
  by (simp_all add: sorted_row_def fx_summary_def fx_provenance_def Cons_less_Cons less_char_def get_def obj_get_def obj_fields_def)

lemma fx_summary_valid: "validate_summary_shape fx_summary = Inr ()"
  by (simp add: validate_summary_shape_def fx_summary_def get_def obj_get_def KNOWN_SUMMARY_STATUSES_def summary_head_checks_def
    summary_required_def summary_common_def summary_by_status_def Let_def require_def SCHEMA_VERSION_def BASELINE_LABEL_def
    parseable_bar_ts_def parse_bar_fmt(1)[OF fx_bar_facts(1)] has_field_def nonempty_str_def ok_summary_checks_def nonneg_int_def
    finite_number_def str_list_def is_bool_def)

lemma fx_bundle_reconciles: "reconcile fx_bundle = Inr []"
proof -
  have "reconcile fx_bundle = reconcile fx_dir"
    by (simp add: reconcile_def config_of_def read_ledgers_def read_ledger_validated_def Let_def fx_bundle_def)
  then show ?thesis using fx_reconciles by simp
qed

lemma fx_bundle_ledgers: "read_ledger_validated fx_bundle f = read_ledger_validated fx_dir f" if "f \<in> set LEDGER_JSONL_FILES"
  using that by (auto simp: read_ledger_validated_def fx_bundle_def LEDGER_JSONL_FILES_def LEDGER_JSONL_SCHEMAS_def)

lemma fx_ledger_reads: "read_ledger_validated fx_dir ''paper_fills.jsonl'' = Inr []" "read_ledger_validated fx_dir ''paper_trades.jsonl'' = Inr []"
  "read_ledger_validated fx_dir ''paper_equity.jsonl'' = Inr [fx_equity]" "read_ledger_validated fx_dir ''paper_funding.jsonl'' = Inr []"
  "read_ledger_validated fx_dir ''paper_positions.jsonl'' = Inr [fx_position]"
  "read_ledger_validated fx_dir ''paper_signal_snapshots.jsonl'' = Inr [fx_snap]"
  using fx_ledgers by (auto simp: read_ledgers_def Let_def rbind_Inr_iff)

lemma fx_state_strict: "strict_state_invariants fx_state [fx_equity] [] [] [] (PFin 10000) = Inr []"
proof -
  have p: "get fx_state ''accumulators'' = JObj [(''fees_cum'', JFloat (PFin 0)), (''funding_cum'', JFloat (PFin 0)), (''realized_gross'', JFloat (PFin 0))]"
    "get fx_state ''open_positions'' = JObj []" "get fx_state ''peak_equity'' = JFloat (PFin 10000)"
    "obj_get fx_state ''watermark_bar_ts'' (JStr []) = JStr (fmt_fields fx_bar)" "obj_get fx_state ''bars_elapsed'' (JInt 0) = JInt 1"
    by (simp_all add: fx_state_def get_def obj_get_def)
  have a: "get [(''fees_cum'', v), (''funding_cum'', v), (''realized_gross'', v)] f = v" if "f \<in> {''realized_gross'', ''fees_cum'', ''funding_cum''}" for v f
    using that by (auto simp: get_def obj_get_def)
  have e: "latest_bar [fx_equity] = Inr (Some (fmt_fields fx_bar))" "num_item fx_equity ''equity'' = Inr (NFlt (PFin 10000))"
    by (simp_all add: latest_bar_def str_item_def num_item_def item_def lookup_def fx_equity_def num_of_def)
  have z: "number_off (JFloat (PFin 0)) (ledger_sum [] f) STATE_ACC_EPS = Inr False" for f
    by (simp add: number_off_def is_number_def py_float_def ledger_sum_def py_sum_def far_def num_sub_def num_op_def fl_of_int_def
      fl_sub_def num_lt_def STATE_ACC_EPS_def gap_facts)
  have k: "number_off (JFloat (PFin 10000)) (Inr (NFlt (PFin 10000))) STATE_ACC_EPS = Inr False"
    by (simp add: number_off_def is_number_def py_float_def far_def num_sub_def num_op_def fl_sub_def num_lt_def STATE_ACC_EPS_def gap_facts)
  show ?thesis
    by (simp add: strict_state_invariants_def p a e z k collect_def num_max_def open_book_def of_kind_def sorted_set_Nil obj_fields_def Let_def fl_eq_def)
qed

lemma fx_bundle_commits: "check_ok_commit_semantics fx_bundle (json_bytes fx_summary) (json_bytes fx_state) ''FLAT'' = Inr []"
proof -
  let ?p = "sorted_row fx_provenance"
  have s: "json_loads (json_bytes fx_summary) = Inr (JObj fx_summary)" "get fx_summary ''status'' = JStr ''OK''"
    using json_bytes_loads[OF fx_bundle_storable(1)] fx_bundle_sorted(1) by (simp_all add: fx_summary_def get_def obj_get_def)
  have r: "read_json_obj (fx_bundle ''paper_provenance.json'') = Inr (Some ?p)" "fx_bundle ''paper_receipt.md'' = Bytes ''FLAT''"
    using read_json_bytes[OF fx_bundle_storable(2)] by (simp_all add: fx_bundle_def)
  have d: "get (sort_key fst (obj_fields (get fx_provenance ''output_digests''))) name = JStr (sha256_hex b)"
    if "(name, b) \<in> {(''paper_pnl_summary.json'', json_bytes fx_summary), (STATE_FILE, json_bytes fx_state), (''paper_receipt.md'', ''FLAT'')}" for name b
    using that by (auto simp: fx_provenance_def get_def obj_get_def obj_fields_def STATE_FILE_def Cons_less_Cons less_char_def)
  show ?thesis
    by (simp add: check_ok_commit_semantics_def json_bytes_text s fx_summary_valid r fx_bundle_sorted(2) digest_check_Nil d Let_def)
qed

lemma fx_state_always: "always_state_checks fx_state [fx_equity] = Inr []"
  by (simp add: always_state_checks_def latest_bar_def str_item_def item_def lookup_def fx_equity_def fx_state_def obj_get_def)

theorem final_gate_sound_witness:
  "\<exists>lg. read_ledgers fx_bundle = Inr lg \<and> gate_state (lg_equity lg) (lg_fills lg) fx_state"
proof -
  have "final_integrity_gate fx_bundle fx_state (PFin 10000) (json_bytes fx_summary) (json_bytes fx_state) ''FLAT'' = Inr []"
    by (simp add: final_integrity_gate_def Let_def fx_bundle_ledgers LEDGER_JSONL_FILES_def LEDGER_JSONL_SCHEMAS_def fx_ledger_reads
      or_failures_def fx_bundle_reconciles reconcile_state_dict_def fx_state_always fx_state_strict fx_bundle_commits crash_def)
  then show ?thesis using final_gate_sound by blast
qed

end
