(* ===== verification/PaperRows.thy ===== *)
theory PaperRows
  imports PaperEngine IntegrityGate
begin

text \<open>
  The dictionaries of \<open>quantbot/paper/engine.py\<close> as they are written: the rows of a result as rows of
  the JSONL ledgers, and the position state as the object of \<open>paper_position_state.json\<close>, which a run
  reads back. The engine keeps that state as the dictionary itself and reads its fields in place; here the
  state is a record, so \<open>position_of_json\<close> and \<open>state_of_json\<close> collect those reads into decoders that have
  no counterpart of their own in the source. A state file in which a number is an integer where the engine writes a float is outside
  the model.
\<close>

section \<open>Rows\<close>

definition fill_json :: "fill_row \<Rightarrow> row" where
  "fill_json f = [(''fill_id'', JStr (fr_fill_id f)), (''bar_commit_id'', JStr (fr_bar_commit_id f)),
     (''signal_bar_ts'', JStr (fr_signal_bar_ts f)), (''fill_ts'', JStr (fr_fill_ts f)), (''symbol'', JStr (fr_symbol f)),
     (''side'', JStr (fr_side f)), (''kind'', JStr (fr_kind f)), (''qty'', JFloat (fr_qty f)),
     (''open_price'', JFloat (fr_open_price f)), (''fill_price'', JFloat (fr_fill_price f)),
     (''slippage_bps'', JFloat (fr_slippage_bps f)), (''fee'', JFloat (fr_fee f)), (''backfill'', JBool (fr_backfill f))]"

definition funding_json :: "funding_row \<Rightarrow> row" where
  "funding_json f = [(''funding_id'', JStr (fu_funding_id f)), (''symbol'', JStr (fu_symbol f)), (''bar_ts'', JStr (fu_bar_ts f)),
     (''bar_commit_id'', JStr (fu_bar_commit_id f)), (''window_start'', JStr (fu_window_start f)),
     (''window_end'', JStr (fu_window_end f)), (''notional_usd'', JFloat (fu_notional_usd f)),
     (''funding_rate'', JFloat (fu_funding_rate f)), (''funding_events'', JInt (int (fu_funding_events f))),
     (''rate_available'', JBool (fu_rate_available f)), (''funding_amount'', JFloat (fu_funding_amount f))]"

definition trade_json :: "trade_row \<Rightarrow> row" where
  "trade_json t = [(''trade_id'', JStr (tr_trade_id t)), (''bar_commit_id'', JStr (tr_bar_commit_id t)),
     (''symbol'', JStr (tr_symbol t)), (''entry_fill_id'', JStr (tr_entry_fill_id t)), (''exit_fill_id'', JStr (tr_exit_fill_id t)),
     (''entry_bar_ts'', JStr (tr_entry_bar_ts t)), (''exit_bar_ts'', JStr (tr_exit_bar_ts t)), (''qty'', JFloat (tr_qty t)),
     (''entry_price'', JFloat (tr_entry_price t)), (''exit_price'', JFloat (tr_exit_price t)),
     (''gross_pnl'', JFloat (tr_gross_pnl t)), (''fees'', JFloat (tr_fees t)), (''funding'', JFloat (tr_funding t)),
     (''net_pnl'', JFloat (tr_net_pnl t)), (''hold_bars'', JInt (tr_hold_bars t)), (''backfill'', JBool (tr_backfill t))]"

definition equity_json :: "equity_row \<Rightarrow> row" where
  "equity_json e = [(''bar_ts'', JStr (eq_bar_ts e)), (''bar_commit_id'', JStr (eq_bar_commit_id e)),
     (''realized_gross_pnl'', JFloat (eq_realized_gross_pnl e)), (''unrealized_pnl'', JFloat (eq_unrealized_pnl e)),
     (''funding_cum'', JFloat (eq_funding_cum e)), (''fees_cum'', JFloat (eq_fees_cum e)), (''equity'', JFloat (eq_equity e)),
     (''drawdown'', JFloat (eq_drawdown e)), (''num_open'', JInt (int (eq_num_open e)))]"

definition positions_json :: "positions_row \<Rightarrow> row" where
  "positions_json p = [(''bar_ts'', JStr (po_bar_ts p)), (''bar_commit_id'', JStr (po_bar_commit_id p)),
     (''open_symbols'', JList (map JStr (po_open_symbols p))), (''num_open'', JInt (int (po_num_open p))),
     (''gross_exposure_usd'', JFloat (po_gross_exposure_usd p))]"

section \<open>The state\<close>

definition position_json :: "position \<Rightarrow> row" where
  "position_json p = [(''entry_fill_id'', JStr (entry_fill_id p)), (''entry_price'', JFloat (entry_price p)), (''qty'', JFloat (qty p)),
     (''entry_bar_ts'', JStr (entry_bar_ts p)), (''entry_fill_ts'', JStr (entry_fill_ts p)),
     (''funding_accrued'', JFloat (funding_accrued p)), (''entry_fee'', JFloat (entry_fee p)), (''hold_bars'', JInt (hold_bars p))]"

definition state_json :: "engine_state \<Rightarrow> row" where
  "state_json st = [(''watermark_bar_ts'', JStr (watermark_bar_ts st)),
     (''open_positions'', JObj (map (\<lambda>(s, p). (s, JObj (position_json p))) (open_positions st))),
     (''accumulators'', JObj [(''realized_gross'', JFloat (realized_gross st)), (''fees_cum'', JFloat (fees_cum st)),
        (''funding_cum'', JFloat (funding_cum st))]),
     (''peak_equity'', JFloat (peak_equity st)), (''bars_elapsed'', JInt (bars_elapsed st))]"

definition float_at :: "row \<Rightarrow> string \<Rightarrow> pyfloat result" where
  "float_at r k = rbind (lookup r k) (\<lambda>v. case v of JFloat x \<Rightarrow> Inr x | _ \<Rightarrow> Inl OutOfModel)"

definition str_at :: "row \<Rightarrow> string \<Rightarrow> string result" where
  "str_at r k = rbind (lookup r k) (\<lambda>v. case v of JStr s \<Rightarrow> Inr s | _ \<Rightarrow> Inl TypeError)"

definition int_at :: "row \<Rightarrow> string \<Rightarrow> int result" where
  "int_at r k = rbind (lookup r k) (\<lambda>v. case v of JInt n \<Rightarrow> Inr n | _ \<Rightarrow> Inl TypeError)"

definition obj_at :: "row \<Rightarrow> string \<Rightarrow> row result" where
  "obj_at r k = rbind (lookup r k) (\<lambda>v. case v of JObj d \<Rightarrow> Inr d | _ \<Rightarrow> Inl TypeError)"

definition position_of_json :: "row \<Rightarrow> position result" where
  "position_of_json r = rbind (str_at r ''entry_fill_id'') (\<lambda>fid. rbind (float_at r ''entry_price'') (\<lambda>price.
     rbind (float_at r ''qty'') (\<lambda>q. rbind (str_at r ''entry_bar_ts'') (\<lambda>bar. rbind (str_at r ''entry_fill_ts'') (\<lambda>fill.
     rbind (float_at r ''funding_accrued'') (\<lambda>accrued. rbind (float_at r ''entry_fee'') (\<lambda>fee. rbind (int_at r ''hold_bars'') (\<lambda>hold.
     Inr \<lparr>entry_fill_id = fid, entry_price = price, qty = q, entry_bar_ts = bar, entry_fill_ts = fill,
       funding_accrued = accrued, entry_fee = fee, hold_bars = hold\<rparr>))))))))"

definition state_of_json :: "row \<Rightarrow> engine_state result" where
  "state_of_json r = rbind (obj_at r ''accumulators'') (\<lambda>acc. rbind (obj_at r ''open_positions'') (\<lambda>ps.
     rbind (str_at r ''watermark_bar_ts'') (\<lambda>watermark. rbind (float_at r ''peak_equity'') (\<lambda>peak.
     rbind (int_at r ''bars_elapsed'') (\<lambda>bars.
     rbind (rmap (\<lambda>(s, v). rbind (case v of JObj d \<Rightarrow> position_of_json d | _ \<Rightarrow> Inl TypeError) (\<lambda>p. Inr (s, p))) ps) (\<lambda>positions.
     rbind (float_at acc ''realized_gross'') (\<lambda>gross. rbind (float_at acc ''fees_cum'') (\<lambda>fees. rbind (float_at acc ''funding_cum'') (\<lambda>funding.
     Inr \<lparr>watermark_bar_ts = watermark, open_positions = positions, realized_gross = gross, fees_cum = fees,
       funding_cum = funding, peak_equity = peak, bars_elapsed = bars\<rparr>)))))))))"

section \<open>The round trip of the state\<close>

lemma position_round_trip: "position_of_json (sorted_row (position_json p)) = Inr p"
  by (simp add: position_of_json_def sorted_row_def position_json_def str_at_def float_at_def int_at_def lookup_def
    Cons_less_Cons less_char_def)

lemma positions_round_trip:
  "rmap (\<lambda>(s, v). rbind (case v of JObj d \<Rightarrow> position_of_json d | _ \<Rightarrow> Inl TypeError) (\<lambda>p. Inr (s, p)))
    (map (\<lambda>(s, p). (s, JObj (sorted_row (position_json p)))) ps) = Inr ps"
  by (induction ps) (auto simp: position_round_trip)

lemma positions_sorted: "key_sorted (JObj (map (\<lambda>(s, p). (s, JObj (position_json p))) ps))
    = JObj (map (\<lambda>(s, p). (s, JObj (sorted_row (position_json p)))) (sort_key fst ps))"
proof -
  have "map (\<lambda>(k, v). (k, key_sorted v)) (map (\<lambda>(s, p). (s, JObj (position_json p))) ps)
      = map (\<lambda>(s, p). (s, JObj (sorted_row (position_json p)))) ps"
    by (auto simp: sorted_row_def)
  then show ?thesis by (simp only: key_sorted.simps sort_fst_map)
qed

lemma state_decode: "state_of_json (sorted_row (state_json st)) = Inr (st\<lparr>open_positions := sort_key fst (open_positions st)\<rparr>)"
proof -
  let ?P = "map (\<lambda>(s, p). (s, JObj (sorted_row (position_json p)))) (sort_key fst (open_positions st))"
  let ?A = "sorted_row [(''realized_gross'', JFloat (realized_gross st)), (''fees_cum'', JFloat (fees_cum st)), (''funding_cum'', JFloat (funding_cum st))]"
  have "sorted_row (state_json st) = [(''accumulators'', JObj ?A), (''bars_elapsed'', JInt (bars_elapsed st)), (''open_positions'', JObj ?P),
      (''peak_equity'', JFloat (peak_equity st)), (''watermark_bar_ts'', JStr (watermark_bar_ts st))]"
    by (simp add: state_json_def sorted_row_def[of "_ # _"] positions_sorted key_sorted.simps(2)[of "_ # _"] Cons_less_Cons less_char_def del: key_sorted.simps(2))
  then show ?thesis
    by (simp add: state_of_json_def obj_at_def str_at_def float_at_def int_at_def lookup_def positions_round_trip sorted_row_def[of "_ # _"]
      Cons_less_Cons less_char_def)
qed

section \<open>What the next run accepts\<close>

definition ts_parses :: "string \<Rightarrow> bool" where
  "ts_parses ts \<longleftrightarrow> \<not> isl (parse_bar_utc ts)"

definition position_sound :: "string \<Rightarrow> position \<Rightarrow> bool" where
  "position_sound symbol p \<longleftrightarrow> symbol \<noteq> [] \<and> entry_fill_id p \<noteq> [] \<and> ts_parses (entry_bar_ts p) \<and> ts_parses (entry_fill_ts p)
     \<and> is_finite (entry_price p) \<and> fl_lt (PFin 0) (entry_price p) \<and> is_finite (qty p) \<and> fl_lt (PFin 0) (qty p)
     \<and> is_finite (funding_accrued p) \<and> is_finite (entry_fee p) \<and> fl_le (PFin 0) (entry_fee p) \<and> 0 \<le> hold_bars p"

definition state_sound :: "engine_state \<Rightarrow> bool" where
  "state_sound st \<longleftrightarrow> (watermark_bar_ts st = [] \<or> ts_parses (watermark_bar_ts st))
     \<and> list_all (\<lambda>(s, p). position_sound s p) (open_positions st)
     \<and> is_finite (realized_gross st) \<and> is_finite (fees_cum st) \<and> is_finite (funding_cum st) \<and> is_finite (peak_equity st)
     \<and> 0 \<le> bars_elapsed st"

lemma parseable_ts: "parseable_bar_ts (JStr s) = ts_parses s"
  by (simp add: parseable_bar_ts_def ts_parses_def split: sum.split)

lemma ts_parses_Nil: "\<not> ts_parses []"
  by code_simp

lemma position_ok_iff:
  "position_ok (sorted_row (position_json p)) = Inr (entry_fill_id p \<noteq> [] \<and> ts_parses (entry_bar_ts p) \<and> ts_parses (entry_fill_ts p)
     \<and> is_finite (entry_price p) \<and> fl_lt (PFin 0) (entry_price p) \<and> is_finite (qty p) \<and> fl_lt (PFin 0) (qty p)
     \<and> is_finite (funding_accrued p) \<and> is_finite (entry_fee p) \<and> fl_le (PFin 0) (entry_fee p) \<and> 0 \<le> hold_bars p)"
proof -
  have r: "sorted_row (position_json p) = [(''entry_bar_ts'', JStr (entry_bar_ts p)), (''entry_fee'', JFloat (entry_fee p)),
     (''entry_fill_id'', JStr (entry_fill_id p)), (''entry_fill_ts'', JStr (entry_fill_ts p)),
     (''entry_price'', JFloat (entry_price p)), (''funding_accrued'', JFloat (funding_accrued p)),
     (''hold_bars'', JInt (hold_bars p)), (''qty'', JFloat (qty p))]"
    by (simp add: sorted_row_def position_json_def Cons_less_Cons less_char_def)
  have ne: "ts_parses (entry_bar_ts p) \<Longrightarrow> entry_bar_ts p \<noteq> []" "ts_parses (entry_fill_ts p) \<Longrightarrow> entry_fill_ts p \<noteq> []"
    using ts_parses_Nil by metis+
  show ?thesis unfolding r
    by (auto simp: position_ok_def OPEN_POSITION_STR_KEYS_def OPEN_POSITION_NUM_KEYS_def get_def obj_get_def same_keys_def
      has_field_def finite_number_def positive_finite_def nonneg_finite_def nonneg_int_def nonempty_str_def parseable_ts Let_def
      dest: ne)
qed

lemma position_checks:
  "in_order (map position_check (map (\<lambda>(s, p). (s, JObj (sorted_row (position_json p)))) ps) @ cs) =
    (if list_all (\<lambda>(s, p). position_sound s p) ps then in_order cs else Inl (Corrupt (BadState ''open_positions'')))"
proof (induction ps)
  case (Cons x ps)
  obtain sym p where x: "x = (sym, p)" by (cases x)
  have "position_check (sym, JObj (sorted_row (position_json p))) =
    (if position_sound sym p then Inr () else Inl (Corrupt (BadState ''open_positions'')))"
    by (simp add: position_check_def require_def position_ok_iff position_sound_def)
  then show ?case using Cons by (simp add: x)
qed simp

lemma sorted_state: "sorted_row (state_json st) =
  [(''accumulators'', JObj (sorted_row [(''realized_gross'', JFloat (realized_gross st)), (''fees_cum'', JFloat (fees_cum st)),
      (''funding_cum'', JFloat (funding_cum st))])),
   (''bars_elapsed'', JInt (bars_elapsed st)),
   (''open_positions'', JObj (map (\<lambda>(s, p). (s, JObj (sorted_row (position_json p)))) (sort_key fst (open_positions st)))),
   (''peak_equity'', JFloat (peak_equity st)), (''watermark_bar_ts'', JStr (watermark_bar_ts st))]"
  by (simp add: state_json_def sorted_row_def[of "_ # _"] positions_sorted key_sorted.simps(2)[of "_ # _"] Cons_less_Cons less_char_def del: key_sorted.simps(2))

lemma state_shape:
  "(validate_state_shape (sorted_row (state_json st)) = Inr ()) = state_sound st"
  "\<not> state_sound st \<Longrightarrow> \<exists>c. validate_state_shape (sorted_row (state_json st)) = Inl (Corrupt c)"
proof -
  have a: "sorted_row [(''realized_gross'', JFloat (realized_gross st)), (''fees_cum'', JFloat (fees_cum st)),
      (''funding_cum'', JFloat (funding_cum st))] = [(''fees_cum'', JFloat (fees_cum st)), (''funding_cum'', JFloat (funding_cum st)),
      (''realized_gross'', JFloat (realized_gross st))]"
    by (simp add: sorted_row_def Cons_less_Cons less_char_def)
  let ?w = "watermark_bar_ts st = [] \<or> ts_parses (watermark_bar_ts st)"
  let ?p = "list_all (\<lambda>(s, p). position_sound s p) (open_positions st)"
  let ?a = "is_finite (realized_gross st) \<and> is_finite (fees_cum st) \<and> is_finite (funding_cum st)"
  have v: "validate_state_shape (sorted_row (state_json st)) =
    (if \<not> ?w then Inl (Corrupt (BadState ''watermark_bar_ts''))
     else if \<not> ?p then Inl (Corrupt (BadState ''open_positions''))
     else if \<not> ?a then Inl (Corrupt (BadState ''accumulators''))
     else if \<not> is_finite (peak_equity st) then Inl (Corrupt (BadState ''peak_equity''))
     else if bars_elapsed st < 0 then Inl (Corrupt (BadState ''bars_elapsed'')) else Inr ())"
    unfolding sorted_state a validate_state_shape_def Let_def
    by (simp add: get_def obj_get_def same_keys_def has_field_def STATE_KEYS_def STATE_ACCUMULATOR_KEYS_def require_def
      position_checks finite_number_def nonneg_int_def parseable_ts sort_keys_perm del: map_map)
  show "(validate_state_shape (sorted_row (state_json st)) = Inr ()) = state_sound st"
    "\<not> state_sound st \<Longrightarrow> \<exists>c. validate_state_shape (sorted_row (state_json st)) = Inl (Corrupt c)"
    unfolding v by (auto simp: state_sound_def)
qed

lemma written_state_read:
  assumes "storable (JObj (state_json st))"
  shows "if state_sound st
    then \<exists>d. read_state_obj (Bytes (json_bytes (state_json st))) = Inr (Some d)
      \<and> state_of_json d = Inr (st\<lparr>open_positions := sort_key fst (open_positions st)\<rparr>)
    else \<exists>c. read_state_obj (Bytes (json_bytes (state_json st))) = Inl (Corrupt c)"
  using state_shape[of st] state_decode[of st]
  by (auto simp: read_state_obj_def read_json_bytes[OF assms] split: if_splits)

section \<open>Properties\<close>

text \<open>
  C37. The position state survives a run. What a run writes, the next run's reader, with its validation of
  every field, reads back as the same state, with the same floats, its open positions in the order of
  their symbols, exactly when the state is sound: its timestamps parse, its identifiers are not empty, its
  figures are finite, entry prices and quantities positive, fees and counters not negative. Any other
  state is refused as corrupt. So the only thing a restart changes is the order in which the positions
  are summed up, and a state with a figure that overflowed stops the lane.
\<close>

theorem state_round_trip:
  assumes "storable (JObj (state_json st))"
  shows "if state_sound st
    then \<exists>d. read_state_obj (Bytes (json_bytes (state_json st))) = Inr (Some d)
      \<and> state_of_json d = Inr (st\<lparr>open_positions := sort_key fst (open_positions st)\<rparr>)
    else \<exists>c. read_state_obj (Bytes (json_bytes (state_json st))) = Inl (Corrupt c)"
  using assms by (rule written_state_read)

definition fx_held :: engine_state where
  "fx_held = \<lparr>watermark_bar_ts = ''2024-01-01T08:00:00'', open_positions = [(''A'', \<lparr>entry_fill_id = ''id'', entry_price = PFin 10,
     qty = PFin 2, entry_bar_ts = ''2024-01-01T00:00:00'', entry_fill_ts = ''2024-01-01T08:00:00'', funding_accrued = PFin 0,
     entry_fee = PFin 0, hold_bars = 1\<rparr>)], realized_gross = PFin 0, fees_cum = PFin 0, funding_cum = PFin 0,
     peak_equity = PFin 10000, bars_elapsed = 2\<rparr>"

lemma fx_held_sound: "state_sound fx_held"
proof -
  have "ts_parses ''2024-01-01T00:00:00''" "ts_parses ''2024-01-01T08:00:00''" by code_simp+
  then show ?thesis by (simp add: state_sound_def fx_held_def position_sound_def fl_le_def fl_eq_def)
qed

theorem state_round_trip_witness:
  "(\<exists>d. read_state_obj (Bytes (json_bytes (state_json fx_held))) = Inr (Some d) \<and> state_of_json d = Inr fx_held)
   \<and> (\<exists>c. read_state_obj (Bytes (json_bytes (state_json (fx_held\<lparr>bars_elapsed := - 1\<rparr>)))) = Inl (Corrupt c))"
proof -
  have w: "wf_float (PFin 0)" "wf_float (PFin 2)" "wf_float (PFin 10)" "wf_float (PFin 10000)"
    using wf_PFin_int[of 0] wf_PFin_int[of 2] wf_PFin_int[of 10] wf_PFin_int[of 10000] by simp_all
  have n: "length (show_nat k) \<le> 4300" if "k < 10" for k using that by (subst show_nat.simps) simp
  have s: "storable (JObj (state_json fx_held))" "storable (JObj (state_json (fx_held\<lparr>bars_elapsed := - 1\<rparr>)))"
    by (simp_all add: state_json_def position_json_def fx_held_def w n del: wf_float.simps)
  from state_round_trip[OF s(1)] state_round_trip[OF s(2)] show ?thesis
    by (simp add: fx_held_sound) (simp add: fx_held_def state_sound_def)
qed

end
