(* ===== verification/EngineRestart.thy ===== *)
theory EngineRestart
  imports EngineResume PaperRows
begin

text \<open>
  What the engine leaves for the next run: every part of the state but its figures is of the form the next
  run's reader requires, whatever the market data.
\<close>

section \<open>Form and figures\<close>

definition position_form :: "string \<Rightarrow> position \<Rightarrow> bool" where
  "position_form symbol p \<longleftrightarrow> symbol \<noteq> [] \<and> entry_fill_id p \<noteq> [] \<and> ts_parses (entry_bar_ts p)
     \<and> ts_parses (entry_fill_ts p) \<and> 0 \<le> hold_bars p"

definition book_form :: "(string, position) dict \<Rightarrow> bool" where
  "book_form d \<longleftrightarrow> (\<forall>(s, p) \<in> set d. position_form s p)"

definition state_form :: "engine_state \<Rightarrow> bool" where
  "state_form st \<longleftrightarrow> (watermark_bar_ts st = [] \<or> ts_parses (watermark_bar_ts st)) \<and> book_form (open_positions st)
     \<and> 0 \<le> bars_elapsed st"

definition position_figures :: "position \<Rightarrow> bool" where
  "position_figures p \<longleftrightarrow> is_finite (entry_price p) \<and> fl_lt (PFin 0) (entry_price p) \<and> is_finite (qty p)
     \<and> fl_lt (PFin 0) (qty p) \<and> is_finite (funding_accrued p) \<and> is_finite (entry_fee p) \<and> fl_le (PFin 0) (entry_fee p)"

definition figures_ok :: "engine_state \<Rightarrow> bool" where
  \<comment> \<open>no figure overflowed, and no position was entered at a price of zero or less\<close>
  "figures_ok st \<longleftrightarrow> list_all (\<lambda>(s, p). position_figures p) (open_positions st) \<and> is_finite (realized_gross st)
     \<and> is_finite (fees_cum st) \<and> is_finite (funding_cum st) \<and> is_finite (peak_equity st)"

lemma state_sound_split: "state_sound st \<longleftrightarrow> state_form st \<and> figures_ok st"
  by (auto simp: state_sound_def state_form_def figures_ok_def book_form_def position_form_def position_figures_def
    position_sound_def list_all_iff)

section \<open>The form is kept\<close>

lemma book_form_set: "book_form d \<Longrightarrow> position_form s p \<Longrightarrow> book_form (dict_set s p d)"
  unfolding book_form_def by (induction d) auto

lemma book_form_pop: "book_form d \<Longrightarrow> book_form (dict_pop s d)"
  unfolding book_form_def by (induction d) auto

lemma book_form_get: "book_form d \<Longrightarrow> dict_get d s = Some p \<Longrightarrow> position_form s p"
  unfolding book_form_def by (auto dest: dict_get_mem)

definition series_form :: "bar_series \<Rightarrow> bool" where
  "series_form series \<longleftrightarrow> list_all (\<lambda>(s, bars). s \<noteq> [] \<and> list_all (\<lambda>b. ts_parses (bar_timestamp b)) bars) series"

lemma next_bar_form:
  assumes "series_form series" "next_bar (make_price_book series) s ts = Some (t, p)"
  shows "s \<noteq> []" "ts_parses t"
proof -
  have pb: "pb_bars (make_price_book series) = series" by (simp add: make_price_book_def)
  from assms(2) obtain i bars where b: "dict_get series s = Some bars" "Suc i < length bars"
      "t = bar_timestamp (bars ! Suc i)"
    unfolding next_bar_def pb by (auto simp: bind_eq_Some_conv not_le split: if_splits)
  have "(s, bars) \<in> set series" using b(1) by (rule dict_get_mem)
  then show "s \<noteq> []" "ts_parses t" using assms(1) b(2,3) by (auto simp: series_form_def list_all_iff)
qed

abbreviation held :: "engine_result \<Rightarrow> (string, position) dict" where
  "held r \<equiv> open_positions (er_state r)"

lemma hold_form:
  assumes "hold_funding_step pb fidx ts cid ws s r = Inr r'" "book_form (held r)"
  shows "book_form (held r') \<and> bars_elapsed (er_state r') = bars_elapsed (er_state r)"
  using assms book_form_get[OF assms(2)]
  by (auto simp: hold_funding_step_def rbind_Inr_iff Let_def accrue_def position_form_def split: if_splits
    intro!: book_form_set)

lemma exit_funding_form:
  assumes "exit_funding_step pb fidx ts cid nxt s r = Inr r'" "book_form (held r)"
  shows "book_form (held r') \<and> bars_elapsed (er_state r') = bars_elapsed (er_state r)"
  using assms book_form_get[OF assms(2)]
  by (auto simp: exit_funding_step_def rbind_Inr_iff Let_def accrue_def position_form_def intro!: book_form_set)

lemma exit_fill_form:
  assumes "exit_fill_step cfg ts cid nxt s r = Inr r'" "book_form (held r)"
  shows "book_form (held r') \<and> bars_elapsed (er_state r') = bars_elapsed (er_state r)"
  using assms by (auto simp: exit_fill_step_def rbind_Inr_iff Let_def intro!: book_form_pop)

lemma entry_fill_form:
  assumes "entry_fill_step cfg ts cid nxt s r = Inr r'" "book_form (held r)" "ts_parses ts" "s \<noteq> []"
    and "\<And>t p. dict_get nxt s = Some (t, p) \<Longrightarrow> ts_parses t"
  shows "book_form (held r') \<and> bars_elapsed (er_state r') = bars_elapsed (er_state r)"
proof -
  have "fill_id a b c d \<noteq> []" for a b c d
    using length_sha256_hex[of "a @ ''|'' @ b @ ''|'' @ c @ ''|'' @ d"]
    by (metis fill_id_def length_0_conv length_take min.commute min_0L numeral_neq_zero take_eq_Nil)
  then show ?thesis using assms
    by (auto simp: entry_fill_step_def rbind_Inr_iff Let_def position_form_def intro!: book_form_set)
qed

lemma bar_form:
  assumes "process_bar cfg (make_price_book series) fidx row ts r = Inr (Some r')" "series_form series" "ts_parses ts"
    and "state_form (er_state r)"
  shows "state_form (er_state r')"
proof -
  let ?P = "\<lambda>n a. book_form (held a) \<and> bars_elapsed (er_state a) = n"
  let ?n = "bars_elapsed (er_state r)"
  from assms(1) obtain cid desired nxt ws r1 r2 r3 r4 where s:
    "resolve_next (make_price_book series) ts (entries_of desired (er_state r) @ exits_of desired (er_state r)) = Some nxt"
    "rfold (hold_funding_step (make_price_book series) fidx ts cid ws) (sorted_set (dict_keys (held r))) r = Inr r1"
    "rfold (exit_funding_step (make_price_book series) fidx ts cid nxt) (exits_of desired (er_state r)) r1 = Inr r2"
    "rfold (exit_fill_step cfg ts cid nxt) (exits_of desired (er_state r)) (snapshot_bar cfg (make_price_book series) ts cid r2) = Inr r3"
    "rfold (entry_fill_step cfg ts cid nxt) (entries_of desired (er_state r)) r3 = Inr r4"
    "r' = r4\<lparr>er_state := (er_state r4)\<lparr>watermark_bar_ts := ts\<rparr>\<rparr>" by (rule process_barE)
  have "?P ?n r" using assms(4) by (simp add: state_form_def)
  then have "?P ?n r1" by (rule rfold_invariant[where P = "?P ?n", OF s(2)]) (metis hold_form)
  then have "?P ?n r2" by (rule rfold_invariant[where P = "?P ?n", OF s(3)]) (metis exit_funding_form)
  then have "?P (?n + 1) (snapshot_bar cfg (make_price_book series) ts cid r2)"
    by (simp add: snapshot_bar_def Let_def split_beta)
  then have 3: "?P (?n + 1) r3" by (rule rfold_invariant[where P = "?P (?n + 1)", OF s(4)]) (metis exit_fill_form)
  have sym: "x \<noteq> []" "dict_get nxt x = Some (t, p) \<Longrightarrow> ts_parses t" if "x \<in> set (entries_of desired (er_state r))" for x t p
  proof -
    have g: "dict_get nxt x = next_bar (make_price_book series) x ts" using resolve_next_get[OF s(1)] that by simp
    then show "dict_get nxt x = Some (t, p) \<Longrightarrow> ts_parses t" using next_bar_form(2)[OF assms(2)] by simp
    have "\<exists>nb. next_bar (make_price_book series) x ts = Some nb"
      if "resolve_next (make_price_book series) ts syms = Some nx" "x \<in> set syms" for syms nx
      using that by (induction syms arbitrary: nx) (auto split: option.splits)
    from this[OF s(1)] that obtain nb where "next_bar (make_price_book series) x ts = Some nb" by auto
    then show "x \<noteq> []" using next_bar_form(1)[OF assms(2)] by (cases nb) auto
  qed
  from 3 have "?P (?n + 1) r4"
  proof (rule rfold_invariant[where P = "?P (?n + 1)", OF s(5)])
    fix x a b assume x: "x \<in> set (entries_of desired (er_state r))" and a: "?P (?n + 1) a"
      and "entry_fill_step cfg ts cid nxt x a = Inr b"
    from entry_fill_form[OF this(3) conjunct1[OF a] assms(3) sym(1)[OF x]] sym(2)[OF x]
    have "book_form (held b) \<and> bars_elapsed (er_state b) = bars_elapsed (er_state a)" by blast
    then show "?P (?n + 1) b" using a by simp
  qed
  then show ?thesis using assms(3,4) by (simp add: s(6) state_form_def)
qed

lemma loop_form:
  assumes "engine_loop cfg (make_price_book series) fidx rows r = Inr r'" "series_form series"
    and "\<And>row ts. row \<in> set rows \<Longrightarrow> obs_timestamp row = Inr ts \<Longrightarrow> ts_parses ts" "state_form (er_state r)"
  shows "state_form (er_state r')"
  using assms
proof (induction rows arbitrary: r)
  case (Cons row rows)
  obtain ts where ts: "obs_timestamp row = Inr ts" using Cons.prems(1) by (auto simp: rbind_Inr_iff)
  then have p: "ts_parses ts" using Cons.prems(3)[of row ts] by simp
  have rest: "\<And>row ts. row \<in> set rows \<Longrightarrow> obs_timestamp row = Inr ts \<Longrightarrow> ts_parses ts"
    by (rule Cons.prems(3)) simp_all
  show ?case
  proof (cases "ts \<le> watermark_bar_ts (er_state r)")
    case True
    then show ?thesis using Cons.prems(1,4) ts by (intro Cons.IH[OF _ Cons.prems(2) rest]) simp_all
  next
    case False
    then obtain out where out: "process_bar cfg (make_price_book series) fidx row ts r = Inr out"
      using Cons.prems(1) ts by (auto simp: rbind_Inr_iff)
    show ?thesis
    proof (cases out)
      case None
      then show ?thesis using Cons.prems(1,4) ts out False by auto
    next
      case (Some y)
      have "state_form (er_state y)" by (rule bar_form[OF out[unfolded Some] Cons.prems(2) p Cons.prems(4)])
      then show ?thesis using Cons.prems(1) ts out False Some
        by (intro Cons.IH[OF _ Cons.prems(2) rest, of y]) simp_all
    qed
  qed
qed simp

lemma run_form:
  assumes "run_engine cfg rows series df st = Inr r" "series_form series" "state_form st"
  shows "state_form (er_state r)"
proof -
  obtain start timed where t: "timed_rows parse_bar_utc rows = Inr timed"
    and l: "engine_loop cfg (make_price_book series) (build_funding_index df) (forward_rows start timed) (empty_result st) = Inr r"
    using assms(1) by (auto simp: run_engine_def rbind_Inr_iff)
  have "ts_parses ts" if "row \<in> set (forward_rows start timed)" "obs_timestamp row = Inr ts" for row ts
  proof -
    from that(1) obtain x where "x \<in> set timed" "row = snd x" by (auto simp: forward_rows_def)
    then have "parse_bar_utc ts = Inr (fst x)" using timed_rows_mem[OF t, of x] that(2) by (simp add: obs_time_def)
    then show ?thesis by (simp add: ts_parses_def)
  qed
  from loop_form[OF l assms(2) this] show ?thesis using assms(3) by (simp add: empty_result_def)
qed

section \<open>Properties\<close>

text \<open>
  C33. A run never writes a state that the next run refuses for anything but its figures. From a readable
  state, over a price history whose symbols are not empty and whose bar timestamps parse, the state a run
  leaves is read back by the next run's validating reader, as the same state with its positions in symbol
  order, exactly when its figures are finite and its open positions have positive prices and quantities
  and no negative fee; otherwise the next run refuses it as corrupt.
\<close>

theorem engine_state_restartable:
  assumes "run_engine cfg rows series df st = Inr r" "state_sound st"
    and "list_all (\<lambda>(s, bars). s \<noteq> [] \<and> list_all (\<lambda>b. ts_parses (bar_timestamp b)) bars) series"
    and "storable (JObj (state_json (er_state r)))"
  shows "if figures_ok (er_state r)
    then \<exists>d. read_state_obj (Bytes (json_bytes (state_json (er_state r)))) = Inr (Some d)
      \<and> state_of_json d = Inr ((er_state r)\<lparr>open_positions := sort_key fst (open_positions (er_state r))\<rparr>)
    else \<exists>c. read_state_obj (Bytes (json_bytes (state_json (er_state r)))) = Inl (Corrupt c)"
proof -
  have "state_form (er_state r)"
    using run_form[OF assms(1)] assms(2,3) by (simp add: series_form_def state_sound_split)
  then show ?thesis using written_state_read[OF assms(4)] by (simp add: state_sound_split)
qed

theorem engine_state_restartable_witness:
  "\<exists>d. read_state_obj (Bytes (json_bytes (state_json (er_state fx_result)))) = Inr (Some d)
    \<and> state_of_json d = Inr (er_state fx_result)"
proof -
  have t: "ts_parses fx_t0" "ts_parses fx_t1" "ts_parses fx_t2" "ts_parses fx_t3" by code_simp+
  have w: "wf_float (PFin 0)" "wf_float (PFin 100)" "wf_float (PFin 300)" "wf_float (PFin 200)" "wf_float (PFin 1000)"
    using wf_PFin_int[of 0] wf_PFin_int[of 100] wf_PFin_int[of 300] wf_PFin_int[of 200] wf_PFin_int[of 1000] by simp_all
  have n: "length (show_nat k) \<le> 4300" if "k < 10" for k using that by (subst show_nat.simps) simp
  have "storable (JObj (state_json (er_state fx_result)))"
    by (simp add: state_json_def fx_result_def w n fx_t2_def del: wf_float.simps)
  moreover have "state_sound (new_state (PFin 1000))" by (simp add: state_sound_def new_state_def)
  moreover have "list_all (\<lambda>(s, bars). s \<noteq> [] \<and> list_all (\<lambda>b. ts_parses (bar_timestamp b)) bars) fx_series"
    by (simp add: fx_series_def Fixture.fx_bar_def t)
  moreover have "figures_ok (er_state fx_result)" by (simp add: figures_ok_def fx_result_def)
  ultimately show ?thesis using engine_state_restartable[OF fx_run] by (simp add: fx_result_def)
qed

end
