(* ===== verification/Provenance.thy ===== *)
theory Provenance
  imports PaperRows
begin

text \<open>
  \<open>quantbot/paper/provenance.py\<close>: the summaries of a run by its outcome, the manifest of digests and
  the receipts. What the functions take from the machine (clock, git, the input directories) is a
  record of inputs.
\<close>

section \<open>Texts\<close>

definition em_dash :: string where "em_dash = [CHR 0xE2, CHR 0x80, CHR 0x94]"
definition quoted :: "string \<Rightarrow> string" where "quoted s = [CHR 0x27] @ s @ [CHR 0x27]"

definition BASELINE_NOT_REPRODUCED :: string where
  "BASELINE_NOT_REPRODUCED = ''vol-normalized weights are not reproduced; portfolio heat/weights are not used for ''
     @ ''sizing; a fixed $notional per active symbol is substituted; no compounding; no ''
     @ ''shorting. This only tests the active-symbol fixed-notional baseline '' @ em_dash @ '' a green paper ''
     @ ''PnL does NOT validate the V2 vol-normalized edge.''"

definition DISCLAIMER :: string where
  "DISCLAIMER = ''SIMULATION ONLY. These are paper fills on a frozen research observer. This is NOT ''
     @ ''live trading, NOT realized money, and a positive paper result does NOT prove ''
     @ ''real-money profitability or deployment readiness. This is the ''
     @ quoted BASELINE_LABEL @ '' baseline, NOT faithful Package V2 vol-normalized PnL: '' @ BASELINE_NOT_REPRODUCED"

definition label_of :: "row \<Rightarrow> json" where
  "label_of config = obj_get config ''baseline_label'' (JStr BASELINE_LABEL)"

section \<open>Summaries\<close>

definition num_round :: "nat \<Rightarrow> num \<Rightarrow> num" where
  \<comment> \<open>\<open>round(x, digits)\<close>; an integer stays as it is\<close>
  "num_round k x = (case x of NInt n \<Rightarrow> NInt n | NFlt f \<Rightarrow> NFlt (fl_round k f))"

definition num_json :: "num \<Rightarrow> json" where
  "num_json x = (case x of NInt n \<Rightarrow> JInt n | NFlt f \<Rightarrow> JFloat f)"

definition verdict_of :: "nat \<Rightarrow> int \<Rightarrow> string" where
  "verdict_of n_closed bars = (if n_closed = 0 then ''INCONCLUSIVE '' @ em_dash @ '' no closed paper trades yet''
     else if bars < 90 then ''INCONCLUSIVE '' @ em_dash @ '' insufficient forward bars ('' @ show_int bars @ '' < 90)''
     else ''MEASURED (simulation) '' @ em_dash @ '' sufficient forward sample'')"

definition max_of :: "num list \<Rightarrow> num" where
  \<comment> \<open>\<open>max(xs, default=0.0)\<close>\<close>
  "max_of xs = (if xs = [] then NFlt (PFin 0) else fold (\<lambda>x m. num_max m x) (tl xs) (hd xs))"

definition compute_summary :: "row \<Rightarrow> row list \<Rightarrow> row list \<Rightarrow> string list \<Rightarrow> int \<Rightarrow> nat \<Rightarrow> row result" where
  "compute_summary config trades equity open_symbols bars gaps = (let n_closed = length trades; n = NInt (int n_closed) in
     rbind (rmap (\<lambda>t. num_item t ''net_pnl'') trades) (\<lambda>nets.
     let wins = filter (\<lambda>x. num_lt (NInt 0) x) nets; losses = filter (\<lambda>x. num_lt x (NInt 0)) nets in
     rbind (if 0 < n_closed then rbind (num_div (NInt (int (length wins))) n) (\<lambda>w. Inr (num_json w)) else Inr JNull) (\<lambda>winrate.
     rbind (py_sum nets) (\<lambda>total_net. rbind (py_sum wins) (\<lambda>gross_win. rbind (py_sum losses) (\<lambda>loss_sum.
     let gross_loss = num_abs loss_sum; realized_net = (if 0 < n_closed then num_round 8 total_net else NFlt (PFin 0)) in
     rbind (if num_lt (NInt 0) gross_loss then rbind (num_div gross_win gross_loss) (\<lambda>q. Inr (num_json (num_round 6 q))) else Inr JNull) (\<lambda>factor.
     rbind (if 0 < n_closed then rbind (num_div total_net n) (\<lambda>q. Inr (num_json (num_round 8 q))) else Inr JNull) (\<lambda>expectancy.
     rbind (rbind (lookup config ''initial_equity_usd'') py_float) (\<lambda>initial.
     rbind (if equity = [] then Inr (NFlt initial) else num_item (last equity) ''equity'') (\<lambda>last_equity.
     rbind (num_sub last_equity (NFlt initial)) (\<lambda>total. rbind (rmap (\<lambda>e. num_item e ''drawdown'') equity) (\<lambda>drawdowns.
     rbind (lookup config ''schema_version'') (\<lambda>version. rbind (lookup config ''forward_start_ts'') (\<lambda>start.
     Inr [(''schema_version'', version), (''status'', JStr ''OK''), (''baseline_label'', label_of config),
       (''baseline_note'', JStr BASELINE_NOT_REPRODUCED), (''forward_start_ts'', start), (''bars_elapsed'', JInt bars),
       (''closed_trades'', JInt (int n_closed)), (''winrate'', winrate), (''realized_net_pnl'', num_json realized_net),
       (''total_pnl'', num_json (num_round 8 total)), (''max_drawdown'', num_json (num_round 8 (max_of drawdowns))),
       (''profit_factor'', factor), (''expectancy'', expectancy), (''open_positions'', JList (map JStr (sort open_symbols))),
       (''num_open'', JInt (int (length open_symbols))), (''funding_gap'', JBool (0 < gaps)), (''funding_gap_count'', JInt (int gaps)),
       (''current_verdict'', JStr (verdict_of n_closed bars)), (''disclaimer'', JStr DISCLAIMER)]))))))))))))))"

definition running_summary :: "row \<Rightarrow> string \<Rightarrow> string \<Rightarrow> string \<Rightarrow> string \<Rightarrow> row result" where
  "running_summary config run_id started_at previous_watermark phase =
     rbind (lookup config ''schema_version'') (\<lambda>version. rbind (lookup config ''forward_start_ts'') (\<lambda>start.
     Inr [(''schema_version'', version), (''status'', JStr ''RUNNING''), (''baseline_label'', label_of config), (''forward_start_ts'', start),
       (''run_id'', JStr run_id), (''started_at'', JStr started_at), (''phase'', JStr phase), (''previous_watermark'', JStr previous_watermark),
       (''current_verdict'', JStr (''RUNNING '' @ em_dash @ '' run in flight; pre-run gates/ledger mutation started, final OK not yet ''
          @ ''committed. A stale OK (if any) has been superseded by this marker.'')),
       (''disclaimer'', JStr DISCLAIMER)]))"

definition config_error_preflight_marker :: "string \<Rightarrow> string \<Rightarrow> row" where
  "config_error_preflight_marker run_id started_at = [(''schema_version'', JInt SCHEMA_VERSION), (''status'', JStr ''RUNNING''),
     (''baseline_label'', JStr BASELINE_LABEL), (''forward_start_ts'', JStr ''unknown''), (''run_id'', JStr run_id),
     (''started_at'', JStr started_at), (''phase'', JStr ''preflight_config_error''),
     (''current_verdict'', JStr (''RUNNING '' @ em_dash @ '' preflight aborted: paper_config.json could not be loaded/validated. Any ''
        @ ''stale OK has been superseded; this run wrote no ledger/state rows. Re-init the ''
        @ ''write-once config (CONFIG_ERROR, CLI exit 3) and review before the next run.'')),
     (''disclaimer'', JStr DISCLAIMER)]"

definition aborted_summary :: "row \<Rightarrow> string \<Rightarrow> string \<Rightarrow> string \<Rightarrow> row result" where
  "aborted_summary config now code reason =
     rbind (lookup config ''schema_version'') (\<lambda>version. rbind (lookup config ''forward_start_ts'') (\<lambda>start.
     Inr [(''schema_version'', version), (''status'', JStr ''ABORTED''), (''baseline_label'', label_of config), (''abort_code'', JStr code),
       (''abort_reason'', JStr reason), (''forward_start_ts'', start), (''aborted_at'', JStr now),
       (''current_verdict'', JStr (''ABORTED '' @ em_dash @ '' '' @ code @ '' (no ledger rows written this run)'')), (''disclaimer'', JStr DISCLAIMER)]))"

definition corrupt_summary :: "row \<Rightarrow> string \<Rightarrow> string list \<Rightarrow> row result" where
  "corrupt_summary config now failures =
     rbind (lookup config ''schema_version'') (\<lambda>version. rbind (lookup config ''forward_start_ts'') (\<lambda>start.
     Inr [(''schema_version'', version), (''status'', JStr ''CORRUPT_LEDGER''), (''baseline_label'', label_of config), (''forward_start_ts'', start),
       (''detected_at'', JStr now), (''reconcile_failures'', JList (map JStr failures)), (''reconcile_failure_count'', JInt (int (length failures))),
       (''current_verdict'', JStr (''CORRUPT_LEDGER '' @ em_dash @ '' '' @ show_int (int (length failures)) @ '' reconcile failure(s); watermark NOT advanced, ''
          @ ''no OK published'')), (''disclaimer'', JStr DISCLAIMER)]))"

definition no_eligible_bars_summary :: "row \<Rightarrow> string \<Rightarrow> string \<Rightarrow> row result" where
  "no_eligible_bars_summary config now reason =
     rbind (lookup config ''schema_version'') (\<lambda>version. rbind (lookup config ''forward_start_ts'') (\<lambda>start.
     Inr [(''schema_version'', version), (''status'', JStr ''NO_ELIGIBLE_BARS_YET''), (''baseline_label'', label_of config), (''forward_start_ts'', start),
       (''checked_at'', JStr now), (''bars_elapsed'', JInt 0), (''reason'', JStr reason),
       (''current_verdict'', JStr (''NO_ELIGIBLE_BARS_YET '' @ em_dash @ '' no bar has reached forward_start_ts; no ledger rows ''
          @ ''written and no state/watermark created'')), (''disclaimer'', JStr DISCLAIMER)]))"

section \<open>The manifest\<close>

definition SYMBOLS :: "string list" where
  "SYMBOLS = [''BTCUSDT'', ''ETHUSDT'', ''XRPUSDT'', ''LINKUSDT'', ''DOTUSDT'', ''BNBUSDT'', ''ADAUSDT'', ''MATICUSDT'', ''SOLUSDT'', ''AVAXUSDT'']"

record machine =
  mc_obs_dir :: dir
  mc_data_dir :: dir
  mc_git_sha :: string \<comment> \<open>of \<open>git rev-parse HEAD\<close>, or \<open>unknown\<close>\<close>
  mc_unreadable :: string \<comment> \<open>the type and number of the read error of a file that cannot be opened\<close>
  mc_clock :: string \<comment> \<open>the time in seconds, taken to be one during the publication of a run\<close>

definition digest_text :: "machine \<Rightarrow> fs_entry \<Rightarrow> string" where
  "digest_text mc entry = (case entry of Absent \<Rightarrow> ''absent'' | Unopenable \<Rightarrow> ''unreadable:'' @ mc_unreadable mc | Bytes b \<Rightarrow> sha256_hex b)"

definition input_digests :: "machine \<Rightarrow> row" where
  "input_digests mc = fold (\<lambda>(name, entry) d. dict_set name (JStr (digest_text mc entry)) d)
     ([(''bar_decisions.jsonl'', mc_obs_dir mc ''bar_decisions.jsonl''), (''observation_log.json'', mc_obs_dir mc ''observation_log.json'')]
      @ concat (map (\<lambda>s. let c = s @ ''_8h_ohlcv.csv''; f = s @ ''_8h_funding.csv'' in [(c, mc_data_dir mc c), (f, mc_data_dir mc f)]) SYMBOLS)) []"

definition OUTPUT_FILES :: "string list" where
  "OUTPUT_FILES = [''paper_config.json'', ''paper_fills.jsonl'', ''paper_positions.jsonl'', ''paper_trades.jsonl'', ''paper_equity.jsonl'',
     ''paper_funding.jsonl'', ''paper_signal_snapshots.jsonl'', ''paper_position_state.json'', ''paper_pnl_summary.json'', ''paper_receipt.md'']"

definition output_digests :: "machine \<Rightarrow> dir \<Rightarrow> (string \<times> string) list \<Rightarrow> row" where
  \<comment> \<open>the files as they are, and over them the digests of the bytes that will be written\<close>
  "output_digests mc out overrides = fold (\<lambda>(name, h) d. dict_set name (JStr h) d) overrides
     (map (\<lambda>name. (name, JStr (digest_text mc (out name)))) OUTPUT_FILES)"

datatype outcome = Completed | Aborted string string | CorruptLedger "string list" | NoEligibleBars

definition outcome_status :: "outcome \<Rightarrow> string" where
  "outcome_status oc = (case oc of Completed \<Rightarrow> ''OK'' | Aborted _ _ \<Rightarrow> ''ABORTED'' | CorruptLedger _ \<Rightarrow> ''CORRUPT_LEDGER''
     | NoEligibleBars \<Rightarrow> ''NO_ELIGIBLE_BARS_YET'')"

definition build_provenance :: "machine \<Rightarrow> dir \<Rightarrow> row \<Rightarrow> outcome \<Rightarrow> (string \<times> string) list \<Rightarrow> row" where
  "build_provenance mc out config oc overrides =
     [(''run_ts'', JStr (mc_clock mc)), (''engine_version'', JStr PAPER_ENGINE_VERSION), (''baseline_label'', label_of config),
      (''git_sha'', JStr (mc_git_sha mc)), (''status'', JStr (outcome_status oc)), (''input_digests'', JObj (input_digests mc)),
      (''output_digests'', JObj (output_digests mc out overrides))]
     @ (case oc of Aborted code reason \<Rightarrow> [(''abort_code'', JStr code), (''abort_reason'', JStr reason)]
        | CorruptLedger fs \<Rightarrow> [(''reconcile_failures'', JList (map JStr fs)), (''reconcile_failure_count'', JInt (int (length fs)))]
        | _ \<Rightarrow> [])"

section \<open>Receipts\<close>

definition lines_text :: "string list \<Rightarrow> string" where
  "lines_text ls = join [CHR 0x0A] ls"

definition percent1 :: "json \<Rightarrow> string result" where
  \<comment> \<open>\<open>f"{x:.1%}"\<close> of a ratio that is not negative\<close>
  "percent1 v = rbind (py_float v) (\<lambda>x. case fl_mul x (PFin 100) of
       PFin r \<Rightarrow> (let tenths = nat (round_half_even (r * 10)) in Inr (show_nat (tenths div 10) @ ''.'' @ show_nat (tenths mod 10) @ ''%''))
     | PInf _ \<Rightarrow> Inr ''inf%'' | PNaN \<Rightarrow> Inr ''nan%'')"

definition str_cell :: "row \<Rightarrow> string \<Rightarrow> string result" where
  "str_cell r k = rbind (lookup r k) (\<lambda>v. Inr (py_str v))"

definition titled_cell :: "row \<Rightarrow> string \<times> string \<Rightarrow> string result" where
  "titled_cell r tk = rbind (str_cell r (snd tk)) (\<lambda>s. Inr (''- '' @ fst tk @ '': '' @ s))"

definition trade_line :: "row \<Rightarrow> string result" where
  "trade_line t = rbind (rmap (str_cell t) [''symbol'', ''entry_bar_ts'', ''exit_bar_ts'', ''net_pnl'', ''hold_bars'']) (\<lambda>cs.
     Inr (''| '' @ join '' | '' cs @ '' |''))"

definition red_flags :: "nat \<Rightarrow> string option \<Rightarrow> bool \<Rightarrow> string list" where
  "red_flags gaps deferred no_trades = (let flags =
       (if 0 < gaps then [show_nat gaps @ '' funding accrual(s) had no rate available (flagged, not zeroed silently).''] else [])
       @ (case deferred of Some ts \<Rightarrow> if ts = [] then []
            else [''Latest bar '' @ ts @ '' deferred '' @ em_dash @ '' T+1 open not yet available (expected for the newest bar).''] | None \<Rightarrow> [])
       @ (if no_trades then [''No closed trades yet; performance metrics are not meaningful.''] else [])
     in if flags = [] then [''None.''] else flags)"

definition render_receipt :: "string \<Rightarrow> row \<Rightarrow> row list \<Rightarrow> nat \<Rightarrow> string option \<Rightarrow> string result" where
  "render_receipt now summary last_trades gaps deferred =
     rbind (lookup summary ''winrate'') (\<lambda>wr. rbind (if wr = JNull then Inr ''null (no closed trades)'' else percent1 wr) (\<lambda>wr_str.
     rbind (str_cell summary ''disclaimer'') (\<lambda>disclaimer.
     rbind (rmap (titled_cell summary) [(''forward_start_ts'', ''forward_start_ts''), (''Bars elapsed (forward)'', ''bars_elapsed'')]) (\<lambda>head_lines.
     rbind (str_cell summary ''num_open'') (\<lambda>num_open. rbind (str_cell summary ''open_positions'') (\<lambda>positions.
     rbind (titled_cell summary (''Closed trades'', ''closed_trades'')) (\<lambda>closed_line.
     rbind (rmap (titled_cell summary) [(''Realized net PnL'', ''realized_net_pnl''), (''Total PnL (incl. unrealized)'', ''total_pnl''),
        (''Max drawdown'', ''max_drawdown''), (''Profit factor'', ''profit_factor''), (''Expectancy'', ''expectancy''),
        (''Current verdict'', ''current_verdict'')]) (\<lambda>metric_lines.
     rbind (rmap trade_line last_trades) (\<lambda>trade_lines.
     Inr (lines_text ([''# Paper PnL v1 '' @ em_dash @ '' Receipt'', [], ''> **'' @ disclaimer @ ''**'', [],
        ''- Baseline: `'' @ py_str (label_of summary) @ ''` (fixed-notional active-symbol baseline '' @ em_dash @ '' NOT V2 volnorm live/PnL approval)'',
        ''- Generated (UTC): '' @ now] @ head_lines @ [''- Open positions: '' @ num_open @ '' '' @ positions, closed_line, ''- Winrate: '' @ wr_str]
        @ metric_lines @ [[], ''## Last closed trades'']
        @ (if last_trades = [] then [''_None yet._''] else [''| symbol | entry_bar_ts | exit_bar_ts | net_pnl | hold_bars |'',
             ''| --- | --- | --- | --- | --- |''] @ trade_lines)
        @ [[], ''## Red flags''] @ map (\<lambda>f. ''- '' @ f) (red_flags gaps deferred (py_eq (get summary ''closed_trades'') (JInt 0))) @ [[]])))))))))))"

definition render_aborted_receipt :: "row \<Rightarrow> string \<Rightarrow> string \<Rightarrow> string result" where
  "render_aborted_receipt summary code reason = rbind (str_cell summary ''disclaimer'') (\<lambda>disclaimer. rbind (str_cell summary ''forward_start_ts'') (\<lambda>start.
     rbind (str_cell summary ''aborted_at'') (\<lambda>at_ts.
     Inr (lines_text [''# Paper PnL v1 '' @ em_dash @ '' Receipt (ABORTED)'', [], ''> **'' @ disclaimer @ ''**'', [],
       ''## '' @ [CHR 0xF0, CHR 0x9F, CHR 0x9B, CHR 0x91] @ '' RUN ABORTED '' @ em_dash @ '' '' @ code, [], ''- Aborted (UTC): '' @ at_ts, ''- Reason: '' @ reason,
       ''- forward_start_ts: '' @ start, ''- No fills/trades/equity/positions/funding/snapshot rows were written this run.'',
       ''- The observer output was stale, missing, malformed, or diverged from a frozen '' @ ''snapshot. This was NOT treated as a FLAT result.'', []]))))"

definition render_corrupt_receipt :: "row \<Rightarrow> string list \<Rightarrow> string result" where
  "render_corrupt_receipt summary failures = rbind (str_cell summary ''disclaimer'') (\<lambda>disclaimer. rbind (str_cell summary ''forward_start_ts'') (\<lambda>start.
     rbind (str_cell summary ''detected_at'') (\<lambda>at_ts. rbind (str_cell summary ''reconcile_failure_count'') (\<lambda>count.
     Inr (lines_text ([''# Paper PnL v1 '' @ em_dash @ '' Receipt (CORRUPT_LEDGER)'', [], ''> **'' @ disclaimer @ ''**'', [],
       ''## '' @ [CHR 0xF0, CHR 0x9F, CHR 0x9B, CHR 0x91] @ '' RUN FAILED CLOSED '' @ em_dash @ '' CORRUPT_LEDGER'', [], ''- Detected (UTC): '' @ at_ts,
       ''- forward_start_ts: '' @ start, ''- Reconcile failures: '' @ count,
       ''- The position state/watermark was NOT advanced and NO OK summary was published.'',
       ''- Existing partial/corrupt ledger rows were NOT silently normalized into an OK or '' @ ''FLAT result.'', [], ''### Reconcile failures'']
       @ map (\<lambda>f. ''- '' @ f) failures @ [[]]))))))"

definition render_no_eligible_receipt :: "row \<Rightarrow> string \<Rightarrow> string result" where
  "render_no_eligible_receipt summary reason = rbind (str_cell summary ''disclaimer'') (\<lambda>disclaimer. rbind (str_cell summary ''forward_start_ts'') (\<lambda>start.
     rbind (str_cell summary ''checked_at'') (\<lambda>at_ts.
     Inr (lines_text [''# Paper PnL v1 '' @ em_dash @ '' Receipt (NO_ELIGIBLE_BARS_YET)'', [], ''> **'' @ disclaimer @ ''**'', [],
       ''## '' @ [CHR 0xE2, CHR 0x8F, CHR 0xB3] @ '' NO ELIGIBLE BARS YET '' @ em_dash @ '' controlled no-op'', [], ''- Checked (UTC): '' @ at_ts,
       ''- forward_start_ts: '' @ start, ''- '' @ reason, ''- No fills/trades/equity/positions/funding/snapshot rows were written, and the ''
       @ ''position state/watermark was NOT created or mutated.'',
       ''- This is NOT a FLAT/zero accounting result; no bar has reached forward_start_ts '' @ ''yet.'', []]))))"

end
