(* ===== verification/Effects.thy ===== *)
theory Effects
  imports Provenance
begin

text \<open>
  Programs over the output directory: the writes they make, one after the other, and the directories a
  crash can leave behind. Replacing a file is atomic, appending to one can be torn.
\<close>

section \<open>Writes\<close>

datatype op =
    Replace string string \<comment> \<open>a temporary file, then \<open>os.replace\<close>\<close>
  | Grow string fs_entry \<comment> \<open>append, to the file as it is afterwards\<close>
  | Move string string
  | Remove string

fun apply_op :: "op \<Rightarrow> dir \<Rightarrow> dir" where
  "apply_op (Replace f b) d = d(f := Bytes b)"
| "apply_op (Grow f e) d = d(f := e)"
| "apply_op (Move f g) d = d(g := d f, f := Absent)"
| "apply_op (Remove f) d = d(f := Absent)"

definition apply_ops :: "op list \<Rightarrow> dir \<Rightarrow> dir" where
  "apply_ops ops d = fold apply_op ops d"

definition file_bytes :: "fs_entry \<Rightarrow> string" where
  "file_bytes e = (case e of Bytes b \<Rightarrow> b | _ \<Rightarrow> [])"

inductive crash_point :: "op list \<Rightarrow> dir \<Rightarrow> dir \<Rightarrow> bool" where
  before: "crash_point ops d d"
| torn: "\<exists>u v. b = file_bytes (d f) @ u \<and> file_bytes e = b @ v \<Longrightarrow> crash_point (Grow f e # ops) d (d(f := Bytes b))"
| after: "crash_point ops (apply_op w d) d' \<Longrightarrow> crash_point (w # ops) d d'"

inductive_cases crash_ConsE: "crash_point (w # ops) d d'"
inductive_cases crash_NilE: "crash_point [] d d'"

lemma apply_ops_simps [simp]: "apply_ops [] d = d" "apply_ops (w # ws) d = apply_ops ws (apply_op w d)"
  "apply_ops (ws @ vs) d = apply_ops vs (apply_ops ws d)"
  by (simp_all add: apply_ops_def)

lemma crash_append: "crash_point (ws @ vs) d d' \<Longrightarrow> crash_point ws d d' \<or> crash_point vs (apply_ops ws d) d'"
proof (induction ws arbitrary: d)
  case (Cons w ws)
  from Cons.prems show ?case
    by (auto elim!: crash_ConsE[of w "ws @ vs"] dest: Cons.IH intro: crash_point.intros)
qed simp

lemma crash_all: "crash_point ws d (apply_ops ws d)"
  by (induction ws arbitrary: d) (auto intro: crash_point.intros)

section \<open>Programs\<close>

type_synonym 'a act = "dir \<Rightarrow> op list \<times> (gate_error + 'a)"

definition act_return :: "'a \<Rightarrow> 'a act" where
  "act_return x d = ([], Inr x)"

definition act_read :: "(dir \<Rightarrow> gate_error + 'a) \<Rightarrow> 'a act" where
  "act_read f d = ([], f d)"

definition act_write :: "op \<Rightarrow> unit act" where
  "act_write w d = ([w], Inr ())"

definition act_bind :: "'a act \<Rightarrow> ('a \<Rightarrow> 'b act) \<Rightarrow> 'b act" where
  "act_bind m k d = (case m d of (ws, Inl e) \<Rightarrow> (ws, Inl e)
     | (ws, Inr x) \<Rightarrow> (case k x (apply_ops ws d) of (vs, r) \<Rightarrow> (ws @ vs, r)))"

fun act_each :: "('a \<Rightarrow> unit act) \<Rightarrow> 'a list \<Rightarrow> unit act" where
  "act_each f [] = act_return ()"
| "act_each f (x # xs) = act_bind (f x) (\<lambda>_. act_each f xs)"

definition act_lift :: "'a result \<Rightarrow> 'a act" where
  "act_lift r = act_read (\<lambda>_. crash r)"

section \<open>What a program writes\<close>

definition emits :: "(op \<Rightarrow> bool) \<Rightarrow> 'a act \<Rightarrow> bool" where
  "emits P m \<longleftrightarrow> (\<forall>d. list_all P (fst (m d)))"

lemma emits_return [intro]: "emits P (act_return x)"
  and emits_read [intro]: "emits P (act_read f)"
  and emits_write: "P w \<Longrightarrow> emits P (act_write w)"
  and emits_lift [intro]: "emits P (act_lift r)"
  by (simp_all add: emits_def act_return_def act_read_def act_write_def act_lift_def)

lemma emits_bind: "emits P m \<Longrightarrow> (\<And>d ws x. m d = (ws, Inr x) \<Longrightarrow> emits P (k x)) \<Longrightarrow> emits P (act_bind m k)"
proof -
  assume m: "emits P m" and k: "\<And>d ws x. m d = (ws, Inr x) \<Longrightarrow> emits P (k x)"
  have "list_all P (fst (act_bind m k d))" for d
  proof (cases "m d")
    case (Pair ws r)
    have w: "list_all P ws" using m Pair by (metis emits_def fst_conv)
    show ?thesis
    proof (cases r)
      case (Inr x)
      have "list_all P (fst (k x (apply_ops ws d)))" using k[of d ws x] Pair Inr by (simp add: emits_def)
      then show ?thesis using w by (cases "k x (apply_ops ws d)") (simp add: act_bind_def Pair Inr)
    qed (use w in \<open>simp add: act_bind_def Pair\<close>)
  qed
  then show ?thesis by (simp add: emits_def)
qed

lemma emits_each: "(\<And>x. x \<in> set xs \<Longrightarrow> emits P (f x)) \<Longrightarrow> emits P (act_each f xs)"
  by (induction xs) (auto intro!: emits_bind)

lemma emits_mono: "emits P m \<Longrightarrow> (\<And>w. P w \<Longrightarrow> Q w) \<Longrightarrow> emits Q m"
  unfolding emits_def by (meson list.pred_mono_strong)

end
