(* ===== verification/Runner.thy ===== *)
theory Runner
  imports Effects Snapshots Freshness FundingCoverage
begin

text \<open>
  \<open>quantbot/paper/runner.py\<close>: one run, from the configuration to the summary. What it takes from outside
  the output directory (clock, observer files, market data) is a record. The text of a failure or of a
  reason to abort is reduced to its code.
\<close>

record env =
  ev_machine :: machine
  ev_run_id :: string
  ev_now :: instant
  ev_stage_fails :: bool \<comment> \<open>\<open>os.replace\<close> of the prior summary raises an \<open>OSError\<close> other than a missing file\<close>
  ev_names :: "string list" \<comment> \<open>the names in the output directory\<close>
  ev_obs_mtime :: pyfloat
  ev_bars :: bar_series
  ev_funding :: "funding_event list option"
  ev_csv :: csv_dir

definition SUMMARY_FILE :: string where "SUMMARY_FILE = ''paper_pnl_summary.json''"
definition PROVENANCE_FILE :: string where "PROVENANCE_FILE = ''paper_provenance.json''"
definition PROVENANCE_LOG :: string where "PROVENANCE_LOG = ''paper_provenance_log.jsonl''"
definition RECEIPT_FILE :: string where "RECEIPT_FILE = ''paper_receipt.md''"
definition SNAPSHOT_FILE :: string where "SNAPSHOT_FILE = ''paper_signal_snapshots.jsonl''"

definition failure_text :: "failure \<Rightarrow> string" where
  "failure_text f = (case f of Failure rule row \<Rightarrow> dump_string rule @ '' '' @ dump_string row)"

section \<open>Helpers\<close>

definition write_json_atomic :: "string \<Rightarrow> row \<Rightarrow> unit act" where
  "write_json_atomic f r = act_write (Replace f (json_bytes r))"

definition crashed :: "ledger_error \<Rightarrow> gate_error" where
  \<comment> \<open>an exception nobody catches; \<open>LedgerCorruptionError\<close> is a \<open>ValueError\<close>\<close>
  "crashed e = Crash (case e of Raised x \<Rightarrow> x | Corrupt _ \<Rightarrow> ValueError)"

definition raised :: "ledger_error + 'a \<Rightarrow> gate_error + 'a" where
  "raised r = (case r of Inl e \<Rightarrow> Inl (crashed e) | Inr x \<Rightarrow> Inr x)"

definition append_to :: "string \<Rightarrow> (fs_entry \<Rightarrow> ledger_error + (fs_entry \<times> nat)) \<Rightarrow> unit act" where
  "append_to f g = act_bind (act_read (\<lambda>d. raised (g (d f)))) (\<lambda>(e, _). act_write (Grow f e))"

definition staged_name :: "string \<Rightarrow> string" where
  "staged_name run_id = ''.paper_pnl_summary.json.'' @ run_id @ ''.preflight_previous''"

definition is_staged :: "string \<Rightarrow> bool" where
  \<comment> \<open>the pattern of \<open>STAGED_SUMMARY_GLOB\<close>\<close>
  "is_staged f \<longleftrightarrow> (let pre = ''.paper_pnl_summary.json.''; suf = ''.preflight_previous'' in
     length pre + length suf \<le> length f \<and> take (length pre) f = pre \<and> drop (length f - length suf) f = suf)"

definition staged_summaries :: "string list \<Rightarrow> string list" where
  "staged_summaries names = sort (filter is_staged names)"

definition stage_previous_summary :: "env \<Rightarrow> (string list \<times> string list) act" where
  \<comment> \<open>the staged summaries, in the order of their names, and the failures\<close>
  "stage_previous_summary ev = act_bind (act_read (\<lambda>d. Inr (d SUMMARY_FILE = Absent))) (\<lambda>absent.
     if absent then act_return (staged_summaries (ev_names ev), [])
     else if ev_stage_fails ev then act_return (staged_summaries (ev_names ev), [''summary could not be staged''])
     else act_bind (act_write (Move SUMMARY_FILE (staged_name (ev_run_id ev)))) (\<lambda>_.
       act_return (staged_summaries (staged_name (ev_run_id ev) # ev_names ev), [])))"

definition write_preflight_marker :: "env \<Rightarrow> row \<Rightarrow> unit act" where
  "write_preflight_marker ev config = act_bind (act_lift (running_summary config (ev_run_id ev) (mc_clock (ev_machine ev)) [] ''preflight''))
     (write_json_atomic SUMMARY_FILE)"

definition invalidate_stale_ok :: "env \<Rightarrow> unit act" where
  "invalidate_stale_ok ev = act_bind (act_read (\<lambda>d. Inr (d SUMMARY_FILE = Absent))) (\<lambda>absent.
     if absent then act_return () else write_json_atomic SUMMARY_FILE (config_error_preflight_marker (ev_run_id ev) (mc_clock (ev_machine ev))))"

section \<open>Publication of a run that is not OK\<close>

definition terminal_digests :: "string \<Rightarrow> string \<Rightarrow> (string \<times> string) list" where
  "terminal_digests summary_bytes receipt_bytes = [(SUMMARY_FILE, sha256_hex summary_bytes), (RECEIPT_FILE, sha256_hex receipt_bytes)]"

definition publish_terminal :: "env \<Rightarrow> row \<Rightarrow> outcome \<Rightarrow> row \<Rightarrow> string \<Rightarrow> row act" where
  "publish_terminal ev config oc summary receipt = (let summary_bytes = json_bytes summary in
     act_bind (act_read (\<lambda>d. Inr (build_provenance (ev_machine ev) d config oc (terminal_digests summary_bytes receipt)))) (\<lambda>prov.
     act_bind (write_json_atomic PROVENANCE_FILE prov) (\<lambda>_.
     act_bind (append_to PROVENANCE_LOG (\<lambda>e. append_rows e [prov])) (\<lambda>_.
     act_bind (act_write (Replace RECEIPT_FILE receipt)) (\<lambda>_.
     act_bind (act_write (Replace SUMMARY_FILE summary_bytes)) (\<lambda>_. act_return summary))))))"

definition abort :: "env \<Rightarrow> row \<Rightarrow> string \<Rightarrow> row act" where
  "abort ev config code = act_bind (act_lift (aborted_summary config (mc_clock (ev_machine ev)) code code)) (\<lambda>summary.
     act_bind (act_lift (render_aborted_receipt summary code code)) (\<lambda>receipt.
     publish_terminal ev config (Aborted code code) summary receipt))"

definition corrupt :: "env \<Rightarrow> row \<Rightarrow> string list \<Rightarrow> row act" where
  "corrupt ev config failures = act_bind (act_lift (corrupt_summary config (mc_clock (ev_machine ev)) failures)) (\<lambda>summary.
     act_bind (act_lift (render_corrupt_receipt summary failures)) (\<lambda>receipt.
     publish_terminal ev config (CorruptLedger failures) summary receipt))"

definition no_eligible_bars :: "env \<Rightarrow> row \<Rightarrow> row act" where
  "no_eligible_bars ev config = (let reason = ''no bar has reached forward_start_ts'' in
     act_bind (act_lift (no_eligible_bars_summary config (mc_clock (ev_machine ev)) reason)) (\<lambda>summary.
     act_bind (act_lift (render_no_eligible_receipt summary reason)) (\<lambda>receipt.
     publish_terminal ev config NoEligibleBars summary receipt)))"

section \<open>The observer's log\<close>

definition read_obs_log :: "env \<Rightarrow> gate_error + json option" where
  \<comment> \<open>\<open>None\<close>: not valid JSON\<close>
  "read_obs_log ev = (case mc_obs_dir (ev_machine ev) ''observation_log.json'' of
       Absent \<Rightarrow> Inr (Some (JObj [])) | Unopenable \<Rightarrow> Inl (Crash OSError)
     | Bytes b \<Rightarrow> (case utf8_decode b of BadUtf8 \<Rightarrow> Inr None
         | Text t \<Rightarrow> (case json_loads t of Inr v \<Rightarrow> Inr (Some v) | Inl e \<Rightarrow> if e = LoneSurrogate then Inl (Crash OutOfModel) else Inr None)))"

definition forward_observations :: "instant \<Rightarrow> obs list \<Rightarrow> obs list result" where
  "forward_observations start rows = rbind (timed_rows parse_bar_utc rows) (\<lambda>timed. Inr (map snd (filter (\<lambda>(t, _). start \<le> t) timed)))"

definition coverage_verdict :: "env \<Rightarrow> row \<Rightarrow> obs list \<Rightarrow> gate_error + bool" where
  \<comment> \<open>whether the batch may proceed; any exception of the gate stops it\<close>
  "coverage_verdict ev config forward = (case rbind (rbind (obj_at config ''freshness'') (\<lambda>f. rbind (lookup f ''bar_interval_hours'') py_int))
       (check_funding_coverage_for_batch (ev_csv ev) forward (dict_keys (ev_bars ev)) None) of
     Inl e \<Rightarrow> if e = OutOfModel then Inl (Crash e) else Inr False
   | Inr report \<Rightarrow> Inr (cv_overall_decision report \<noteq> COVERAGE_MISSING \<and> cv_overall_decision report \<noteq> COVERAGE_PARTIAL))"

section \<open>Accounting and commit\<close>

definition snapshot_ids :: "row list \<Rightarrow> string list" where
  "snapshot_ids existing = concat (map (\<lambda>s. case get s ''snapshot_id'' of JStr i \<Rightarrow> [i] | _ \<Rightarrow> []) existing)"

definition persist_rows :: "engine_result \<Rightarrow> row list \<Rightarrow> unit act" where
  \<comment> \<open>the snapshots first, then the rows of the bars\<close>
  "persist_rows res snaps = act_each (\<lambda>(f, rows, key). append_to f (\<lambda>e. append_new e rows key))
     [(SNAPSHOT_FILE, snaps, ''snapshot_id''), (''paper_fills.jsonl'', map fill_json (er_fills res), ''fill_id''),
      (''paper_trades.jsonl'', map trade_json (er_trades res), ''trade_id''), (''paper_funding.jsonl'', map funding_json (er_funding res), ''funding_id''),
      (''paper_positions.jsonl'', map positions_json (er_positions res), ''bar_ts''), (''paper_equity.jsonl'', map equity_json (er_equity res), ''bar_ts'')]"

record run_bundle =
  bn_summary :: row
  bn_receipt :: string
  bn_state :: row
  bn_provenance :: row

definition last5 :: "'a list \<Rightarrow> 'a list" where
  "last5 xs = drop (length xs - 5) xs"

definition build_bundle :: "env \<Rightarrow> row \<Rightarrow> engine_result \<Rightarrow> dir \<Rightarrow> gate_error + (ledger_error + run_bundle)" where
  \<comment> \<open>in memory; a corrupt ledger is caught\<close>
  "build_bundle ev config res d = (let rd = read_ledger_validated d; catching = (\<lambda>r k. case r of Inr x \<Rightarrow> k x
        | Inl e \<Rightarrow> if caught e then Inr (Inl e) else Inl (crashed e)) in
     catching (rd ''paper_trades.jsonl'') (\<lambda>trades. catching (rd ''paper_equity.jsonl'') (\<lambda>equity. catching (rd ''paper_funding.jsonl'') (\<lambda>funding.
     let gaps = length (filter (\<lambda>f. \<not> py_truthy (obj_get f ''rate_available'' (JBool True))) funding); st = er_state res; mc = ev_machine ev in
     rbind (crash (compute_summary config trades equity (dict_keys (open_positions st)) (bars_elapsed st) gaps)) (\<lambda>summary.
     rbind (crash (render_receipt (mc_clock mc) summary (last5 trades) gaps (er_deferred_bar_ts res))) (\<lambda>receipt.
     let state = state_json st in
     Inr (Inr \<lparr>bn_summary = summary, bn_receipt = receipt, bn_state = state,
       bn_provenance = build_provenance mc d config Completed
         [(SUMMARY_FILE, sha256_hex (json_bytes summary)), (STATE_FILE, sha256_hex (json_bytes state)), (RECEIPT_FILE, sha256_hex receipt)]\<rparr>)))))))"

definition commit_bundle :: "env \<Rightarrow> row \<Rightarrow> pyfloat \<Rightarrow> run_bundle \<Rightarrow> row act" where
  \<comment> \<open>provenance and receipt, the integrity gate, then the state and last of all the OK summary\<close>
  "commit_bundle ev config initial b = (let summary_bytes = json_bytes (bn_summary b) in
     act_bind (write_json_atomic PROVENANCE_FILE (bn_provenance b)) (\<lambda>_.
     act_bind (act_write (Replace RECEIPT_FILE (bn_receipt b))) (\<lambda>_.
     act_bind (act_read (\<lambda>d. final_integrity_gate d (bn_state b) initial summary_bytes (json_bytes (bn_state b)) (bn_receipt b))) (\<lambda>failures.
     if failures \<noteq> [] then corrupt ev config (map failure_text failures)
     else act_bind (append_to PROVENANCE_LOG (\<lambda>e. append_rows e [bn_provenance b])) (\<lambda>_.
       act_bind (write_json_atomic STATE_FILE (bn_state b)) (\<lambda>_.
       act_bind (act_write (Replace SUMMARY_FILE summary_bytes)) (\<lambda>_. act_return (bn_summary b))))))))"

definition finish_run :: "env \<Rightarrow> row \<Rightarrow> engine_result \<Rightarrow> row act" where
  \<comment> \<open>after the rows are on disk\<close>
  "finish_run ev config res = act_bind (act_read reconcile) (\<lambda>failures.
     if failures \<noteq> [] then corrupt ev config (map failure_text failures)
     else act_bind (act_read (build_bundle ev config res)) (\<lambda>built. case built of
         Inl _ \<Rightarrow> corrupt ev config [''persisted-artifact read failed'']
       | Inr b \<Rightarrow> act_bind (act_lift (rbind (lookup config ''initial_equity_usd'') py_float)) (\<lambda>initial. commit_bundle ev config initial b)))"

definition account :: "env \<Rightarrow> row \<Rightarrow> obs list \<Rightarrow> obs list \<Rightarrow> row list \<Rightarrow> row act" where
  "account ev config per_bar_obs forward existing =
     act_bind (act_read (\<lambda>d. raised (read_state_obj (d STATE_FILE)))) (\<lambda>stored.
     act_bind (act_lift (engine_config_of config)) (\<lambda>cfg.
     act_bind (act_lift (case stored of Some r \<Rightarrow> state_of_json r | None \<Rightarrow> Inr (new_state (initial_equity_usd cfg)))) (\<lambda>st.
     act_bind (act_read (\<lambda>_. coverage_verdict ev config forward)) (\<lambda>covered.
     if \<not> covered then abort ev config ''FUNDING_COVERAGE_MISSING''
     else act_bind (act_lift (run_engine cfg per_bar_obs (ev_bars ev) (ev_funding ev) st)) (\<lambda>res.
       act_bind (act_lift (build_snapshots forward (map eq_bar_ts (er_equity res)) (snapshot_ids existing)
         \<lparr>sn_mtime = JFloat (ev_obs_mtime ev), sn_run_ts = mc_clock (ev_machine ev), sn_engine_version = engine_version cfg,
          sn_config_hash = config_hash cfg\<rparr>)) (\<lambda>snaps.
       act_bind (persist_rows res snaps) (\<lambda>_. finish_run ev config res)))))))"

section \<open>A run\<close>

definition observe :: "env \<Rightarrow> row \<Rightarrow> json \<Rightarrow> row act" where
  \<comment> \<open>the gates on what the observer wrote\<close>
  "observe ev config obs_log =
     act_bind (act_lift (str_at config ''forward_start_ts'')) (\<lambda>start_ts.
     act_bind (act_lift (check_freshness (mc_obs_dir (ev_machine ev) ''observation_log.json'' \<noteq> Absent) obs_log
        (mc_obs_dir (ev_machine ev) ''bar_decisions.jsonl'') (ev_now ev) (obj_get config ''freshness'' (JObj [])) (Some start_ts))) (\<lambda>fresh.
     if \<not> fr_ok fresh then abort ev config (fr_code fresh)
     else if fr_code fresh = ''NO_ELIGIBLE_BARS_YET'' then no_eligible_bars ev config
     else let per_bar_obs = (case get (obj_fields obs_log) ''per_bar_obs'' of JList xs \<Rightarrow> map obj_fields xs | _ \<Rightarrow> []) in
       act_bind (act_lift (parse_bar_utc start_ts)) (\<lambda>start.
       act_bind (act_lift (forward_observations start per_bar_obs)) (\<lambda>forward.
       act_bind (act_read (\<lambda>d. raised (read_jsonl (d SNAPSHOT_FILE)))) (\<lambda>existing.
       act_bind (act_lift (check_divergence existing forward)) (\<lambda>divergence.
       if divergence \<noteq> None then abort ev config ''SIGNAL_SNAPSHOT_DIVERGENCE''
       else account ev config per_bar_obs forward existing))))))"

definition run_configured :: "env \<Rightarrow> row \<Rightarrow> row act" where
  "run_configured ev config = act_bind (stage_previous_summary ev) (\<lambda>(staged, stage_failures).
     act_bind (write_preflight_marker ev config) (\<lambda>_.
     act_bind (act_read (\<lambda>d. rbind (check_existing_ledgers d staged) (\<lambda>fs. Inr (stage_failures @ map failure_text fs)))) (\<lambda>failures.
     if failures \<noteq> [] then act_bind (corrupt ev config failures) (\<lambda>summary. act_bind (act_each (\<lambda>f. act_write (Remove f)) staged)
         (\<lambda>_. act_return summary))
     else act_bind (act_each (\<lambda>f. act_write (Remove f)) staged) (\<lambda>_.
       act_bind (act_read (\<lambda>_. read_obs_log ev)) (\<lambda>obs_log. case obs_log of
         None \<Rightarrow> abort ev config ''MALFORMED_OBSERVATION_LOG''
       | Some v \<Rightarrow> observe ev config v)))))"

definition run_once :: "env \<Rightarrow> row act" where
  "run_once ev d = (case config_of d of
       Inl BadConfig \<Rightarrow> (case invalidate_stale_ok ev d of (ws, Inr _) \<Rightarrow> (ws, Inl BadConfig) | (ws, Inl e) \<Rightarrow> (ws, Inl e))
     | Inl e \<Rightarrow> ([], Inl e)
     | Inr config \<Rightarrow> run_configured ev config d)"

end
