(* ===== verification/RunnerSafe.thy ===== *)
theory RunnerSafe
  imports Runner
begin

text \<open>
  The publication protocol of a run: whatever moment a run is interrupted at, the visible summary is the
  one it found, or says that the run is not complete, or is an OK over a bundle the integrity gate passed.
\<close>

section \<open>Summaries that are not OK\<close>

definition says_not_ok :: "string \<Rightarrow> bool" where
  \<comment> \<open>the bytes of a summary whose status is another one\<close>
  "says_not_ok b \<longleftrightarrow> (\<exists>r s. b = json_bytes r \<and> get r ''status'' = JStr s \<and> s \<noteq> ''OK'')"

definition summary_not_ok :: "dir \<Rightarrow> bool" where
  "summary_not_ok d \<longleftrightarrow> d SUMMARY_FILE = Absent \<or> (\<exists>b. d SUMMARY_FILE = Bytes b \<and> says_not_ok b)"

fun quiet :: "op \<Rightarrow> bool" where
  \<comment> \<open>cannot put an OK into view\<close>
  "quiet (Replace f b) = (f = SUMMARY_FILE \<longrightarrow> says_not_ok b)"
| "quiet (Grow f e) = (f \<noteq> SUMMARY_FILE)"
| "quiet (Move f g) = (g \<noteq> SUMMARY_FILE)"
| "quiet (Remove f) = True"

lemma quiet_step: "quiet w \<Longrightarrow> summary_not_ok d \<Longrightarrow> summary_not_ok (apply_op w d)"
  by (cases w) (auto simp: summary_not_ok_def)

lemma quiet_torn: "quiet (Grow f e) \<Longrightarrow> summary_not_ok d \<Longrightarrow> summary_not_ok (d(f := x))"
  by (auto simp: summary_not_ok_def)

lemma quiet_crash: "crash_point ws d d' \<Longrightarrow> list_all quiet ws \<Longrightarrow> summary_not_ok d \<Longrightarrow> summary_not_ok d'"
  by (induction rule: crash_point.induct) (auto intro: quiet_step quiet_torn)

lemma quiet_end: "list_all quiet ws \<Longrightarrow> summary_not_ok d \<Longrightarrow> summary_not_ok (apply_ops ws d)"
  using quiet_crash crash_all by blast

section \<open>Committed bundles\<close>

definition pinned_by :: "fs_entry \<Rightarrow> (string \<times> string) list \<Rightarrow> bool" where
  \<comment> \<open>a provenance file that pins the digests of the bytes\<close>
  "pinned_by prov files \<longleftrightarrow> (\<exists>p digests. read_json_obj prov = Inr (Some p) \<and> get p ''output_digests'' = JObj digests
     \<and> (\<forall>(name, b) \<in> set files. get digests name = JStr (sha256_hex b)))"

definition valid_ok_summary :: "string \<Rightarrow> bool" where
  "valid_ok_summary b \<longleftrightarrow> (\<exists>t s. utf8_decode b = Text t \<and> json_loads t = Inr (JObj s) \<and> validate_summary_shape s = Inr ()
     \<and> get s ''status'' = JStr ''OK'')"

definition committed_bundle :: "dir \<Rightarrow> bool" where
  "committed_bundle d \<longleftrightarrow> (\<exists>summary state receipt marker lg. d SUMMARY_FILE = Bytes summary \<and> d STATE_FILE = Bytes (json_bytes state)
     \<and> d RECEIPT_FILE = Bytes receipt \<and> valid_ok_summary summary
     \<and> pinned_by (d PROVENANCE_FILE) [(SUMMARY_FILE, summary), (STATE_FILE, json_bytes state), (RECEIPT_FILE, receipt)]
     \<and> reconcile (d(SUMMARY_FILE := marker)) = Inr [] \<and> read_ledgers (d(SUMMARY_FILE := marker)) = Inr lg
     \<and> gate_state (lg_equity lg) (lg_fills lg) state)"

lemmas file_names = SUMMARY_FILE_def STATE_FILE_def RECEIPT_FILE_def PROVENANCE_FILE_def PROVENANCE_LOG_def SNAPSHOT_FILE_def

lemma reconcile_cong:
  assumes "\<And>f. f \<in> set (SUMMARY_FILE # ''paper_config.json'' # LEDGER_JSONL_FILES) \<Longrightarrow> d f = d' f"
  shows "reconcile d = reconcile d'" "read_ledgers d = read_ledgers d'"
  using assms by (simp_all add: reconcile_def config_of_def read_ledgers_def read_ledger_validated_def Let_def
    LEDGER_JSONL_FILES_def LEDGER_JSONL_SCHEMAS_def SUMMARY_FILE_def)

lemma gate_commits:
  assumes "final_integrity_gate d state initial summary (json_bytes state) receipt = Inr []"
  shows "committed_bundle (d(PROVENANCE_LOG := e, STATE_FILE := Bytes (json_bytes state), SUMMARY_FILE := Bytes summary))"
proof -
  let ?d = "d(PROVENANCE_LOG := e, STATE_FILE := Bytes (json_bytes state), SUMMARY_FILE := Bytes summary)"
  obtain lg where g: "reconcile d = Inr []" "read_ledgers d = Inr lg" "gate_state (lg_equity lg) (lg_fills lg) state"
    "valid_ok_summary summary" "d RECEIPT_FILE = Bytes receipt"
    "pinned_by (d PROVENANCE_FILE) [(SUMMARY_FILE, summary), (STATE_FILE, json_bytes state), (RECEIPT_FILE, receipt)]"
    using gate_passes[OF assms] unfolding valid_ok_summary_def pinned_by_def SUMMARY_FILE_def RECEIPT_FILE_def PROVENANCE_FILE_def by auto
  have "reconcile (?d(SUMMARY_FILE := d SUMMARY_FILE)) = reconcile d" "read_ledgers (?d(SUMMARY_FILE := d SUMMARY_FILE)) = read_ledgers d"
    by (rule reconcile_cong, auto simp: file_names LEDGER_JSONL_FILES_def LEDGER_JSONL_SCHEMAS_def)+
  moreover have "?d RECEIPT_FILE = d RECEIPT_FILE" "?d PROVENANCE_FILE = d PROVENANCE_FILE" "?d STATE_FILE = Bytes (json_bytes state)"
    "?d SUMMARY_FILE = Bytes summary" by (simp_all add: file_names)
  ultimately show ?thesis unfolding committed_bundle_def using g by metis
qed

section \<open>Quiet acts\<close>

lemma emits_lift_bind: "(\<And>x. r = Inr x \<Longrightarrow> emits P (k x)) \<Longrightarrow> emits P (act_bind (act_lift r) k)"
  by (rule emits_bind) (auto simp: act_lift_def act_read_def crash_def split: sum.splits)

lemma emits_read_bind: "(\<And>d x. f d = Inr x \<Longrightarrow> emits P (k x)) \<Longrightarrow> emits P (act_bind (act_read f) k)"
  by (rule emits_bind) (auto simp: act_read_def)

lemma emits_write_bind: "P w \<Longrightarrow> emits P (k ()) \<Longrightarrow> emits P (act_bind (act_write w) k)"
  by (rule emits_bind) (auto simp: act_write_def emits_def)

lemma emits_append_to: "(\<And>e. P (Grow f e)) \<Longrightarrow> emits P (append_to f g)"
  unfolding append_to_def by (rule emits_read_bind) (auto split: prod.splits intro: emits_write)

lemma quiet_terminal: "get summary ''status'' = JStr s \<Longrightarrow> s \<noteq> ''OK'' \<Longrightarrow> emits quiet (publish_terminal ev config oc summary receipt)"
  unfolding publish_terminal_def Let_def write_json_atomic_def
  by (intro emits_read_bind emits_write_bind emits_bind[OF emits_append_to] emits_return) (auto simp: file_names says_not_ok_def)

lemma status_of_summaries:
  "aborted_summary config now code reason = Inr s \<Longrightarrow> get s ''status'' = JStr ''ABORTED''"
  "corrupt_summary config now failures = Inr s \<Longrightarrow> get s ''status'' = JStr ''CORRUPT_LEDGER''"
  "no_eligible_bars_summary config now reason = Inr s \<Longrightarrow> get s ''status'' = JStr ''NO_ELIGIBLE_BARS_YET''"
  "running_summary config run_id now previous phase = Inr s \<Longrightarrow> get s ''status'' = JStr ''RUNNING''"
  by (auto simp: aborted_summary_def corrupt_summary_def no_eligible_bars_summary_def running_summary_def
      rbind_Inr_iff get_def obj_get_def)

lemma status_of_config_error: "get (config_error_preflight_marker run_id now) ''status'' = JStr ''RUNNING''"
  by (simp add: config_error_preflight_marker_def get_def obj_get_def)

lemma quiet_abort: "emits quiet (abort ev config code)"
  unfolding abort_def by (intro emits_lift_bind quiet_terminal[where s = "''ABORTED''"]) (auto dest: status_of_summaries)

lemma quiet_corrupt: "emits quiet (corrupt ev config failures)"
  unfolding corrupt_def by (intro emits_lift_bind quiet_terminal[where s = "''CORRUPT_LEDGER''"]) (auto dest: status_of_summaries)

lemma quiet_no_eligible_bars: "emits quiet (no_eligible_bars ev config)"
  unfolding no_eligible_bars_def Let_def
  by (intro emits_lift_bind quiet_terminal[where s = "''NO_ELIGIBLE_BARS_YET''"]) (auto dest: status_of_summaries)

lemma quiet_persist: "emits quiet (persist_rows res snaps)"
  unfolding persist_rows_def by (rule emits_each) (auto split: prod.splits intro!: emits_append_to simp: file_names)

lemma quiet_marker: "emits quiet (write_preflight_marker ev config)"
  unfolding write_preflight_marker_def write_json_atomic_def
  by (intro emits_lift_bind emits_write) (auto simp: says_not_ok_def dest!: status_of_summaries(4))

section \<open>Guarded acts\<close>

definition guarded :: "'a act \<Rightarrow> bool" where
  "guarded m \<longleftrightarrow> (\<forall>d d'. summary_not_ok d \<longrightarrow> crash_point (fst (m d)) d d' \<longrightarrow> summary_not_ok d' \<or> committed_bundle d')"

lemma guardedD: "guarded m \<Longrightarrow> summary_not_ok d \<Longrightarrow> crash_point (fst (m d)) d d' \<Longrightarrow> summary_not_ok d' \<or> committed_bundle d'"
  by (simp add: guarded_def)

lemma guarded_quiet: "emits quiet m \<Longrightarrow> guarded m"
  unfolding guarded_def emits_def using quiet_crash by blast

lemma guarded_bind:
  assumes m: "emits quiet m" and k: "\<And>x. guarded (k x)"
  shows "guarded (act_bind m k)"
  unfolding guarded_def
proof (intro allI impI)
  fix d d' assume d: "summary_not_ok d" and c: "crash_point (fst (act_bind m k d)) d d'"
  obtain ws r where w: "m d = (ws, r)" by fastforce
  have q: "list_all quiet ws" using m w by (metis emits_def fst_conv)
  show "summary_not_ok d' \<or> committed_bundle d'"
  proof (cases r)
    case (Inr x)
    have "crash_point (ws @ fst (k x (apply_ops ws d))) d d'" using c w Inr by (simp add: act_bind_def split: prod.splits)
    then consider "crash_point ws d d'" | "crash_point (fst (k x (apply_ops ws d))) (apply_ops ws d) d'" using crash_append by blast
    then show ?thesis
    proof cases
      case 1 then show ?thesis using quiet_crash q d by blast
    next
      case 2 then show ?thesis using guardedD[OF k quiet_end[OF q d]] by blast
    qed
  qed (use c w q d quiet_crash in \<open>auto simp: act_bind_def\<close>)
qed

lemma guarded_if: "(P \<Longrightarrow> guarded m) \<Longrightarrow> (\<not> P \<Longrightarrow> guarded n) \<Longrightarrow> guarded (if P then m else n)"
  by simp

lemmas guards = guarded_bind[OF emits_read] guarded_bind[OF emits_lift] guarded_if guarded_quiet[OF quiet_abort] guarded_quiet[OF quiet_corrupt]
  guarded_quiet[OF quiet_no_eligible_bars] guarded_quiet[OF emits_return] guarded_bind[OF quiet_persist] guarded_bind[OF quiet_marker]

lemma commit_tail:
  assumes gate: "final_integrity_gate d state initial summary (json_bytes state) receipt = Inr []" and d: "summary_not_ok d"
    and c: "crash_point [Grow PROVENANCE_LOG e, Replace STATE_FILE (json_bytes state), Replace SUMMARY_FILE summary] d d'"
  shows "summary_not_ok d' \<or> committed_bundle d'"
proof -
  have quiet: "list_all quiet [Grow PROVENANCE_LOG e, Replace STATE_FILE (json_bytes state)]" by (simp add: file_names)
  from c have "crash_point ([Grow PROVENANCE_LOG e, Replace STATE_FILE (json_bytes state)] @ [Replace SUMMARY_FILE summary]) d d'" by simp
  then consider "crash_point [Grow PROVENANCE_LOG e, Replace STATE_FILE (json_bytes state)] d d'"
    | "crash_point [Replace SUMMARY_FILE summary] (d(PROVENANCE_LOG := e, STATE_FILE := Bytes (json_bytes state))) d'"
    using crash_append by fastforce
  then show ?thesis
  proof cases
    case 1 then show ?thesis using quiet_crash quiet d by blast
  next
    case 2
    then have "d' = d(PROVENANCE_LOG := e, STATE_FILE := Bytes (json_bytes state))
        \<or> d' = d(PROVENANCE_LOG := e, STATE_FILE := Bytes (json_bytes state), SUMMARY_FILE := Bytes summary)"
      by (auto elim!: crash_ConsE crash_NilE)
    then show ?thesis using gate_commits[OF gate] quiet_end[OF quiet d] by auto
  qed
qed

lemma guarded_commit: "guarded (commit_bundle ev config initial b)"
proof -
  let ?gate = "\<lambda>d. final_integrity_gate d (bn_state b) initial (json_bytes (bn_summary b)) (json_bytes (bn_state b)) (bn_receipt b)"
  let ?k = "\<lambda>failures. if failures \<noteq> [] then corrupt ev config (map failure_text failures)
     else act_bind (append_to PROVENANCE_LOG (\<lambda>e. append_rows e [bn_provenance b])) (\<lambda>_.
       act_bind (write_json_atomic STATE_FILE (bn_state b)) (\<lambda>_.
       act_bind (act_write (Replace SUMMARY_FILE (json_bytes (bn_summary b)))) (\<lambda>_. act_return (bn_summary b))))"
  have rest: "guarded (act_bind (act_read ?gate) ?k)"
    unfolding guarded_def
  proof (intro allI impI)
    fix d d' assume d: "summary_not_ok d" and c: "crash_point (fst (act_bind (act_read ?gate) ?k d)) d d'"
    show "summary_not_ok d' \<or> committed_bundle d'"
    proof (cases "?gate d = Inr []")
      case True
      show ?thesis
      proof (cases "raised (append_rows (d PROVENANCE_LOG) [bn_provenance b])")
        case (Inr x)
        then obtain e n where x: "x = (e, n)" by fastforce
        show ?thesis using c commit_tail[OF True d, of e d'] Inr True
          by (simp add: act_bind_def act_read_def act_write_def act_return_def append_to_def write_json_atomic_def x)
      next
        case (Inl err)
        then show ?thesis using c d True by (auto simp: act_bind_def act_read_def append_to_def elim!: crash_NilE)
      qed
    next
      case False
      have g: "guarded (act_bind (act_read ?gate) (\<lambda>fs. corrupt ev config (map failure_text fs)))"
        by (intro guarded_bind emits_read guarded_quiet quiet_corrupt)
      have "act_bind (act_read ?gate) ?k d = act_bind (act_read ?gate) (\<lambda>fs. corrupt ev config (map failure_text fs)) d"
        using False by (auto simp: act_bind_def act_read_def split: sum.splits)
      then show ?thesis using guardedD[OF g d] c by simp
    qed
  qed
  have "emits quiet (write_json_atomic PROVENANCE_FILE p)" "emits quiet (act_write (Replace RECEIPT_FILE r))" for p r
    unfolding write_json_atomic_def by (rule emits_write, simp add: file_names)+
  then show ?thesis
    unfolding commit_bundle_def Let_def by (intro guarded_bind[where m = "write_json_atomic _ _"] guarded_bind[where m = "act_write _"] rest)
qed

lemma guarded_finish: "guarded (finish_run ev config res)"
  unfolding finish_run_def by (intro guards) (auto intro!: guards guarded_commit split: sum.splits)

lemma guarded_account: "guarded (account ev config per_bar forward existing)"
  unfolding account_def by (intro guards guarded_finish)

lemma guarded_observe: "guarded (observe ev config obs_log)"
  unfolding observe_def Let_def by (intro guards guarded_account)

section \<open>A run\<close>

lemma guarded_first:
  assumes "m d = ([w], Inr x)" "summary_not_ok (apply_op w d)" "\<And>f e. w \<noteq> Grow f e" "guarded (k x)"
    and c: "crash_point (fst (act_bind m k d)) d d'"
  shows "d' = d \<or> summary_not_ok d' \<or> committed_bundle d'"
proof -
  have "crash_point (w # fst (k x (apply_op w d))) d d'" using c assms(1) by (simp add: act_bind_def split: prod.splits)
  then consider "d' = d" | "crash_point (fst (k x (apply_op w d))) (apply_op w d) d'"
    using assms(3) by (auto elim!: crash_ConsE)
  then show ?thesis using guardedD[OF assms(4,2)] by cases auto
qed

lemma staged_not_summary: "is_staged f \<Longrightarrow> f \<noteq> SUMMARY_FILE" "is_staged (staged_name run_id)"
  by (auto simp: is_staged_def staged_name_def SUMMARY_FILE_def)

lemma quiet_removes: "emits quiet (act_each (\<lambda>f. act_write (Remove f)) fs)"
  by (rule emits_each) (auto intro: emits_write)

definition after_marker :: "env \<Rightarrow> row \<Rightarrow> string list \<Rightarrow> string list \<Rightarrow> row act" where
  "after_marker ev config staged stage_failures =
     act_bind (act_read (\<lambda>d. rbind (check_existing_ledgers d staged) (\<lambda>fs. Inr (stage_failures @ map failure_text fs)))) (\<lambda>failures.
     if failures \<noteq> [] then act_bind (corrupt ev config failures) (\<lambda>summary. act_bind (act_each (\<lambda>f. act_write (Remove f)) staged)
         (\<lambda>_. act_return summary))
     else act_bind (act_each (\<lambda>f. act_write (Remove f)) staged) (\<lambda>_.
       act_bind (act_read (\<lambda>_. read_obs_log ev)) (\<lambda>obs_log. case obs_log of
         None \<Rightarrow> abort ev config ''MALFORMED_OBSERVATION_LOG''
       | Some v \<Rightarrow> observe ev config v)))"

lemma run_configured_alt: "run_configured ev config = act_bind (stage_previous_summary ev) (\<lambda>(staged, stage_failures).
     act_bind (write_preflight_marker ev config) (\<lambda>_. after_marker ev config staged stage_failures))"
  by (simp add: run_configured_def after_marker_def)

lemma guarded_after_marker: "guarded (after_marker ev config staged stage_failures)"
  unfolding after_marker_def
  by (intro guards guarded_bind[OF quiet_corrupt] guarded_bind[OF quiet_removes]) (auto intro!: guards guarded_observe split: option.splits)

lemma marker_cases: "write_preflight_marker ev config d = ([], r) \<and> (\<exists>e. r = Inl e)
    \<or> (\<exists>b. write_preflight_marker ev config d = ([Replace SUMMARY_FILE b], Inr ()) \<and> says_not_ok b)"
  if "write_preflight_marker ev config d = (ws, r)"
proof (cases "running_summary config (ev_run_id ev) (mc_clock (ev_machine ev)) [] ''preflight''")
  case (Inr s)
  have "says_not_ok (json_bytes s)" unfolding says_not_ok_def using status_of_summaries(4)[OF Inr] by auto
  then show ?thesis by (auto simp: write_preflight_marker_def act_bind_def act_lift_def act_read_def crash_def Inr write_json_atomic_def act_write_def)
qed (use that in \<open>auto simp: write_preflight_marker_def act_bind_def act_lift_def act_read_def crash_def split: sum.splits\<close>)

lemma guarded_marked: "guarded (act_bind (write_preflight_marker ev config) (\<lambda>_. after_marker ev config staged fs))"
  by (intro guards guarded_after_marker)

lemma marked_crash:
  assumes "crash_point (fst (act_bind (write_preflight_marker ev config) (\<lambda>_. after_marker ev config staged fs) d)) d d'"
  shows "d' = d \<or> summary_not_ok d' \<or> committed_bundle d'"
proof -
  obtain ws r where w: "write_preflight_marker ev config d = (ws, r)" by fastforce
  from marker_cases[OF this] show ?thesis
  proof
    assume "write_preflight_marker ev config d = ([], r) \<and> (\<exists>e. r = Inl e)"
    then show ?thesis using assms by (auto simp: act_bind_def elim!: crash_NilE)
  next
    assume "\<exists>b. write_preflight_marker ev config d = ([Replace SUMMARY_FILE b], Inr ()) \<and> says_not_ok b"
    then obtain b where b: "write_preflight_marker ev config d = ([Replace SUMMARY_FILE b], Inr ())" "says_not_ok b" by blast
    show ?thesis by (rule guarded_first[OF b(1) _ _ guarded_after_marker assms]) (auto simp: summary_not_ok_def b(2))
  qed
qed

lemma configured_crash:
  assumes c: "crash_point (fst (run_configured ev config out)) out d'"
  shows "d' = out \<or> summary_not_ok d' \<or> committed_bundle d'"
proof (cases "out SUMMARY_FILE = Absent \<or> ev_stage_fails ev")
  case True
  then obtain staged fs where "stage_previous_summary ev out = ([], Inr (staged, fs))"
    by (cases "out SUMMARY_FILE = Absent") (auto simp: stage_previous_summary_def act_bind_def act_read_def act_return_def)
  then have "fst (run_configured ev config out) = fst (act_bind (write_preflight_marker ev config) (\<lambda>_. after_marker ev config staged fs) out)"
    by (simp add: run_configured_alt act_bind_def split: prod.splits)
  then show ?thesis using marked_crash c by metis
next
  case False
  let ?w = "Move SUMMARY_FILE (staged_name (ev_run_id ev))"
  have s: "stage_previous_summary ev out = ([?w], Inr (staged_summaries (staged_name (ev_run_id ev) # ev_names ev), []))"
    using False by (simp add: stage_previous_summary_def act_bind_def act_read_def act_return_def act_write_def)
  show ?thesis
    by (rule guarded_first[OF s _ _ _ c[unfolded run_configured_alt]]) (auto simp: summary_not_ok_def guarded_marked)
qed

text \<open>
  C4. Whatever moment a run is interrupted at, the output directory is the one it found, or its summary is
  absent or states a status other than OK, or it is an OK over a bundle that is committed: the provenance
  on disk pins the bytes of the summary, of the state and of the receipt, the ledgers reconcile, and the
  state stands at their last bar. A stale OK is therefore never visible beside new rows, nor an OK before its evidence.
\<close>

theorem interrupted_run_never_fakes_ok:
  assumes c: "crash_point (fst (run_once ev out)) out d'"
  shows "d' = out \<or> summary_not_ok d' \<or> committed_bundle d'"
proof (cases "config_of out")
  case (Inr config)
  then show ?thesis using configured_crash c by (simp add: run_once_def)
next
  case (Inl e)
  have "fst (run_once ev out) = [] \<or> fst (run_once ev out)
      = [Replace SUMMARY_FILE (json_bytes (config_error_preflight_marker (ev_run_id ev) (mc_clock (ev_machine ev))))]"
    by (cases e) (auto simp: run_once_def Inl invalidate_stale_ok_def act_bind_def act_read_def act_return_def write_json_atomic_def act_write_def
        split: prod.splits sum.splits if_splits)
  moreover have "says_not_ok (json_bytes (config_error_preflight_marker (ev_run_id ev) (mc_clock (ev_machine ev))))"
    unfolding says_not_ok_def using status_of_config_error by auto
  ultimately show ?thesis using c by (auto simp: summary_not_ok_def elim!: crash_ConsE crash_NilE)
qed

definition fx_machine :: machine where
  "fx_machine = \<lparr>mc_obs_dir = (\<lambda>_. Absent), mc_data_dir = (\<lambda>_. Absent), mc_git_sha = ''unknown'', mc_unreadable = ''OSError:5'',
     mc_clock = ''2026-07-01T00:00:00Z''\<rparr>"

definition fx_env :: env where
  "fx_env = \<lparr>ev_machine = fx_machine, ev_run_id = ''1'', ev_now = 0, ev_stage_fails = False, ev_names = [], ev_obs_mtime = PFin 0,
     ev_bars = [], ev_funding = None, ev_csv = (\<lambda>_. NoFile)\<rparr>"

definition fx_stale :: dir where
  \<comment> \<open>an OK, and the configuration gone\<close>
  "fx_stale = (\<lambda>_. Absent)(SUMMARY_FILE := Bytes (json_bytes [(''status'', JStr ''OK'')]))"

lemma fx_stale_run: "fst (run_once fx_env fx_stale) = [Replace SUMMARY_FILE (json_bytes (config_error_preflight_marker ''1'' ''2026-07-01T00:00:00Z''))]"
  by (simp add: run_once_def config_of_def load_config_def fx_stale_def fx_env_def fx_machine_def invalidate_stale_ok_def act_bind_def act_read_def
      write_json_atomic_def act_write_def SUMMARY_FILE_def)

definition fx_marked :: dir where
  "fx_marked = fx_stale(SUMMARY_FILE := Bytes (json_bytes (config_error_preflight_marker ''1'' ''2026-07-01T00:00:00Z'')))"

lemma fx_marked_crash: "crash_point (fst (run_once fx_env fx_stale)) fx_stale fx_marked"
  using crash_all[of "fst (run_once fx_env fx_stale)" fx_stale] by (simp add: fx_stale_run fx_marked_def)

theorem interrupted_run_never_fakes_ok_witness:
  "crash_point (fst (run_once fx_env fx_stale)) fx_stale fx_marked
   \<and> (fx_marked = fx_stale \<or> summary_not_ok fx_marked \<or> committed_bundle fx_marked)"
  using interrupted_run_never_fakes_ok[OF fx_marked_crash] fx_marked_crash by blast

end
