(* ===== verification/RunnerProtocol.thy ===== *)
theory RunnerProtocol
  imports RunnerSafe
begin

text \<open>
  The order of the writes of a run, as an abstract protocol on phases, and the refinement: every run, in
  whatever way it ends, is a run of the protocol.
\<close>

section \<open>The protocol\<close>

datatype phase = Found | Cleared | Running | Saved | Done string

definition status_bytes :: "string \<Rightarrow> string \<Rightarrow> bool" where
  \<comment> \<open>the bytes of a summary with the status\<close>
  "status_bytes s b \<longleftrightarrow> (\<exists>r. b = json_bytes r \<and> get r ''status'' = JStr s)"

definition EVIDENCE_FILES :: "string list" where
  "EVIDENCE_FILES = [PROVENANCE_LOG, SNAPSHOT_FILE, ''paper_fills.jsonl'', ''paper_trades.jsonl'', ''paper_funding.jsonl'',
     ''paper_positions.jsonl'', ''paper_equity.jsonl'']"

fun is_work :: "op \<Rightarrow> bool" where
  "is_work (Replace f b) = (f = PROVENANCE_FILE \<or> f = RECEIPT_FILE)"
| "is_work (Grow f e) = (f \<in> set EVIDENCE_FILES)"
| "is_work (Move f g) = False"
| "is_work (Remove f) = is_staged f"

inductive protocol :: "phase \<Rightarrow> op list \<Rightarrow> phase \<Rightarrow> bool" where
  stop: "protocol p [] p"
| stage: "protocol Cleared ws q \<Longrightarrow> is_staged f \<Longrightarrow> protocol Found (Move SUMMARY_FILE f # ws) q"
| mark: "protocol Running ws q \<Longrightarrow> p = Found \<or> p = Cleared \<Longrightarrow> status_bytes ''RUNNING'' b \<Longrightarrow> protocol p (Replace SUMMARY_FILE b # ws) q"
| work: "protocol Running ws q \<Longrightarrow> is_work w \<Longrightarrow> protocol Running (w # ws) q"
| terminal: "protocol (Done s) ws q \<Longrightarrow> s \<in> {''ABORTED'', ''CORRUPT_LEDGER'', ''NO_ELIGIBLE_BARS_YET''} \<Longrightarrow> status_bytes s b
    \<Longrightarrow> protocol Running (Replace SUMMARY_FILE b # ws) q"
| save: "protocol Saved ws q \<Longrightarrow> protocol Running (Replace STATE_FILE b # ws) q"
| commit: "protocol (Done ''OK'') ws q \<Longrightarrow> status_bytes ''OK'' b \<Longrightarrow> protocol Saved (Replace SUMMARY_FILE b # ws) q"
| tidy: "protocol (Done s) ws q \<Longrightarrow> is_staged f \<Longrightarrow> protocol (Done s) (Remove f # ws) q"

lemma protocol_append: "protocol p ws q \<Longrightarrow> protocol q vs r \<Longrightarrow> protocol p (ws @ vs) r"
  by (induction rule: protocol.induct) (auto intro: protocol.intros)

section \<open>Simulation\<close>

definition steps :: "phase \<Rightarrow> 'a act \<Rightarrow> ('a \<Rightarrow> phase \<Rightarrow> bool) \<Rightarrow> bool" where
  \<comment> \<open>from the phase the act follows the protocol, to a phase related to its value if it returns one\<close>
  "steps p m Q \<longleftrightarrow> (\<forall>d. \<exists>q. protocol p (fst (m d)) q \<and> (\<forall>x. snd (m d) = Inr x \<longrightarrow> Q x q))"

lemma steps_return: "Q x p \<Longrightarrow> steps p (act_return x) Q"
  by (auto simp: steps_def act_return_def intro: stop)

lemma steps_write: "protocol p [w] q \<Longrightarrow> Q () q \<Longrightarrow> steps p (act_write w) Q"
  by (auto simp: steps_def act_write_def)

lemma steps_bind:
  assumes m: "steps p m Q" and k: "\<And>x q. Q x q \<Longrightarrow> steps q (k x) R"
  shows "steps p (act_bind m k) R"
  unfolding steps_def
proof
  fix d
  obtain ws r where w: "m d = (ws, r)" by fastforce
  obtain q where q: "protocol p ws q" "\<forall>x. r = Inr x \<longrightarrow> Q x q" using m w unfolding steps_def by (metis fst_conv snd_conv)
  show "\<exists>q. protocol p (fst (act_bind m k d)) q \<and> (\<forall>x. snd (act_bind m k d) = Inr x \<longrightarrow> R x q)"
  proof (cases r)
    case (Inl e) then show ?thesis using q w by (auto simp: act_bind_def)
  next
    case (Inr x)
    obtain vs t where v: "k x (apply_ops ws d) = (vs, t)" by fastforce
    have "steps q (k x) R" using k q(2) Inr by blast
    then obtain o' where "protocol q vs o'" "\<forall>y. t = Inr y \<longrightarrow> R y o'" unfolding steps_def using v by (metis fst_conv snd_conv)
    then have "protocol p (ws @ vs) o' \<and> (\<forall>y. t = Inr y \<longrightarrow> R y o')" using protocol_append q(1) by blast
    then show ?thesis using w v Inr by (auto simp: act_bind_def)
  qed
qed

lemma steps_read_bind: "(\<And>d x. f d = Inr x \<Longrightarrow> steps p (k x) R) \<Longrightarrow> steps p (act_bind (act_read f) k) R"
  by (rule steps_bind[where Q = "\<lambda>x q. q = p \<and> (\<exists>d. f d = Inr x)"]) (auto simp: steps_def act_read_def intro: stop)

lemma steps_lift_bind: "(\<And>x. r = Inr x \<Longrightarrow> steps p (k x) R) \<Longrightarrow> steps p (act_bind (act_lift r) k) R"
  unfolding act_lift_def by (rule steps_read_bind) (auto simp: crash_def split: sum.splits)

lemma steps_write_bind: "protocol p [w] q \<Longrightarrow> steps q (k ()) R \<Longrightarrow> steps p (act_bind (act_write w) k) R"
  by (rule steps_bind[where Q = "\<lambda>_ r. r = q"]) (auto intro: steps_write)

lemma steps_append_to: "f \<in> set EVIDENCE_FILES \<Longrightarrow> steps Running (append_to f g) (\<lambda>_ q. q = Running)"
  unfolding append_to_def by (rule steps_read_bind) (auto split: prod.splits intro!: steps_write work stop)

lemma steps_append_to_bind: "f \<in> set EVIDENCE_FILES \<Longrightarrow> steps Running (k ()) R \<Longrightarrow> steps Running (act_bind (append_to f g) k) R"
  by (rule steps_bind[OF steps_append_to]) auto

lemma steps_each: "(\<And>x. x \<in> set xs \<Longrightarrow> steps p (f x) (\<lambda>_ q. q = p)) \<Longrightarrow> steps p (act_each f xs) (\<lambda>_ q. q = p)"
  by (induction xs) (auto intro: steps_return steps_bind)

lemma steps_if: "(P \<Longrightarrow> steps p m R) \<Longrightarrow> (\<not> P \<Longrightarrow> steps p n R) \<Longrightarrow> steps p (if P then m else n) R"
  by simp

section \<open>The parts of a run\<close>

definition ended :: "row \<Rightarrow> phase \<Rightarrow> bool" where
  "ended r q \<longleftrightarrow> (\<exists>s. get r ''status'' = JStr s \<and> q = Done s)"

lemma steps_publish:
  assumes "get summary ''status'' = JStr s" "s \<in> {''ABORTED'', ''CORRUPT_LEDGER'', ''NO_ELIGIBLE_BARS_YET''}"
  shows "steps Running (publish_terminal ev config oc summary receipt) ended"
proof -
  have "protocol Running [Replace SUMMARY_FILE (json_bytes summary)] (Done s)"
    using assms by (auto intro!: terminal stop simp: status_bytes_def)
  moreover have "protocol Running [Replace PROVENANCE_FILE b] Running" "protocol Running [Replace RECEIPT_FILE b] Running" for b
    by (auto intro!: work stop)
  moreover have "PROVENANCE_LOG \<in> set EVIDENCE_FILES" by (simp add: EVIDENCE_FILES_def)
  moreover have "ended summary (Done s)" using assms by (auto simp: ended_def)
  ultimately show ?thesis
    unfolding publish_terminal_def Let_def write_json_atomic_def
    by (intro steps_read_bind steps_append_to_bind) (blast intro: steps_write_bind steps_append_to_bind steps_return)
qed

lemma steps_abort: "steps Running (abort ev config code) ended"
  unfolding abort_def by (intro steps_lift_bind steps_publish[where s = "''ABORTED''"]) (auto dest: status_of_summaries)

lemma steps_corrupt: "steps Running (corrupt ev config failures) ended"
  unfolding corrupt_def by (intro steps_lift_bind steps_publish[where s = "''CORRUPT_LEDGER''"]) (auto dest: status_of_summaries)

lemma steps_no_eligible_bars: "steps Running (no_eligible_bars ev config) ended"
  unfolding no_eligible_bars_def Let_def
  by (intro steps_lift_bind steps_publish[where s = "''NO_ELIGIBLE_BARS_YET''"]) (auto dest: status_of_summaries)

lemma steps_persist: "steps Running (persist_rows res snaps) (\<lambda>_ q. q = Running)"
  unfolding persist_rows_def by (rule steps_each) (auto split: prod.splits intro!: steps_append_to simp: EVIDENCE_FILES_def)

lemma status_of_compute_summary: "compute_summary config trades equity open_symbols bars gaps = Inr s \<Longrightarrow> get s ''status'' = JStr ''OK''"
  by (auto simp: compute_summary_def rbind_Inr_iff Let_def get_def obj_get_def)

lemma status_of_bundle: "build_bundle ev config res d = Inr (Inr b) \<Longrightarrow> get (bn_summary b) ''status'' = JStr ''OK''"
  by (auto simp: build_bundle_def Let_def rbind_Inr_iff crash_def status_of_compute_summary split: sum.splits if_splits)

lemma steps_commit:
  assumes "get (bn_summary b) ''status'' = JStr ''OK''"
  shows "steps Running (commit_bundle ev config initial b) ended"
proof -
  have work: "protocol Running [Replace PROVENANCE_FILE x] Running" "protocol Running [Replace RECEIPT_FILE x] Running" for x
    by (auto intro!: work stop)
  have save: "protocol Running [Replace STATE_FILE x] Saved" for x by (auto intro!: save stop)
  have commit: "protocol Saved [Replace SUMMARY_FILE (json_bytes (bn_summary b))] (Done ''OK'')"
    using assms by (auto intro!: commit stop simp: status_bytes_def)
  have "PROVENANCE_LOG \<in> set EVIDENCE_FILES" "ended (bn_summary b) (Done ''OK'')"
    using assms by (simp_all add: EVIDENCE_FILES_def ended_def)
  then have tail: "steps Running (act_bind (append_to PROVENANCE_LOG g) (\<lambda>_. act_bind (write_json_atomic STATE_FILE r) (\<lambda>_.
      act_bind (act_write (Replace SUMMARY_FILE (json_bytes (bn_summary b)))) (\<lambda>_. act_return (bn_summary b))))) ended" for g r
    unfolding write_json_atomic_def
    by (intro steps_append_to_bind steps_write_bind[OF save] steps_write_bind[OF commit] steps_return)
  show ?thesis
    unfolding commit_bundle_def Let_def
    by (subst write_json_atomic_def) (intro steps_write_bind[OF work(1)] steps_write_bind[OF work(2)] steps_read_bind steps_if steps_corrupt tail)
qed

lemma steps_finish: "steps Running (finish_run ev config res) ended"
  unfolding finish_run_def
  by (intro steps_read_bind steps_if steps_corrupt)
    (auto intro!: steps_corrupt steps_lift_bind steps_commit dest: status_of_bundle split: sum.splits)

lemma steps_account: "steps Running (account ev config per_bar forward existing) ended"
  unfolding account_def
  by (intro steps_read_bind steps_lift_bind steps_if steps_abort steps_bind[OF steps_persist]) (simp add: steps_finish)

lemma steps_observe: "steps Running (observe ev config obs_log) ended"
  unfolding observe_def Let_def
  by (intro steps_read_bind steps_lift_bind steps_if steps_abort steps_no_eligible_bars steps_account)

lemma steps_removes: "(\<And>f. f \<in> set fs \<Longrightarrow> is_staged f) \<Longrightarrow> p = Running \<or> (\<exists>s. p = Done s)
    \<Longrightarrow> steps p (act_each (\<lambda>f. act_write (Remove f)) fs) (\<lambda>_ q. q = p)"
  by (rule steps_each, rule steps_write[where q = p]) (auto intro: protocol.intros)

lemma steps_after_marker:
  assumes "\<And>f. f \<in> set staged \<Longrightarrow> is_staged f"
  shows "steps Running (after_marker ev config staged failures) ended"
proof -
  have "steps q (act_bind (act_each (\<lambda>f. act_write (Remove f)) staged) (\<lambda>_. act_return summary)) ended" if "ended summary q" for q summary
    using that by (intro steps_bind[OF steps_removes[OF assms]]) (auto simp: ended_def intro!: steps_return)
  then have bad: "steps Running (act_bind (corrupt ev config fs)
      (\<lambda>summary. act_bind (act_each (\<lambda>f. act_write (Remove f)) staged) (\<lambda>_. act_return summary))) ended" for fs
    by (rule steps_bind[OF steps_corrupt])
  have good: "steps Running (act_bind (act_each (\<lambda>f. act_write (Remove f)) staged) (\<lambda>_. act_bind (act_read (\<lambda>_. read_obs_log ev)) (\<lambda>obs_log.
      case obs_log of None \<Rightarrow> abort ev config ''MALFORMED_OBSERVATION_LOG'' | Some v \<Rightarrow> observe ev config v))) ended"
    by (intro steps_bind[OF steps_removes[OF assms]]) (auto intro!: steps_read_bind steps_abort steps_observe split: option.splits)
  show ?thesis unfolding after_marker_def by (intro steps_read_bind steps_if bad good)
qed

lemma steps_marked:
  assumes "\<And>f. f \<in> set staged \<Longrightarrow> is_staged f" "p = Found \<or> p = Cleared"
  shows "steps p (act_bind (write_preflight_marker ev config) (\<lambda>_. after_marker ev config staged failures)) ended"
proof (rule steps_bind[where Q = "\<lambda>_ q. q = Running"])
  show "steps p (write_preflight_marker ev config) (\<lambda>_ q. q = Running)"
    unfolding write_preflight_marker_def write_json_atomic_def using assms(2)
    by (intro steps_lift_bind steps_write[of p _ Running])
      (auto simp: status_bytes_def intro!: mark stop dest!: status_of_summaries(4))
qed (use steps_after_marker assms(1) in blast)

lemma steps_configured: "steps Found (run_configured ev config) ended"
  unfolding run_configured_alt
proof (rule steps_bind[where Q = "\<lambda>(staged, _) q. (\<forall>f \<in> set staged. is_staged f) \<and> (q = Found \<or> q = Cleared)"])
  show "steps Found (stage_previous_summary ev) (\<lambda>(staged, _) q. (\<forall>f \<in> set staged. is_staged f) \<and> (q = Found \<or> q = Cleared))"
    unfolding stage_previous_summary_def
    by (intro steps_read_bind steps_if steps_write_bind[of _ _ Cleared] steps_return)
      (auto simp: staged_summaries_def staged_not_summary(2) set_insort_key intro!: stage stop)
qed (auto split: prod.splits intro!: steps_marked)

text \<open>
  C5. Every run, whatever it meets, writes in the order of the abstract protocol: it first takes the summary
  it found out of view, marks itself as running, only then extends the evidence, and ends by one terminal
  summary; the state file is replaced only by a run that goes on to commit OK, immediately before it, and
  after the terminal summary nothing but staged copies is touched. A run that returns a summary has ended in
  the phase of its status.
\<close>

theorem run_refines_protocol:
  "\<exists>q. protocol Found (fst (run_once ev out)) q
     \<and> (case snd (run_once ev out) of Inr summary \<Rightarrow> (\<exists>s. get summary ''status'' = JStr s \<and> q = Done s) | Inl _ \<Rightarrow> True)"
proof (cases "config_of out")
  case (Inr config)
  obtain q where "protocol Found (fst (run_configured ev config out)) q" "\<forall>x. snd (run_configured ev config out) = Inr x \<longrightarrow> ended x q"
    using steps_configured unfolding steps_def by blast
  then show ?thesis by (auto simp: run_once_def Inr ended_def split: sum.splits)
next
  case (Inl e)
  have "fst (run_once ev out) = [] \<or> fst (run_once ev out)
      = [Replace SUMMARY_FILE (json_bytes (config_error_preflight_marker (ev_run_id ev) (mc_clock (ev_machine ev))))]"
    "isl (snd (run_once ev out))"
    by (cases e; auto simp: run_once_def Inl invalidate_stale_ok_def act_bind_def act_read_def act_return_def write_json_atomic_def act_write_def
        split: prod.splits sum.splits if_splits)+
  moreover have "\<exists>q. protocol Found [] q" by (blast intro: stop)
  moreover have "\<exists>q. protocol Found [Replace SUMMARY_FILE (json_bytes (config_error_preflight_marker (ev_run_id ev) (mc_clock (ev_machine ev))))] q"
    by (rule exI, rule mark[OF stop]) (use status_of_config_error in \<open>auto simp: status_bytes_def\<close>)
  ultimately show ?thesis by (cases "snd (run_once ev out)") auto
qed

end
