(* ===== verification/WalkForward.thy ===== *)
theory WalkForward
  imports Prelude
begin

text \<open>
  Walk-forward validation: the split windows (\<open>quantbot/experiment/walkforward.py\<close>), the collection of
  the outcomes of the splits (\<open>walkforward_runner.py\<close>) and the falsification gates (\<open>gates.py\<close>). The loop over
  the windows may run forever, so it is a partial function. What one experiment run returns is an input.
\<close>

section \<open>Windows\<close>

record wf_split =
  train_start :: int
  train_end :: int
  test_start :: int
  test_end :: int

definition split_at :: "int \<Rightarrow> int \<Rightarrow> int \<Rightarrow> wf_split" where
  "split_at train test pos = \<lparr>train_start = pos, train_end = pos + train, test_start = pos + train, test_end = pos + train + test\<rparr>"

partial_function (option) split_loop :: "int \<Rightarrow> int \<Rightarrow> int \<Rightarrow> int \<Rightarrow> int \<Rightarrow> wf_split list \<Rightarrow> wf_split list option" where
  \<comment> \<open>the \<open>while\<close> loop; \<open>None\<close> is a loop without end\<close>
  "split_loop n train test step pos acc =
     (if pos + train + test \<le> n then split_loop n train test step (pos + step) (acc @ [split_at train test pos]) else Some acc)"

definition build_walkforward_splits :: "'bar list \<Rightarrow> int \<Rightarrow> int \<Rightarrow> int option \<Rightarrow> wf_split list option" where
  "build_walkforward_splits bars train test step = (let n = int (length bars); st = (case step of None \<Rightarrow> test | Some s \<Rightarrow> s) in
     if n < train + test then Some [] else split_loop n train test st 0 [])"

section \<open>Gates\<close>

datatype verdict_status = PASS | FAIL

datatype gate_reason = BarCountZero | SignalCountZero | SignalsDegenerate | SplitCountZero | SplitsBelowMinimum | TotalSignalsZero
  | TotalSignalsBelowMinimum | SignalCountMismatch int int

definition gate_of :: "gate_reason list \<Rightarrow> verdict_status \<times> gate_reason list" where
  "gate_of reasons = ((if reasons = [] then PASS else FAIL), reasons)"

definition gate_experiment_result :: "int \<Rightarrow> int \<Rightarrow> verdict_status \<times> gate_reason list" where
  "gate_experiment_result bars signals = gate_of ((if bars = 0 then [BarCountZero] else []) @ (if signals = 0 then [SignalCountZero] else [])
     @ (if signals < 3 then [SignalsDegenerate] else []))"

record 'i split_result =
  sr_index :: nat
  sr_train_bars :: int
  sr_test_bars :: int
  sr_signals :: int
  sr_first_ts :: string
  sr_last_ts :: string
  sr_inference :: "'i option"

record 'i wf_result =
  wf_split_count :: int
  wf_splits :: "'i split_result list"
  wf_total_bars :: int
  wf_total_signals :: int

definition gate_walkforward_result :: "'i wf_result \<Rightarrow> verdict_status \<times> gate_reason list" where
  "gate_walkforward_result r = (let total = sum_list (map sr_signals (wf_splits r)) in
     gate_of ((if wf_split_count r = 0 then [SplitCountZero] else []) @ (if wf_split_count r < 2 then [SplitsBelowMinimum] else [])
       @ (if wf_total_signals r = 0 then [TotalSignalsZero] else []) @ (if wf_total_signals r < 5 then [TotalSignalsBelowMinimum] else [])
       @ (if wf_splits r \<noteq> [] \<and> total \<noteq> wf_total_signals r then [SignalCountMismatch (wf_total_signals r) total] else [])))"

section \<open>Collecting the splits\<close>

record 'i run_outcome =
  ro_signals :: int
  ro_first_ts :: string
  ro_last_ts :: string
  ro_inference :: "'i option"

definition py_index :: "int \<Rightarrow> int \<Rightarrow> int" where
  \<comment> \<open>a slice bound in a list of \<open>n\<close> elements\<close>
  "py_index n i = (if i < 0 then max 0 (n + i) else min n i)"

definition slice_len :: "int \<Rightarrow> int \<Rightarrow> int \<Rightarrow> int" where
  \<comment> \<open>\<open>len(bars[a:b])\<close>\<close>
  "slice_len n a b = max 0 (py_index n b - py_index n a)"

definition collect_split :: "int \<Rightarrow> 'i run_outcome option \<Rightarrow> nat \<Rightarrow> wf_split \<Rightarrow> 'i run_outcome option \<Rightarrow> 'i split_result" where
  \<comment> \<open>one round: the outcome is absent if the run raised; \<open>previous\<close> is the variable \<open>result\<close> as it is found\<close>
  "collect_split n previous idx sp outcome = \<lparr>sr_index = idx, sr_train_bars = slice_len n (train_start sp) (train_end sp),
     sr_test_bars = slice_len n (test_start sp) (test_end sp), sr_signals = (case outcome of Some o' \<Rightarrow> ro_signals o' | None \<Rightarrow> 0),
     sr_first_ts = (case outcome of Some o' \<Rightarrow> ro_first_ts o' | None \<Rightarrow> []), sr_last_ts = (case outcome of Some o' \<Rightarrow> ro_last_ts o' | None \<Rightarrow> []),
     sr_inference = (case (case outcome of Some o' \<Rightarrow> Some o' | None \<Rightarrow> previous) of Some o' \<Rightarrow> ro_inference o' | None \<Rightarrow> None)\<rparr>"

fun collect_splits :: "int \<Rightarrow> 'i run_outcome option \<Rightarrow> nat \<Rightarrow> (wf_split \<times> 'i run_outcome option) list \<Rightarrow> 'i split_result list" where
  "collect_splits n previous idx [] = []"
| "collect_splits n previous idx ((sp, outcome) # rest) = collect_split n previous idx sp outcome
     # collect_splits n (case outcome of Some o' \<Rightarrow> Some o' | None \<Rightarrow> previous) (Suc idx) rest"

definition walkforward_result :: "int \<Rightarrow> (wf_split \<times> 'i run_outcome option) list \<Rightarrow> 'i wf_result" where
  "walkforward_result n runs = (let rs = collect_splits n None 0 runs in
     \<lparr>wf_split_count = int (length rs), wf_splits = rs, wf_total_bars = sum_list (map sr_test_bars rs), wf_total_signals = sum_list (map sr_signals rs)\<rparr>)"

section \<open>The loop\<close>

lemma split_loop_diverges: "split_loop n train test step pos acc = Some r \<Longrightarrow> step \<le> 0 \<Longrightarrow> n < pos + train + test"
  by (rule split_loop.raw_induct[where P = "\<lambda>n train test step pos acc r. step \<le> 0 \<longrightarrow> n < pos + train + test", rule_format])
    (force split: if_splits)+

lemma split_loop_returns:
  assumes "0 < step"
  shows "split_loop n train test step pos acc
    = Some (acc @ map (\<lambda>k. split_at train test (pos + int k * step)) [0..<nat ((n - pos - train - test) div step + 1)])"
proof (induction "nat (n - pos - train - test + step)" arbitrary: pos acc rule: less_induct)
  case less
  show ?case
  proof (cases "pos + train + test \<le> n")
    case True
    have "(n - pos - train - test) div step = (n - (pos + step) - train - test) div step + 1"
      using div_add_self2[of step "n - (pos + step) - train - test"] assms by (simp add: algebra_simps)
    moreover have "0 \<le> (n - pos - train - test) div step" using True assms by (intro div_int_pos_iff[THEN iffD2]) simp
    ultimately have c: "nat ((n - pos - train - test) div step + 1) = Suc (nat ((n - (pos + step) - train - test) div step + 1))" by simp
    have "nat (n - (pos + step) - train - test + step) < nat (n - pos - train - test + step)" using True assms by simp
    note IH = less[OF this]
    have "map (\<lambda>k. split_at train test (pos + int k * step)) [0..<Suc m]
        = split_at train test pos # map (\<lambda>k. split_at train test (pos + step + int k * step)) [0..<m]" for m
      by (simp add: map_upt_Suc algebra_simps del: upt_Suc)
    then show ?thesis using True by (simp only: split_loop.simps[of n train test step pos] c IH if_True append.assoc append.simps)
  next
    case False
    then have "(n - pos - train - test) div step < 0" using assms by (intro pos_imp_zdiv_neg_iff[THEN iffD2]) simp_all
    then show ?thesis using False by (simp add: split_loop.simps[of n train test step pos])
  qed
qed

section \<open>Properties\<close>

text \<open>
  C34. Building the walk-forward windows ends exactly when the step is positive or the bars do not suffice
  for one window; it then returns the windows at the multiples of the step, as many as fit. With a step of
  zero or less, which the command line accepts, it runs forever.
\<close>

theorem walkforward_terminates_iff:
  "build_walkforward_splits bars train test step =
    (let n = int (length bars); st = (case step of None \<Rightarrow> test | Some s \<Rightarrow> s) in
     if n < train + test then Some []
     else if st \<le> 0 then None
     else Some (map (\<lambda>k. split_at train test (int k * st)) [0..<nat ((n - train - test) div st + 1)]))"
proof -
  let ?n = "int (length bars)" and ?st = "case step of None \<Rightarrow> test | Some s \<Rightarrow> s"
  have "split_loop ?n train test ?st 0 [] = None" if "?st \<le> 0" "\<not> ?n < train + test"
    using split_loop_diverges[OF _ that(1), of ?n train test 0 "[]"] that(2) by (cases "split_loop ?n train test ?st 0 []") auto
  then show ?thesis by (simp add: build_walkforward_splits_def Let_def split_loop_returns)
qed

lemma split_loop_mem:
  assumes "build_walkforward_splits bars train test step = Some splits" "sp \<in> set splits"
  obtains k where "sp = split_at train test (int k * (case step of None \<Rightarrow> test | Some s \<Rightarrow> s))"
    "0 < (case step of None \<Rightarrow> test | Some s \<Rightarrow> s)" "int k * (case step of None \<Rightarrow> test | Some s \<Rightarrow> s) + train + test \<le> int (length bars)"
proof -
  let ?n = "int (length bars)" and ?st = "case step of None \<Rightarrow> test | Some s \<Rightarrow> s"
  have st: "0 < ?st" and fits: "\<not> ?n < train + test"
    using assms unfolding walkforward_terminates_iff Let_def by (auto split: if_splits)
  obtain k where k: "sp = split_at train test (int k * ?st)" "k < nat ((?n - train - test) div ?st + 1)"
    using assms st fits unfolding walkforward_terminates_iff Let_def by auto
  have "int k \<le> (?n - train - test) div ?st" using k(2) by linarith
  then have "int k * ?st \<le> (?n - train - test) div ?st * ?st" using st by (intro mult_right_mono) simp_all
  also have "\<dots> \<le> ?n - train - test" using st by (metis add.commute le_add_same_cancel1 mod_div_mult_eq pos_mod_sign)
  finally show ?thesis using that k(1) st by simp
qed

text \<open>
  With a training size of zero or more and a positive test size, the training bars of every window end
  where its test bars begin and both lie within the series; when the step is at least the test size, the
  test bars of two windows are disjoint and in order.
\<close>

lemma walkforward_windows_causal:
  assumes "build_walkforward_splits bars train test step = Some splits" "0 \<le> train" "0 < test"
  shows "(\<forall>sp \<in> set splits. 0 \<le> train_start sp \<and> train_end sp = train_start sp + train \<and> test_start sp = train_end sp
      \<and> test_end sp = test_start sp + test \<and> test_end sp \<le> int (length bars))
    \<and> (test \<le> (case step of None \<Rightarrow> test | Some s \<Rightarrow> s) \<longrightarrow> sorted_wrt (\<lambda>a b. test_end a \<le> test_start b) splits)"
proof (intro conjI ballI impI)
  fix sp assume "sp \<in> set splits"
  from split_loop_mem[OF assms(1) this] obtain k where k: "sp = split_at train test (int k * (case step of None \<Rightarrow> test | Some s \<Rightarrow> s))"
    "0 < (case step of None \<Rightarrow> test | Some s \<Rightarrow> s)" "int k * (case step of None \<Rightarrow> test | Some s \<Rightarrow> s) + train + test \<le> int (length bars)"
    by blast
  have "0 \<le> int k * (case step of None \<Rightarrow> test | Some s \<Rightarrow> s)" using k(2) by (intro mult_nonneg_nonneg) simp_all
  then show "0 \<le> train_start sp" "train_end sp = train_start sp + train" "test_start sp = train_end sp" "test_end sp = test_start sp + test"
    "test_end sp \<le> int (length bars)" using k(3) by (simp_all add: k(1) split_at_def)
next
  let ?st = "case step of None \<Rightarrow> test | Some s \<Rightarrow> s"
  assume st: "test \<le> ?st"
  have mono: "test_end (split_at train test (int i * ?st)) \<le> test_start (split_at train test (int j * ?st))" if "i < j" for i j
  proof -
    have "(int i + 1) * ?st \<le> int j * ?st" using that st assms(3) by (intro mult_right_mono) simp_all
    then show ?thesis using st by (simp add: split_at_def algebra_simps)
  qed
  have "sorted_wrt (<) [0..<m]" for m by simp
  then have "sorted_wrt (\<lambda>a b. test_end a \<le> test_start b) (map (\<lambda>k. split_at train test (int k * ?st)) [0..<m])" for m
    unfolding sorted_wrt_map by (rule sorted_wrt_mono_rel[rotated]) (rule mono)
  then show "sorted_wrt (\<lambda>a b. test_end a \<le> test_start b) splits"
    using assms(1) unfolding walkforward_terminates_iff Let_def by (auto split: if_splits)
qed

lemma collect_splits_append: "collect_splits n previous idx (xs @ ys) = collect_splits n previous idx xs
    @ collect_splits n (fold (\<lambda>(_, outcome) p. case outcome of Some o' \<Rightarrow> Some o' | None \<Rightarrow> p) xs previous) (idx + length xs) ys"
  by (induction xs arbitrary: previous idx) (auto split: prod.splits)

lemma collect_failed: "x \<in> set (collect_splits n (Some o') idx (map (\<lambda>w. (w, None)) ws)) \<Longrightarrow> sr_inference x = ro_inference o'"
  by (induction ws arbitrary: idx) (auto simp: collect_split_def)

lemma length_collect: "length (collect_splits n previous idx runs) = length runs"
  by (induction runs arbitrary: previous idx) (auto split: prod.splits)

text \<open>
  A split whose run failed is recorded with no signal, but with the inference summary of the last split
  that ran: the variable of the previous round is still bound.
\<close>

theorem failed_split_keeps_stale_inference:
  "let rs = collect_splits n None 0 (runs @ (sp, Some o') # map (\<lambda>w. (w, None)) failed) in
    (\<forall>x \<in> set (drop (Suc (length runs)) rs). sr_signals x = 0 \<and> sr_first_ts x = [] \<and> sr_inference x = ro_inference o')"
proof -
  have none: "sr_signals x = 0 \<and> sr_first_ts x = []" if "x \<in> set (collect_splits n p idx (map (\<lambda>w. (w, None)) ws))" for x p idx ws
    using that by (induction ws arbitrary: idx p) (auto simp: collect_split_def)
  have "drop (Suc (length runs)) (collect_splits n None 0 (runs @ (sp, Some o') # map (\<lambda>w. (w, None)) failed))
      = collect_splits n (Some o') (Suc (length runs)) (map (\<lambda>w. (w, None)) failed)"
    by (simp add: collect_splits_append length_collect)
  then show ?thesis unfolding Let_def by (auto dest: none collect_failed)
qed

text \<open>
  The result of a walk-forward run passes its gate exactly when at least two splits were made and they
  emitted at least five signals; its totals always agree with its splits.
\<close>

theorem walkforward_gate_meaning:
  "fst (gate_walkforward_result (walkforward_result n runs)) = PASS
   \<longleftrightarrow> 2 \<le> length runs \<and> 5 \<le> sum_list (map (\<lambda>(_, outcome). case outcome of Some o' \<Rightarrow> ro_signals o' | None \<Rightarrow> 0) runs)"
proof -
  have "map sr_signals (collect_splits n p idx runs) = map (\<lambda>(_, outcome). case outcome of Some o' \<Rightarrow> ro_signals o' | None \<Rightarrow> 0) runs" for p idx
    by (induction runs arbitrary: p idx) (auto simp: collect_split_def split: prod.splits)
  then show ?thesis by (auto simp: gate_walkforward_result_def walkforward_result_def gate_of_def Let_def length_collect)
qed

end
