(* ===== verification/Strategy.thy ===== *)
theory Strategy
  imports PyFloat WalkForward
begin

text \<open>
  \<open>quantbot/strategy\<close> and \<open>quantbot/data/types.py\<close>: bars, signals and the strategies that see one bar at a time. A strategy is its
  state and the transition \<open>on_bar\<close>; an exception ends the run, so its state is lost. The natural logarithm of a positive finite double
  is a parameter, because Python leaves its rounding to the platform.
\<close>

section \<open>Bars and signals\<close>

record ohlcv =
  ba_timestamp :: string
  ba_open :: pyfloat
  ba_high :: pyfloat
  ba_low :: pyfloat
  ba_close :: pyfloat
  ba_volume :: pyfloat

record signal =
  sg_timestamp :: string
  sg_symbol :: string
  sg_direction :: string
  sg_confidence :: pyfloat

type_synonym 's on_bar = "'s \<Rightarrow> ohlcv \<Rightarrow> ('s \<times> signal option) result"

definition make_signal :: "string \<Rightarrow> pyfloat \<Rightarrow> ohlcv \<Rightarrow> string \<Rightarrow> signal option" where
  "make_signal symbol confidence b direction = Some \<lparr>sg_timestamp = ba_timestamp b, sg_symbol = symbol, sg_direction = direction, sg_confidence = confidence\<rparr>"

definition one_half :: pyfloat where "one_half = PFin (1 / 2)"

fun run_on :: "'s on_bar \<Rightarrow> 's \<Rightarrow> ohlcv list \<Rightarrow> signal option list result" where
  \<comment> \<open>\<open>for bar in bars: sig = strategy.on_bar(bar)\<close>\<close>
  "run_on on_bar s [] = Inr []"
| "run_on on_bar s (b # bs) = rbind (on_bar s b) (\<lambda>(s', sig). rbind (run_on on_bar s' bs) (\<lambda>sigs. Inr (sig # sigs)))"

definition list_at :: "'a list \<Rightarrow> int \<Rightarrow> 'a result" where
  \<comment> \<open>\<open>xs[i]\<close>\<close>
  "list_at xs i = (let j = (if i < 0 then int (length xs) + i else i) in if 0 \<le> j \<and> j < int (length xs) then Inr (xs ! nat j) else Inl IndexError)"

definition slice_from :: "'a list \<Rightarrow> int \<Rightarrow> 'a list" where
  \<comment> \<open>\<open>xs[i:]\<close>\<close>
  "slice_from xs i = drop (nat (py_index (int (length xs)) i)) xs"

definition float_div :: "pyfloat \<Rightarrow> pyfloat \<Rightarrow> pyfloat result" where
  "float_div a b = of_option ZeroDivisionError (fl_div a b)"

definition float_of_int :: "int \<Rightarrow> pyfloat result" where
  "float_of_int n = of_option OverflowError (fl_of_int n)"

definition ratio_or_zero :: "pyfloat \<Rightarrow> pyfloat \<Rightarrow> pyfloat result" where
  \<comment> \<open>\<open>(a - b) / b if b != 0 else 0.0\<close>\<close>
  "ratio_or_zero a b = (if fl_eq b (PFin 0) then Inr (PFin 0) else float_div (fl_sub a b) b)"

section \<open>No operation and threshold\<close>

definition noop_on_bar :: "unit on_bar" where
  "noop_on_bar s b = Inr ((), None)"

record threshold_strategy =
  th_threshold :: pyfloat
  th_symbol :: string
  th_prev_direction :: "string option"

definition threshold_on_bar :: "threshold_strategy on_bar" where
  "threshold_on_bar s b = (let direction = (if fl_le (th_threshold s) (ba_close b) then ''long'' else ''short''); s' = s\<lparr>th_prev_direction := Some direction\<rparr> in
     Inr (s', case th_prev_direction s of None \<Rightarrow> make_signal (th_symbol s) one_half b direction
       | Some prev \<Rightarrow> if direction \<noteq> prev then make_signal (th_symbol s) one_half b direction else None))"

section \<open>Deviation from a moving average\<close>

record ma_strategy =
  ma_period :: int
  ma_symbol :: string
  ma_threshold_pct :: pyfloat
  ma_bars :: "pyfloat list"
  ma_prev_direction :: "string option"

definition mean_of :: "pyfloat list \<Rightarrow> int \<Rightarrow> pyfloat result" where
  \<comment> \<open>\<open>sum(xs) / n\<close>; the sum of no floats is the integer 0\<close>
  "mean_of xs n = (if n = 0 then Inl ZeroDivisionError else if xs = [] then Inr (PFin 0)
     else rbind (float_of_int n) (\<lambda>d. float_div (fl_sum xs) d))"

definition ma_on_bar :: "ma_strategy on_bar" where
  "ma_on_bar s b = (let bars = ma_bars s @ [ba_close b]; s1 = s\<lparr>ma_bars := bars\<rparr> in
     if int (length bars) < ma_period s then Inr (s1, None)
     else rbind (mean_of (slice_from bars (- ma_period s)) (ma_period s)) (\<lambda>ma. rbind (ratio_or_zero (ba_close b) ma) (\<lambda>deviation.
       let direction = (if fl_lt (fl_abs deviation) (ma_threshold_pct s) then ''flat'' else if fl_lt ma (ba_close b) then ''long'' else ''short'');
         s2 = s1\<lparr>ma_prev_direction := Some direction\<rparr>; sig = make_signal (ma_symbol s) one_half b direction in
       Inr (s2, case ma_prev_direction s of None \<Rightarrow> if direction \<noteq> ''flat'' then sig else None
         | Some prev \<Rightarrow> if direction \<noteq> prev then (if direction \<noteq> ''flat'' then sig else None) else None))))"

section \<open>Breakout of the rolling return\<close>

record rolling_strategy =
  rr_period :: int
  rr_return_threshold :: pyfloat
  rr_min_hold :: int
  rr_confidence :: pyfloat
  rr_symbol :: string
  rr_bars :: "pyfloat list"
  rr_prev_direction :: "string option"
  rr_bars_since_signal :: int

definition rolling_direction :: "rolling_strategy \<Rightarrow> pyfloat \<Rightarrow> string" where
  "rolling_direction s r = (if fl_lt (rr_return_threshold s) r then ''long'' else if fl_lt r (fl_neg (rr_return_threshold s)) then ''short'' else ''flat'')"

definition rolling_decide :: "rolling_strategy \<Rightarrow> ohlcv \<Rightarrow> string \<Rightarrow> rolling_strategy \<times> signal option" where
  \<comment> \<open>the part after the direction is known\<close>
  "rolling_decide s b direction = (let sig = make_signal (rr_symbol s) (rr_confidence s) b direction in
     case rr_prev_direction s of
       None \<Rightarrow> if direction \<noteq> ''flat'' then (s\<lparr>rr_prev_direction := Some direction, rr_bars_since_signal := 0\<rparr>, sig)
         else (s\<lparr>rr_prev_direction := Some direction\<rparr>, None)
     | Some prev \<Rightarrow> if direction \<noteq> prev then
           (if rr_min_hold s \<le> rr_bars_since_signal s then
              (s\<lparr>rr_prev_direction := Some direction, rr_bars_since_signal := 0\<rparr>, if direction \<noteq> ''flat'' then sig else None)
            else (s, None))
         else if direction = ''flat'' then (s\<lparr>rr_prev_direction := None, rr_bars_since_signal := 0\<rparr>, None) else (s, None))"

definition rolling_on_bar :: "rolling_strategy on_bar" where
  "rolling_on_bar s b = (let bars = rr_bars s @ [ba_close b]; s1 = s\<lparr>rr_bars := bars, rr_bars_since_signal := rr_bars_since_signal s + 1\<rparr> in
     if int (length bars) < rr_period s + 1 then Inr (s1, None)
     else rbind (list_at bars (- rr_period s - 1)) (\<lambda>past. rbind (ratio_or_zero (ba_close b) past) (\<lambda>r.
       Inr (rolling_decide s1 b (rolling_direction s1 r)))))"

definition rolling_start :: "int \<Rightarrow> pyfloat \<Rightarrow> int \<Rightarrow> pyfloat \<Rightarrow> string \<Rightarrow> rolling_strategy" where
  "rolling_start period threshold min_hold confidence symbol = \<lparr>rr_period = period, rr_return_threshold = threshold, rr_min_hold = min_hold,
     rr_confidence = confidence, rr_symbol = symbol, rr_bars = [], rr_prev_direction = None, rr_bars_since_signal = 0\<rparr>"

section \<open>Time-series momentum\<close>

definition math_log :: "(rat \<Rightarrow> pyfloat) \<Rightarrow> pyfloat \<Rightarrow> pyfloat result" where
  "math_log ln_dbl x = (case x of PNaN \<Rightarrow> Inr PNaN | PInf neg \<Rightarrow> if neg then Inl ValueError else Inr (PInf False)
     | PFin q \<Rightarrow> if q \<le> 0 then Inl ValueError else Inr (ln_dbl q))"

record tsmom_strategy =
  ts_period :: int
  ts_threshold :: pyfloat
  ts_symbol :: string
  ts_confidence :: pyfloat
  ts_prices :: "pyfloat list"
  ts_bars_since_signal :: int

definition tsmom_on_bar :: "(rat \<Rightarrow> pyfloat) \<Rightarrow> tsmom_strategy on_bar" where
  "tsmom_on_bar ln_dbl s b = (let prices = ts_prices s @ [ba_close b]; s1 = s\<lparr>ts_prices := prices, ts_bars_since_signal := ts_bars_since_signal s + 1\<rparr> in
     if int (length prices) < ts_period s + 1 then Inr (s1, None)
     else rbind (list_at prices (- ts_period s - 1)) (\<lambda>past. if fl_le past (PFin 0) then Inr (s1, None)
       else rbind (float_div (ba_close b) past) (\<lambda>q. rbind (math_log ln_dbl q) (\<lambda>r.
         if fl_lt (ts_threshold s) r then Inr (s1\<lparr>ts_bars_since_signal := 0\<rparr>, make_signal (ts_symbol s) (ts_confidence s) b ''long'')
         else Inr (s1, None)))))"

definition tsmom_reset :: "tsmom_strategy \<Rightarrow> tsmom_strategy" where
  "tsmom_reset s = s\<lparr>ts_prices := [], ts_bars_since_signal := 0\<rparr>"

section \<open>The contract of a strategy\<close>

text \<open>What the experiment runner relies on: a signal bears the timestamp of its bar and a direction, long or short.\<close>

locale bar_strategy =
  fixes on_bar :: "'s on_bar"
  assumes stamped: "on_bar s b = Inr (s', Some g) \<Longrightarrow> sg_timestamp g = ba_timestamp b"
    and directed: "on_bar s b = Inr (s', Some g) \<Longrightarrow> sg_direction g = ''long'' \<or> sg_direction g = ''short''"
begin

lemma run_stamped:
  assumes "run_on on_bar s bs = Inr sigs" "i < length bs" "sigs ! i = Some g"
  shows "sg_timestamp g = ba_timestamp (bs ! i) \<and> (sg_direction g = ''long'' \<or> sg_direction g = ''short'')"
  using assms
proof (induction bs arbitrary: s sigs i)
  case (Cons b bs)
  then obtain s' sig rest where step: "on_bar s b = Inr (s', sig)" "run_on on_bar s' bs = Inr rest" "sigs = sig # rest"
    by (auto simp: rbind_Inr_iff)
  show ?case
  proof (cases i)
    case 0
    then have "sig = Some g" using Cons.prems(3) step(3) by simp
    then show ?thesis using stamped directed step(1) 0 by auto
  next
    case (Suc j)
    then show ?thesis using Cons.IH[OF step(2), of j] Cons.prems(2,3) step(3) by simp
  qed
qed simp

end

interpretation noop: bar_strategy noop_on_bar
  by unfold_locales (simp_all add: noop_on_bar_def)

interpretation thr: bar_strategy threshold_on_bar
  by unfold_locales (auto simp: threshold_on_bar_def make_signal_def Let_def split: option.splits if_splits)

interpretation mad: bar_strategy ma_on_bar
  by unfold_locales (auto simp: ma_on_bar_def make_signal_def Let_def rbind_Inr_iff split: option.splits if_splits)

lemma rolling_decide_signal: "rolling_decide s b direction = (s', Some g) \<Longrightarrow> direction \<noteq> ''flat'' \<and> make_signal (rr_symbol s) (rr_confidence s) b direction = Some g"
  by (auto simp: rolling_decide_def Let_def split: option.splits if_splits)

interpretation roll: bar_strategy rolling_on_bar
  by unfold_locales (auto simp: rolling_on_bar_def Let_def rbind_Inr_iff make_signal_def rolling_direction_def dest!: rolling_decide_signal split: if_splits)

interpretation mom: bar_strategy "tsmom_on_bar ln_dbl" for ln_dbl
  by unfold_locales (auto simp: tsmom_on_bar_def make_signal_def Let_def rbind_Inr_iff split: if_splits)

end
