(* ===== verification/Experiment.thy ===== *)
theory Experiment
  imports Strategy PyJson PySha256
begin

text \<open>
  \<open>quantbot/replay/runner.py\<close> and the accounting of \<open>quantbot/experiment/runner.py\<close>: the replay receipt, the counts of signals, the position
  events with their costs, and the return series. Each pass of the code runs a fresh instance of the strategy over the bars; here
  each pass takes the list of what that instance emits.
\<close>

section \<open>The replay receipt\<close>

definition ENGINE_VERSION :: string where "ENGINE_VERSION = ''0.1.0''"

definition bar_json :: "ohlcv \<Rightarrow> json" where
  "bar_json b = JObj [(''timestamp'', JStr (ba_timestamp b)), (''open'', JFloat (ba_open b)), (''high'', JFloat (ba_high b)), (''low'', JFloat (ba_low b)),
     (''close'', JFloat (ba_close b)), (''volume'', JFloat (ba_volume b))]"

record replay_receipt =
  rp_bar_count :: int
  rp_bar_hash :: string
  rp_first_timestamp :: string
  rp_last_timestamp :: string
  rp_total_volume :: json
  rp_signal_count :: int

definition receipt_json :: "replay_receipt \<Rightarrow> (string \<times> json) list" where
  "receipt_json r = [(''bar_count'', JInt (rp_bar_count r)), (''bar_hash'', JStr (rp_bar_hash r)), (''first_timestamp'', JStr (rp_first_timestamp r)),
     (''last_timestamp'', JStr (rp_last_timestamp r)), (''total_volume'', rp_total_volume r), (''engine_version'', JStr ENGINE_VERSION),
     (''input_digest'', JStr (rp_bar_hash r)), (''signal_count'', JInt (rp_signal_count r))]"

definition output_digest :: "replay_receipt \<Rightarrow> string" where
  "output_digest r = sha256_hex (canonical_json_dumps (JObj (receipt_json r)))"

definition signal_count :: "signal option list \<Rightarrow> int" where
  "signal_count sigs = int (length (filter (\<lambda>g. g \<noteq> None) sigs))"

definition replay_run :: "'s on_bar \<Rightarrow> 's \<Rightarrow> ohlcv list \<Rightarrow> replay_receipt result" where
  \<comment> \<open>the sum of no volumes is the integer 0\<close>
  "replay_run on_bar s bars = rbind (run_on on_bar s bars) (\<lambda>sigs. Inr \<lparr>rp_bar_count = int (length bars),
     rp_bar_hash = sha256_hex (canonical_json_dumps (JList (map bar_json bars))),
     rp_first_timestamp = (if bars = [] then [] else ba_timestamp (hd bars)), rp_last_timestamp = (if bars = [] then [] else ba_timestamp (last bars)),
     rp_total_volume = (if bars = [] then JInt 0 else JFloat (fl_sum (map ba_volume bars))), rp_signal_count = signal_count sigs\<rparr>)"

section \<open>Counts and position events\<close>

record direction_counts =
  dc_long :: int
  dc_short :: int
  dc_flat :: int

definition count_step :: "signal option \<Rightarrow> direction_counts \<Rightarrow> direction_counts" where
  "count_step sig c = (case sig of None \<Rightarrow> c | Some g \<Rightarrow> if sg_direction g = ''long'' then c\<lparr>dc_long := dc_long c + 1\<rparr>
     else if sg_direction g = ''short'' then c\<lparr>dc_short := dc_short c + 1\<rparr> else c\<lparr>dc_flat := dc_flat c + 1\<rparr>)"

definition count_signals_by_direction :: "'s on_bar \<Rightarrow> 's \<Rightarrow> ohlcv list \<Rightarrow> direction_counts result" where
  "count_signals_by_direction on_bar s bars = rbind (run_on on_bar s bars) (\<lambda>sigs.
     Inr (fold count_step sigs \<lparr>dc_long = 0, dc_short = 0, dc_flat = 0\<rparr>))"

record position_events =
  pe_entry :: int
  pe_exit :: int
  pe_flip :: int
  pe_prev :: "string option"

definition go_flat :: "position_events \<Rightarrow> position_events" where
  "go_flat e = (if pe_prev e \<noteq> None then e\<lparr>pe_exit := pe_exit e + 1, pe_prev := None\<rparr> else e)"

definition go_to :: "string \<Rightarrow> string \<Rightarrow> position_events \<Rightarrow> position_events" where
  \<comment> \<open>to a direction whose opposite is \<open>other\<close>\<close>
  "go_to direction other e = (if pe_prev e = None then e\<lparr>pe_entry := pe_entry e + 1, pe_prev := Some direction\<rparr>
     else if pe_prev e = Some other then e\<lparr>pe_flip := pe_flip e + 1, pe_prev := Some direction\<rparr> else e\<lparr>pe_prev := Some direction\<rparr>)"

definition event_step :: "signal option \<Rightarrow> position_events \<Rightarrow> position_events" where
  "event_step sig e = (case sig of None \<Rightarrow> go_flat e | Some g \<Rightarrow> if sg_direction g = ''flat'' then go_flat e
     else if sg_direction g = ''long'' then go_to ''long'' ''short'' e
     else if sg_direction g = ''short'' then go_to ''short'' ''long'' e else e)"

definition no_events :: position_events where "no_events = \<lparr>pe_entry = 0, pe_exit = 0, pe_flip = 0, pe_prev = None\<rparr>"

record economics_summary =
  es_cost_side_count :: int
  es_entry_count :: int
  es_exit_count :: int
  es_flip_count :: int
  es_fee_bps :: pyfloat
  es_slippage_bps :: pyfloat
  es_assumed_total_cost_bps :: pyfloat

definition compute_economics_summary :: "'s on_bar \<Rightarrow> 's \<Rightarrow> ohlcv list \<Rightarrow> pyfloat \<Rightarrow> pyfloat \<Rightarrow> economics_summary result" where
  "compute_economics_summary on_bar s bars fee_bps slippage_bps = rbind (run_on on_bar s bars) (\<lambda>sigs. let e = fold event_step sigs no_events;
     n = pe_entry e + pe_exit e + pe_flip e in rbind (float_of_int n) (\<lambda>sides.
     Inr \<lparr>es_cost_side_count = n, es_entry_count = pe_entry e, es_exit_count = pe_exit e, es_flip_count = pe_flip e, es_fee_bps = fee_bps,
       es_slippage_bps = slippage_bps, es_assumed_total_cost_bps = fl_mul sides (fl_add fee_bps slippage_bps)\<rparr>))"

section \<open>The return series\<close>

fun position_states :: "string option \<Rightarrow> signal option list \<Rightarrow> string list" where
  "position_states prev [] = []"
| "position_states prev (sig # sigs) = (let direction = (case sig of None \<Rightarrow> ''flat'' | Some g \<Rightarrow> sg_direction g);
     held = (if prev = None \<and> direction \<noteq> ''flat'' then Some direction else prev);
     after = (if direction \<noteq> ''flat'' then Some direction else None) in
     (case held of None \<Rightarrow> ''flat'' | Some d \<Rightarrow> d) # position_states after sigs)"

definition bar_return :: "string \<Rightarrow> pyfloat \<Rightarrow> pyfloat \<Rightarrow> pyfloat result" where
  "bar_return position prev_close curr_close = (if position = ''long'' then float_div (fl_sub curr_close prev_close) prev_close
     else if position = ''short'' then float_div (fl_neg (fl_sub curr_close prev_close)) prev_close else Inr (PFin 0))"

record return_acc =
  ra_total :: pyfloat
  ra_held :: int
  ra_winning :: int
  ra_losing :: int
  ra_gross :: "pyfloat list"

fun return_loop :: "ohlcv list \<Rightarrow> string list \<Rightarrow> return_acc \<Rightarrow> return_acc result" where
  \<comment> \<open>the bars from the previous one on, the positions from the current one on\<close>
  "return_loop (a # b # bars) (position # positions) acc = rbind (bar_return position (ba_close a) (ba_close b)) (\<lambda>r.
     return_loop (b # bars) positions \<lparr>ra_total = fl_mul (ra_total acc) (fl_add (PFin 1) r),
       ra_held = ra_held acc + (if position \<noteq> ''flat'' then 1 else 0),
       ra_winning = ra_winning acc + (if position \<noteq> ''flat'' \<and> fl_lt (PFin 0) r then 1 else 0),
       ra_losing = ra_losing acc + (if position \<noteq> ''flat'' \<and> \<not> fl_lt (PFin 0) r \<and> fl_lt r (PFin 0) then 1 else 0),
       ra_gross = ra_gross acc @ [r]\<rparr>)"
| "return_loop bars positions acc = Inr acc"

record return_summary =
  rs_gross_return_total :: pyfloat
  rs_net_return_total :: pyfloat
  rs_cost_deduction_total :: pyfloat
  rs_bars_held :: int
  rs_winning_bars :: int
  rs_losing_bars :: int

record return_series =
  se_gross_returns :: "pyfloat list"
  se_net_returns :: "pyfloat list"
  se_bar_timestamps :: "string list"
  se_interval :: string

definition net_returns :: "pyfloat \<Rightarrow> pyfloat list \<Rightarrow> string list \<Rightarrow> pyfloat list" where
  "net_returns per_bar gross positions = map2 (\<lambda>r position. if position \<noteq> ''flat'' then fl_sub r per_bar else PFin 0) gross positions"

definition compute_return_summary :: "'s on_bar \<Rightarrow> 's \<Rightarrow> ohlcv list \<Rightarrow> economics_summary \<Rightarrow> string \<Rightarrow> (return_summary \<times> return_series) result" where
  "compute_return_summary on_bar s bars ec interval = (if length bars < 2
     then Inr (\<lparr>rs_gross_return_total = PFin 0, rs_net_return_total = PFin 0, rs_cost_deduction_total = PFin 0, rs_bars_held = 0, rs_winning_bars = 0, rs_losing_bars = 0\<rparr>,
       \<lparr>se_gross_returns = [], se_net_returns = [], se_bar_timestamps = [], se_interval = ''unknown''\<rparr>)
     else rbind (run_on on_bar s bars) (\<lambda>sigs. let positions = tl (position_states None sigs) in
       rbind (float_div (fl_add (es_fee_bps ec) (es_slippage_bps ec)) (PFin 10000)) (\<lambda>cost_per_event.
       rbind (float_of_int (es_cost_side_count ec)) (\<lambda>sides. let cost = fl_mul sides cost_per_event in
       rbind (return_loop bars positions \<lparr>ra_total = PFin 1, ra_held = 0, ra_winning = 0, ra_losing = 0, ra_gross = []\<rparr>) (\<lambda>acc.
       rbind (if 0 < ra_held acc then rbind (float_of_int (ra_held acc)) (float_div cost) else Inr (PFin 0)) (\<lambda>per_bar.
       let gross = fl_sub (ra_total acc) (PFin 1) in
       Inr (\<lparr>rs_gross_return_total = gross, rs_net_return_total = fl_sub gross cost, rs_cost_deduction_total = cost, rs_bars_held = ra_held acc,
              rs_winning_bars = ra_winning acc, rs_losing_bars = ra_losing acc\<rparr>,
            \<lparr>se_gross_returns = ra_gross acc, se_net_returns = net_returns per_bar (ra_gross acc) positions,
              se_bar_timestamps = map ba_timestamp (tl bars), se_interval = interval\<rparr>)))))))"

end
