(* ===== verification/StrategyHold.thy ===== *)
theory StrategyHold
  imports Strategy
begin

text \<open>The minimum hold of the rolling-return breakout (\<open>quantbot/strategy/rolling_return_breakout.py\<close>).\<close>

lemma run_on_ConsE:
  assumes "run_on f s (b # bs) = Inr sigs"
  obtains s' sig rest where "f s b = Inr (s', sig)" "run_on f s' bs = Inr rest" "sigs = sig # rest"
  using assms by (auto simp: rbind_Inr_iff)

definition hold_ok :: "int \<Rightarrow> rolling_strategy \<Rightarrow> bool" where
  \<comment> \<open>\<open>m\<close> bars have passed since the last signal\<close>
  "hold_ok m s \<longleftrightarrow> (case rr_prev_direction s of None \<Rightarrow> rr_min_hold s \<le> m
     | Some d \<Rightarrow> if d = ''flat'' then rr_min_hold s \<le> m else rr_bars_since_signal s = m)"

lemma decide_hold:
  assumes "rolling_decide s b direction = (s', sig)" "hold_ok m s"
  shows "rr_min_hold s' = rr_min_hold s \<and> (case sig of None \<Rightarrow> hold_ok m s' | Some g \<Rightarrow> rr_min_hold s \<le> m \<and> hold_ok 0 s')"
  using assms by (auto simp: rolling_decide_def hold_ok_def make_signal_def Let_def split: option.splits if_splits)

lemma step_hold:
  assumes "rolling_on_bar s b = Inr (s', sig)" "hold_ok m s"
  shows "rr_min_hold s' = rr_min_hold s" "sig = None \<Longrightarrow> hold_ok (m + 1) s'" "sig = Some g \<Longrightarrow> rr_min_hold s \<le> m + 1 \<and> hold_ok 0 s'"
proof -
  let ?s1 = "s\<lparr>rr_bars := rr_bars s @ [ba_close b], rr_bars_since_signal := rr_bars_since_signal s + 1\<rparr>"
  have s1: "hold_ok (m + 1) ?s1" using assms(2) by (auto simp: hold_ok_def split: option.splits if_splits)
  consider "s' = ?s1" "sig = None" | direction where "rolling_decide ?s1 b direction = (s', sig)"
    using assms(1) by (auto simp: rolling_on_bar_def Let_def rbind_Inr_iff split: if_splits)
  then have "rr_min_hold s' = rr_min_hold s \<and> (case sig of None \<Rightarrow> hold_ok (m + 1) s' | Some g \<Rightarrow> rr_min_hold s \<le> m + 1 \<and> hold_ok 0 s')"
  proof cases
    case 2
    then show ?thesis using decide_hold[OF 2 s1] by (simp split: option.splits)
  qed (use s1 in simp)
  then show "rr_min_hold s' = rr_min_hold s" "sig = None \<Longrightarrow> hold_ok (m + 1) s'" "sig = Some g \<Longrightarrow> rr_min_hold s \<le> m + 1 \<and> hold_ok 0 s'"
    by (auto split: option.splits)
qed

lemma hold_first: "run_on rolling_on_bar s bs = Inr sigs \<Longrightarrow> hold_ok m s \<Longrightarrow> i < length sigs \<Longrightarrow> sigs ! i = Some g \<Longrightarrow> 0 \<le> m
    \<Longrightarrow> rr_min_hold s \<le> m + int i + 1"
proof (induction bs arbitrary: s sigs i m)
  case (Cons b bs)
  obtain s' sig rest where step: "rolling_on_bar s b = Inr (s', sig)" "run_on rolling_on_bar s' bs = Inr rest" "sigs = sig # rest"
    by (rule run_on_ConsE[OF Cons.prems(1)])
  note hold = step_hold[OF step(1) Cons.prems(2)]
  show ?case
  proof (cases i)
    case 0
    then show ?thesis using hold(3)[of g] Cons.prems(4) step(3) by simp
  next
    case (Suc j)
    then have j: "j < length rest" "rest ! j = Some g" using Cons.prems(3,4) step(3) by simp_all
    show ?thesis
    proof (cases sig)
      case None
      then show ?thesis using Cons.IH[OF step(2) hold(2)[OF None] j] Cons.prems(5) hold(1) Suc by simp
    next
      case (Some h)
      then show ?thesis using Cons.IH[OF step(2) _ j, of 0] hold(3)[OF Some] hold(1) Cons.prems(5) Suc by simp
    qed
  qed
qed simp

lemma hold_pair: "run_on rolling_on_bar s bs = Inr sigs \<Longrightarrow> hold_ok m s \<Longrightarrow> 0 \<le> m \<Longrightarrow> i < j \<Longrightarrow> j < length sigs
    \<Longrightarrow> sigs ! i = Some g \<Longrightarrow> sigs ! j = Some h \<Longrightarrow> rr_min_hold s \<le> int j - int i"
proof (induction bs arbitrary: s sigs i j m)
  case (Cons b bs)
  obtain s' sig rest where step: "rolling_on_bar s b = Inr (s', sig)" "run_on rolling_on_bar s' bs = Inr rest" "sigs = sig # rest"
    by (rule run_on_ConsE[OF Cons.prems(1)])
  note hold = step_hold[OF step(1) Cons.prems(2)]
  obtain k where j: "j = Suc k" using Cons.prems(4) by (cases j) auto
  have k: "k < length rest" "rest ! k = Some h" using Cons.prems(5,7) step(3) j by simp_all
  show ?case
  proof (cases i)
    case 0
    then have "sig = Some g" using Cons.prems(6) step(3) by simp
    then show ?thesis using hold_first[OF step(2) _ k, of 0] hold(1) hold(3) 0 j by simp
  next
    case (Suc i')
    have "\<exists>m' \<ge> 0. hold_ok m' s'"
    proof (cases sig)
      case None
      then show ?thesis using hold(2) Cons.prems(3) by (intro exI[of _ "m + 1"]) simp
    next
      case (Some h')
      then show ?thesis using hold(3) by (intro exI[of _ 0]) simp
    qed
    then show ?thesis using Cons.IH[OF step(2), of _ i' k] Cons.prems(4,6) k step(3) hold(1) Suc j by auto
  qed
qed simp

text \<open>
  C32. Minimum hold. Whatever the bars and the parameters, two signals of the rolling-return breakout are at least \<open>min_hold_bars\<close> bars apart, also when the
  position went flat in between and the direction was forgotten.
\<close>

theorem rolling_breakout_min_hold:
  assumes "run_on rolling_on_bar (rolling_start period threshold min_hold confidence symbol) bars = Inr sigs"
    "i < j" "j < length sigs" "sigs ! i = Some g" "sigs ! j = Some h"
  shows "min_hold \<le> int j - int i"
proof -
  have "hold_ok (max 0 min_hold) (rolling_start period threshold min_hold confidence symbol)" by (simp add: hold_ok_def rolling_start_def)
  from hold_pair[OF assms(1) this _ assms(2,3,4,5)] show ?thesis by (simp add: rolling_start_def)
qed

definition fx_bar :: "rat \<Rightarrow> ohlcv" where
  "fx_bar c = \<lparr>ba_timestamp = ''t'', ba_open = PFin c, ba_high = PFin c, ba_low = PFin c, ba_close = PFin c, ba_volume = PFin 1\<rparr>"

definition fx_rolling :: rolling_strategy where
  "fx_rolling = rolling_start 1 (PFin (1 / 2)) 2 (PFin (1 / 2)) ''BTC''"

lemma fx_rolling_run: "\<exists>sigs. run_on rolling_on_bar fx_rolling (map fx_bar [1, 2, 4, 0]) = Inr sigs \<and> length sigs = 4
    \<and> map_option sg_direction (sigs ! 1) = Some ''long'' \<and> map_option sg_direction (sigs ! 3) = Some ''short''"
  by (simp add: fx_rolling_def rolling_start_def fx_bar_def rolling_on_bar_def rolling_decide_def rolling_direction_def Let_def list_at_def ratio_or_zero_def
      float_div_def fl_eq_def fl_sub_def make_signal_def)

theorem rolling_breakout_min_hold_witness:
  "\<exists>sigs g h. run_on rolling_on_bar fx_rolling (map fx_bar [1, 2, 4, 0]) = Inr sigs \<and> sigs ! 1 = Some g \<and> sigs ! 3 = Some h \<and> (2 :: int) \<le> int 3 - int 1"
proof -
  obtain sigs where run: "run_on rolling_on_bar fx_rolling (map fx_bar [1, 2, 4, 0]) = Inr sigs" "length sigs = 4"
    and "map_option sg_direction (sigs ! 1) = Some ''long''" "map_option sg_direction (sigs ! 3) = Some ''short''"
    using fx_rolling_run by blast
  then obtain g h where gh: "sigs ! 1 = Some g" "sigs ! 3 = Some h" by auto
  have "(2 :: int) \<le> int 3 - int 1" by (rule rolling_breakout_min_hold[OF run(1)[unfolded fx_rolling_def] _ _ gh]) (simp_all add: run(2))
  then show ?thesis using run(1) gh by blast
qed

end
