(* ===== verification/ExperimentAccounting.thy ===== *)
theory ExperimentAccounting
  imports Experiment StrategyHold
begin

text \<open>
  What the accounting of \<open>quantbot/experiment/runner.py\<close> computes from the signals of a strategy, and how its two passes agree.
\<close>

section \<open>The specification\<close>

definition position_of :: "signal option \<Rightarrow> string option" where
  \<comment> \<open>the accounting reads no signal as no position\<close>
  "position_of sig = (case sig of None \<Rightarrow> None | Some g \<Rightarrow> if sg_direction g = ''flat'' then None else Some (sg_direction g))"

definition transitions :: "string option \<Rightarrow> signal option list \<Rightarrow> (string option \<times> string option) list" where
  \<comment> \<open>the position before and after each bar\<close>
  "transitions p sigs = zip (p # map position_of sigs) (map position_of sigs)"

definition is_entry :: "string option \<times> string option \<Rightarrow> bool" where "is_entry t \<longleftrightarrow> fst t = None \<and> snd t \<noteq> None"
definition is_exit :: "string option \<times> string option \<Rightarrow> bool" where "is_exit t \<longleftrightarrow> fst t \<noteq> None \<and> snd t = None"
definition is_flip :: "string option \<times> string option \<Rightarrow> bool" where "is_flip t \<longleftrightarrow> fst t \<noteq> None \<and> snd t \<noteq> None \<and> fst t \<noteq> snd t"

definition occurs :: "('a \<Rightarrow> bool) \<Rightarrow> 'a list \<Rightarrow> int" where "occurs P xs = int (length (filter P xs))"

definition booked :: "string option \<times> string option \<Rightarrow> string" where
  \<comment> \<open>the position whose return a bar books: the one held before it, and on an entry the new one\<close>
  "booked t = (case fst t of Some d \<Rightarrow> d | None \<Rightarrow> (case snd t of Some d \<Rightarrow> d | None \<Rightarrow> ''flat''))"

lemma transitions_simps [simp]: "transitions p [] = []" "transitions p (sig # sigs) = (p, position_of sig) # transitions (position_of sig) sigs"
  by (simp_all add: transitions_def)

lemma occurs_simps [simp]: "occurs P [] = 0" "occurs P (x # xs) = (if P x then 1 else 0) + occurs P xs"
  by (simp_all add: occurs_def)

lemma length_transitions [simp]: "length (transitions p sigs) = length sigs"
  by (simp add: transitions_def)

section \<open>Events\<close>

definition directed :: "signal option \<Rightarrow> bool" where
  "directed sig \<longleftrightarrow> (case sig of None \<Rightarrow> True | Some g \<Rightarrow> sg_direction g = ''long'' \<or> sg_direction g = ''short'')"

lemma event_step_position:
  assumes "directed sig" "pe_prev e \<in> {None, Some ''long'', Some ''short''}"
  shows "event_step sig e = \<lparr>pe_entry = pe_entry e + (if is_entry (pe_prev e, position_of sig) then 1 else 0),
    pe_exit = pe_exit e + (if is_exit (pe_prev e, position_of sig) then 1 else 0), pe_flip = pe_flip e + (if is_flip (pe_prev e, position_of sig) then 1 else 0),
    pe_prev = position_of sig\<rparr>"
  using assms by (cases e) (auto simp: event_step_def directed_def go_flat_def go_to_def position_of_def is_entry_def is_exit_def is_flip_def split: option.splits)

lemma events_counted:
  assumes "list_all directed sigs" "pe_prev e \<in> {None, Some ''long'', Some ''short''}"
  shows "pe_entry (fold event_step sigs e) = pe_entry e + occurs is_entry (transitions (pe_prev e) sigs)
    \<and> pe_exit (fold event_step sigs e) = pe_exit e + occurs is_exit (transitions (pe_prev e) sigs)
    \<and> pe_flip (fold event_step sigs e) = pe_flip e + occurs is_flip (transitions (pe_prev e) sigs)"
  using assms
proof (induction sigs arbitrary: e)
  case (Cons sig sigs)
  have "position_of sig \<in> {None, Some ''long'', Some ''short''}" using Cons.prems(1) by (auto simp: directed_def position_of_def split: option.splits)
  then show ?case using Cons.IH[of "event_step sig e"] Cons.prems event_step_position[of sig e] by simp
qed simp

lemma entries_balance: "occurs is_entry (transitions p sigs) + (if p = None then 0 else 1)
    = occurs is_exit (transitions p sigs) + (if last (p # map position_of sigs) = None then 0 else 1)"
proof (induction sigs arbitrary: p)
  case (Cons sig sigs)
  have "is_entry (p, q) \<longleftrightarrow> p = None \<and> q \<noteq> None" "is_exit (p, q) \<longleftrightarrow> p \<noteq> None \<and> q = None" for q
    by (simp_all add: is_entry_def is_exit_def)
  then show ?case using Cons.IH[of "position_of sig"] by (cases p; cases "position_of sig"; simp)
qed simp

section \<open>Positions and returns\<close>

lemma position_states_booked: "list_all directed sigs \<Longrightarrow> p \<noteq> Some ''flat'' \<Longrightarrow> position_states p sigs = map booked (transitions p sigs)"
proof (induction sigs arbitrary: p)
  case (Cons sig sigs)
  have "position_of sig \<noteq> Some ''flat''" by (auto simp: position_of_def split: option.splits)
  moreover have "position_of sig = (if (case sig of None \<Rightarrow> ''flat'' | Some g \<Rightarrow> sg_direction g) \<noteq> ''flat''
      then Some (case sig of None \<Rightarrow> ''flat'' | Some g \<Rightarrow> sg_direction g) else None)"
    by (auto simp: position_of_def split: option.splits)
  ultimately show ?case using Cons.IH[of "position_of sig"] Cons.prems(1)
    by (auto simp: Let_def booked_def split: option.splits)
qed simp

lemma booked_not_flat: "fst t \<noteq> Some ''flat'' \<Longrightarrow> snd t \<noteq> Some ''flat'' \<Longrightarrow> booked t \<noteq> ''flat'' \<longleftrightarrow> fst t \<noteq> None \<or> snd t \<noteq> None"
  by (auto simp: booked_def split: option.splits)

lemma transitions_never_flat: "p \<noteq> Some ''flat'' \<Longrightarrow> t \<in> set (transitions p sigs) \<Longrightarrow> fst t \<noteq> Some ''flat'' \<and> snd t \<noteq> Some ''flat''"
proof (induction sigs arbitrary: p)
  case (Cons sig sigs)
  have "position_of sig \<noteq> Some ''flat''" by (auto simp: position_of_def split: option.splits)
  then show ?case using Cons by auto
qed simp

lemma held_bars: "occurs (\<lambda>p. p \<noteq> ''flat'') (map booked (tl (transitions None sigs))) = occurs (\<lambda>t. fst t \<noteq> None \<or> snd t \<noteq> None) (tl (transitions None sigs))"
proof -
  have "filter (\<lambda>t. booked t \<noteq> ''flat'') (tl (transitions None sigs)) = filter (\<lambda>t. fst t \<noteq> None \<or> snd t \<noteq> None) (tl (transitions None sigs))"
    using transitions_never_flat[of None _ sigs] list.set_sel(2)[of "transitions None sigs"]
    by (intro filter_cong) (metis booked_not_flat list.sel(2) option.distinct(1))+
  then show ?thesis by (simp add: occurs_def filter_map o_def)
qed

lemma return_loop_rows:
  assumes "return_loop bars positions acc = Inr acc'" "length bars = Suc (length positions)"
  shows "length (ra_gross acc') = length (ra_gross acc) + length positions \<and> ra_held acc' = ra_held acc + occurs (\<lambda>p. p \<noteq> ''flat'') positions
    \<and> take (length (ra_gross acc)) (ra_gross acc') = ra_gross acc
    \<and> (\<forall>i < length positions. bar_return (positions ! i) (ba_close (bars ! i)) (ba_close (bars ! Suc i)) = Inr (ra_gross acc' ! (length (ra_gross acc) + i)))"
  using assms
proof (induction bars positions acc arbitrary: acc' rule: return_loop.induct)
  case (1 a b bars position positions acc)
  obtain r where r: "bar_return position (ba_close a) (ba_close b) = Inr r" using "1.prems"(1) by (auto simp: rbind_Inr_iff)
  let ?acc = "\<lparr>ra_total = fl_mul (ra_total acc) (fl_add (PFin 1) r), ra_held = ra_held acc + (if position \<noteq> ''flat'' then 1 else 0),
    ra_winning = ra_winning acc + (if position \<noteq> ''flat'' \<and> fl_lt (PFin 0) r then 1 else 0),
    ra_losing = ra_losing acc + (if position \<noteq> ''flat'' \<and> \<not> fl_lt (PFin 0) r \<and> fl_lt r (PFin 0) then 1 else 0), ra_gross = ra_gross acc @ [r]\<rparr>"
  have "return_loop (b # bars) positions ?acc = Inr acc'" using "1.prems"(1) r by simp
  from "1.IH"[OF r this] "1.prems"(2) have ih: "length (ra_gross acc') = Suc (length (ra_gross acc)) + length positions"
    "ra_held acc' = ra_held acc + (if position \<noteq> ''flat'' then 1 else 0) + occurs (\<lambda>p. p \<noteq> ''flat'') positions"
    "take (Suc (length (ra_gross acc))) (ra_gross acc') = ra_gross acc @ [r]"
    "\<forall>i < length positions. bar_return (positions ! i) (ba_close ((b # bars) ! i)) (ba_close ((b # bars) ! Suc i)) = Inr (ra_gross acc' ! (Suc (length (ra_gross acc)) + i))"
    by simp_all
  have first: "ra_gross acc' ! length (ra_gross acc) = r" using ih(3) by (metis lessI nth_append_length nth_take)
  have "take (length (ra_gross acc)) (ra_gross acc') = ra_gross acc" using ih(3) by (metis append_eq_conv_conj butlast_snoc butlast_take diff_Suc_1 ih(1) le_add1 length_append_singleton take_take min.absorb1 Suc_leD order_refl)
  moreover have "bar_return ((position # positions) ! i) (ba_close ((a # b # bars) ! i)) (ba_close ((a # b # bars) ! Suc i)) = Inr (ra_gross acc' ! (length (ra_gross acc) + i))"
    if "i < length (position # positions)" for i
    using that r first ih(4) by (cases i) auto
  ultimately show ?case using ih(1,2) by auto
qed auto

lemma run_on_length: "run_on f s bs = Inr sigs \<Longrightarrow> length sigs = length bs"
  by (induction bs arbitrary: s sigs) (auto simp: rbind_Inr_iff)

lemma strategy_directed:
  assumes "bar_strategy f" "run_on f s bs = Inr sigs"
  shows "list_all directed sigs"
  using bar_strategy.run_stamped[OF assms]
  by (auto simp: list_all_length run_on_length[OF assms(2)] directed_def split: option.splits)

text \<open>The cost sides as the code counts them: a flip once, where the docstring of the function says twice.\<close>

lemma cost_sides_counted:
  "compute_economics_summary on_bar s bars fee_bps slippage_bps = Inr ec \<Longrightarrow>
   es_cost_side_count ec = es_entry_count ec + es_exit_count ec + es_flip_count ec"
  by (auto simp: compute_economics_summary_def Let_def rbind_Inr_iff)

text \<open>
  C31. The accounting of an experiment, for every strategy that keeps the contract. Entries, exits and flips are exactly the changes of the position from bar to bar, where
  a bar without a signal has no position; every entry but the one still open at the end has its exit. The return series has one row per bar after the first, computed from the position before the bar, and on an entry already from the new one: the entry earns the move that ends at the
  close it was decided on. The bars held are the bars that touch a position.
\<close>

theorem experiment_accounting:
  assumes "bar_strategy on_bar" "run_on on_bar s bars = Inr sigs" "2 \<le> length bars"
    "compute_economics_summary on_bar s bars fee_bps slippage_bps = Inr ec" "compute_return_summary on_bar s bars ec interval = Inr (rs, se)"
  shows "es_entry_count ec = occurs is_entry (transitions None sigs) \<and> es_exit_count ec = occurs is_exit (transitions None sigs)
    \<and> es_flip_count ec = occurs is_flip (transitions None sigs)
    \<and> es_entry_count ec = es_exit_count ec + (if position_of (last sigs) = None then 0 else 1)
    \<and> length (se_gross_returns se) = length bars - 1 \<and> length (se_net_returns se) = length bars - 1
    \<and> rs_bars_held rs = occurs (\<lambda>t. fst t \<noteq> None \<or> snd t \<noteq> None) (tl (transitions None sigs))
    \<and> (\<forall>i < length bars - 1. bar_return (booked (transitions None sigs ! Suc i)) (ba_close (bars ! i)) (ba_close (bars ! Suc i)) = Inr (se_gross_returns se ! i))"
proof -
  have n: "length sigs = length bars" by (rule run_on_length[OF assms(2)])
  have directed: "list_all directed sigs" by (rule strategy_directed[OF assms(1,2)])
  have events: "pe_entry (fold event_step sigs no_events) = occurs is_entry (transitions None sigs)"
    "pe_exit (fold event_step sigs no_events) = occurs is_exit (transitions None sigs)"
    "pe_flip (fold event_step sigs no_events) = occurs is_flip (transitions None sigs)"
    using events_counted[OF directed, of no_events] by (simp_all add: no_events_def)
  have ec: "es_entry_count ec = occurs is_entry (transitions None sigs)" "es_exit_count ec = occurs is_exit (transitions None sigs)"
    "es_flip_count ec = occurs is_flip (transitions None sigs)"
    using assms(2,4) events by (auto simp: compute_economics_summary_def Let_def rbind_Inr_iff)
  have balance: "es_entry_count ec = es_exit_count ec + (if position_of (last sigs) = None then 0 else 1)"
    using entries_balance[of None sigs] ec(1,2) assms(3) n by (cases "sigs = []") (auto simp: last_map)
  define positions where "positions = map booked (tl (transitions None sigs))"
  have states: "tl (position_states None sigs) = positions"
    using position_states_booked[OF directed, of None] by (simp add: positions_def map_tl)
  obtain acc per_bar where acc: "return_loop bars positions \<lparr>ra_total = PFin 1, ra_held = 0, ra_winning = 0, ra_losing = 0, ra_gross = []\<rparr> = Inr acc"
    and out: "rs_bars_held rs = ra_held acc" "se_gross_returns se = ra_gross acc" "se_net_returns se = net_returns per_bar (ra_gross acc) positions"
    using assms(2,3,5) states by (auto simp: compute_return_summary_def Let_def rbind_Inr_iff)
  have len: "length positions = length bars - 1" by (simp add: positions_def n)
  have rows: "length (ra_gross acc) = length positions" "ra_held acc = occurs (\<lambda>p. p \<noteq> ''flat'') positions"
    "\<forall>i < length positions. bar_return (positions ! i) (ba_close (bars ! i)) (ba_close (bars ! Suc i)) = Inr (ra_gross acc ! i)"
    using return_loop_rows[OF acc] len assms(3) by simp_all
  have "ra_held acc = occurs (\<lambda>t. fst t \<noteq> None \<or> snd t \<noteq> None) (tl (transitions None sigs))"
    unfolding rows(2) positions_def by (rule held_bars)
  moreover have "positions ! i = booked (transitions None sigs ! Suc i)" if "i < length bars - 1" for i
    using that n by (simp add: positions_def nth_tl)
  ultimately show ?thesis using ec balance out rows len by (simp add: net_returns_def)
qed

definition fx_threshold :: threshold_strategy where
  "fx_threshold = \<lparr>th_threshold = PFin 2, th_symbol = ''BTC'', th_prev_direction = None\<rparr>"

definition fx_signals :: "signal option list" where
  "fx_signals = [make_signal ''BTC'' one_half (fx_bar 1) ''short'', make_signal ''BTC'' one_half (fx_bar 2) ''long'', None]"

definition fx_economics :: economics_summary where
  "fx_economics = \<lparr>es_cost_side_count = 3, es_entry_count = 1, es_exit_count = 1, es_flip_count = 1, es_fee_bps = PFin 0, es_slippage_bps = PFin 0,
     es_assumed_total_cost_bps = PFin 0\<rparr>"

lemma fx_signals_run: "run_on threshold_on_bar fx_threshold (map fx_bar [1, 2, 4]) = Inr fx_signals"
  by (simp add: fx_threshold_def fx_bar_def threshold_on_bar_def Let_def fl_le_def fl_eq_def fx_signals_def make_signal_def)

lemma fx_economics_run: "compute_economics_summary threshold_on_bar fx_threshold (map fx_bar [1, 2, 4]) (PFin 0) (PFin 0) = Inr fx_economics"
  by (simp only: compute_economics_summary_def fx_signals_run rbind_simps)
    (simp add: fx_signals_def event_step_def no_events_def make_signal_def go_flat_def go_to_def Let_def float_of_int_def fl_of_int_def fx_economics_def)

lemma fx_returns_run: "\<exists>rs se. compute_return_summary threshold_on_bar fx_threshold (map fx_bar [1, 2, 4]) fx_economics ''8h'' = Inr (rs, se)"
  by (simp add: compute_return_summary_def fx_signals_run[simplified])
    (simp add: fx_signals_def make_signal_def Let_def bar_return_def fx_bar_def fx_economics_def float_div_def float_of_int_def fl_of_int_def fl_sub_def)

theorem experiment_accounting_witness:
  "\<exists>rs se. compute_return_summary threshold_on_bar fx_threshold (map fx_bar [1, 2, 4]) fx_economics ''8h'' = Inr (rs, se)
     \<and> length (se_net_returns se) = 2 \<and> es_entry_count fx_economics = es_exit_count fx_economics"
proof -
  obtain rs se where r: "compute_return_summary threshold_on_bar fx_threshold (map fx_bar [1, 2, 4]) fx_economics ''8h'' = Inr (rs, se)"
    using fx_returns_run by blast
  have "bar_strategy threshold_on_bar" by (rule thr.bar_strategy_axioms)
  from experiment_accounting[OF this fx_signals_run _ fx_economics_run r] r show ?thesis
    by (auto simp: fx_signals_def position_of_def)
qed

end
