(* ===== verification/CanonicalDoc.thy ===== *)
theory CanonicalDoc
  imports JsonText LedgerIO PySha256
begin

text \<open>
  What the strict readers of the program share: documents that must be their own canonical text, the
  \<open>object_pairs_hook\<close> that refuses a repeated key, exact key sets, and paths split at a separator.
\<close>

section \<open>Repeated keys\<close>

definition unique_hook :: "'e \<Rightarrow> 'e pairs_hook" where
  "unique_hook e pairs = (if distinct (map fst pairs) then Inr (JObj pairs) else Inl e)"

fun objs_distinct :: "json \<Rightarrow> bool" where
  "objs_distinct (JList xs) = list_all objs_distinct xs"
| "objs_distinct (JObj kvs) = (distinct (map fst kvs) \<and> list_all (\<lambda>(k, v). objs_distinct v) kvs)"
| "objs_distinct _ = True"

lemma unique_hook_honest: "honest_hook (unique_hook e)"
  by (simp add: honest_hook_def unique_hook_def)

fun mode_distinct :: "scan_mode \<Rightarrow> bool" where
  "mode_distinct Value = True"
| "mode_distinct (Elements vs) = list_all objs_distinct vs"
| "mode_distinct (Members ms) = list_all (\<lambda>(k, v). objs_distinct v) ms"

lemma scan_scalar_distinct: "scan_scalar s = Inr (v, rest) \<Longrightarrow> objs_distinct v"
  by (auto simp: scan_scalar_def expect_def scan_number_def Let_def split: list.splits if_splits option.splits prod.splits)

lemma close_unique: "close_object (unique_hook e) ms = Inr v \<Longrightarrow> list_all (\<lambda>(k, v). objs_distinct v) ms \<Longrightarrow> objs_distinct v"
  by (auto simp: close_object_def unique_hook_def split: if_splits)

lemma scan_distinct: "scan (unique_hook (e :: 'e)) n mode s = Inr (v, rest) \<Longrightarrow> mode_distinct mode \<Longrightarrow> objs_distinct v"
proof (induction n arbitrary: mode s v rest)
  case (Suc n)
  show ?case
  proof (cases mode)
    case Value
    then consider t where "v = JStr t" | "v = JList []" | r where "scan (unique_hook e) n (Elements []) r = Inr (v, rest)"
      | "close_object (unique_hook e) [] = Inr v" | r where "scan (unique_hook e) n (Members []) r = Inr (v, rest)" | "objs_distinct v"
      using Suc.prems(1) by (cases s) (auto dest: scan_scalar_distinct simp: scan_steps Let_def rbind_Inr_iff split: list.splits if_splits)
    then show ?thesis using Suc.IH by cases (auto dest: close_unique)
  next
    case (Elements vs)
    note run = Suc.prems(1)[unfolded Elements]
    from run obtain w r where w: "scan (unique_hook e) n Value s = Inr (w, r)" by (auto simp: scan_steps(3) rbind_Inr_iff)
    then obtain d ds where r: "skip_ws r = d # ds" using run by (cases "skip_ws r") (simp_all add: scan_steps(3))
    have c: "v = JList (rev (w # vs)) \<or> scan (unique_hook e) n (Elements (w # vs)) (skip_ws ds) = Inr (v, rest)"
      using run by (simp add: scan_steps(3) w r split: if_splits)
    have "mode_distinct (Elements (w # vs))" using Suc.IH[OF w] Suc.prems(2) by (simp add: Elements)
    then show ?thesis using c Suc.IH by auto
  next
    case (Members ms)
    note run = Suc.prems(1)[unfolded Members]
    from run obtain cs where s: "s = CHR 0x22 # cs" by (cases s) (simp_all add: scan_steps(4) split: if_splits)
    from run obtain key r where k: "scan_string cs = (Inr (key, r) :: 'e json_error + (string \<times> string))" by (auto simp: scan_steps(4) s rbind_Inr_iff)
    from run obtain ks where ks: "skip_ws r = CHR '':'' # ks"
      by (cases "skip_ws r") (simp_all add: scan_steps(4) s k split: if_splits)
    from run obtain w r2 where w: "scan (unique_hook e) n Value (skip_ws ks) = Inr (w, r2)"
      by (auto simp: scan_steps(4) s k ks rbind_Inr_iff)
    then obtain d ds where r2: "skip_ws r2 = d # ds" using run by (cases "skip_ws r2") (simp_all add: scan_steps(4) s k ks)
    have c: "close_object (unique_hook e) (rev ((key, w) # ms)) = Inr v
        \<or> scan (unique_hook e) n (Members ((key, w) # ms)) (skip_ws ds) = Inr (v, rest)"
      using run by (auto simp: scan_steps(4) s k ks w r2 rbind_Inr_iff split: if_splits)
    have m: "mode_distinct (Members ((key, w) # ms))" using Suc.IH[OF w] Suc.prems(2) by (simp add: Members)
    then have l: "list_all (\<lambda>(k, v). objs_distinct v) (rev ((key, w) # ms))" by (auto simp: list_all_iff)
    from c show ?thesis using close_unique[OF _ l] Suc.IH[OF _ m] by auto
  qed
qed (simp add: scan_steps)

lemma loads_unique_distinct: "json_loads_hook (unique_hook e) s = Inr v \<Longrightarrow> objs_distinct v"
  using scan_distinct[of e "2 * length s + 2" Value "skip_ws s" v] by (auto simp: json_loads_hook_def rbind_Inr_iff split: if_splits)

section \<open>Canonical texts\<close>

lemma get_member: "distinct (map fst d) \<Longrightarrow> (k, v) \<in> set d \<Longrightarrow> get d k = v"
  by (simp add: get_def obj_get_def)

lemma sorted_keys: "distinct (map fst d) \<Longrightarrow> sort_key fst d = map (\<lambda>k. (k, get d k)) (sort (map fst d))"
proof -
  assume d: "distinct (map fst d)"
  have "map (\<lambda>p. (fst p, get d (fst p))) (sort_key fst d) = sort_key fst d"
    by (rule map_idI) (use get_member[OF d] in auto)
  moreover have "sort (map fst d) = map fst (sort_key fst d)" by (simp add: sort_key_map)
  ultimately show ?thesis by (simp add: o_def)
qed

lemma canonical_cong:
  assumes "distinct (map fst d)" "distinct (map fst e)" "set (map fst d) = set (map fst e)"
    "\<And>k. k \<in> set (map fst e) \<Longrightarrow> canonical_json_dumps (get d k) = canonical_json_dumps (get e k)"
  shows "canonical_json_dumps (JObj d) = canonical_json_dumps (JObj e)"
proof -
  have keys: "sort (map fst d) = sort (map fst e)" using assms(1-3) by (intro sorted_distinct_set_unique) simp_all
  have rendered: "canonical_json_dumps (JObj x) = ''{'' @ join '','' (map (\<lambda>k. dump_string k @ '':'' @ canonical_json_dumps (get x k)) (sort (map fst x))) @ ''}''"
    if d: "distinct (map fst x)" for x
    unfolding canonical_json_dumps.simps sort_fst_map sorted_keys[OF d] by (simp add: o_def)
  have "map (\<lambda>k. dump_string k @ '':'' @ canonical_json_dumps (get d k)) (sort (map fst e))
      = map (\<lambda>k. dump_string k @ '':'' @ canonical_json_dumps (get e k)) (sort (map fst e))"
    using assms(4) by simp
  then show ?thesis by (simp only: rendered[OF assms(1)] rendered[OF assms(2)] keys)
qed

lemma get_key_sorted: "storable (JObj d) \<Longrightarrow> get (sorted_row d) k = key_sorted (get d k)"
  using sorted_row_get[of d k] by (simp add: get_def obj_get_def split: option.split)

lemma key_sorted_row: "key_sorted (JObj d) = JObj (sorted_row d)" "set (dict_keys (sorted_row d)) = set (dict_keys d)"
  by (force simp: sorted_row_def)+

lemma canonical_key_sorted: "canonical_json_dumps (key_sorted v) = canonical_json_dumps v"
  by (simp add: canonical_is_compact[of _ 0] dumps_key_sorted)

lemma canonical_ascii: "ascii (canonical_json_dumps v)"
proof -
  have "layout_chars (\<lambda>c. of_char c < (128::nat)) compact_layout" by (simp add: layout_chars_def compact_layout_def printable_def)
  from dumps_chars[OF this, of 0 v] show ?thesis by (simp add: canonical_is_compact[of v 0] ascii_def)
qed

lemma loads_canonical:
  assumes "honest_hook hook" "storable v"
  shows "json_loads_hook hook (canonical_json_dumps v) = Inr (key_sorted v)"
  using loads_dumps_hook[OF assms(1) layouts_blank(1) assms(2), of "[]" 0] by (simp add: blank_def canonical_is_compact[of v 0])

section \<open>Paths\<close>

fun split_on :: "char \<Rightarrow> string \<Rightarrow> string list" where
  \<comment> \<open>\<open>s.split(c)\<close>\<close>
  "split_on c [] = [[]]"
| "split_on c (d # s) = (if d = c then [] # split_on c s else (case split_on c s of w # ws \<Rightarrow> (d # w) # ws | [] \<Rightarrow> [[d]]))"

end
