(* ===== verification/ControlState.thy ===== *)
theory ControlState
  imports CanonicalDoc
begin

text \<open>
  \<open>quantbot/control/state.py\<close>: the deny-only control state, its strict reader, the authorization decision
  and the transitions between states. The keys of a group that the code holds in a \<open>frozenset\<close> are visited in the
  order of the text; which of several violations of such a group is reported first is left open by the code.
\<close>

section \<open>Data\<close>

datatype control_error =
    Invalid string string \<comment> \<open>\<open>ControlStateValidationError\<close>: its code and its path\<close>
  | Uncaught py_error

record scientific_state =
  hypothesis_id :: string
  edge_status :: string
  live_status :: string
  real_data_access :: string
  synthetic_calibration_execution :: string
  execution_count :: int
  execution_budget :: int

record administrative_state =
  workflow_status :: string
  proposal_ref :: string
  superseded_by :: "string option"

datatype runtime_action = PUBLIC_DATA_FETCH | H001_REAL_DATA_FETCH | SYNTHETIC_CALIBRATION | PAPER_EXECUTION | SHADOW_EXECUTION | LIVE_EXECUTION

record runtime_authorization =
  public_data_fetch :: string
  h001_real_data_fetch :: string
  synthetic_calibration :: string
  paper_execution :: string
  shadow_execution :: string
  live_execution :: string

record control_provenance =
  source_receipt_path :: string
  source_receipt_sha256 :: string
  source_head_commit :: string

record control_state =
  control_kind :: string
  schema_version :: string
  state_revision :: int
  protocol_id :: string
  scientific :: scientific_state
  administrative :: administrative_state
  authorization :: runtime_authorization
  provenance :: control_provenance

record authorization_decision =
  ad_action :: runtime_action
  ad_authorized :: bool
  ad_state_revision :: int

definition SUPPORTED_SCHEMA_VERSION :: string where "SUPPORTED_SCHEMA_VERSION = ''1.0.0''"
definition REQUIRED_CONTROL_KIND :: string where "REQUIRED_CONTROL_KIND = ''qnty_control_state''"
definition REQUIRED_HYPOTHESIS_ID :: string where "REQUIRED_HYPOTHESIS_ID = ''H001''"

definition TOP_KEYS :: "string list" where
  "TOP_KEYS = [''control_kind'', ''schema_version'', ''state_revision'', ''protocol_id'', ''scientific_state'', ''administrative_state'',
     ''runtime_authorization'', ''provenance'']"

definition SCIENTIFIC_KEYS :: "string list" where
  "SCIENTIFIC_KEYS = [''hypothesis_id'', ''edge_status'', ''live_status'', ''real_data_access'', ''synthetic_calibration_execution'',
     ''execution_count'', ''execution_budget'']"

definition ADMINISTRATIVE_KEYS :: "string list" where
  "ADMINISTRATIVE_KEYS = [''workflow_status'', ''proposal_ref'', ''superseded_by'']"

definition RUNTIME_KEYS :: "string list" where
  "RUNTIME_KEYS = [''public_data_fetch'', ''h001_real_data_fetch'', ''synthetic_calibration'', ''paper_execution'', ''shadow_execution'',
     ''live_execution'']"

definition PROVENANCE_KEYS :: "string list" where
  "PROVENANCE_KEYS = [''source_receipt_path'', ''source_receipt_sha256'', ''source_head_commit'']"

section \<open>Field validators\<close>

definition fail_at :: "string \<Rightarrow> string \<Rightarrow> string \<Rightarrow> control_error + 'a" where
  "fail_at code path key = Inl (Invalid code (path @ ''.'' @ key))"

definition require_exact_keys :: "json \<Rightarrow> string list \<Rightarrow> string \<Rightarrow> control_error + row" where
  "require_exact_keys v expected path = (case v of JObj d \<Rightarrow>
       (case sort (filter (\<lambda>k. k \<notin> set (dict_keys d)) expected) of m # _ \<Rightarrow> fail_at ''MISSING_FIELD'' path m
        | [] \<Rightarrow> (case sort (filter (\<lambda>k. k \<notin> set expected) (dict_keys d)) of u # _ \<Rightarrow> fail_at ''UNKNOWN_FIELD'' path u
          | [] \<Rightarrow> Inr d))
     | _ \<Rightarrow> Inl (Invalid ''WRONG_TYPE'' path))"

definition require_str :: "row \<Rightarrow> string \<Rightarrow> string \<Rightarrow> control_error + string" where
  "require_str d path key = (case get d key of JStr s \<Rightarrow> Inr s | _ \<Rightarrow> fail_at ''WRONG_TYPE'' path key)"

definition checked :: "(string \<Rightarrow> bool) \<Rightarrow> string \<Rightarrow> row \<Rightarrow> string \<Rightarrow> string \<Rightarrow> control_error + string" where
  \<comment> \<open>a string that meets a condition\<close>
  "checked ok code d path key = rbind (require_str d path key) (\<lambda>s. if ok s then Inr s else fail_at code path key)"

definition require_nonempty_str :: "row \<Rightarrow> string \<Rightarrow> string \<Rightarrow> control_error + string" where
  "require_nonempty_str = checked (\<lambda>s. s \<noteq> []) ''INVALID_LITERAL''"

definition require_literal :: "string \<Rightarrow> row \<Rightarrow> string \<Rightarrow> string \<Rightarrow> control_error + string" where
  "require_literal expected = checked (\<lambda>s. s = expected) ''INVALID_LITERAL''"

definition require_schema_version :: "row \<Rightarrow> string \<Rightarrow> control_error + string" where
  "require_schema_version d path = checked (\<lambda>s. s = SUPPORTED_SCHEMA_VERSION) ''UNSUPPORTED_SCHEMA_VERSION'' d path ''schema_version''"

definition checked_int :: "(int \<Rightarrow> bool) \<Rightarrow> string \<Rightarrow> row \<Rightarrow> string \<Rightarrow> string \<Rightarrow> control_error + int" where
  "checked_int ok code d path key = (case get d key of JInt n \<Rightarrow> if ok n then Inr n else fail_at code path key
     | _ \<Rightarrow> fail_at ''WRONG_TYPE'' path key)"

definition require_positive_revision :: "row \<Rightarrow> string \<Rightarrow> string \<Rightarrow> control_error + int" where
  "require_positive_revision = checked_int (\<lambda>n. 0 < n) ''INVALID_REVISION''"

definition require_zero :: "row \<Rightarrow> string \<Rightarrow> string \<Rightarrow> control_error + int" where
  "require_zero = checked_int (\<lambda>n. n = 0) ''INVALID_LITERAL''"

definition require_optional_str :: "row \<Rightarrow> string \<Rightarrow> string \<Rightarrow> control_error + string option" where
  "require_optional_str d path key = (case get d key of JNull \<Rightarrow> Inr None | JStr s \<Rightarrow> Inr (Some s) | _ \<Rightarrow> fail_at ''WRONG_TYPE'' path key)"

definition is_letter :: "char \<Rightarrow> bool" where
  "is_letter c \<longleftrightarrow> (let n = (of_char c :: nat) in (65 \<le> n \<and> n \<le> 90) \<or> (97 \<le> n \<and> n \<le> 122))"

definition is_safe_relative_path :: "string \<Rightarrow> bool" where
  "is_safe_relative_path s \<longleftrightarrow> s \<noteq> [] \<and> CHR 0x5C \<notin> set s \<and> hd s \<noteq> CHR ''/''
     \<and> \<not> (2 \<le> length s \<and> is_letter (hd s) \<and> s ! 1 = CHR '':'')
     \<and> \<not> str_contains ''://'' s \<and> (\<forall>c \<in> set s. c \<notin> set ''*?[]{}'') \<and> ''..'' \<notin> set (split_on CHR ''/'' s)"

definition require_safe_path :: "row \<Rightarrow> string \<Rightarrow> string \<Rightarrow> control_error + string" where
  "require_safe_path d path key = rbind (require_nonempty_str d path key) (\<lambda>s.
     if is_safe_relative_path s then Inr s else fail_at ''INVALID_PATH'' path key)"

definition require_sha256 :: "row \<Rightarrow> string \<Rightarrow> string \<Rightarrow> control_error + string" where
  "require_sha256 = checked (lower_hex 64) ''INVALID_SHA256''"

definition require_commit_sha :: "row \<Rightarrow> string \<Rightarrow> string \<Rightarrow> control_error + string" where
  "require_commit_sha = checked (lower_hex 40) ''INVALID_COMMIT_SHA''"

section \<open>The document\<close>

definition validate_scientific_state :: "json \<Rightarrow> string \<Rightarrow> control_error + scientific_state" where
  "validate_scientific_state v path = rbind (require_exact_keys v SCIENTIFIC_KEYS path) (\<lambda>d.
     rbind (require_literal REQUIRED_HYPOTHESIS_ID d path ''hypothesis_id'') (\<lambda>h.
     rbind (require_literal ''EDGE_UNPROVEN'' d path ''edge_status'') (\<lambda>e.
     rbind (require_literal ''BLOCK_LIVE_INTEGRATION'' d path ''live_status'') (\<lambda>l.
     rbind (require_literal ''FORBIDDEN'' d path ''real_data_access'') (\<lambda>r.
     rbind (require_literal ''NOT_AUTHORIZED'' d path ''synthetic_calibration_execution'') (\<lambda>s.
     rbind (require_zero d path ''execution_count'') (\<lambda>c. rbind (require_zero d path ''execution_budget'') (\<lambda>b.
     Inr \<lparr>hypothesis_id = h, edge_status = e, live_status = l, real_data_access = r, synthetic_calibration_execution = s,
       execution_count = c, execution_budget = b\<rparr>))))))))"

definition validate_administrative_state :: "json \<Rightarrow> string \<Rightarrow> control_error + administrative_state" where
  "validate_administrative_state v path = rbind (require_exact_keys v ADMINISTRATIVE_KEYS path) (\<lambda>d.
     rbind (require_nonempty_str d path ''workflow_status'') (\<lambda>w. rbind (require_safe_path d path ''proposal_ref'') (\<lambda>p.
     rbind (require_optional_str d path ''superseded_by'') (\<lambda>s.
     Inr \<lparr>workflow_status = w, proposal_ref = p, superseded_by = s\<rparr>))))"

definition validate_runtime_authorization :: "json \<Rightarrow> string \<Rightarrow> control_error + runtime_authorization" where
  "validate_runtime_authorization v path = rbind (require_exact_keys v RUNTIME_KEYS path) (\<lambda>d. let denied = require_literal ''DENIED'' d path in
     rbind (denied ''public_data_fetch'') (\<lambda>p. rbind (denied ''h001_real_data_fetch'') (\<lambda>h. rbind (denied ''synthetic_calibration'') (\<lambda>s.
     rbind (denied ''paper_execution'') (\<lambda>x. rbind (denied ''shadow_execution'') (\<lambda>y. rbind (denied ''live_execution'') (\<lambda>z.
     Inr \<lparr>public_data_fetch = p, h001_real_data_fetch = h, synthetic_calibration = s, paper_execution = x, shadow_execution = y,
       live_execution = z\<rparr>)))))))"

definition validate_provenance :: "json \<Rightarrow> string \<Rightarrow> control_error + control_provenance" where
  "validate_provenance v path = rbind (require_exact_keys v PROVENANCE_KEYS path) (\<lambda>d.
     rbind (require_safe_path d path ''source_receipt_path'') (\<lambda>p. rbind (require_sha256 d path ''source_receipt_sha256'') (\<lambda>h.
     rbind (require_commit_sha d path ''source_head_commit'') (\<lambda>c.
     Inr \<lparr>source_receipt_path = p, source_receipt_sha256 = h, source_head_commit = c\<rparr>))))"

definition validate_root :: "json \<Rightarrow> control_error + control_state" where
  "validate_root v = rbind (require_exact_keys v TOP_KEYS ''$'') (\<lambda>d.
     rbind (require_literal REQUIRED_CONTROL_KIND d ''$'' ''control_kind'') (\<lambda>k. rbind (require_schema_version d ''$'') (\<lambda>sv.
     rbind (require_positive_revision d ''$'' ''state_revision'') (\<lambda>rev. rbind (require_nonempty_str d ''$'' ''protocol_id'') (\<lambda>pid.
     rbind (validate_scientific_state (get d ''scientific_state'') ''$.scientific_state'') (\<lambda>sc.
     rbind (validate_administrative_state (get d ''administrative_state'') ''$.administrative_state'') (\<lambda>ad.
     rbind (validate_runtime_authorization (get d ''runtime_authorization'') ''$.runtime_authorization'') (\<lambda>au.
     rbind (validate_provenance (get d ''provenance'') ''$.provenance'') (\<lambda>pr.
     Inr \<lparr>control_kind = k, schema_version = sv, state_revision = rev, protocol_id = pid, scientific = sc, administrative = ad,
       authorization = au, provenance = pr\<rparr>)))))))))"

definition load_and_validate_control_state :: "string \<Rightarrow> control_error + control_state" where
  "load_and_validate_control_state raw = (case utf8_decode raw of BadUtf8 \<Rightarrow> Inl (Invalid ''INVALID_JSON'' ''$'')
     | Text text \<Rightarrow> (case json_loads_hook (unique_hook (Invalid ''DUPLICATE_KEY'' ''$'')) text of
         Inl (HookError e) \<Rightarrow> Inl e | Inl JSONDecodeError \<Rightarrow> Inl (Invalid ''INVALID_JSON'' ''$'')
       | Inl DigitLimit \<Rightarrow> Inl (Uncaught ValueError) | Inl LoneSurrogate \<Rightarrow> Inl (Uncaught OutOfModel)
       | Inr v \<Rightarrow> if canonical_json_dumps v \<noteq> raw then Inl (Invalid ''NON_CANONICAL_JSON'' ''$'') else validate_root v))"

section \<open>Decisions and transitions\<close>

definition scientific_doc :: "scientific_state \<Rightarrow> row" where
  "scientific_doc s = [(''hypothesis_id'', JStr (hypothesis_id s)), (''edge_status'', JStr (edge_status s)),
     (''live_status'', JStr (live_status s)), (''real_data_access'', JStr (real_data_access s)),
     (''synthetic_calibration_execution'', JStr (synthetic_calibration_execution s)),
     (''execution_count'', JInt (execution_count s)), (''execution_budget'', JInt (execution_budget s))]"

definition administrative_doc :: "administrative_state \<Rightarrow> row" where
  "administrative_doc a = [(''workflow_status'', JStr (workflow_status a)), (''proposal_ref'', JStr (proposal_ref a)),
     (''superseded_by'', case superseded_by a of None \<Rightarrow> JNull | Some x \<Rightarrow> JStr x)]"

definition authorization_doc :: "runtime_authorization \<Rightarrow> row" where
  "authorization_doc r = [(''public_data_fetch'', JStr (public_data_fetch r)), (''h001_real_data_fetch'', JStr (h001_real_data_fetch r)),
     (''synthetic_calibration'', JStr (synthetic_calibration r)), (''paper_execution'', JStr (paper_execution r)),
     (''shadow_execution'', JStr (shadow_execution r)), (''live_execution'', JStr (live_execution r))]"

definition provenance_doc :: "control_provenance \<Rightarrow> row" where
  "provenance_doc p = [(''source_receipt_path'', JStr (source_receipt_path p)), (''source_receipt_sha256'', JStr (source_receipt_sha256 p)),
     (''source_head_commit'', JStr (source_head_commit p))]"

definition state_doc :: "control_state \<Rightarrow> row" where
  \<comment> \<open>the mapping that \<open>_revalidate\<close> rebuilds\<close>
  "state_doc st = [(''control_kind'', JStr (control_kind st)), (''schema_version'', JStr (schema_version st)),
     (''state_revision'', JInt (state_revision st)), (''protocol_id'', JStr (protocol_id st)),
     (''scientific_state'', JObj (scientific_doc (scientific st))), (''administrative_state'', JObj (administrative_doc (administrative st))),
     (''runtime_authorization'', JObj (authorization_doc (authorization st))), (''provenance'', JObj (provenance_doc (provenance st)))]"

definition revalidate :: "control_state \<Rightarrow> control_error + control_state" where
  "revalidate st = validate_root (JObj (state_doc st))"

definition authorize :: "control_state \<Rightarrow> runtime_action \<Rightarrow> control_error + authorization_decision" where
  "authorize st action = rbind (revalidate st) (\<lambda>valid.
     Inr \<lparr>ad_action = action, ad_authorized = False, ad_state_revision = state_revision valid\<rparr>)"

definition validate_transition :: "control_state \<Rightarrow> control_state \<Rightarrow> control_error + unit" where
  "validate_transition previous candidate = rbind (revalidate previous) (\<lambda>p. rbind (revalidate candidate) (\<lambda>c.
     if control_kind p \<noteq> control_kind c then fail_at ''IDENTITY_CHANGED'' ''$'' ''control_kind''
     else if schema_version p \<noteq> schema_version c then fail_at ''IDENTITY_CHANGED'' ''$'' ''schema_version''
     else if protocol_id p \<noteq> protocol_id c then fail_at ''IDENTITY_CHANGED'' ''$'' ''protocol_id''
     else if hypothesis_id (scientific p) \<noteq> hypothesis_id (scientific c) then fail_at ''IDENTITY_CHANGED'' ''$.scientific_state'' ''hypothesis_id''
     else if state_revision c \<le> state_revision p then fail_at ''STALE_REVISION'' ''$'' ''state_revision''
     else if state_revision c \<noteq> state_revision p + 1 then fail_at ''REVISION_GAP'' ''$'' ''state_revision''
     else Inr ()))"

section \<open>What the validators accept\<close>

lemma exact_keys_Inr: "require_exact_keys v expected path = Inr d \<longleftrightarrow> v = JObj d \<and> set (dict_keys d) = set expected"
proof -
  have nil: "sort xs = [] \<longleftrightarrow> xs = []" for xs :: "string list" by (metis length_0_conv length_sort)
  have mem: "m \<in> set xs" if "sort xs = m # r" for m r and xs :: "string list" using that by (metis list.set_intros(1) set_sort)
  show ?thesis
    by (cases v) (auto 0 3 simp: require_exact_keys_def fail_at_def nil filter_empty_conv split: list.splits dest!: mem)
qed

lemma field_Inr:
  "checked ok code d path key = Inr s \<longleftrightarrow> get d key = JStr s \<and> ok s"
  "checked_int pk code d path key = Inr n \<longleftrightarrow> get d key = JInt n \<and> pk n"
  "require_optional_str d path key = Inr opt \<longleftrightarrow> get d key = (case opt of None \<Rightarrow> JNull | Some x \<Rightarrow> JStr x)"
  "require_safe_path d path key = Inr s \<longleftrightarrow> get d key = JStr s \<and> s \<noteq> [] \<and> is_safe_relative_path s"
  by (auto simp: checked_def require_str_def fail_at_def rbind_Inr_iff checked_int_def require_optional_str_def require_safe_path_def
      require_nonempty_str_def split: json.splits if_splits option.splits)

lemmas validator_defs = require_literal_def require_schema_version_def require_positive_revision_def require_nonempty_str_def require_zero_def
  require_sha256_def require_commit_sha_def

definition same_row :: "json \<Rightarrow> string list \<Rightarrow> row \<Rightarrow> bool" where
  \<comment> \<open>an object with exactly these keys and the values of the row\<close>
  "same_row v K e \<longleftrightarrow> (\<exists>d. v = JObj d \<and> set (dict_keys d) = set K \<and> (\<forall>k \<in> set K. get d k = get e k))"

definition scientific_ok :: "scientific_state \<Rightarrow> bool" where
  "scientific_ok s \<longleftrightarrow> hypothesis_id s = REQUIRED_HYPOTHESIS_ID \<and> edge_status s = ''EDGE_UNPROVEN'' \<and> live_status s = ''BLOCK_LIVE_INTEGRATION''
     \<and> real_data_access s = ''FORBIDDEN'' \<and> synthetic_calibration_execution s = ''NOT_AUTHORIZED'' \<and> execution_count s = 0 \<and> execution_budget s = 0"

definition administrative_ok :: "administrative_state \<Rightarrow> bool" where
  "administrative_ok a \<longleftrightarrow> workflow_status a \<noteq> [] \<and> proposal_ref a \<noteq> [] \<and> is_safe_relative_path (proposal_ref a)"

definition all_denied :: "runtime_authorization \<Rightarrow> bool" where
  "all_denied r \<longleftrightarrow> public_data_fetch r = ''DENIED'' \<and> h001_real_data_fetch r = ''DENIED'' \<and> synthetic_calibration r = ''DENIED''
     \<and> paper_execution r = ''DENIED'' \<and> shadow_execution r = ''DENIED'' \<and> live_execution r = ''DENIED''"

definition provenance_ok :: "control_provenance \<Rightarrow> bool" where
  "provenance_ok p \<longleftrightarrow> source_receipt_path p \<noteq> [] \<and> is_safe_relative_path (source_receipt_path p) \<and> lower_hex 64 (source_receipt_sha256 p)
     \<and> lower_hex 40 (source_head_commit p)"

definition control_ok :: "control_state \<Rightarrow> bool" where
  "control_ok st \<longleftrightarrow> control_kind st = REQUIRED_CONTROL_KIND \<and> schema_version st = SUPPORTED_SCHEMA_VERSION \<and> 0 < state_revision st
     \<and> protocol_id st \<noteq> [] \<and> scientific_ok (scientific st) \<and> administrative_ok (administrative st) \<and> all_denied (authorization st)
     \<and> provenance_ok (provenance st)"

lemma scientific_Inr: "validate_scientific_state v path = Inr s \<longleftrightarrow> same_row v SCIENTIFIC_KEYS (scientific_doc s) \<and> scientific_ok s"
  by (cases s) (auto simp: same_row_def scientific_ok_def validate_scientific_state_def rbind_Inr_iff exact_keys_Inr field_Inr validator_defs
      scientific_doc_def SCIENTIFIC_KEYS_def get_def obj_get_def)

lemma administrative_Inr: "validate_administrative_state v path = Inr a \<longleftrightarrow> same_row v ADMINISTRATIVE_KEYS (administrative_doc a) \<and> administrative_ok a"
  by (cases a) (auto simp: same_row_def administrative_ok_def validate_administrative_state_def rbind_Inr_iff exact_keys_Inr field_Inr validator_defs
      administrative_doc_def ADMINISTRATIVE_KEYS_def get_def[of "_ # _"] obj_get_def)

lemma authorization_Inr: "validate_runtime_authorization v path = Inr r \<longleftrightarrow> same_row v RUNTIME_KEYS (authorization_doc r) \<and> all_denied r"
  by (cases r) (auto simp: same_row_def all_denied_def validate_runtime_authorization_def Let_def rbind_Inr_iff exact_keys_Inr field_Inr validator_defs
      authorization_doc_def RUNTIME_KEYS_def get_def[of "_ # _"] obj_get_def)

lemma provenance_Inr: "validate_provenance v path = Inr p \<longleftrightarrow> same_row v PROVENANCE_KEYS (provenance_doc p) \<and> provenance_ok p"
  by (cases p) (auto simp: same_row_def provenance_ok_def validate_provenance_def rbind_Inr_iff exact_keys_Inr field_Inr validator_defs
      provenance_doc_def PROVENANCE_KEYS_def get_def[of "_ # _"] obj_get_def)

lemma root_Inr: "validate_root v = Inr st \<longleftrightarrow> control_ok st \<and> (\<exists>d. v = JObj d \<and> set (dict_keys d) = set TOP_KEYS
    \<and> (\<forall>k \<in> {''control_kind'', ''schema_version'', ''state_revision'', ''protocol_id''}. get d k = get (state_doc st) k)
    \<and> same_row (get d ''scientific_state'') SCIENTIFIC_KEYS (scientific_doc (scientific st))
    \<and> same_row (get d ''administrative_state'') ADMINISTRATIVE_KEYS (administrative_doc (administrative st))
    \<and> same_row (get d ''runtime_authorization'') RUNTIME_KEYS (authorization_doc (authorization st))
    \<and> same_row (get d ''provenance'') PROVENANCE_KEYS (provenance_doc (provenance st)))"
  by (cases st) (auto simp: control_ok_def validate_root_def rbind_Inr_iff exact_keys_Inr field_Inr validator_defs state_doc_def
      get_def[of "_ # _"] obj_get_def scientific_Inr administrative_Inr authorization_Inr provenance_Inr)

section \<open>The canonical text of a state\<close>

lemma group_canonical:
  assumes "objs_distinct (JObj d)" "set (dict_keys d) = set K" "dict_keys e = K" "distinct K"
    "\<And>k. k \<in> set K \<Longrightarrow> canonical_json_dumps (get d k) = canonical_json_dumps (get e k)"
  shows "canonical_json_dumps (JObj d) = canonical_json_dumps (JObj e)"
  by (rule canonical_cong) (use assms in auto)

lemma doc_keys: "dict_keys (scientific_doc s) = SCIENTIFIC_KEYS" "dict_keys (administrative_doc a) = ADMINISTRATIVE_KEYS"
  "dict_keys (authorization_doc r) = RUNTIME_KEYS" "dict_keys (provenance_doc p) = PROVENANCE_KEYS" "dict_keys (state_doc st) = TOP_KEYS"
  by (simp_all add: scientific_doc_def SCIENTIFIC_KEYS_def administrative_doc_def ADMINISTRATIVE_KEYS_def authorization_doc_def RUNTIME_KEYS_def
      provenance_doc_def PROVENANCE_KEYS_def state_doc_def TOP_KEYS_def)

lemma distinct_groups: "distinct SCIENTIFIC_KEYS" "distinct ADMINISTRATIVE_KEYS" "distinct RUNTIME_KEYS" "distinct PROVENANCE_KEYS" "distinct TOP_KEYS"
  by (simp_all add: SCIENTIFIC_KEYS_def ADMINISTRATIVE_KEYS_def RUNTIME_KEYS_def PROVENANCE_KEYS_def TOP_KEYS_def)

lemma same_row_canonical:
  assumes "same_row v K e" "objs_distinct v" "dict_keys e = K" "distinct K"
  shows "canonical_json_dumps v = canonical_json_dumps (JObj e)"
proof -
  obtain d where d: "v = JObj d" "set (dict_keys d) = set K" "\<forall>k \<in> set K. get d k = get e k" using assms(1) by (auto simp: same_row_def)
  show ?thesis unfolding d(1) by (rule group_canonical[OF _ d(2) assms(3,4)]) (use assms(2) d(1,3) in auto)
qed

lemma objs_distinct_get: "objs_distinct (JObj d) \<Longrightarrow> objs_distinct (get d k)"
  by (auto simp: get_def obj_get_def list_all_iff split: option.splits dest: map_of_SomeD)

lemma root_canonical:
  assumes "objs_distinct v" "validate_root v = Inr st"
  shows "canonical_json_dumps v = canonical_json_dumps (JObj (state_doc st))"
proof -
  obtain d where d: "v = JObj d" "set (dict_keys d) = set TOP_KEYS"
    "\<forall>k \<in> {''control_kind'', ''schema_version'', ''state_revision'', ''protocol_id''}. get d k = get (state_doc st) k"
    "same_row (get d ''scientific_state'') SCIENTIFIC_KEYS (scientific_doc (scientific st))"
    "same_row (get d ''administrative_state'') ADMINISTRATIVE_KEYS (administrative_doc (administrative st))"
    "same_row (get d ''runtime_authorization'') RUNTIME_KEYS (authorization_doc (authorization st))"
    "same_row (get d ''provenance'') PROVENANCE_KEYS (provenance_doc (provenance st))"
    using assms(2)[unfolded root_Inr] by (elim conjE exE)
  have dist: "objs_distinct (JObj d)" using assms(1) d(1) by simp
  have groups: "get (state_doc st) ''scientific_state'' = JObj (scientific_doc (scientific st))"
    "get (state_doc st) ''administrative_state'' = JObj (administrative_doc (administrative st))"
    "get (state_doc st) ''runtime_authorization'' = JObj (authorization_doc (authorization st))"
    "get (state_doc st) ''provenance'' = JObj (provenance_doc (provenance st))"
    by (simp_all add: state_doc_def get_def obj_get_def)
  note part = same_row_canonical[OF _ objs_distinct_get[OF dist]]
  note texts = part[OF d(4) doc_keys(1) distinct_groups(1)] part[OF d(5) doc_keys(2) distinct_groups(2)]
    part[OF d(6) doc_keys(3) distinct_groups(3)] part[OF d(7) doc_keys(4) distinct_groups(4)]
  have "\<forall>k \<in> set TOP_KEYS. canonical_json_dumps (get d k) = canonical_json_dumps (get (state_doc st) k)"
    using d(3) by (simp only: TOP_KEYS_def list.set ball_simps groups texts simp_thms)
  then show ?thesis unfolding d(1) by (intro group_canonical[OF dist d(2) doc_keys(5) distinct_groups(5)]) (rule bspec)
qed

section \<open>Properties\<close>

lemma same_row_doc: "dict_keys e = K \<Longrightarrow> same_row (JObj e) K e"
  unfolding same_row_def by (intro exI[of _ e]) simp

lemma root_of_doc: "control_ok st \<Longrightarrow> validate_root (JObj (state_doc st)) = Inr st"
  unfolding root_Inr
  by (intro conjI exI[of _ "state_doc st"]) (simp_all add: doc_keys, simp_all add: state_doc_def get_def obj_get_def same_row_doc doc_keys)

lemma same_row_sorted:
  assumes "storable (JObj e)" "dict_keys e = K" "\<And>k. key_sorted (get e k) = get e k"
  shows "same_row (key_sorted (JObj e)) K e"
  unfolding same_row_def key_sorted_row(1) using assms(3) get_key_sorted[OF assms(1)] key_sorted_row(2)[of e]
  by (intro exI[of _ "sorted_row e"]) (simp add: assms(2))

lemma leaf_groups: "key_sorted (get (scientific_doc s) k) = get (scientific_doc s) k" "key_sorted (get (administrative_doc a) k) = get (administrative_doc a) k"
  "key_sorted (get (authorization_doc r) k) = get (authorization_doc r) k" "key_sorted (get (provenance_doc p) k) = get (provenance_doc p) k"
  by (simp_all add: get_def obj_get_def scientific_doc_def administrative_doc_def authorization_doc_def provenance_doc_def split: option.split)

lemma storable_groups:
  assumes "storable (JObj (state_doc st))"
  shows "storable (JObj (scientific_doc (scientific st)))" "storable (JObj (administrative_doc (administrative st)))"
    "storable (JObj (authorization_doc (authorization st)))" "storable (JObj (provenance_doc (provenance st)))"
  using assms by (simp_all add: state_doc_def)

lemma root_of_sorted:
  assumes "control_ok st" "storable (JObj (state_doc st))"
  shows "validate_root (key_sorted (JObj (state_doc st))) = Inr st"
proof -
  have g: "get (sorted_row (state_doc st)) k = key_sorted (get (state_doc st) k)" for k by (rule get_key_sorted[OF assms(2)])
  have "same_row (key_sorted (JObj (scientific_doc (scientific st)))) SCIENTIFIC_KEYS (scientific_doc (scientific st))"
    "same_row (key_sorted (JObj (administrative_doc (administrative st)))) ADMINISTRATIVE_KEYS (administrative_doc (administrative st))"
    "same_row (key_sorted (JObj (authorization_doc (authorization st)))) RUNTIME_KEYS (authorization_doc (authorization st))"
    "same_row (key_sorted (JObj (provenance_doc (provenance st)))) PROVENANCE_KEYS (provenance_doc (provenance st))"
    using storable_groups[OF assms(2)] by (simp_all only: same_row_sorted doc_keys leaf_groups)
  then show ?thesis unfolding root_Inr key_sorted_row(1) using assms(1) key_sorted_row(2)[of "state_doc st"]
    by (intro conjI exI[of _ "sorted_row (state_doc st)"]) (simp_all add: g doc_keys key_sorted_row(1) del: key_sorted.simps(2),
       simp_all add: state_doc_def get_def obj_get_def key_sorted_row(1) del: key_sorted.simps(2))
qed

text \<open>
  C28. The raw documents that load as a control state are exactly the canonical text of that state: reading
  and printing are inverse, so no second spelling of a state, no repeated key and no extra field is accepted.
\<close>

theorem control_document_round_trip:
  assumes "storable (JObj (state_doc st))"
  shows "load_and_validate_control_state raw = Inr st \<longleftrightarrow> control_ok st \<and> raw = canonical_json_dumps (JObj (state_doc st))"
proof
  assume "load_and_validate_control_state raw = Inr st"
  then obtain v where v: "json_loads_hook (unique_hook (Invalid ''DUPLICATE_KEY'' ''$'')) raw = Inr v" "canonical_json_dumps v = raw"
    "validate_root v = Inr st"
    by (auto simp: load_and_validate_control_state_def utf8_decode_def split: decoded.splits sum.splits json_error.splits if_splits)
  have "canonical_json_dumps v = canonical_json_dumps (JObj (state_doc st))" by (rule root_canonical[OF loads_unique_distinct[OF v(1)] v(3)])
  then show "control_ok st \<and> raw = canonical_json_dumps (JObj (state_doc st))" using v(2,3) root_Inr by metis
next
  assume ok: "control_ok st \<and> raw = canonical_json_dumps (JObj (state_doc st))"
  have "utf8_decode raw = Text raw" using ok utf8_decode_ascii[OF canonical_ascii] by metis
  moreover have "json_loads_hook (unique_hook (Invalid ''DUPLICATE_KEY'' ''$'')) raw = Inr (key_sorted (JObj (state_doc st)))"
    using ok loads_canonical[OF unique_hook_honest assms] by simp
  moreover have "canonical_json_dumps (key_sorted (JObj (state_doc st))) = raw" using ok by (simp only: canonical_key_sorted)
  ultimately show "load_and_validate_control_state raw = Inr st"
    using root_of_sorted ok assms by (simp add: load_and_validate_control_state_def del: key_sorted.simps canonical_json_dumps.simps)
qed

definition fx_control :: control_state where
  "fx_control = \<lparr>control_kind = REQUIRED_CONTROL_KIND, schema_version = SUPPORTED_SCHEMA_VERSION, state_revision = 1, protocol_id = ''H001_P1'',
     scientific = \<lparr>hypothesis_id = REQUIRED_HYPOTHESIS_ID, edge_status = ''EDGE_UNPROVEN'', live_status = ''BLOCK_LIVE_INTEGRATION'',
       real_data_access = ''FORBIDDEN'', synthetic_calibration_execution = ''NOT_AUTHORIZED'', execution_count = 0, execution_budget = 0\<rparr>,
     administrative = \<lparr>workflow_status = ''OPEN'', proposal_ref = ''docs/p.md'', superseded_by = None\<rparr>,
     authorization = \<lparr>public_data_fetch = ''DENIED'', h001_real_data_fetch = ''DENIED'', synthetic_calibration = ''DENIED'',
       paper_execution = ''DENIED'', shadow_execution = ''DENIED'', live_execution = ''DENIED''\<rparr>,
     provenance = \<lparr>source_receipt_path = ''docs/r.json'', source_receipt_sha256 = replicate 64 CHR ''0'',
       source_head_commit = replicate 40 CHR ''a''\<rparr>\<rparr>"

lemma fx_control_ok: "control_ok fx_control"
  by (simp add: fx_control_def control_ok_def scientific_ok_def administrative_ok_def all_denied_def provenance_ok_def is_safe_relative_path_def
      is_letter_def str_prefix_def lower_hex_def list_all_iff)

lemma fx_control_storable: "storable (JObj (state_doc fx_control))"
proof -
  have "length (show_nat 0) \<le> 4300" "length (show_nat 1) \<le> 4300" by (subst show_nat.simps, simp)+
  moreover have "ascii (replicate n CHR ''0'')" "ascii (replicate n CHR ''a'')" for n by (simp_all add: ascii_def list_all_iff)
  ultimately show ?thesis
    by (simp add: state_doc_def scientific_doc_def administrative_doc_def authorization_doc_def provenance_doc_def fx_control_def
      REQUIRED_CONTROL_KIND_def SUPPORTED_SCHEMA_VERSION_def REQUIRED_HYPOTHESIS_ID_def)
qed

theorem control_document_round_trip_witness:
  "load_and_validate_control_state (canonical_json_dumps (JObj (state_doc fx_control))) = Inr fx_control"
  using control_document_round_trip[OF fx_control_storable, of "canonical_json_dumps (JObj (state_doc fx_control))"] fx_control_ok by blast

section \<open>Histories\<close>

inductive control_history :: "control_state \<Rightarrow> nat \<Rightarrow> control_state \<Rightarrow> bool" where
  start: "control_history st 0 st"
| advance: "control_history st n p \<Longrightarrow> validate_transition p c = Inr () \<Longrightarrow> control_history st (Suc n) c"

lemma scientific_doc_inj: "same_row (JObj (scientific_doc s)) SCIENTIFIC_KEYS (scientific_doc s') \<Longrightarrow> s = s'"
  by (cases s; cases s'; simp add: same_row_def scientific_doc_def SCIENTIFIC_KEYS_def get_def obj_get_def)

lemma administrative_doc_inj: "same_row (JObj (administrative_doc a)) ADMINISTRATIVE_KEYS (administrative_doc a') \<Longrightarrow> a = a'"
  by (cases a; cases a'; simp add: same_row_def administrative_doc_def ADMINISTRATIVE_KEYS_def get_def obj_get_def split: option.splits)

lemma authorization_doc_inj: "same_row (JObj (authorization_doc r)) RUNTIME_KEYS (authorization_doc r') \<Longrightarrow> r = r'"
  by (cases r; cases r'; simp add: same_row_def authorization_doc_def RUNTIME_KEYS_def get_def obj_get_def)

lemma provenance_doc_inj: "same_row (JObj (provenance_doc p)) PROVENANCE_KEYS (provenance_doc p') \<Longrightarrow> p = p'"
  by (cases p; cases p'; simp add: same_row_def provenance_doc_def PROVENANCE_KEYS_def get_def obj_get_def)

lemma revalidate_Inr: "revalidate x = Inr y \<longleftrightarrow> control_ok x \<and> y = x"
proof
  assume "revalidate x = Inr y"
  then have "control_ok y" "\<forall>k \<in> {''control_kind'', ''schema_version'', ''state_revision'', ''protocol_id''}. get (state_doc x) k = get (state_doc y) k"
    "same_row (get (state_doc x) ''scientific_state'') SCIENTIFIC_KEYS (scientific_doc (scientific y))"
    "same_row (get (state_doc x) ''administrative_state'') ADMINISTRATIVE_KEYS (administrative_doc (administrative y))"
    "same_row (get (state_doc x) ''runtime_authorization'') RUNTIME_KEYS (authorization_doc (authorization y))"
    "same_row (get (state_doc x) ''provenance'') PROVENANCE_KEYS (provenance_doc (provenance y))"
    unfolding revalidate_def root_Inr by auto
  then have "control_ok y" "control_kind x = control_kind y" "schema_version x = schema_version y" "state_revision x = state_revision y"
    "protocol_id x = protocol_id y" "scientific x = scientific y" "administrative x = administrative y" "authorization x = authorization y"
    "provenance x = provenance y"
    by (simp_all add: state_doc_def get_def obj_get_def scientific_doc_inj administrative_doc_inj authorization_doc_inj provenance_doc_inj)
  moreover from this have "x = y" by (intro control_state.equality) simp_all
  ultimately show "control_ok x \<and> y = x" by simp
qed (auto simp: revalidate_def root_of_doc)

lemma transition_Inr: "validate_transition p c = Inr () \<longleftrightarrow> control_ok p \<and> control_ok c \<and> protocol_id c = protocol_id p
    \<and> state_revision c = state_revision p + 1"
  by (auto simp: validate_transition_def rbind_Inr_iff revalidate_Inr fail_at_def control_ok_def scientific_ok_def split: if_splits)

lemma only_scientific: "scientific_ok s \<Longrightarrow> scientific_ok s' \<Longrightarrow> s = s'"
  by (rule scientific_state.equality) (simp_all add: scientific_ok_def)

lemma only_authorization: "all_denied r \<Longrightarrow> all_denied r' \<Longrightarrow> r = r'"
  by (rule runtime_authorization.equality) (simp_all add: all_denied_def)

text \<open>
  C29. Along a history of validated transitions the revision grows by exactly one per step, the identity of the
  state stays the same, and every state reached denies every action.
\<close>

theorem control_history_invariant:
  assumes "control_history st n st'" "control_ok st"
  shows "control_ok st' \<and> state_revision st' = state_revision st + int n \<and> protocol_id st' = protocol_id st
    \<and> scientific st' = scientific st \<and> authorization st' = authorization st
    \<and> (\<forall>a. \<exists>d. authorize st' a = Inr d \<and> ad_action d = a \<and> \<not> ad_authorized d \<and> ad_state_revision d = state_revision st + int n)"
proof -
  have "control_ok st' \<and> state_revision st' = state_revision st + int n \<and> protocol_id st' = protocol_id st
      \<and> scientific st' = scientific st \<and> authorization st' = authorization st"
    using assms
  proof (induction rule: control_history.induct)
    case (advance st n p c)
    then have "control_ok p" "control_ok c" "protocol_id c = protocol_id p" "state_revision c = state_revision p + 1"
      by (simp_all add: transition_Inr)
    then show ?case using advance by (simp add: control_ok_def only_scientific[of "scientific c" "scientific p"]
        only_authorization[of "authorization c" "authorization p"])
  qed simp
  then show ?thesis by (simp add: authorize_def revalidate_Inr rbind_Inr_iff)
qed

definition fx_next :: control_state where
  "fx_next = fx_control\<lparr>state_revision := 2, administrative := \<lparr>workflow_status = ''CLOSED'', proposal_ref = ''docs/p.md'', superseded_by = Some ''H002''\<rparr>\<rparr>"

lemma fx_next_step: "control_history fx_control (Suc 0) fx_next"
proof -
  have "control_ok fx_next" using fx_control_ok
    by (simp add: fx_next_def control_ok_def administrative_ok_def is_safe_relative_path_def is_letter_def str_prefix_def)
  then have "validate_transition fx_control fx_next = Inr ()"
    using fx_control_ok by (simp add: transition_Inr) (simp add: fx_next_def fx_control_def)
  then show ?thesis using control_history.intros by blast
qed

theorem control_history_invariant_witness:
  "state_revision fx_next = state_revision fx_control + 1 \<and> (\<exists>d. authorize fx_next LIVE_EXECUTION = Inr d \<and> \<not> ad_authorized d)"
  using control_history_invariant[OF fx_next_step fx_control_ok] by auto

text \<open>
  C30. The control state never gets stuck: from every valid state, and for every admissible administrative
  state and provenance, there is exactly one state the transition check lets it advance to.
\<close>

theorem control_never_stuck:
  assumes "control_ok st" "administrative_ok a" "provenance_ok p"
  shows "\<exists>!c. validate_transition st c = Inr () \<and> administrative c = a \<and> provenance c = p"
proof (rule ex1I[of _ "st\<lparr>state_revision := state_revision st + 1, administrative := a, provenance := p\<rparr>"])
  show "validate_transition st (st\<lparr>state_revision := state_revision st + 1, administrative := a, provenance := p\<rparr>) = Inr ()
      \<and> administrative (st\<lparr>state_revision := state_revision st + 1, administrative := a, provenance := p\<rparr>) = a
      \<and> provenance (st\<lparr>state_revision := state_revision st + 1, administrative := a, provenance := p\<rparr>) = p"
    using assms by (simp add: transition_Inr control_ok_def)
next
  fix c assume "validate_transition st c = Inr () \<and> administrative c = a \<and> provenance c = p"
  then show "c = st\<lparr>state_revision := state_revision st + 1, administrative := a, provenance := p\<rparr>"
    using assms(1) by (intro control_state.equality)
      (simp_all add: transition_Inr control_ok_def only_scientific[of "scientific c" "scientific st"]
        only_authorization[of "authorization c" "authorization st"])
qed

theorem control_never_stuck_witness:
  "\<exists>!c. validate_transition fx_control c = Inr () \<and> administrative c = administrative fx_control \<and> provenance c = provenance fx_control"
  using control_never_stuck fx_control_ok by (simp add: control_ok_def)

end
