(* ===== verification/ArtifactManifest.thy ===== *)
theory ArtifactManifest
  imports CanonicalDoc "HOL-Library.Product_Lexorder"
begin

text \<open>
  \<open>quantbot/artifacts/manifest.py\<close>: the portable manifest of a role-partitioned set of files, built from
  directory trees and read back strictly. Every violation is one error; its message is left out. Reading a regular file
  of a tree always succeeds. Case folding is lower case, because an accepted path is ASCII.
\<close>

section \<open>Identifiers and paths\<close>

datatype manifest_error = ManifestViolation | Other py_error

definition ARTIFACT_MANIFEST_KIND :: string where "ARTIFACT_MANIFEST_KIND = ''qnty_portable_artifact_manifest''"
definition MANIFEST_SCHEMA_VERSION :: string where "MANIFEST_SCHEMA_VERSION = ''1.0.0''"

definition lower_letters :: string where "lower_letters = ''abcdefghijklmnopqrstuvwxyz''"
definition upper_letters :: string where "upper_letters = ''ABCDEFGHIJKLMNOPQRSTUVWXYZ''"
definition digit_chars :: string where "digit_chars = ''0123456789''"

definition fullmatch :: "string \<Rightarrow> string \<Rightarrow> nat \<Rightarrow> string \<Rightarrow> bool" where
  \<comment> \<open>\<open>[first][rest]{0,n}\<close>, the whole string\<close>
  "fullmatch first others n s = (case s of [] \<Rightarrow> False | c # cs \<Rightarrow> c \<in> set first \<and> length cs \<le> n \<and> (\<forall>d \<in> set cs. d \<in> set others))"

definition ROLE_RE :: "string \<Rightarrow> bool" where
  "ROLE_RE = fullmatch lower_letters (lower_letters @ digit_chars @ ''_-'') 63"

definition ARTIFACT_ID_RE :: "string \<Rightarrow> bool" where
  "ARTIFACT_ID_RE = fullmatch (lower_letters @ digit_chars) (lower_letters @ digit_chars @ ''._-'') 127"

definition PATH_SEGMENT_RE :: "string \<Rightarrow> bool" where
  "PATH_SEGMENT_RE s \<longleftrightarrow> s \<noteq> [] \<and> (\<forall>c \<in> set s. c \<in> set (upper_letters @ lower_letters @ digit_chars @ ''._-''))"

definition violation_unless :: "bool \<Rightarrow> 'a \<Rightarrow> manifest_error + 'a" where
  "violation_unless ok x = (if ok then Inr x else Inl ManifestViolation)"

definition str_that :: "(string \<Rightarrow> bool) \<Rightarrow> json \<Rightarrow> manifest_error + string" where
  "str_that ok v = (case v of JStr s \<Rightarrow> violation_unless (ok s) s | _ \<Rightarrow> Inl ManifestViolation)"

definition require_int :: "json \<Rightarrow> manifest_error + int" where
  "require_int v = (case v of JInt n \<Rightarrow> Inr n | _ \<Rightarrow> Inl ManifestViolation)"

definition require_sha256 :: "json \<Rightarrow> manifest_error + string" where
  "require_sha256 = str_that (lower_hex 64)"

definition require_role :: "json \<Rightarrow> manifest_error + string" where
  "require_role = str_that ROLE_RE"

definition require_artifact_id :: "json \<Rightarrow> manifest_error + string" where
  "require_artifact_id = str_that ARTIFACT_ID_RE"

definition relative_path_ok :: "string \<Rightarrow> bool" where
  "relative_path_ok s \<longleftrightarrow> s \<noteq> [] \<and> hd s \<noteq> CHR ''/'' \<and> CHR 0x5C \<notin> set s \<and> CHR 0x00 \<notin> set s \<and> last s \<noteq> CHR ''/''
     \<and> (\<forall>seg \<in> set (split_on CHR ''/'' s). seg \<notin> {'''', ''.'', ''..''} \<and> PATH_SEGMENT_RE seg)"

definition require_relative_path :: "json \<Rightarrow> manifest_error + string" where
  "require_relative_path = str_that relative_path_ok"

section \<open>Scanning\<close>

datatype node = Regular string | Link | SpecialFile | Folder "(string \<times> node) list"

record file_entry =
  fe_relative_path :: string
  fe_role :: string
  fe_sha256 :: string
  fe_size_bytes :: int

definition hash_regular_file :: "node \<Rightarrow> manifest_error + (string \<times> int)" where
  "hash_regular_file file = (case file of Regular b \<Rightarrow> Inr (sha256_hex b, int (length b)) | _ \<Rightarrow> Inl ManifestViolation)"

type_synonym stack = "(string \<times> (string \<times> node) list) list"

definition path_below :: "string \<Rightarrow> string \<Rightarrow> string" where
  "path_below dir name = (if dir = [] then name else dir @ ''/'' @ name)"

fun scan_children :: "string \<Rightarrow> string \<Rightarrow> (string \<times> node) list \<Rightarrow> stack \<Rightarrow> file_entry list \<Rightarrow> manifest_error + (stack \<times> file_entry list)" where
  \<comment> \<open>one directory: its folders go on the stack, its files into the entries\<close>
  "scan_children role dir [] stack acc = Inr (stack, acc)"
| "scan_children role dir ((name, child) # kids) stack acc = (case child of Link \<Rightarrow> Inl ManifestViolation | SpecialFile \<Rightarrow> Inl ManifestViolation
     | Folder below \<Rightarrow> scan_children role dir kids ((path_below dir name, below) # stack) acc
     | Regular b \<Rightarrow> rbind (require_relative_path (JStr (path_below dir name))) (\<lambda>relative.
         rbind (hash_regular_file child) (\<lambda>(sha, size). scan_children role dir kids stack
           (acc @ [\<lparr>fe_relative_path = relative, fe_role = role, fe_sha256 = sha, fe_size_bytes = size\<rparr>]))))"

primrec node_weight :: "node \<Rightarrow> nat" where
  "node_weight (Regular b) = 0"
| "node_weight Link = 0"
| "node_weight SpecialFile = 0"
| "node_weight (Folder kids) = Suc (sum_list (map (\<lambda>(n, w). w) (map (map_prod id node_weight) kids)))"

definition stack_weight :: "stack \<Rightarrow> nat" where
  "stack_weight stack = sum_list (map (\<lambda>(p, kids). Suc (sum_list (map (\<lambda>(n, k). node_weight k) kids))) stack)"

lemma scan_children_weight: "scan_children role dir kids stack acc = Inr (stack', acc')
    \<Longrightarrow> stack_weight stack' = stack_weight stack + sum_list (map (\<lambda>(n, k). node_weight k) kids)"
proof (induction kids arbitrary: stack acc)
  case (Cons k kids)
  have w: "node_weight (Folder below) = Suc (sum_list (map (\<lambda>(n, k). node_weight k) below))" for below
    by (simp add: o_def case_prod_unfold)
  obtain name child where k: "k = (name, child)" by fastforce
  show ?case
  proof (cases child)
    case (Folder below)
    show ?thesis using Cons.prems Cons.IH[of "(path_below dir name, below) # stack" acc]
      by (simp add: k Folder w stack_weight_def del: node_weight.simps(4))
  qed (use Cons k in \<open>auto simp: rbind_Inr_iff hash_regular_file_def\<close>)
qed simp

lemma sum_sorted: "sum_list (map f (sort_key g xs)) = (sum_list (map f xs) :: nat)"
  by (metis mset_map mset_sort sum_mset_sum_list)

function scan_dirs :: "string \<Rightarrow> stack \<Rightarrow> file_entry list \<Rightarrow> manifest_error + file_entry list" where
  \<comment> \<open>the \<open>while stack\<close> loop, the top of the stack first\<close>
  "scan_dirs role [] acc = Inr acc"
| "scan_dirs role ((dir, kids) # stack) acc = (case scan_children role dir (sort_key fst kids) stack acc of
     Inl e \<Rightarrow> Inl e | Inr (stack', acc') \<Rightarrow> scan_dirs role stack' acc')"
  by pat_completeness auto
termination
proof (relation "measure (\<lambda>(role, stack, acc). stack_weight stack)")
  fix role dir stack acc b stack' acc' and kids :: "(string \<times> node) list"
  assume "scan_children role dir (sort_key fst kids) stack acc = Inr b" "(stack', acc') = b"
  then have "stack_weight stack' = stack_weight stack + sum_list (map (\<lambda>(n, k). node_weight k) kids)"
    using scan_children_weight[of role dir "sort_key fst kids" stack acc stack' acc'] by (simp add: sum_sorted)
  then show "((role, stack', acc'), role, (dir, kids) # stack, acc) \<in> measure (\<lambda>(role, stack, acc). stack_weight stack)"
    by (simp add: stack_weight_def)
qed simp

definition scan_role_root :: "string \<Rightarrow> node option \<Rightarrow> manifest_error + file_entry list" where
  "scan_role_root role base = rbind (require_role (JStr role)) (\<lambda>_. case base of
       Some (Folder kids) \<Rightarrow> rbind (scan_dirs role [([], kids)] []) (\<lambda>entries. violation_unless (entries \<noteq> []) entries)
     | _ \<Rightarrow> Inl ManifestViolation)"

section \<open>Validation\<close>

record portable_manifest =
  mf_artifact_id :: string
  mf_files :: "file_entry list"
  mf_file_count :: int
  mf_total_size :: int

definition MANIFEST_KEYS :: "string list" where
  "MANIFEST_KEYS = [''artifact_id'', ''artifact_manifest_kind'', ''file_count'', ''files'', ''schema_version'', ''total_size_bytes'']"

definition FILE_KEYS :: "string list" where "FILE_KEYS = [''relative_path'', ''role'', ''sha256'', ''size_bytes'']"

definition exact_keys :: "json \<Rightarrow> string list \<Rightarrow> manifest_error + row" where
  "exact_keys v expected = (case v of JObj d \<Rightarrow> violation_unless (set (dict_keys d) = set expected) d | _ \<Rightarrow> Inl ManifestViolation)"

definition file_entry_of :: "json \<Rightarrow> manifest_error + file_entry" where
  "file_entry_of v = rbind (exact_keys v FILE_KEYS) (\<lambda>d. rbind (require_role (get d ''role'')) (\<lambda>role.
     rbind (require_relative_path (get d ''relative_path'')) (\<lambda>path. rbind (require_int (get d ''size_bytes'')) (\<lambda>size.
     rbind (violation_unless (0 \<le> size) ()) (\<lambda>_. rbind (require_sha256 (get d ''sha256'')) (\<lambda>sha.
     Inr \<lparr>fe_relative_path = path, fe_role = role, fe_sha256 = sha, fe_size_bytes = size\<rparr>))))))"

definition file_key :: "file_entry \<Rightarrow> string \<times> string" where
  "file_key e = (fe_role e, fe_relative_path e)"

definition folded_key :: "file_entry \<Rightarrow> string \<times> string" where
  "folded_key e = (fe_role e, lower (fe_relative_path e))"

fun check_files :: "(string \<times> string) option \<Rightarrow> (string \<times> string) list \<Rightarrow> json list \<Rightarrow> manifest_error + file_entry list" where
  "check_files previous seen [] = Inr []"
| "check_files previous seen (v # vs) = rbind (file_entry_of v) (\<lambda>e.
     rbind (violation_unless ((case previous of None \<Rightarrow> True | Some k \<Rightarrow> k < file_key e) \<and> folded_key e \<notin> set seen) ()) (\<lambda>_.
     rbind (check_files (Some (file_key e)) (folded_key e # seen) vs) (\<lambda>es. Inr (e # es))))"

definition validate_manifest_object :: "json \<Rightarrow> manifest_error + portable_manifest" where
  "validate_manifest_object v = rbind (exact_keys v MANIFEST_KEYS) (\<lambda>d.
     rbind (violation_unless (get d ''artifact_manifest_kind'' = JStr ARTIFACT_MANIFEST_KIND \<and> get d ''schema_version'' = JStr MANIFEST_SCHEMA_VERSION) ()) (\<lambda>_.
     rbind (require_artifact_id (get d ''artifact_id'')) (\<lambda>aid.
     rbind (case get d ''files'' of JList fs \<Rightarrow> violation_unless (fs \<noteq> []) fs | _ \<Rightarrow> Inl ManifestViolation) (\<lambda>fs.
     rbind (check_files None [] fs) (\<lambda>files.
     rbind (require_int (get d ''file_count'')) (\<lambda>n. rbind (violation_unless (n = int (length files)) ()) (\<lambda>_.
     rbind (require_int (get d ''total_size_bytes'')) (\<lambda>total. rbind (violation_unless (total = sum_list (map fe_size_bytes files)) ()) (\<lambda>_.
     Inr \<lparr>mf_artifact_id = aid, mf_files = files, mf_file_count = n, mf_total_size = total\<rparr>)))))))))"

definition validate_manifest_bytes :: "string \<Rightarrow> manifest_error + (portable_manifest \<times> string)" where
  "validate_manifest_bytes data = (if data \<noteq> [] \<and> last data = CHR 0x0A then Inl ManifestViolation else
     case utf8_decode data of BadUtf8 \<Rightarrow> Inl ManifestViolation
     | Text text \<Rightarrow> (case json_loads text of
         Inl e \<Rightarrow> Inl (if e = LoneSurrogate then Other OutOfModel else if e = DigitLimit then Other ValueError else ManifestViolation)
       | Inr v \<Rightarrow> rbind (validate_manifest_object v) (\<lambda>m. violation_unless (data = canonical_json_dumps v) (m, sha256_hex data))))"

section \<open>Building\<close>

definition file_doc :: "file_entry \<Rightarrow> json" where
  "file_doc e = JObj [(''relative_path'', JStr (fe_relative_path e)), (''role'', JStr (fe_role e)), (''sha256'', JStr (fe_sha256 e)),
     (''size_bytes'', JInt (fe_size_bytes e))]"

definition manifest_doc :: "string \<Rightarrow> file_entry list \<Rightarrow> json" where
  "manifest_doc aid files = JObj [(''artifact_id'', JStr aid), (''artifact_manifest_kind'', JStr ARTIFACT_MANIFEST_KIND),
     (''file_count'', JInt (int (length files))), (''files'', JList (map file_doc files)), (''schema_version'', JStr MANIFEST_SCHEMA_VERSION),
     (''total_size_bytes'', JInt (sum_list (map fe_size_bytes files)))]"

definition build_portable_manifest :: "string \<Rightarrow> (string \<times> node option) list \<Rightarrow> manifest_error + json" where
  "build_portable_manifest aid role_roots = rbind (require_artifact_id (JStr aid)) (\<lambda>_. rbind (violation_unless (role_roots \<noteq> []) ()) (\<lambda>_.
     rbind (rmap (\<lambda>(role, base). scan_role_root role base) (sort_key fst role_roots)) (\<lambda>scanned.
     let doc = manifest_doc aid (sort_key file_key (concat scanned)) in
     rbind (validate_manifest_object doc) (\<lambda>_. Inr doc))))"

definition portable_manifest_sha256 :: "json \<Rightarrow> manifest_error + string" where
  "portable_manifest_sha256 v = rbind (validate_manifest_object v) (\<lambda>_. Inr (sha256_hex (canonical_json_dumps v)))"

end
