(* ===== verification/ArtifactIdentity.thy ===== *)
theory ArtifactIdentity
  imports ArtifactManifest
begin

text \<open>
  What the portable manifest of \<open>quantbot/artifacts/manifest.py\<close> identifies: the files of the role roots, whatever
  order the file system lists them in, and nothing else.
\<close>

section \<open>Reading back a built document\<close>

lemma violation_unless_Inr [simp]: "violation_unless b x = Inr y \<longleftrightarrow> b \<and> y = x"
  by (auto simp: violation_unless_def)

lemma str_that_Inr: "str_that P v = Inr s \<longleftrightarrow> v = JStr s \<and> P s"
  by (auto simp: str_that_def split: json.splits)

lemma require_int_Inr: "require_int v = Inr n \<longleftrightarrow> v = JInt n"
  by (auto simp: require_int_def split: json.splits)

lemmas manifest_reads = require_sha256_def require_role_def require_artifact_id_def require_relative_path_def str_that_Inr require_int_Inr

definition entry_ok :: "file_entry \<Rightarrow> bool" where
  "entry_ok e \<longleftrightarrow> ROLE_RE (fe_role e) \<and> relative_path_ok (fe_relative_path e) \<and> 0 \<le> fe_size_bytes e \<and> lower_hex 64 (fe_sha256 e)"

lemma file_entry_of_doc: "file_entry_of (file_doc e) = Inr e' \<longleftrightarrow> e' = e \<and> entry_ok e"
  by (cases e) (auto simp: file_entry_of_def file_doc_def exact_keys_def FILE_KEYS_def get_def obj_get_def rbind_Inr_iff manifest_reads entry_ok_def)

lemma check_files_doc: "check_files prev seen (map file_doc es) = Inr es' \<longleftrightarrow> es' = es \<and> check_files prev seen (map file_doc es) = Inr es"
proof (induction es arbitrary: prev seen es')
  case (Cons e es)
  have "check_files (Some (file_key e)) (folded_key e # seen) (map file_doc es) = Inr x \<Longrightarrow> x = es" for x
    using Cons.IH[of _ _ x] by blast
  then show ?case by (auto simp: rbind_Inr_iff file_entry_of_doc)
qed auto

lemma check_files_sorted: "check_files prev seen (map file_doc es) = Inr es
    \<Longrightarrow> sorted_wrt (<) (map file_key es) \<and> (\<forall>k. prev = Some k \<longrightarrow> (\<forall>e \<in> set es. k < file_key e)) \<and> (\<forall>e \<in> set es. entry_ok e)"
proof (induction es arbitrary: prev seen)
  case (Cons e es)
  then have e: "entry_ok e" "case prev of None \<Rightarrow> True | Some k \<Rightarrow> k < file_key e"
    and rest: "check_files (Some (file_key e)) (folded_key e # seen) (map file_doc es) = Inr es"
    by (auto simp: rbind_Inr_iff file_entry_of_doc)
  show ?case using Cons.IH[OF rest] e by (auto split: option.splits intro: less_trans)
qed simp

lemma validate_doc: "validate_manifest_object (manifest_doc aid es) = Inr m \<longleftrightarrow> ARTIFACT_ID_RE aid \<and> es \<noteq> []
    \<and> check_files None [] (map file_doc es) = Inr es
    \<and> m = \<lparr>mf_artifact_id = aid, mf_files = es, mf_file_count = int (length es), mf_total_size = sum_list (map fe_size_bytes es)\<rparr>"
proof -
  obtain d where d: "manifest_doc aid es = JObj d" by (simp add: manifest_doc_def)
  have keys: "exact_keys (JObj d) MANIFEST_KEYS = Inr d"
    using d by (auto simp: exact_keys_def MANIFEST_KEYS_def manifest_doc_def)
  have gets: "get d ''artifact_manifest_kind'' = JStr ARTIFACT_MANIFEST_KIND" "get d ''schema_version'' = JStr MANIFEST_SCHEMA_VERSION"
    "get d ''artifact_id'' = JStr aid" "get d ''files'' = JList (map file_doc es)" "get d ''file_count'' = JInt (int (length es))"
    "get d ''total_size_bytes'' = JInt (sum_list (map fe_size_bytes es))"
    using d by (auto simp: manifest_doc_def get_def obj_get_def)
  have closed: "validate_manifest_object (manifest_doc aid es) = (if \<not> ARTIFACT_ID_RE aid \<or> es = [] then Inl ManifestViolation
      else rbind (check_files None [] (map file_doc es)) (\<lambda>files. if length es \<noteq> length files \<or> sum_list (map fe_size_bytes es) \<noteq> sum_list (map fe_size_bytes files)
        then Inl ManifestViolation
        else Inr \<lparr>mf_artifact_id = aid, mf_files = files, mf_file_count = int (length es), mf_total_size = sum_list (map fe_size_bytes es)\<rparr>))"
    by (simp add: validate_manifest_object_def d keys gets violation_unless_def require_artifact_id_def str_that_def require_int_def cong: if_cong)
      (auto intro!: rbind_cong)
  show ?thesis
  proof (cases "check_files None [] (map file_doc es)")
    case (Inr x)
    moreover have "x = es" using check_files_doc[of None "[]" es x] Inr by blast
    ultimately show ?thesis by (auto simp: closed)
  qed (auto simp: closed)
qed

lemma manifest_doc_keys: "key_sorted (manifest_doc aid es) = manifest_doc aid es"
proof -
  have "key_sorted (file_doc e) = file_doc e" for e by (simp add: file_doc_def)
  then show ?thesis by (simp add: manifest_doc_def comp_def)
qed

lemma manifest_bytes_load:
  assumes "validate_manifest_object (manifest_doc aid es) = Inr m" "storable (manifest_doc aid es)"
  shows "validate_manifest_bytes (canonical_json_dumps (manifest_doc aid es)) = Inr (m, sha256_hex (canonical_json_dumps (manifest_doc aid es)))"
proof -
  let ?data = "canonical_json_dumps (manifest_doc aid es)"
  have "utf8_decode ?data = Text ?data" by (rule utf8_decode_ascii[OF canonical_ascii])
  moreover have "json_loads ?data = Inr (manifest_doc aid es)"
    using loads_canonical[OF plain_hook_honest assms(2)] unfolding json_loads_def manifest_doc_keys .
  moreover have "last ?data \<noteq> CHR 0x0A" by (simp add: manifest_doc_def)
  ultimately show ?thesis using assms(1) by (simp add: validate_manifest_bytes_def del: canonical_json_dumps.simps)
qed

section \<open>What is scanned\<close>

primrec tree_files :: "string \<Rightarrow> node \<Rightarrow> (string \<times> string) list" where
  \<comment> \<open>the specification: path and bytes of every regular file below a path\<close>
  "tree_files path (Regular b) = [(path, b)]"
| "tree_files path Link = []"
| "tree_files path SpecialFile = []"
| "tree_files path (Folder kids) = concat (map (\<lambda>(name, below). below (path_below path name)) (map (map_prod id (\<lambda>k p. tree_files p k)) kids))"

definition dir_files :: "string \<times> (string \<times> node) list \<Rightarrow> (string \<times> string) list" where
  "dir_files d = concat (map (\<lambda>(name, k). tree_files (path_below (fst d) name) k) (snd d))"

definition entry_for :: "string \<Rightarrow> string \<times> string \<Rightarrow> file_entry" where
  "entry_for role f = \<lparr>fe_relative_path = fst f, fe_role = role, fe_sha256 = sha256_hex (snd f), fe_size_bytes = int (length (snd f))\<rparr>"

abbreviation stack_files :: "stack \<Rightarrow> (string \<times> string) multiset" where
  "stack_files stack \<equiv> mset (concat (map dir_files stack))"

lemma folder_files: "tree_files path (Folder kids) = dir_files (path, kids)"
  by (simp add: dir_files_def o_def case_prod_unfold)

lemma scan_children_files: "scan_children role dir kids stack acc = Inr (stack', acc')
    \<Longrightarrow> mset acc' + image_mset (entry_for role) (stack_files stack')
      = mset acc + image_mset (entry_for role) (stack_files stack + mset (dir_files (dir, kids)))"
proof (induction kids arbitrary: stack acc)
  case Nil
  then show ?case by (simp add: dir_files_def)
next
  case (Cons k kids)
  obtain name child where k: "k = (name, child)" by fastforce
  have split: "dir_files (dir, k # kids) = tree_files (path_below dir name) child @ dir_files (dir, kids)"
    by (simp add: dir_files_def k)
  show ?case
  proof (cases child)
    case (Folder below)
    have "mset (dir_files (dir, k # kids)) = mset (dir_files (path_below dir name, below)) + mset (dir_files (dir, kids))"
      unfolding split Folder folder_files by simp
    then show ?thesis using Cons.IH[of "(path_below dir name, below) # stack" acc] Cons.prems by (simp add: k Folder ac_simps)
  next
    case (Regular b)
    have "scan_children role dir kids stack (acc @ [entry_for role (path_below dir name, b)]) = Inr (stack', acc')"
      using Cons.prems by (auto simp: k Regular rbind_Inr_iff hash_regular_file_def entry_for_def require_relative_path_def str_that_Inr)
    then show ?thesis using Cons.IH unfolding split by (simp add: Regular ac_simps)
  qed (use Cons.prems in \<open>simp_all add: k\<close>)
qed

lemma mset_dir_files_sorted: "mset (dir_files (dir, sort_key f kids)) = mset (dir_files (dir, kids))"
proof -
  have m: "mset (dir_files (dir, ks)) = \<Sum>\<^sub># (image_mset (\<lambda>(name, k). mset (tree_files (path_below dir name) k)) (mset ks))" for ks
    by (induction ks) (auto simp: dir_files_def)
  show ?thesis by (simp only: m mset_sort)
qed

lemma scan_dirs_files: "scan_dirs role stack acc = Inr es
    \<Longrightarrow> mset es = mset acc + image_mset (entry_for role) (stack_files stack)"
proof (induction role stack acc arbitrary: es rule: scan_dirs.induct)
  case (2 role dir kids stack acc)
  obtain stack' acc' where step: "scan_children role dir (sort_key fst kids) stack acc = Inr (stack', acc')"
    using "2.prems" by (auto split: sum.splits)
  then have "mset es = mset acc' + image_mset (entry_for role) (stack_files stack')"
    using "2.IH"[OF step refl] "2.prems" by simp
  then show ?case using scan_children_files[OF step] by (simp add: mset_dir_files_sorted ac_simps)
qed simp

definition root_files :: "string \<times> node option \<Rightarrow> file_entry list" where
  "root_files r = (case snd r of Some (Folder kids) \<Rightarrow> map (entry_for (fst r)) (dir_files ([], kids)) | _ \<Rightarrow> [])"

lemma scan_root_files: "scan_role_root role base = Inr es \<Longrightarrow> mset es = mset (root_files (role, base))"
  using scan_dirs_files[of role "[([], kids)]" "[]" for kids]
  by (auto simp: scan_role_root_def rbind_Inr_iff root_files_def split: option.splits node.splits)

lemma scan_roots_files: "rmap (\<lambda>(role, base). scan_role_root role base) roots = Inr scanned
    \<Longrightarrow> mset (concat scanned) = mset (concat (map root_files roots))"
  by (induction roots arbitrary: scanned) (auto simp: rbind_Inr_iff scan_root_files)

lemma lower_hex_sha256 [simp]: "lower_hex 64 (sha256_hex s)"
proof -
  have hex: "hex_digit (n mod 16) \<in> set ''0123456789abcdef''" for n
  proof -
    have "\<forall>k \<in> {..<16}. hex_digit k \<in> set ''0123456789abcdef''" by code_simp
    then show ?thesis by (simp add: lessThan_iff)
  qed
  then have "\<forall>c \<in> set (sha256_hex s). c \<in> set ''0123456789abcdef''"
    by (auto simp: sha256_hex_def hex_word_def simp del: list.set)
  then show ?thesis unfolding lower_hex_def list_all_iff by simp
qed

lemma same_sorted_files:
  assumes "sorted_wrt (<) (map file_key es)" "sorted_wrt (<) (map file_key es')" "mset es = mset es'"
  shows "es = es'"
proof -
  have set: "set es = set es'" using mset_eq_setD[OF assms(3)] .
  have "sorted (map file_key xs) \<and> distinct (map file_key xs)" if "sorted_wrt (<) (map file_key xs)" for xs
    using that by (simp flip: strict_sorted_iff)
  moreover have "inj_on file_key (set es \<union> set es')"
    using assms(1) set by (simp add: strict_sorted_iff distinct_map)
  ultimately show ?thesis using map_sorted_distinct_set_unique[of file_key es es'] assms(1,2) set by blast
qed

lemma build_Inr:
  assumes "build_portable_manifest aid roots = Inr doc"
  obtains es m where "doc = manifest_doc aid es" "validate_manifest_object doc = Inr m" "sorted_wrt (<) (map file_key es)"
    "mset es = mset (concat (map root_files roots))"
proof -
  obtain scanned where s: "rmap (\<lambda>(role, base). scan_role_root role base) (sort_key fst roots) = Inr scanned"
    using assms by (auto simp: build_portable_manifest_def rbind_Inr_iff)
  let ?es = "sort_key file_key (concat scanned)"
  obtain m where m: "doc = manifest_doc aid ?es" "validate_manifest_object doc = Inr m"
    using assms s by (auto simp: build_portable_manifest_def Let_def rbind_Inr_iff)
  have "mset (concat (map root_files roots')) = \<Sum>\<^sub># (image_mset (\<lambda>r. mset (root_files r)) (mset roots'))" for roots'
    by (induction roots') auto
  then have "mset ?es = mset (concat (map root_files roots))" by (simp only: mset_sort scan_roots_files[OF s])
  moreover have "sorted_wrt (<) (map file_key ?es)" using m check_files_sorted by (auto simp: validate_doc)
  ultimately show ?thesis using that m by blast
qed

text \<open>
  C27. The portable manifest is a content identity. The document built from role roots prints to canonical bytes that
  \<open>validate_manifest_bytes\<close> reads back; it lists every regular file below the roots once, with its role, path, SHA-256 and
  size, in strict order of role and path; and any roots with the same files, in whatever order a directory lists them, build the same document.
\<close>

theorem portable_manifest_identity:
  assumes "build_portable_manifest aid roots = Inr doc" "storable doc"
  shows "\<exists>m. validate_manifest_bytes (canonical_json_dumps doc) = Inr (m, sha256_hex (canonical_json_dumps doc))
    \<and> mf_artifact_id m = aid \<and> mset (mf_files m) = mset (concat (map root_files roots)) \<and> sorted_wrt (<) (map file_key (mf_files m))
    \<and> mf_file_count m = int (length (mf_files m)) \<and> mf_total_size m = sum_list (map fe_size_bytes (mf_files m))
    \<and> (\<forall>roots' doc'. build_portable_manifest aid roots' = Inr doc' \<longrightarrow>
        mset (concat (map root_files roots')) = mset (concat (map root_files roots)) \<longrightarrow> doc' = doc)"
proof -
  obtain es m where b: "doc = manifest_doc aid es" "validate_manifest_object doc = Inr m" "sorted_wrt (<) (map file_key es)"
    "mset es = mset (concat (map root_files roots))" by (rule build_Inr[OF assms(1)])
  have "doc' = doc" if other: "build_portable_manifest aid roots' = Inr doc'" "mset (concat (map root_files roots')) = mset (concat (map root_files roots))" for roots' doc'
  proof -
    obtain es' m' where b': "doc' = manifest_doc aid es'" "validate_manifest_object doc' = Inr m'" "sorted_wrt (<) (map file_key es')" "mset es' = mset (concat (map root_files roots'))"
      by (rule build_Inr[OF other(1)])
    then show ?thesis using same_sorted_files[OF b(3) b'(3)] b(1,4) other(2) by simp
  qed
  then show ?thesis using manifest_bytes_load[of aid es m] b assms(2) by (auto simp: validate_doc)
qed

definition fx_roots :: "(string \<times> node option) list" where
  "fx_roots = [(''raw'', Some (Folder [(''z.csv'', Regular ''1,2''), (''btc'', Folder [(''a.csv'', Regular ''3'')])])),
     (''meta'', Some (Folder [(''README'', Regular ''x'')]))]"

definition fx_files :: "file_entry list" where
  "fx_files = [entry_for ''meta'' (''README'', ''x''), entry_for ''raw'' (''btc/a.csv'', ''3''), entry_for ''raw'' (''z.csv'', ''1,2'')]"

lemma fx_paths_ok: "ROLE_RE ''raw''" "ROLE_RE ''meta''" "ARTIFACT_ID_RE ''h001''" "relative_path_ok ''z.csv''" "relative_path_ok ''btc/a.csv''"
  "relative_path_ok ''README''"
  by (code_simp)+

lemma fx_build: "build_portable_manifest ''h001'' fx_roots = Inr (manifest_doc ''h001'' fx_files)"
proof -
  have order: "sort_key fst fx_roots = rev fx_roots" by (simp add: fx_roots_def)
  have raw: "scan_role_root ''raw'' (snd (fx_roots ! 0)) = Inr [entry_for ''raw'' (''z.csv'', ''1,2''), entry_for ''raw'' (''btc/a.csv'', ''3'')]"
    using fx_paths_ok by (simp add: scan_role_root_def fx_roots_def require_role_def require_relative_path_def str_that_def violation_unless_def
        path_below_def hash_regular_file_def entry_for_def)
  have meta: "scan_role_root ''meta'' (snd (fx_roots ! 1)) = Inr [entry_for ''meta'' (''README'', ''x'')]"
    using fx_paths_ok by (simp add: scan_role_root_def fx_roots_def require_role_def require_relative_path_def str_that_def violation_unless_def
        path_below_def hash_regular_file_def entry_for_def)
  have files: "sort_key file_key ([entry_for ''meta'' (''README'', ''x'')] @ [entry_for ''raw'' (''z.csv'', ''1,2''), entry_for ''raw'' (''btc/a.csv'', ''3'')]) = fx_files"
    by (simp add: fx_files_def entry_for_def file_key_def)
  have "check_files None [] (map file_doc fx_files) = Inr fx_files"
    using fx_paths_ok by (simp add: fx_files_def file_entry_of_doc entry_for_def rbind_Inr_iff entry_ok_def file_key_def folded_key_def lower_def)
  then have "\<exists>m. validate_manifest_object (manifest_doc ''h001'' fx_files) = Inr m" using fx_paths_ok by (simp add: validate_doc fx_files_def)
  moreover have "rmap (\<lambda>(role, base). scan_role_root role base) (sort_key fst fx_roots)
      = Inr [[entry_for ''meta'' (''README'', ''x'')], [entry_for ''raw'' (''z.csv'', ''1,2''), entry_for ''raw'' (''btc/a.csv'', ''3'')]]"
    using raw meta unfolding order by (simp add: fx_roots_def)
  ultimately show ?thesis using files fx_paths_ok
    by (auto simp: build_portable_manifest_def require_artifact_id_def str_that_def violation_unless_def fx_roots_def)
qed

lemma fx_storable: "storable (manifest_doc ''h001'' fx_files)"
proof -
  have "length (show_nat 1) \<le> 4300" "length (show_nat 3) \<le> 4300" "length (show_nat 5) \<le> 4300" by (subst show_nat.simps, simp)+
  then show ?thesis
    by (simp add: manifest_doc_def file_doc_def fx_files_def entry_for_def ARTIFACT_MANIFEST_KIND_def MANIFEST_SCHEMA_VERSION_def)
qed

theorem portable_manifest_identity_witness:
  "\<exists>m. validate_manifest_bytes (canonical_json_dumps (manifest_doc ''h001'' fx_files))
      = Inr (m, sha256_hex (canonical_json_dumps (manifest_doc ''h001'' fx_files))) \<and> mset (mf_files m) = mset fx_files"
proof -
  have "mset (concat (map root_files fx_roots)) = mset fx_files"
    by (simp add: fx_roots_def root_files_def dir_files_def path_below_def fx_files_def)
  then show ?thesis using portable_manifest_identity[OF fx_build fx_storable] by auto
qed

end
