(* ===== verification/ArtifactStore.thy ===== *)
theory ArtifactStore
  imports ArtifactIdentity
begin

text \<open>
  \<open>quantbot/artifacts/store.py\<close>: the content-addressed store. A store maps object addresses and manifest addresses
  to what lies at their paths. The only operations that change it are the hard link that installs a fully written temporary file
  (\<open>_install_new_file\<close>) and the removal after a failed read-back; each is atomic, and several writers may
  interleave between them. Temporary files have fresh names no reader opens, and are left out with directories and fsync.
  Three things about paths are assumed of the environment: the store's root and the directories inside it are real directories
  (the refusals of a symlinked component are left out), the root path stays bound to the directory that was opened
  (\<open>assert_path_still_bound\<close>), and an entry that is not a regular file is none that \<open>read_bytes\<close> could read either, as it
  would through a symlink that another program put there.
\<close>

section \<open>Entries and sources\<close>

datatype store_error = StoreViolation | ManifestError manifest_error | StoreOSError

datatype stored = Irregular | Stored string

record store =
  st_objects :: "string \<rightharpoonup> stored"
  st_manifests :: "string \<rightharpoonup> stored"

record source =
  src_inside :: bool \<comment> \<open>the real path of the file lies under the real path of its role root\<close>
  src_node :: "node option"

datatype outcome = Ingested | AlreadyPresent

definition store_unless :: "bool \<Rightarrow> 'a \<Rightarrow> store_error + 'a" where
  "store_unless good x = (if good then Inr x else Inl StoreViolation)"

definition manifest_of :: "string \<Rightarrow> store_error + (portable_manifest \<times> string)" where
  "manifest_of data = (case validate_manifest_bytes data of Inl e \<Rightarrow> Inl (ManifestError e) | Inr r \<Rightarrow> Inr r)"

definition hash_store_file :: "stored \<Rightarrow> store_error + (string \<times> int)" where
  "hash_store_file f = (case f of Irregular \<Rightarrow> Inl StoreViolation | Stored b \<Rightarrow> Inr (sha256_hex b, int (length b)))"

definition open_relative_file :: "stored option \<Rightarrow> store_error + string" where
  "open_relative_file f = (case f of Some (Stored b) \<Rightarrow> Inr b | _ \<Rightarrow> Inl StoreViolation)"

definition hash_fd :: "string \<Rightarrow> int \<Rightarrow> string \<Rightarrow> store_error + unit" where
  "hash_fd b expected_size expected_sha = rbind (store_unless (int (length b) = expected_size) ()) (\<lambda>_.
     store_unless (sha256_hex b = expected_sha) ())"

section \<open>Objects\<close>

definition existing_object :: "stored \<Rightarrow> string \<Rightarrow> int \<Rightarrow> store_error + outcome" where
  "existing_object f sha nbytes = rbind (hash_store_file f) (\<lambda>(h, n). store_unless (h = sha \<and> n = nbytes) AlreadyPresent)"

definition source_bytes :: "source \<Rightarrow> store_error + string" where
  "source_bytes src = (case src_node src of None \<Rightarrow> Inl StoreOSError | Some (Regular b) \<Rightarrow> Inr b | _ \<Rightarrow> Inl StoreViolation)"

definition install_object :: "string \<Rightarrow> string \<Rightarrow> store \<Rightarrow> store \<times> bool" where
  "install_object sha b st = (case st_objects st sha of
     None \<Rightarrow> (st\<lparr>st_objects := (st_objects st)(sha \<mapsto> Stored b)\<rparr>, True) | Some f \<Rightarrow> (st, False))"

definition write_atomic :: "string \<Rightarrow> string \<Rightarrow> int \<Rightarrow> store \<Rightarrow> store \<times> (store_error + bool)" where
  "write_atomic b sha nbytes st = (if int (length b) \<noteq> nbytes \<or> sha256_hex b \<noteq> sha then (st, Inl StoreViolation)
     else case install_object sha b st of (st', installed) \<Rightarrow> (st', Inr installed))"

definition object_preflight :: "string \<Rightarrow> int \<Rightarrow> store \<Rightarrow> store_error + bool" where
  \<comment> \<open>is the exact object already there?\<close>
  "object_preflight sha nbytes st = (case st_objects st sha of None \<Rightarrow> Inr False
     | Some f \<Rightarrow> rbind (existing_object f sha nbytes) (\<lambda>_. Inr True))"

definition object_write :: "source \<Rightarrow> string \<Rightarrow> int \<Rightarrow> store \<Rightarrow> store \<times> (store_error + bool)" where
  "object_write src sha nbytes st = (case source_bytes src of Inl e \<Rightarrow> (st, Inl e) | Inr b \<Rightarrow> write_atomic b sha nbytes st)"

definition object_settle :: "bool \<Rightarrow> string \<Rightarrow> int \<Rightarrow> store \<Rightarrow> store \<times> (store_error + outcome)" where
  "object_settle installed sha nbytes st = (case st_objects st sha of None \<Rightarrow> (st, Inl StoreOSError)
     | Some f \<Rightarrow> if \<not> installed then (st, existing_object f sha nbytes)
       else case hash_store_file f of Inl e \<Rightarrow> (st, Inl e)
         | Inr (h, n) \<Rightarrow> if h \<noteq> sha \<or> n \<noteq> nbytes then (st\<lparr>st_objects := (st_objects st)(sha := None)\<rparr>, Inl StoreViolation)
             else (st, Inr Ingested))"

definition ingest_object :: "source \<Rightarrow> string \<Rightarrow> int \<Rightarrow> store \<Rightarrow> store \<times> (store_error + outcome)" where
  "ingest_object src sha nbytes st = (case object_preflight sha nbytes st of Inl e \<Rightarrow> (st, Inl e)
     | Inr present \<Rightarrow> if present then (st, Inr AlreadyPresent)
       else case object_write src sha nbytes st of (st', Inl e) \<Rightarrow> (st', Inl e)
         | (st', Inr installed) \<Rightarrow> object_settle installed sha nbytes st')"

definition verify_object :: "store \<Rightarrow> string \<Rightarrow> int \<Rightarrow> store_error + unit" where
  "verify_object st sha nbytes = (case st_objects st sha of None \<Rightarrow> Inl StoreViolation
     | Some f \<Rightarrow> rbind (hash_store_file f) (\<lambda>(h, n). rbind (store_unless (n = nbytes) ()) (\<lambda>_. store_unless (h = sha) ())))"

section \<open>Manifests\<close>

definition manifest_preflight :: "string \<Rightarrow> string \<Rightarrow> store \<Rightarrow> store_error + bool" where
  "manifest_preflight sha data st = (case st_manifests st sha of None \<Rightarrow> Inr False
     | Some f \<Rightarrow> (case f of Irregular \<Rightarrow> Inl StoreViolation | Stored b \<Rightarrow> store_unless (b = data) True))"

definition install_manifest :: "string \<Rightarrow> string \<Rightarrow> store \<Rightarrow> store \<times> bool" where
  "install_manifest sha b st = (case st_manifests st sha of
     None \<Rightarrow> (st\<lparr>st_manifests := (st_manifests st)(sha \<mapsto> Stored b)\<rparr>, True) | Some f \<Rightarrow> (st, False))"

definition manifest_settle :: "string \<Rightarrow> string \<Rightarrow> store \<Rightarrow> store_error + string" where
  \<comment> \<open>both the lost race and the read-back compare the bytes; no symlink lies at the manifest's path\<close>
  "manifest_settle sha data st = (case st_manifests st sha of Some (Stored b) \<Rightarrow> store_unless (b = data) sha | _ \<Rightarrow> Inl StoreOSError)"

definition put_manifest :: "string \<Rightarrow> store \<Rightarrow> store \<times> (store_error + string)" where
  "put_manifest data st = (case manifest_of data of Inl e \<Rightarrow> (st, Inl e) | Inr (m, sha) \<Rightarrow>
     (case manifest_preflight sha data st of Inl e \<Rightarrow> (st, Inl e)
      | Inr present \<Rightarrow> if present then (st, Inr sha)
        else case install_manifest sha data st of (st', installed) \<Rightarrow> (st', manifest_settle sha data st')))"

definition load_manifest :: "store \<Rightarrow> string \<Rightarrow> store_error + (portable_manifest \<times> string)" where
  "load_manifest st sha = (case st_manifests st sha of None \<Rightarrow> Inl StoreViolation
     | Some f \<Rightarrow> rbind (hash_store_file f) (\<lambda>(h, n). case f of Irregular \<Rightarrow> Inl StoreViolation
       | Stored data \<Rightarrow> rbind (store_unless (h = sha \<and> sha256_hex data = sha) ()) (\<lambda>_.
           rbind (manifest_of data) (\<lambda>(m, validated). store_unless (validated = sha) (m, data)))))"

section \<open>Whole artifacts\<close>

record ingest_report =
  ir_already_present :: nat
  ir_ingested :: nat
  ir_manifest_sha256 :: string
  ir_object_count :: nat

record copy_report =
  cr_artifact_id :: string
  cr_manifest_sha256 :: string
  cr_verified_objects :: int

type_synonym sources = "string \<Rightarrow> string \<Rightarrow> source" \<comment> \<open>role root and relative path\<close>

fun ingest_entries :: "sources \<Rightarrow> file_entry list \<Rightarrow> nat \<Rightarrow> nat \<Rightarrow> store \<Rightarrow> store \<times> (store_error + (nat \<times> nat))" where
  "ingest_entries sources [] ingested present st = (st, Inr (ingested, present))"
| "ingest_entries sources (e # es) ingested present st = (let src = sources (fe_role e) (fe_relative_path e) in
     if \<not> src_inside src then (st, Inl StoreViolation)
     else case ingest_object src (fe_sha256 e) (fe_size_bytes e) st of (st', Inl err) \<Rightarrow> (st', Inl err)
       | (st', Inr Ingested) \<Rightarrow> ingest_entries sources es (Suc ingested) present st'
       | (st', Inr AlreadyPresent) \<Rightarrow> ingest_entries sources es ingested (Suc present) st')"

definition ingest_start :: "string \<Rightarrow> string list \<Rightarrow> store_error + (portable_manifest \<times> string)" where
  \<comment> \<open>the manifest is valid and the caller names exactly its roles\<close>
  "ingest_start data roles = rbind (manifest_of data) (\<lambda>(m, sha).
     store_unless (set roles = set (map fe_role (mf_files m))) (m, sha))"

definition ingest :: "string \<Rightarrow> string list \<Rightarrow> sources \<Rightarrow> store \<Rightarrow> store \<times> (store_error + ingest_report)" where
  "ingest data roles sources st = (case ingest_start data roles of Inl e \<Rightarrow> (st, Inl e) | Inr (m, sha) \<Rightarrow>
     (case ingest_entries sources (mf_files m) 0 0 st of (st', Inl e) \<Rightarrow> (st', Inl e) | (st', Inr (ingested, present)) \<Rightarrow>
        (case put_manifest data st' of (st'', Inl e) \<Rightarrow> (st'', Inl e)
         | (st'', Inr stored_sha) \<Rightarrow> (st'', Inr \<lparr>ir_already_present = present, ir_ingested = ingested, ir_manifest_sha256 = sha,
             ir_object_count = length (mf_files m)\<rparr>))))"

text \<open>The copy is read below a root directory that stays bound to its path, see above.\<close>

definition verify_copy :: "store \<Rightarrow> string \<Rightarrow> store_error + copy_report" where
  "verify_copy st sha = rbind (open_relative_file (st_manifests st sha)) (\<lambda>data.
     rbind (store_unless (sha256_hex data = sha) ()) (\<lambda>_. rbind (manifest_of data) (\<lambda>(m, validated).
     rbind (store_unless (validated = sha) ()) (\<lambda>_.
     rbind (rmap (\<lambda>e. rbind (open_relative_file (st_objects st (fe_sha256 e))) (\<lambda>b. hash_fd b (fe_size_bytes e) (fe_sha256 e))) (mf_files m)) (\<lambda>_.
     Inr \<lparr>cr_artifact_id = mf_artifact_id m, cr_manifest_sha256 = sha, cr_verified_objects = mf_file_count m\<rparr>)))))"

section \<open>Interleaved writers\<close>

text \<open>One writer is a run of \<open>ingest\<close>, stopped between any two of its accesses to the store.\<close>

datatype phase = Checking | Linking | Settling bool

datatype writer =
    Entries "file_entry list" phase nat nat
  | Publishing phase nat nat
  | Finished ingest_report
  | Aborted store_error

record job =
  jb_data :: string
  jb_manifest :: portable_manifest
  jb_sha256 :: string

definition report_of :: "job \<Rightarrow> nat \<Rightarrow> nat \<Rightarrow> ingest_report" where
  "report_of job ingested present = \<lparr>ir_already_present = present, ir_ingested = ingested, ir_manifest_sha256 = jb_sha256 job,
     ir_object_count = length (mf_files (jb_manifest job))\<rparr>"

definition next_entry :: "file_entry list \<Rightarrow> nat \<Rightarrow> nat \<Rightarrow> writer" where
  "next_entry es ingested present = (if es = [] then Publishing Checking ingested present else Entries es Checking ingested present)"

fun writer_step :: "job \<Rightarrow> source \<Rightarrow> store \<times> writer \<Rightarrow> store \<times> writer" where
  \<comment> \<open>\<open>src\<close> is the source file of the current entry as the file system shows it at this step\<close>
  "writer_step job src (st, Entries (e # es) Checking i p) = (st, if \<not> src_inside src then Aborted StoreViolation else
     (case object_preflight (fe_sha256 e) (fe_size_bytes e) st of Inl err \<Rightarrow> Aborted err
      | Inr present \<Rightarrow> if present then next_entry es i (Suc p) else Entries (e # es) Linking i p))"
| "writer_step job src (st, Entries (e # es) Linking i p) = (case object_write src (fe_sha256 e) (fe_size_bytes e) st of
     (st', Inl err) \<Rightarrow> (st', Aborted err) | (st', Inr installed) \<Rightarrow> (st', Entries (e # es) (Settling installed) i p))"
| "writer_step job src (st, Entries (e # es) (Settling installed) i p) = (case object_settle installed (fe_sha256 e) (fe_size_bytes e) st of
     (st', Inl err) \<Rightarrow> (st', Aborted err) | (st', Inr Ingested) \<Rightarrow> (st', next_entry es (Suc i) p)
   | (st', Inr AlreadyPresent) \<Rightarrow> (st', next_entry es i (Suc p)))"
| "writer_step job src (st, Publishing Checking i p) = (st, case manifest_preflight (jb_sha256 job) (jb_data job) st of Inl err \<Rightarrow> Aborted err
     | Inr present \<Rightarrow> if present then Finished (report_of job i p) else Publishing Linking i p)"
| "writer_step job src (st, Publishing Linking i p) = (case install_manifest (jb_sha256 job) (jb_data job) st of
     (st', installed) \<Rightarrow> (st', Publishing (Settling installed) i p))"
| "writer_step job src (st, Publishing (Settling installed) i p) = (st, case manifest_settle (jb_sha256 job) (jb_data job) st of
     Inl err \<Rightarrow> Aborted err | Inr sha \<Rightarrow> Finished (report_of job i p))"
| "writer_step job src (st, w) = (st, w)"

definition job_of :: "string \<Rightarrow> portable_manifest \<Rightarrow> string \<Rightarrow> job" where
  "job_of data m sha = \<lparr>jb_data = data, jb_manifest = m, jb_sha256 = sha\<rparr>"

type_synonym world = "store \<times> (job \<times> writer) list"

inductive store_step :: "world \<Rightarrow> world \<Rightarrow> bool" where
  start: "ingest_start data roles = Inr (m, sha) \<Longrightarrow>
    store_step (st, ws) (st, ws @ [(job_of data m sha, next_entry (mf_files m) 0 0)])"
| advance: "i < length ws \<Longrightarrow> ws ! i = (job, w) \<Longrightarrow> writer_step job src (st, w) = (st', w') \<Longrightarrow>
    store_step (st, ws) (st', ws[i := (job, w')])"
| crash: "i < length ws \<Longrightarrow> ws ! i = (job, w) \<Longrightarrow> store_step (st, ws) (st, ws[i := (job, Aborted StoreOSError)])"

inductive store_reachable :: "store \<Rightarrow> world \<Rightarrow> bool" for st0 where
  initial: "store_reachable st0 (st0, [])"
| more: "store_reachable st0 x \<Longrightarrow> store_step x y \<Longrightarrow> store_reachable st0 y"

section \<open>What a writer may rely on\<close>

definition object_stored :: "store \<Rightarrow> file_entry \<Rightarrow> bool" where
  "object_stored st e \<longleftrightarrow> (\<exists>b. st_objects st (fe_sha256 e) = Some (Stored b) \<and> sha256_hex b = fe_sha256 e \<and> int (length b) = fe_size_bytes e)"

definition manifest_stored :: "store \<Rightarrow> string \<Rightarrow> bool" where
  "manifest_stored st sha \<longleftrightarrow> (\<exists>data m. st_manifests st sha = Some (Stored data) \<and> manifest_of data = Inr (m, sha)
     \<and> (\<forall>e \<in> set (mf_files m). object_stored st e))"

definition store_grows :: "store \<Rightarrow> store \<Rightarrow> bool" where
  "store_grows st st' \<longleftrightarrow> st_objects st \<subseteq>\<^sub>m st_objects st' \<and> st_manifests st \<subseteq>\<^sub>m st_manifests st'"

fun writer_ok :: "store \<Rightarrow> job \<Rightarrow> writer \<Rightarrow> bool" where
  "writer_ok st job (Entries es ph i p) \<longleftrightarrow> (\<exists>done. mf_files (jb_manifest job) = done @ es \<and> es \<noteq> [] \<and> i + p = length done
     \<and> (\<forall>e \<in> set done. object_stored st e) \<and> (ph = Settling True \<longrightarrow> object_stored st (hd es)))"
| "writer_ok st job (Publishing ph i p) \<longleftrightarrow> i + p = length (mf_files (jb_manifest job)) \<and> (\<forall>e \<in> set (mf_files (jb_manifest job)). object_stored st e)"
| "writer_ok st job (Finished r) \<longleftrightarrow> st_manifests st (jb_sha256 job) = Some (Stored (jb_data job))
     \<and> (\<forall>e \<in> set (mf_files (jb_manifest job)). object_stored st e) \<and> ir_manifest_sha256 r = jb_sha256 job
     \<and> ir_ingested r + ir_already_present r = ir_object_count r \<and> ir_object_count r = length (mf_files (jb_manifest job))"
| "writer_ok st job (Aborted e) \<longleftrightarrow> True"

definition world_ok :: "store \<Rightarrow> world \<Rightarrow> bool" where
  "world_ok st0 x \<longleftrightarrow> store_grows st0 (fst x)
     \<and> (\<forall>sha. st_manifests (fst x) sha \<noteq> st_manifests st0 sha \<longrightarrow> manifest_stored (fst x) sha)
     \<and> (\<forall>(job, w) \<in> set (snd x). manifest_of (jb_data job) = Inr (jb_manifest job, jb_sha256 job) \<and> writer_ok (fst x) job w)"

lemma store_unless_Inr [simp]: "store_unless b x = Inr y \<longleftrightarrow> b \<and> y = x"
  by (auto simp: store_unless_def)

lemma grows_refl [simp]: "store_grows st st"
  by (simp add: store_grows_def)

lemma grows_trans: "store_grows a b \<Longrightarrow> store_grows b c \<Longrightarrow> store_grows a c"
  by (auto simp: store_grows_def intro: map_le_trans)

lemma object_stored_grows: "store_grows st st' \<Longrightarrow> object_stored st e \<Longrightarrow> object_stored st' e"
  unfolding store_grows_def object_stored_def map_le_def by (metis domI)

lemma manifest_stored_grows: "store_grows st st' \<Longrightarrow> manifest_stored st sha \<Longrightarrow> manifest_stored st' sha"
  using object_stored_grows[of st st'] unfolding manifest_stored_def store_grows_def map_le_def by (metis domI)

lemma writer_ok_grows:
  assumes "store_grows st st'" "writer_ok st job w"
  shows "writer_ok st' job w"
proof -
  have kept: "st_manifests st sha = Some f \<Longrightarrow> st_manifests st' sha = Some f" for sha f
    using assms(1) unfolding store_grows_def map_le_def by (metis domI)
  note g = object_stored_grows[OF assms(1)] kept
  show ?thesis
  proof (cases w)
    case (Entries es ph i p)
    then show ?thesis using assms(2) g(1) by simp metis
  qed (use assms(2) g in auto)
qed

lemma install_object_grows: "install_object sha b st = (st', x) \<Longrightarrow> store_grows st st'"
  by (auto simp: install_object_def store_grows_def map_le_def split: option.splits)

lemma install_manifest_grows: "install_manifest sha b st = (st', x) \<Longrightarrow> store_grows st st'"
  by (auto simp: install_manifest_def store_grows_def map_le_def split: option.splits)

lemma existing_object_Inr: "existing_object f sha n = Inr r \<longleftrightarrow> (\<exists>b. f = Stored b \<and> sha256_hex b = sha \<and> int (length b) = n) \<and> r = AlreadyPresent"
  by (cases f) (auto simp: existing_object_def hash_store_file_def)

lemma preflight_present: "object_preflight (fe_sha256 e) (fe_size_bytes e) st = Inr True \<Longrightarrow> object_stored st e"
  by (auto simp: object_preflight_def object_stored_def rbind_Inr_iff existing_object_Inr split: option.splits)

lemma write_cases:
  assumes "object_write src (fe_sha256 e) (fe_size_bytes e) st = (st', r)"
  shows "store_grows st st' \<and> st_manifests st' = st_manifests st \<and> (r = Inr True \<longrightarrow> object_stored st' e)"
  using assms by (auto simp: object_write_def write_atomic_def install_object_def store_grows_def map_le_def object_stored_def
      split: sum.splits if_splits option.splits)

lemma settle_installed: "object_stored st e \<Longrightarrow> object_settle True (fe_sha256 e) (fe_size_bytes e) st = (st, Inr Ingested)"
  by (auto simp: object_settle_def object_stored_def hash_store_file_def)

lemma settle_lost:
  assumes "object_settle False (fe_sha256 e) (fe_size_bytes e) st = (st', r)"
  shows "st' = st" "r \<noteq> Inr Ingested" "r = Inr AlreadyPresent \<Longrightarrow> object_stored st e"
  using assms by (auto simp: object_settle_def object_stored_def existing_object_Inr split: option.splits)

lemma next_entry_ok:
  assumes "mf_files (jb_manifest job) = pre @ es" "i + p = length pre" "\<forall>e \<in> set pre. object_stored st e"
  shows "writer_ok st job (next_entry es i p)"
  using assms by (auto simp: next_entry_def)

lemma report_of_ok:
  assumes "manifest_of (jb_data job) = Inr (jb_manifest job, jb_sha256 job)" "writer_ok st job (Publishing ph i p)"
    "st_manifests st (jb_sha256 job) = Some (Stored (jb_data job))"
  shows "writer_ok st job (Finished (report_of job i p))"
  using assms by (auto simp: report_of_def)

definition step_ok :: "job \<Rightarrow> store \<Rightarrow> store \<times> writer \<Rightarrow> bool" where
  "step_ok job st x \<longleftrightarrow> store_grows st (fst x) \<and> writer_ok (fst x) job (snd x)
     \<and> (\<forall>sha. st_manifests (fst x) sha \<noteq> st_manifests st sha \<longrightarrow> manifest_stored (fst x) sha)"

lemma step_ok_same [simp]: "step_ok job st (st, w) \<longleftrightarrow> writer_ok st job w"
  by (simp add: step_ok_def)

lemma entry_step_ok:
  assumes ok: "writer_ok st job (Entries (e # es) ph i p)"
  shows "step_ok job st (writer_step job src (st, Entries (e # es) ph i p))"
proof -
  obtain pre where pre: "mf_files (jb_manifest job) = pre @ e # es" "i + p = length pre" "\<forall>e \<in> set pre. object_stored st e"
    and head: "ph = Settling True \<longrightarrow> object_stored st e" using ok by auto
  have go: "writer_ok st' job (next_entry es i' p')" if "object_stored st' e" "store_grows st st'" "i' + p' = Suc (i + p)" for st' i' p'
    using next_entry_ok[of job "pre @ [e]" es i' p' st'] that pre object_stored_grows[OF that(2)] by auto
  have stay: "writer_ok st' job (Entries (e # es) ph' i p)" if "store_grows st st'" "ph' = Settling True \<longrightarrow> object_stored st' e" for st' ph'
    using that pre object_stored_grows[OF that(1)] by auto
  show ?thesis
  proof (cases ph)
    case Checking
    then show ?thesis
      using go[of st] stay[of st] preflight_present[of e st] by (auto split: sum.splits)
  next
    case Linking
    obtain st' r where w: "object_write src (fe_sha256 e) (fe_size_bytes e) st = (st', r)" by fastforce
    show ?thesis using write_cases[OF w] stay[of st'] by (cases r) (auto simp: Linking w step_ok_def)
  next
    case (Settling b)
    show ?thesis
    proof (cases b)
      case True
      then show ?thesis using head go[of st] by (simp add: Settling settle_installed)
    next
      case False
      obtain st' r where w: "object_settle False (fe_sha256 e) (fe_size_bytes e) st = (st', r)" by fastforce
      show ?thesis using settle_lost[OF w] go[of st] by (cases r) (auto simp: Settling False w split: outcome.splits)
    qed
  qed
qed

lemma publish_step_ok:
  assumes valid: "manifest_of (jb_data job) = Inr (jb_manifest job, jb_sha256 job)" and ok: "writer_ok st job (Publishing ph i p)"
  shows "step_ok job st (writer_step job src (st, Publishing ph i p))"
proof (cases ph)
  case Checking
  have "st_manifests st (jb_sha256 job) = Some (Stored (jb_data job))" if "manifest_preflight (jb_sha256 job) (jb_data job) st = Inr True"
    using that by (auto simp: manifest_preflight_def split: option.splits stored.splits)
  then show ?thesis using ok report_of_ok[OF valid ok] by (auto simp: Checking split: sum.splits)
next
  case Linking
  obtain st' b where w: "install_manifest (jb_sha256 job) (jb_data job) st = (st', b)" by fastforce
  have grows: "store_grows st st'" by (rule install_manifest_grows[OF w])
  have "manifest_stored st' sha" if "st_manifests st' sha \<noteq> st_manifests st sha" for sha
  proof -
    have "sha = jb_sha256 job" "st_manifests st' sha = Some (Stored (jb_data job))"
      using w that by (auto simp: install_manifest_def split: option.splits if_splits)
    then show ?thesis using valid ok object_stored_grows[OF grows] by (auto simp: manifest_stored_def)
  qed
  then show ?thesis using writer_ok_grows[OF grows ok] grows by (simp add: Linking w step_ok_def)
next
  case (Settling b)
  have "st_manifests st (jb_sha256 job) = Some (Stored (jb_data job))" if "manifest_settle (jb_sha256 job) (jb_data job) st = Inr r" for r
    using that by (auto simp: manifest_settle_def split: option.splits stored.splits)
  then show ?thesis using report_of_ok[OF valid ok] by (auto simp: Settling split: sum.splits)
qed

lemma writer_step_ok:
  assumes "manifest_of (jb_data job) = Inr (jb_manifest job, jb_sha256 job)" "writer_ok st job w"
  shows "step_ok job st (writer_step job src (st, w))"
proof (cases w)
  case (Entries es ph i p)
  then obtain e es' where "es = e # es'" using assms(2) by (cases es) auto
  then show ?thesis using entry_step_ok assms(2) Entries by blast
qed (use publish_step_ok[OF assms(1)] assms(2) in auto)

lemma world_step:
  assumes "store_step x y" "world_ok st0 x"
  shows "world_ok st0 y"
  using assms(1)
proof cases
  case (start data roles m sha st ws)
  have m: "manifest_of data = Inr (m, sha)" using start(3) by (auto simp: ingest_start_def rbind_Inr_iff)
  have "writer_ok st (job_of data m sha) (next_entry (mf_files m) 0 0)"
    by (rule next_entry_ok[where pre = "[]"]) (simp_all add: job_of_def)
  then show ?thesis using assms(2) m by (auto simp: start(1,2) world_ok_def job_of_def)
next
  case (advance i ws job w src st st' w')
  have mem: "(job, w) \<in> set ws" using advance(3,4) by (metis nth_mem)
  then have ok: "manifest_of (jb_data job) = Inr (jb_manifest job, jb_sha256 job)" "writer_ok st job w"
    and grown: "store_grows st0 st" using assms(2) by (auto simp: advance(1) world_ok_def)
  have new: "step_ok job st (st', w')" using writer_step_ok[OF ok, of src] by (simp add: advance(5))
  then have g: "store_grows st st'" by (simp add: step_ok_def)
  have "st_manifests st' sha \<noteq> st_manifests st0 sha \<Longrightarrow> manifest_stored st' sha" for sha
    using new assms(2) manifest_stored_grows[OF g, of sha] by (cases "st_manifests st' sha = st_manifests st sha")
      (auto simp: step_ok_def advance(1) world_ok_def)
  moreover have "manifest_of (jb_data j) = Inr (jb_manifest j, jb_sha256 j) \<and> writer_ok st' j v" if "(j, v) \<in> set (ws[i := (job, w')])" for j v
  proof -
    have "(j, v) = (job, w') \<or> (j, v) \<in> set ws" using set_update_subset_insert[of ws i "(job, w')"] that by blast
    then show ?thesis using new ok(1) assms(2) writer_ok_grows[OF g, of j v] by (auto simp: step_ok_def advance(1) world_ok_def)
  qed
  ultimately show ?thesis using grows_trans[OF grown g] by (auto simp: advance(2) world_ok_def)
next
  case (crash i ws job w st)
  have "(job, w) \<in> set ws" using crash(3,4) by (metis nth_mem)
  then show ?thesis using assms(2) set_update_subset_insert[of ws i "(job, Aborted StoreOSError)"]
    by (auto simp: crash(1,2) world_ok_def)
qed

lemma reachable_ok: "store_reachable st0 x \<Longrightarrow> world_ok st0 x"
proof (induction rule: store_reachable.induct)
  case initial
  show ?case by (simp add: world_ok_def)
next
  case (more x y)
  then show ?case using world_step by blast
qed

lemma validate_bytes_Inr:
  assumes "validate_manifest_bytes data = Inr (m, sha)"
  shows "sha = sha256_hex data" "\<exists>v. validate_manifest_object v = Inr m \<and> data = canonical_json_dumps v"
proof -
  obtain chars where "utf8_decode data = Text chars" using assms
    by (cases "utf8_decode data") (simp_all add: validate_manifest_bytes_def split: if_splits)
  then obtain v where "rbind (validate_manifest_object v) (\<lambda>m. violation_unless (data = canonical_json_dumps v) (m, sha256_hex data)) = Inr (m, sha)"
    using assms by (cases "json_loads chars") (simp_all add: validate_manifest_bytes_def split: if_splits)
  then show "sha = sha256_hex data" "\<exists>v. validate_manifest_object v = Inr m \<and> data = canonical_json_dumps v"
    by (auto simp: rbind_Inr_iff violation_unless_def simp del: canonical_json_dumps.simps split: if_splits)
qed

lemma manifest_of_sha: "manifest_of data = Inr (m, sha) \<Longrightarrow> sha256_hex data = sha"
  using validate_bytes_Inr(1)[of data m sha] by (simp add: manifest_of_def split: sum.splits)

lemma verify_copy_iff: "verify_copy st sha = Inr r \<longleftrightarrow> (\<exists>data m. st_manifests st sha = Some (Stored data) \<and> manifest_of data = Inr (m, sha)
    \<and> (\<forall>e \<in> set (mf_files m). object_stored st e)
    \<and> r = \<lparr>cr_artifact_id = mf_artifact_id m, cr_manifest_sha256 = sha, cr_verified_objects = mf_file_count m\<rparr>)"
proof -
  have one: "rbind (open_relative_file (st_objects st (fe_sha256 e))) (\<lambda>b. hash_fd b (fe_size_bytes e) (fe_sha256 e)) = Inr u \<longleftrightarrow> object_stored st e" for e u
    by (auto simp: open_relative_file_def hash_fd_def object_stored_def rbind_Inr_iff split: option.splits stored.splits)
  have "(\<exists>us. rmap (\<lambda>e. rbind (open_relative_file (st_objects st (fe_sha256 e))) (\<lambda>b. hash_fd b (fe_size_bytes e) (fe_sha256 e))) es = Inr us)
      \<longleftrightarrow> (\<forall>e \<in> set es. object_stored st e)" for es
    by (induction es) (auto simp: rbind_Inr_iff[of "rbind _ _"] rbind_Inr_iff[of "rmap _ _"] one)
  moreover have "open_relative_file f = Inr data \<longleftrightarrow> f = Some (Stored data)" for f data
    by (auto simp: open_relative_file_def split: option.splits stored.splits)
  ultimately show ?thesis using manifest_of_sha by (auto simp: verify_copy_def rbind_Inr_iff)
qed

lemma manifest_stored_verifies: "manifest_stored st sha \<longleftrightarrow> (\<exists>r. verify_copy st sha = Inr r)"
  by (auto simp: verify_copy_iff manifest_stored_def)

definition store_complete :: "store \<Rightarrow> bool" where
  "store_complete st \<longleftrightarrow> (\<forall>sha \<in> dom (st_manifests st). \<exists>r. verify_copy st sha = Inr r)"

lemma kept_verifies:
  assumes "store_grows st0 st" "verify_copy st0 sha = Inr r"
  shows "verify_copy st sha = Inr r"
proof -
  have "st_manifests st0 sha = Some f \<Longrightarrow> st_manifests st sha = Some f" for f
    using assms(1) unfolding store_grows_def map_le_def by (metis domI)
  then show ?thesis using assms(2) object_stored_grows[OF assms(1)] unfolding verify_copy_iff by blast
qed

text \<open>
  C24. Let any number of processes run \<open>ingest\<close> on one store, interleaved at every access to it, each killed at any point, while
  their source files change under them. If every stored manifest verified before, then in every reachable state every
  stored manifest verifies; every object and manifest stored before is still there with the same bytes; and the manifest of every
  writer that reported success verifies, with every file of the manifest counted once.
\<close>

theorem store_complete_at_every_crash:
  assumes "store_complete st0" "store_reachable st0 (st, ws)"
  shows "store_complete st \<and> st_objects st0 \<subseteq>\<^sub>m st_objects st \<and> st_manifests st0 \<subseteq>\<^sub>m st_manifests st
    \<and> (\<forall>(job, w) \<in> set ws. \<forall>r. w = Finished r \<longrightarrow> (\<exists>copy. verify_copy st (ir_manifest_sha256 r) = Inr copy)
        \<and> ir_ingested r + ir_already_present r = length (mf_files (jb_manifest job)))"
proof -
  have ok: "world_ok st0 (st, ws)" by (rule reachable_ok[OF assms(2)])
  then have g: "store_grows st0 st" by (simp add: world_ok_def)
  have "\<exists>r. verify_copy st sha = Inr r" if "sha \<in> dom (st_manifests st)" for sha
  proof (cases "st_manifests st sha = st_manifests st0 sha")
    case True
    then have "sha \<in> dom (st_manifests st0)" using that by (simp add: dom_def)
    then show ?thesis using assms(1) kept_verifies[OF g] unfolding store_complete_def by blast
  next
    case False
    then show ?thesis using ok by (simp add: world_ok_def flip: manifest_stored_verifies)
  qed
  moreover have "(\<exists>copy. verify_copy st (ir_manifest_sha256 r) = Inr copy) \<and> ir_ingested r + ir_already_present r = length (mf_files (jb_manifest job))"
    if "(job, Finished r) \<in> set ws" for job r
  proof -
    have "manifest_of (jb_data job) = Inr (jb_manifest job, jb_sha256 job)" "writer_ok st job (Finished r)"
      using ok that by (auto simp: world_ok_def)
    then show ?thesis unfolding manifest_stored_verifies[symmetric] by (simp add: manifest_stored_def)
  qed
  ultimately show ?thesis using g unfolding store_complete_def store_grows_def by blast
qed

section \<open>One ingest\<close>

definition current_source :: "sources \<Rightarrow> writer \<Rightarrow> source" where
  "current_source sources w = (case w of Entries (e # es) ph i p \<Rightarrow> sources (fe_role e) (fe_relative_path e) | _ \<Rightarrow> \<lparr>src_inside = False, src_node = None\<rparr>)"

abbreviation alone :: "job \<Rightarrow> sources \<Rightarrow> store \<times> writer \<Rightarrow> store \<times> writer \<Rightarrow> bool" where
  "alone job sources \<equiv> (\<lambda>x y. y = writer_step job (current_source sources (snd x)) x)\<^sup>*\<^sup>*"

definition ended :: "store_error + ingest_report \<Rightarrow> writer" where
  "ended r = (case r of Inl e \<Rightarrow> Aborted e | Inr report \<Rightarrow> Finished report)"

lemma alone_step: "writer_step job (current_source sources w) (st, w) = y \<Longrightarrow> alone job sources y z \<Longrightarrow> alone job sources (st, w) z"
  by (rule converse_rtranclp_into_rtranclp) auto

lemma entries_alone:
  assumes "ingest_entries sources es i p st = (st', r)"
  shows "alone job sources (st, next_entry es i p) (st', case r of Inl e \<Rightarrow> Aborted e | Inr (i', p') \<Rightarrow> Publishing Checking i' p')"
  using assms
proof (induction es arbitrary: i p st)
  case Nil
  then show ?case by (auto simp: next_entry_def)
next
  case (Cons e es)
  let ?src = "sources (fe_role e) (fe_relative_path e)"
  let ?fin = "(st', case r of Inl e \<Rightarrow> Aborted e | Inr (i', p') \<Rightarrow> Publishing Checking i' p')"
  have src: "current_source sources (Entries (e # es) ph i p) = ?src" for ph by (simp add: current_source_def)
  have start: "next_entry (e # es) i p = Entries (e # es) Checking i p" by (simp add: next_entry_def)
  have go: "alone job sources (st1, Entries (e # es) (Settling b) i p) ?fin"
    if "(case object_settle b (fe_sha256 e) (fe_size_bytes e) st1 of (st', Inl err) \<Rightarrow> (st', Inl err)
       | (st', Inr Ingested) \<Rightarrow> ingest_entries sources es (Suc i) p st'
       | (st', Inr AlreadyPresent) \<Rightarrow> ingest_entries sources es i (Suc p) st') = (st', r)" for b st1
  proof -
    obtain st2 q where q: "object_settle b (fe_sha256 e) (fe_size_bytes e) st1 = (st2, q)" by fastforce
    show ?thesis by (rule alone_step[OF refl]) (use that Cons.IH in \<open>auto simp: src q split: sum.splits outcome.splits\<close>)
  qed
  consider (outside) "\<not> src_inside ?src"
    | (stop) err where "src_inside ?src" "object_preflight (fe_sha256 e) (fe_size_bytes e) st = Inl err"
    | (there) "src_inside ?src" "object_preflight (fe_sha256 e) (fe_size_bytes e) st = Inr True"
    | (absent) st1 q where "src_inside ?src" "object_preflight (fe_sha256 e) (fe_size_bytes e) st = Inr False"
        "object_write ?src (fe_sha256 e) (fe_size_bytes e) st = (st1, q)"
    by (metis (full_types) prod.collapse sum.exhaust)
  then show ?case
  proof cases
    case absent
    have "alone job sources (st, Entries (e # es) Linking i p) ?fin"
      by (rule alone_step[OF refl]) (use Cons.prems absent go[of _ st1] in \<open>auto simp: src Let_def ingest_object_def split: sum.splits\<close>)
    then show ?thesis unfolding start by (intro alone_step[OF refl]) (simp add: src absent)
  qed (unfold start, use Cons in \<open>auto intro!: alone_step[OF refl] simp: src Let_def ingest_object_def\<close>)
qed

lemma publish_alone:
  assumes "manifest_of (jb_data job) = Inr (jb_manifest job, jb_sha256 job)" "put_manifest (jb_data job) st = (st', r)"
  shows "alone job sources (st, Publishing Checking i p) (st', case r of Inl e \<Rightarrow> Aborted e | Inr sha \<Rightarrow> Finished (report_of job i p))"
proof -
  let ?fin = "(st', case r of Inl e \<Rightarrow> Aborted e | Inr sha \<Rightarrow> Finished (report_of job i p))"
  show ?thesis
  proof (cases "manifest_preflight (jb_sha256 job) (jb_data job) st = Inr False")
    case False
    then show ?thesis using assms by (intro alone_step[OF refl]) (auto simp: put_manifest_def split: sum.splits)
  next
    case True
    obtain st1 b where w: "install_manifest (jb_sha256 job) (jb_data job) st = (st1, b)" by fastforce
    have "alone job sources (st1, Publishing (Settling b) i p) ?fin"
      by (rule alone_step[OF refl]) (use assms True w in \<open>auto simp: put_manifest_def split: sum.splits\<close>)
    then have "alone job sources (st, Publishing Linking i p) ?fin" by (intro alone_step[OF refl]) (simp add: w)
    then show ?thesis by (intro alone_step[OF refl]) (simp add: True)
  qed
qed

lemma ingest_alone:
  assumes "ingest_start data roles = Inr (m, sha)" "ingest data roles sources st = (st', r)"
  shows "alone (job_of data m sha) sources (st, next_entry (mf_files m) 0 0) (st', ended r)"
proof -
  let ?job = "job_of data m sha"
  have valid: "manifest_of (jb_data ?job) = Inr (jb_manifest ?job, jb_sha256 ?job)"
    using assms(1) by (auto simp: job_of_def ingest_start_def rbind_Inr_iff)
  obtain st1 q where q: "ingest_entries sources (mf_files m) 0 0 st = (st1, q)" by fastforce
  have first: "alone ?job sources (st, next_entry (mf_files m) 0 0) (st1, case q of Inl e \<Rightarrow> Aborted e | Inr (i', p') \<Rightarrow> Publishing Checking i' p')"
    by (rule entries_alone[OF q])
  show ?thesis
  proof (cases q)
    case (Inl e)
    then show ?thesis using first assms q by (auto simp: ingest_def ended_def)
  next
    case (Inr c)
    obtain i p where c: "c = (i, p)" by fastforce
    obtain st2 u where u: "put_manifest (jb_data ?job) st1 = (st2, u)" by fastforce
    have "st2 = st' \<and> (case u of Inl e \<Rightarrow> Aborted e | Inr sha \<Rightarrow> Finished (report_of ?job i p)) = ended r"
      using assms q Inr c u by (auto simp: ingest_def ended_def job_of_def report_of_def split: sum.splits)
    then show ?thesis using rtranclp_trans[OF first] publish_alone[OF valid u, of sources i p] by (simp add: Inr c)
  qed
qed

lemma alone_is_execution:
  assumes "alone job sources (st, w) (st', w')"
  shows "store_step\<^sup>*\<^sup>* (st, [(job, w)]) (st', [(job, w')])"
  using assms
proof (induction "(st', w')" arbitrary: st' w' rule: rtranclp_induct)
  case (step y)
  obtain st1 w1 where y: "y = (st1, w1)" by fastforce
  have "store_step (st1, [(job, w1)]) (st', [(job, w1)][0 := (job, w')])"
    by (rule store_step.advance[where src = "current_source sources w1" and w = w1]) (use step(2) in \<open>simp_all add: y\<close>)
  then show ?case using step(3)[OF y] by (simp add: rtranclp.rtrancl_into_rtrancl)
qed simp

lemma reachable_steps: "store_step\<^sup>*\<^sup>* x y \<Longrightarrow> store_reachable st0 x \<Longrightarrow> store_reachable st0 y"
  by (induction rule: rtranclp_induct) (auto intro: store_reachable.more)

lemma ingest_execution:
  assumes "ingest_start data roles = Inr (m, sha)" "ingest data roles sources st = (st', r)"
  shows "store_step\<^sup>*\<^sup>* (st, []) (st', [(job_of data m sha, ended r)])"
proof -
  have "store_step (st, []) (st, [] @ [(job_of data m sha, next_entry (mf_files m) 0 0)])" by (rule store_step.start[OF assms(1)])
  then show ?thesis using alone_is_execution[OF ingest_alone[OF assms]] by (simp add: converse_rtranclp_into_rtranclp)
qed

lemma ingested_ok:
  assumes "ingest data roles sources st = (st', Inr r)"
  obtains m sha where "ingest_start data roles = Inr (m, sha)" "manifest_of data = Inr (m, sha)" "st_manifests st' sha = Some (Stored data)"
    "\<forall>e \<in> set (mf_files m). object_stored st' e" "ir_manifest_sha256 r = sha" "ir_object_count r = length (mf_files m)" "store_grows st st'"
proof -
  obtain m sha where start: "ingest_start data roles = Inr (m, sha)" using assms by (auto simp: ingest_def split: sum.splits)
  have "world_ok st (st', [(job_of data m sha, Finished r)])"
    using reachable_ok[OF reachable_steps[OF ingest_execution[OF start assms] store_reachable.initial]] by (simp add: ended_def)
  then have "manifest_of data = Inr (m, sha)" "writer_ok st' (job_of data m sha) (Finished r)" "store_grows st st'"
    by (simp_all add: world_ok_def job_of_def)
  then show ?thesis using that[OF start] by (simp add: job_of_def)
qed

lemma entries_present:
  assumes "\<forall>e \<in> set es. object_stored st e" "\<forall>e \<in> set es. src_inside (sources (fe_role e) (fe_relative_path e))"
  shows "ingest_entries sources es i p st = (st, Inr (i, p + length es))"
  using assms
proof (induction es arbitrary: p)
  case (Cons e es)
  have "object_preflight (fe_sha256 e) (fe_size_bytes e) st = Inr True" using Cons.prems(1)
    by (auto simp: object_preflight_def object_stored_def existing_object_def hash_store_file_def store_unless_def)
  then show ?case using Cons by (simp add: Let_def ingest_object_def)
qed simp

text \<open>
  C26. \<open>ingest\<close> and \<open>verify_copy\<close> are inverse, and \<open>ingest\<close> is idempotent: after an ingest that succeeded, the manifest's address verifies with
  the manifest's own artifact id and file count and \<open>load_manifest\<close> gives back its exact bytes; what was stored before is
  untouched; and ingesting the same manifest again, from any files inside the role roots, readable or not, writes nothing and counts every object as present.
\<close>

theorem store_ingest_verifies:
  assumes "ingest data roles sources st = (st', Inr r)"
  shows "\<exists>m. validate_manifest_bytes data = Inr (m, ir_manifest_sha256 r) \<and> store_grows st st'
    \<and> verify_copy st' (ir_manifest_sha256 r) = Inr \<lparr>cr_artifact_id = mf_artifact_id m, cr_manifest_sha256 = ir_manifest_sha256 r, cr_verified_objects = mf_file_count m\<rparr>
    \<and> load_manifest st' (ir_manifest_sha256 r) = Inr (m, data)
    \<and> (\<forall>sources'. (\<forall>e \<in> set (mf_files m). src_inside (sources' (fe_role e) (fe_relative_path e)))
        \<longrightarrow> ingest data roles sources' st' = (st', Inr (r\<lparr>ir_already_present := ir_object_count r, ir_ingested := 0\<rparr>)))"
proof -
  obtain m sha where ok: "ingest_start data roles = Inr (m, sha)" "manifest_of data = Inr (m, sha)" "st_manifests st' sha = Some (Stored data)"
    "\<forall>e \<in> set (mf_files m). object_stored st' e" "ir_manifest_sha256 r = sha" "ir_object_count r = length (mf_files m)" "store_grows st st'"
    by (rule ingested_ok[OF assms])
  have "validate_manifest_bytes data = Inr (m, sha)" using ok(2) by (simp add: manifest_of_def split: sum.splits)
  moreover have "verify_copy st' sha = Inr \<lparr>cr_artifact_id = mf_artifact_id m, cr_manifest_sha256 = sha, cr_verified_objects = mf_file_count m\<rparr>"
    unfolding verify_copy_iff using ok by blast
  moreover have "load_manifest st' sha = Inr (m, data)"
    using ok manifest_of_sha[OF ok(2)] by (simp add: load_manifest_def hash_store_file_def store_unless_def)
  moreover have "put_manifest data st' = (st', Inr sha)"
    using ok by (simp add: put_manifest_def manifest_preflight_def store_unless_def)
  then have "ingest data roles sources' st' = (st', Inr (r\<lparr>ir_already_present := ir_object_count r, ir_ingested := 0\<rparr>))"
    if "\<forall>e \<in> set (mf_files m). src_inside (sources' (fe_role e) (fe_relative_path e))" for sources'
    using entries_present[OF ok(4) that, of 0 0] ok(1,5,6) by (cases r) (simp add: ingest_def)
  ultimately show ?thesis using ok(5,7) by blast
qed

section \<open>A run\<close>

definition empty_store :: store where "empty_store = \<lparr>st_objects = Map.empty, st_manifests = Map.empty\<rparr>"

definition fx_copies :: "file_entry list" where
  "fx_copies = [entry_for ''raw'' (''a.csv'', ''x''), entry_for ''raw'' (''b.csv'', ''x'')]"

definition fx_data :: string where "fx_data = canonical_json_dumps (manifest_doc ''h001'' fx_copies)"

definition fx_sources :: sources where "fx_sources role path = \<lparr>src_inside = True, src_node = Some (Regular ''x'')\<rparr>"

definition fx_portable :: portable_manifest where
  "fx_portable = \<lparr>mf_artifact_id = ''h001'', mf_files = fx_copies, mf_file_count = 2, mf_total_size = 2\<rparr>"

definition fx_store :: store where
  "fx_store = \<lparr>st_objects = [sha256_hex ''x'' \<mapsto> Stored ''x''], st_manifests = [sha256_hex fx_data \<mapsto> Stored fx_data]\<rparr>"

lemma fx_manifest: "manifest_of fx_data = Inr (fx_portable, sha256_hex fx_data)"
proof -
  have "ROLE_RE ''raw''" "ARTIFACT_ID_RE ''h001''" "relative_path_ok ''a.csv''" "relative_path_ok ''b.csv''" by (code_simp)+
  then have "validate_manifest_object (manifest_doc ''h001'' fx_copies) = Inr fx_portable"
    by (simp add: validate_doc fx_portable_def fx_copies_def file_entry_of_doc entry_for_def entry_ok_def file_key_def folded_key_def lower_def rbind_Inr_iff)
  moreover have "length (show_nat 1) \<le> 4300" "length (show_nat 2) \<le> 4300" by (subst show_nat.simps, simp)+
  then have "storable (manifest_doc ''h001'' fx_copies)"
    by (simp add: manifest_doc_def file_doc_def fx_copies_def entry_for_def ARTIFACT_MANIFEST_KIND_def MANIFEST_SCHEMA_VERSION_def)
  ultimately show ?thesis unfolding fx_data_def manifest_of_def by (simp only: manifest_bytes_load sum.case)
qed

lemma fx_start: "ingest_start fx_data [''raw''] = Inr (fx_portable, sha256_hex fx_data)"
  by (simp add: ingest_start_def fx_manifest store_unless_def fx_portable_def fx_copies_def entry_for_def)

lemma fx_ingest: "ingest fx_data [''raw''] fx_sources empty_store = (fx_store, Inr \<lparr>ir_already_present = 1, ir_ingested = 1,
    ir_manifest_sha256 = sha256_hex fx_data, ir_object_count = 2\<rparr>)"
proof -
  have "ingest_entries fx_sources fx_copies 0 0 empty_store = (\<lparr>st_objects = [sha256_hex ''x'' \<mapsto> Stored ''x''], st_manifests = Map.empty\<rparr>, Inr (1, 1))"
    by (simp add: fx_copies_def entry_for_def fx_sources_def ingest_object_def object_preflight_def object_write_def source_bytes_def write_atomic_def
        install_object_def object_settle_def existing_object_def hash_store_file_def store_unless_def empty_store_def Let_def)
  then show ?thesis
    by (simp add: ingest_def fx_start fx_portable_def put_manifest_def fx_manifest manifest_preflight_def install_manifest_def manifest_settle_def
        store_unless_def fx_store_def) (simp add: fx_copies_def)
qed

theorem store_ingest_verifies_witness:
  "\<exists>m. verify_copy fx_store (sha256_hex fx_data) = Inr \<lparr>cr_artifact_id = mf_artifact_id m, cr_manifest_sha256 = sha256_hex fx_data,
     cr_verified_objects = mf_file_count m\<rparr> \<and> load_manifest fx_store (sha256_hex fx_data) = Inr (m, fx_data)"
  using store_ingest_verifies[OF fx_ingest] by auto

theorem store_complete_at_every_crash_witness:
  "store_complete fx_store \<and> st_manifests fx_store (sha256_hex fx_data) \<noteq> None"
proof -
  have "store_reachable empty_store (fx_store, [(job_of fx_data fx_portable (sha256_hex fx_data), ended (snd (ingest fx_data [''raw''] fx_sources empty_store)))])"
    unfolding fx_ingest snd_conv by (rule reachable_steps[OF ingest_execution[OF fx_start fx_ingest] store_reachable.initial])
  moreover have "store_complete empty_store" by (simp add: store_complete_def empty_store_def)
  ultimately show ?thesis using store_complete_at_every_crash by (auto simp: fx_store_def)
qed

end
