(* ===== verification/ArtifactRegistry.thy ===== *)
theory ArtifactRegistry
  imports ArtifactStore
begin

text \<open>
  \<open>quantbot/artifacts/registry.py\<close>: the Git-owned artifact records, the store registry, their cross checks and the live
  verification of every copy a VERIFIED_AVAILABLE record claims. Messages are left out. The environment is a function from
  variables to values; the file system a function from configured paths to what opening them as a store root gives.
\<close>

section \<open>Fields\<close>

datatype registry_error = RegistryViolation | StoreError store_error | RegistryOther py_error

definition ARTIFACT_RECORD_KIND :: string where "ARTIFACT_RECORD_KIND = ''qnty_artifact_record''"
definition STORE_REGISTRY_KIND :: string where "STORE_REGISTRY_KIND = ''qnty_artifact_store_registry''"
definition REGISTRY_SCHEMA_VERSION :: string where "REGISTRY_SCHEMA_VERSION = ''1.0.0''"

definition STORE_ID_RE :: "string \<Rightarrow> bool" where
  "STORE_ID_RE = fullmatch (lower_letters @ digit_chars) (lower_letters @ digit_chars @ ''-'') 63"

definition BACKEND_KIND_RE :: "string \<Rightarrow> bool" where
  "BACKEND_KIND_RE = fullmatch lower_letters (lower_letters @ digit_chars @ ''_-'') 63"

definition FAILURE_DOMAIN_RE :: "string \<Rightarrow> bool" where
  "FAILURE_DOMAIN_RE = fullmatch (lower_letters @ digit_chars) (lower_letters @ digit_chars @ ''._-'') 127"

definition ENV_VAR_RE :: "string \<Rightarrow> bool" where
  "ENV_VAR_RE = fullmatch upper_letters (upper_letters @ digit_chars @ ''_'') 127"

definition location_prefix :: string where "location_prefix = ''qnty-artifact://''"

definition CANONICAL_LOCATION_RE :: "string \<Rightarrow> (string \<times> string) option" where
  \<comment> \<open>the store id and the manifest address of a location\<close>
  "CANONICAL_LOCATION_RE s = (if \<not> str_prefix location_prefix s then None else
     let rest = drop (length location_prefix) s; store_id = takeWhile (\<lambda>c. c \<noteq> CHR ''/'') rest; tail = dropWhile (\<lambda>c. c \<noteq> CHR ''/'') rest in
     if STORE_ID_RE store_id \<and> str_prefix ''/sha256/'' tail \<and> lower_hex 64 (drop 8 tail) then Some (store_id, drop 8 tail) else None)"

definition fail_unless :: "bool \<Rightarrow> 'a \<Rightarrow> registry_error + 'a" where
  "fail_unless good x = (if good then Inr x else Inl RegistryViolation)"

definition require_exact_keys :: "json \<Rightarrow> string list \<Rightarrow> registry_error + row" where
  "require_exact_keys v expected = (case v of JObj d \<Rightarrow> fail_unless (set (dict_keys d) = set expected) d | _ \<Rightarrow> Inl RegistryViolation)"

definition require_str :: "(string \<Rightarrow> bool) \<Rightarrow> json \<Rightarrow> registry_error + string" where
  "require_str pattern v = (case v of JStr s \<Rightarrow> fail_unless (s \<noteq> [] \<and> pattern s) s | _ \<Rightarrow> Inl RegistryViolation)"

definition require_sha256 :: "json \<Rightarrow> registry_error + string" where
  "require_sha256 v = (case v of JStr s \<Rightarrow> fail_unless (lower_hex 64 s) s | _ \<Rightarrow> Inl RegistryViolation)"

definition require_int :: "json \<Rightarrow> registry_error + int" where
  "require_int v = (case v of JInt n \<Rightarrow> Inr n | _ \<Rightarrow> Inl RegistryViolation)"

definition require_bool :: "json \<Rightarrow> registry_error + bool" where
  "require_bool v = (case v of JBool b \<Rightarrow> Inr b | _ \<Rightarrow> Inl RegistryViolation)"

definition load_canonical_document :: "string \<Rightarrow> registry_error + row" where
  "load_canonical_document data = (case utf8_decode data of BadUtf8 \<Rightarrow> Inl RegistryViolation
     | Text chars \<Rightarrow> (case json_loads chars of
         Inl e \<Rightarrow> Inl (if e = LoneSurrogate then RegistryOther OutOfModel else if e = DigitLimit then RegistryOther ValueError else RegistryViolation)
       | Inr v \<Rightarrow> (case v of JObj d \<Rightarrow> fail_unless (\<not> ends_with CHR 0x0A data \<and> data = canonical_json_dumps v) d | _ \<Rightarrow> Inl RegistryViolation)))"

definition is_under :: "string \<Rightarrow> string \<Rightarrow> bool" where
  "is_under path folder \<longleftrightarrow> path = folder \<or> str_prefix (folder @ ''/'') path"

definition PROHIBITED_PREFIXES :: "string list" where "PROHIBITED_PREFIXES = [''/tmp'', ''/srv/qnty'']"

definition canonical_location :: "string \<Rightarrow> string \<Rightarrow> registry_error + string" where
  "canonical_location store_id sha = rbind (require_str STORE_ID_RE (JStr store_id)) (\<lambda>_. rbind (require_sha256 (JStr sha)) (\<lambda>_.
     Inr (location_prefix @ store_id @ ''/sha256/'' @ sha)))"

definition require_canonical_location :: "json \<Rightarrow> registry_error + (string \<times> string \<times> string)" where
  \<comment> \<open>the location and the two groups of its match\<close>
  "require_canonical_location v = rbind (require_str (\<lambda>_. True) v) (\<lambda>location.
     rbind (fail_unless (\<forall>p \<in> set PROHIBITED_PREFIXES. \<not> is_under location p) ()) (\<lambda>_.
     case CANONICAL_LOCATION_RE location of None \<Rightarrow> Inl RegistryViolation | Some (store_id, sha) \<Rightarrow> Inr (location, store_id, sha)))"

section \<open>The store registry\<close>

record store_entry =
  se_backend_kind :: string
  se_failure_domain :: string
  se_read_enabled :: bool
  se_root_variable :: string
  se_store_id :: string
  se_write_enabled :: bool

definition STORE_REGISTRY_KEYS :: "string list" where "STORE_REGISTRY_KEYS = [''schema_version'', ''store_registry_kind'', ''stores'']"

definition STORE_KEYS :: "string list" where
  "STORE_KEYS = [''backend_kind'', ''failure_domain'', ''read_enabled'', ''root_environment_variable'', ''store_id'', ''write_enabled'']"

definition store_entry_of :: "string list \<Rightarrow> string list \<Rightarrow> json \<Rightarrow> registry_error + store_entry" where
  "store_entry_of seen_ids seen_variables v = rbind (require_exact_keys v STORE_KEYS) (\<lambda>d. rbind (require_str STORE_ID_RE (get d ''store_id'')) (\<lambda>sid.
     rbind (fail_unless (sid \<notin> set seen_ids) ()) (\<lambda>_. rbind (require_str BACKEND_KIND_RE (get d ''backend_kind'')) (\<lambda>backend.
     rbind (require_str FAILURE_DOMAIN_RE (get d ''failure_domain'')) (\<lambda>domain.
     rbind (require_str ENV_VAR_RE (get d ''root_environment_variable'')) (\<lambda>var. rbind (fail_unless (var \<notin> set seen_variables) ()) (\<lambda>_.
     rbind (require_bool (get d ''read_enabled'')) (\<lambda>rd. rbind (require_bool (get d ''write_enabled'')) (\<lambda>wr.
     Inr \<lparr>se_backend_kind = backend, se_failure_domain = domain, se_read_enabled = rd, se_root_variable = var, se_store_id = sid, se_write_enabled = wr\<rparr>)))))))))"

fun store_entries :: "string list \<Rightarrow> string list \<Rightarrow> json list \<Rightarrow> registry_error + store_entry list" where
  "store_entries seen_ids seen_variables [] = Inr []"
| "store_entries seen_ids seen_variables (v # vs) = rbind (store_entry_of seen_ids seen_variables v) (\<lambda>s.
     rbind (store_entries (se_store_id s # seen_ids) (se_root_variable s # seen_variables) vs) (\<lambda>ss. Inr (s # ss)))"

definition validate_store_registry_bytes :: "string \<Rightarrow> registry_error + store_entry list" where
  "validate_store_registry_bytes data = rbind (load_canonical_document data) (\<lambda>d0. rbind (require_exact_keys (JObj d0) STORE_REGISTRY_KEYS) (\<lambda>d.
     rbind (fail_unless (get d ''store_registry_kind'' = JStr STORE_REGISTRY_KIND \<and> get d ''schema_version'' = JStr REGISTRY_SCHEMA_VERSION) ()) (\<lambda>_.
     case get d ''stores'' of JList vs \<Rightarrow> store_entries [] [] vs | _ \<Rightarrow> Inl RegistryViolation)))"

section \<open>Artifact records\<close>

record copy_record =
  cp_canonical_location :: string
  cp_failure_domain :: string
  cp_manifest_sha256 :: string
  cp_object_count :: int
  cp_store_id :: string

record artifact_record =
  ar_artifact_id :: string
  ar_availability :: string
  ar_copies :: "copy_record list"
  ar_roles :: "string list"
  ar_legacy_fingerprint :: string
  ar_protocol_id :: string
  ar_portable :: "string option"

definition RECORD_KEYS :: "string list" where
  "RECORD_KEYS = [''artifact_id'', ''artifact_record_kind'', ''availability'', ''copies'', ''expected_roles'', ''legacy_bindings'',
     ''portable_manifest_sha256'', ''schema_version'']"

definition LEGACY_BINDING_KEYS :: "string list" where
  "LEGACY_BINDING_KEYS = [''legacy_input_manifest_fingerprint'', ''nested_first_statistic_data_binding'', ''outer_data_cut_fingerprint'', ''protocol_id'']"

definition COPY_KEYS :: "string list" where
  "COPY_KEYS = [''canonical_location'', ''failure_domain'', ''manifest_sha256'', ''object_verification'', ''restore_verification'', ''store_id'']"

definition OBJECT_VERIFICATION_KEYS :: "string list" where "OBJECT_VERIFICATION_KEYS = [''passed'', ''verified_object_count'']"
definition RESTORE_VERIFICATION_KEYS :: "string list" where "RESTORE_VERIFICATION_KEYS = [''passed'', ''restored_manifest_sha256'']"

definition validate_copy :: "json \<Rightarrow> string \<Rightarrow> registry_error + copy_record" where
  "validate_copy v portable = rbind (require_exact_keys v COPY_KEYS) (\<lambda>d. rbind (require_str STORE_ID_RE (get d ''store_id'')) (\<lambda>sid.
     rbind (require_str FAILURE_DOMAIN_RE (get d ''failure_domain'')) (\<lambda>domain. rbind (require_sha256 (get d ''manifest_sha256'')) (\<lambda>sha.
     rbind (fail_unless (sha = portable) ()) (\<lambda>_. rbind (require_canonical_location (get d ''canonical_location'')) (\<lambda>(location, lid, lsha).
     rbind (fail_unless (lid = sid \<and> lsha = sha) ()) (\<lambda>_. rbind (require_exact_keys (get d ''object_verification'') OBJECT_VERIFICATION_KEYS) (\<lambda>ov.
     rbind (require_bool (get ov ''passed'')) (\<lambda>verified. rbind (fail_unless verified ()) (\<lambda>_. rbind (require_int (get ov ''verified_object_count'')) (\<lambda>n.
     rbind (fail_unless (1 \<le> n) ()) (\<lambda>_. rbind (require_exact_keys (get d ''restore_verification'') RESTORE_VERIFICATION_KEYS) (\<lambda>rv.
     rbind (require_bool (get rv ''passed'')) (\<lambda>restored. rbind (fail_unless restored ()) (\<lambda>_.
     rbind (require_sha256 (get rv ''restored_manifest_sha256'')) (\<lambda>rsha. rbind (fail_unless (rsha = portable) ()) (\<lambda>_.
     Inr \<lparr>cp_canonical_location = location, cp_failure_domain = domain, cp_manifest_sha256 = sha, cp_object_count = n, cp_store_id = sid\<rparr>)))))))))))))))))"

fun validate_copies :: "string \<Rightarrow> string list \<Rightarrow> string list \<Rightarrow> json list \<Rightarrow> registry_error + copy_record list" where
  "validate_copies portable seen_ids seen_locations [] = Inr []"
| "validate_copies portable seen_ids seen_locations (v # vs) = rbind (validate_copy v portable) (\<lambda>c.
     rbind (fail_unless (cp_store_id c \<notin> set seen_ids \<and> cp_canonical_location c \<notin> set seen_locations) ()) (\<lambda>_.
     rbind (validate_copies portable (cp_store_id c # seen_ids) (cp_canonical_location c # seen_locations) vs) (\<lambda>cs. Inr (c # cs))))"

definition legacy_bindings_of :: "json \<Rightarrow> registry_error + (string \<times> string)" where
  "legacy_bindings_of v = rbind (require_exact_keys v LEGACY_BINDING_KEYS) (\<lambda>d. rbind (require_sha256 (get d ''legacy_input_manifest_fingerprint'')) (\<lambda>fp.
     rbind (require_sha256 (get d ''outer_data_cut_fingerprint'')) (\<lambda>_. rbind (require_sha256 (get d ''nested_first_statistic_data_binding'')) (\<lambda>_.
     rbind (require_str (\<lambda>_. True) (get d ''protocol_id'')) (\<lambda>pid. Inr (fp, pid))))))"

definition expected_roles_of :: "json \<Rightarrow> registry_error + string list" where
  "expected_roles_of v = (case v of JList vs \<Rightarrow> rbind (fail_unless (vs \<noteq> []) ()) (\<lambda>_. rbind (rmap (require_str ROLE_RE) vs) (\<lambda>roles.
     fail_unless (sort roles = roles \<and> distinct roles) roles)) | _ \<Rightarrow> Inl RegistryViolation)"

definition portable_of :: "json \<Rightarrow> registry_error + string option" where
  "portable_of v = (case v of JNull \<Rightarrow> Inr None | _ \<Rightarrow> rbind (require_sha256 v) (\<lambda>s. Inr (Some s)))"

definition copies_of :: "json \<Rightarrow> string option \<Rightarrow> registry_error + copy_record list" where
  "copies_of v portable = (case v of JList vs \<Rightarrow> (case portable of
       None \<Rightarrow> fail_unless (vs = []) [] | Some p \<Rightarrow> validate_copies p [] [] vs) | _ \<Rightarrow> Inl RegistryViolation)"

definition availability_ok :: "string \<Rightarrow> string option \<Rightarrow> copy_record list \<Rightarrow> bool" where
  "availability_ok availability portable copies \<longleftrightarrow> (if availability = ''UNAVAILABLE'' then copies = []
     else portable \<noteq> None \<and> 2 \<le> length copies \<and> 2 \<le> length (remdups (map cp_failure_domain copies)))"

definition validate_artifact_record_bytes :: "string \<Rightarrow> string option \<Rightarrow> registry_error + artifact_record" where
  "validate_artifact_record_bytes data expected_id = rbind (load_canonical_document data) (\<lambda>d0. rbind (require_exact_keys (JObj d0) RECORD_KEYS) (\<lambda>d.
     rbind (fail_unless (get d ''artifact_record_kind'' = JStr ARTIFACT_RECORD_KIND \<and> get d ''schema_version'' = JStr REGISTRY_SCHEMA_VERSION) ()) (\<lambda>_.
     rbind (require_str ARTIFACT_ID_RE (get d ''artifact_id'')) (\<lambda>aid. rbind (fail_unless (expected_id \<in> {None, Some aid}) ()) (\<lambda>_.
     rbind (require_str (\<lambda>_. True) (get d ''availability'')) (\<lambda>av. rbind (fail_unless (av \<in> {''UNAVAILABLE'', ''VERIFIED_AVAILABLE''}) ()) (\<lambda>_.
     rbind (legacy_bindings_of (get d ''legacy_bindings'')) (\<lambda>(fp, pid). rbind (expected_roles_of (get d ''expected_roles'')) (\<lambda>roles.
     rbind (portable_of (get d ''portable_manifest_sha256'')) (\<lambda>portable. rbind (copies_of (get d ''copies'') portable) (\<lambda>copies.
     rbind (fail_unless (availability_ok av portable copies) ()) (\<lambda>_.
     Inr \<lparr>ar_artifact_id = aid, ar_availability = av, ar_copies = copies, ar_roles = roles, ar_legacy_fingerprint = fp, ar_protocol_id = pid,
       ar_portable = portable\<rparr>))))))))))))"

section \<open>Cross checks\<close>

definition stores_by_id :: "store_entry list \<Rightarrow> string \<Rightarrow> store_entry option" where
  \<comment> \<open>the dict comprehension: the last entry of an id\<close>
  "stores_by_id stores sid = map_of (rev (map (\<lambda>s. (se_store_id s, s)) stores)) sid"

fun cross_check_copies_against_stores :: "store_entry list \<Rightarrow> copy_record list \<Rightarrow> registry_error + unit" where
  "cross_check_copies_against_stores stores [] = Inr ()"
| "cross_check_copies_against_stores stores (c # cs) = (case stores_by_id stores (cp_store_id c) of None \<Rightarrow> Inl RegistryViolation
     | Some s \<Rightarrow> rbind (fail_unless (se_failure_domain s = cp_failure_domain c) ()) (\<lambda>_. cross_check_copies_against_stores stores cs))"

record receipt_artifact =
  rc_artifact_id :: string
  rc_expected_manifest_sha256 :: string
  rc_availability :: string
  rc_verified_copy_count :: int
  rc_canonical_paths :: "string list"

definition cross_check_receipt_artifact :: "receipt_artifact \<Rightarrow> artifact_record \<Rightarrow> store_entry list \<Rightarrow> registry_error + unit" where
  "cross_check_receipt_artifact r a stores = rbind (fail_unless (ar_artifact_id a = rc_artifact_id r) ()) (\<lambda>_.
     rbind (fail_unless (ar_legacy_fingerprint a = rc_expected_manifest_sha256 r) ()) (\<lambda>_. rbind (fail_unless (ar_availability a = rc_availability r) ()) (\<lambda>_.
     rbind (fail_unless (int (length (ar_copies a)) = rc_verified_copy_count r) ()) (\<lambda>_.
     rbind (fail_unless (sort (map cp_canonical_location (ar_copies a)) = sort (rc_canonical_paths r)) ()) (\<lambda>_.
     rbind (fail_unless (\<not> (ar_availability a = ''VERIFIED_AVAILABLE'' \<and> ar_portable a = None)) ()) (\<lambda>_.
     cross_check_copies_against_stores stores (ar_copies a)))))))"

section \<open>The committed tree\<close>

record tree_record =
  tr_record :: artifact_record
  tr_relpath :: string
  tr_sha256 :: string

record registry_tree =
  rt_records :: "tree_record list"
  rt_stores :: "store_entry list"

fun tree_records :: "store_entry list \<Rightarrow> (string \<times> string) list \<Rightarrow> registry_error + tree_record list" where
  \<comment> \<open>the \<open>*.json\<close> files of the records directory, each given by its stem, in the order given\<close>
  "tree_records stores [] = Inr []"
| "tree_records stores ((stem, data) # files) = (if stem = ''stores'' then tree_records stores files else
     rbind (validate_artifact_record_bytes data (Some stem)) (\<lambda>a. rbind (cross_check_copies_against_stores stores (ar_copies a)) (\<lambda>_.
     rbind (tree_records stores files) (\<lambda>rest. Inr (\<lparr>tr_record = a, tr_relpath = ''docs/artifacts/'' @ stem @ ''.json'', tr_sha256 = sha256_hex data\<rparr> # rest)))))"

definition validate_registry_tree :: "string option \<Rightarrow> (string \<times> string) list \<Rightarrow> registry_error + registry_tree" where
  "validate_registry_tree registry files = (case registry of None \<Rightarrow> Inl RegistryViolation
     | Some data \<Rightarrow> rbind (validate_store_registry_bytes data) (\<lambda>stores. rbind (tree_records stores (sort_key (\<lambda>f. fst f @ ''.json'') files)) (\<lambda>records.
         fail_unless (records \<noteq> []) \<lparr>rt_records = records, rt_stores = stores\<rparr>)))"

section \<open>Live verification\<close>

record opened_root =
  op_resolved :: string
  op_device :: int
  op_inode :: int
  op_store :: store

definition require_allowed_canonical_root :: "string \<Rightarrow> registry_error + string" where
  "require_allowed_canonical_root resolved = (if \<exists>p \<in> set PROHIBITED_PREFIXES. is_under resolved p then Inl (StoreError StoreViolation) else Inr resolved)"

definition open_store_root :: "(string \<Rightarrow> opened_root option) \<Rightarrow> string \<Rightarrow> registry_error + opened_root" where
  \<comment> \<open>\<open>None\<close>: the path is no directory that can be opened and pinned\<close>
  "open_store_root open_root configured = (case open_root configured of None \<Rightarrow> Inl (StoreError StoreViolation)
     | Some root_dir \<Rightarrow> rbind (require_allowed_canonical_root (op_resolved root_dir)) (\<lambda>_. Inr root_dir))"

type_synonym used_roots = "(string, store_entry \<times> opened_root) dict"

definition open_copy :: "(string \<Rightarrow> string option) \<Rightarrow> (string \<Rightarrow> opened_root option) \<Rightarrow> store_entry list \<Rightarrow> copy_record \<Rightarrow> used_roots \<Rightarrow> registry_error + used_roots" where
  "open_copy env open_root stores c used = (case stores_by_id stores (cp_store_id c) of None \<Rightarrow> Inl (RegistryOther (KeyError (cp_store_id c)))
     | Some s \<Rightarrow> rbind (fail_unless (se_read_enabled s \<and> se_backend_kind s = ''filesystem'') ()) (\<lambda>_.
         case env (se_root_variable s) of None \<Rightarrow> Inl RegistryViolation | Some configured \<Rightarrow> rbind (fail_unless (configured \<noteq> []) ()) (\<lambda>_.
           if dict_get used (se_store_id s) \<noteq> None then Inr used
           else rbind (open_store_root open_root configured) (\<lambda>r. Inr (dict_set (se_store_id s) (s, r) used)))))"

abbreviation live_copies :: "tree_record list \<Rightarrow> (artifact_record \<times> copy_record) list" where
  \<comment> \<open>the copies of the records that claim VERIFIED_AVAILABLE, in the order of the two nested loops\<close>
  "live_copies records \<equiv> concat (map (\<lambda>e. if ar_availability (tr_record e) = ''VERIFIED_AVAILABLE''
     then map (Pair (tr_record e)) (ar_copies (tr_record e)) else []) records)"

fun independent_roots :: "(store_entry \<times> opened_root) list \<Rightarrow> bool" where
  "independent_roots [] \<longleftrightarrow> True"
| "independent_roots (l # rest) \<longleftrightarrow> (\<forall>r \<in> set rest. se_root_variable (fst l) \<noteq> se_root_variable (fst r)
     \<and> (op_device (snd l), op_inode (snd l)) \<noteq> (op_device (snd r), op_inode (snd r)) \<and> op_device (snd l) \<noteq> op_device (snd r)) \<and> independent_roots rest"

definition verify_live_copy :: "used_roots \<Rightarrow> artifact_record \<times> copy_record \<Rightarrow> registry_error + unit" where
  "verify_live_copy used ac = (case dict_get used (cp_store_id (snd ac)) of None \<Rightarrow> Inl (RegistryOther (KeyError (cp_store_id (snd ac))))
     | Some (s, r) \<Rightarrow> (case verify_copy (op_store r) (cp_manifest_sha256 (snd ac)) of Inl e \<Rightarrow> Inl (StoreError e)
         | Inr report \<Rightarrow> fail_unless (cr_artifact_id report = ar_artifact_id (fst ac) \<and> cr_verified_objects report = cp_object_count (snd ac)) ()))"

definition verify_registry_tree ::
    "(string \<Rightarrow> string option) \<Rightarrow> (string \<Rightarrow> opened_root option) \<Rightarrow> registry_tree \<Rightarrow> registry_error + registry_tree" where
  \<comment> \<open>\<open>validate_operational_registry\<close> called with a validated tree, as the command line does\<close>
  "verify_registry_tree env open_root tree =
     rbind (rfold (\<lambda>ac. open_copy env open_root (rt_stores tree) (snd ac)) (live_copies (rt_records tree)) []) (\<lambda>used.
     rbind (fail_unless (independent_roots (map snd used)) ()) (\<lambda>_.
     rbind (rmap (verify_live_copy used) (live_copies (rt_records tree))) (\<lambda>_. Inr tree)))"

definition validate_operational_registry ::
    "(string \<Rightarrow> string option) \<Rightarrow> (string \<Rightarrow> opened_root option) \<Rightarrow> string option \<Rightarrow> (string \<times> string) list \<Rightarrow> registry_error + registry_tree" where
  \<comment> \<open>called without a tree\<close>
  "validate_operational_registry env open_root registry files =
     rbind (validate_registry_tree registry files) (verify_registry_tree env open_root)"

section \<open>What a validated tree promises\<close>

lemma fail_unless_Inr [simp]: "fail_unless b x = Inr y \<longleftrightarrow> b \<and> y = x"
  by (auto simp: fail_unless_def)

lemma str_prefix_split: "str_prefix p s \<Longrightarrow> s = p @ drop (length p) s"
  unfolding str_prefix_def by (metis append_take_drop_id)

lemma location_Inr: "require_canonical_location v = Inr (location, sid, sha) \<Longrightarrow> location = location_prefix @ sid @ ''/sha256/'' @ sha \<and> canonical_location sid sha = Inr location"
proof -
  assume "require_canonical_location v = Inr (location, sid, sha)"
  then have "CANONICAL_LOCATION_RE location = Some (sid, sha)"
    by (auto simp: require_canonical_location_def rbind_Inr_iff split: option.splits)
  then have match: "str_prefix location_prefix location" "sid = takeWhile (\<lambda>c. c \<noteq> CHR ''/'') (drop (length location_prefix) location)" "STORE_ID_RE sid"
    "str_prefix ''/sha256/'' (dropWhile (\<lambda>c. c \<noteq> CHR ''/'') (drop (length location_prefix) location))"
    "sha = drop 8 (dropWhile (\<lambda>c. c \<noteq> CHR ''/'') (drop (length location_prefix) location))" "lower_hex 64 sha"
    by (auto simp: CANONICAL_LOCATION_RE_def Let_def split: if_splits)
  define rest where "rest = drop (length location_prefix) location"
  have rest: "location = location_prefix @ rest" using match(1) unfolding rest_def by (rule str_prefix_split)
  have "dropWhile (\<lambda>c. c \<noteq> CHR ''/'') rest = ''/sha256/'' @ sha" using str_prefix_split[OF match(4)] match(5)
    by (simp add: rest_def numeral_eq_Suc)
  then have "rest = sid @ ''/sha256/'' @ sha" using takeWhile_dropWhile_id[of "\<lambda>c. c \<noteq> CHR ''/''" rest] match(2) by (simp add: rest_def)
  moreover have "sid \<noteq> []" using match(3) by (auto simp: STORE_ID_RE_def fullmatch_def)
  ultimately show ?thesis using rest match(3,6) by (simp add: canonical_location_def require_str_def require_sha256_def fail_unless_def)
qed

lemma validate_copy_Inr: "validate_copy v portable = Inr c \<Longrightarrow> cp_manifest_sha256 c = portable
    \<and> canonical_location (cp_store_id c) portable = Inr (cp_canonical_location c)"
  by (auto simp: validate_copy_def rbind_Inr_iff dest!: location_Inr split: prod.splits)

lemma validate_copies_Inr: "validate_copies portable ids locs vs = Inr cs \<Longrightarrow> distinct (map cp_store_id cs) \<and> set (map cp_store_id cs) \<inter> set ids = {}
    \<and> (\<forall>c \<in> set cs. cp_manifest_sha256 c = portable \<and> canonical_location (cp_store_id c) portable = Inr (cp_canonical_location c))"
proof (induction vs arbitrary: ids locs cs)
  case (Cons v vs)
  then obtain c cs' where c: "validate_copy v portable = Inr c" "cp_store_id c \<notin> set ids" "cs = c # cs'"
    and rest: "validate_copies portable (cp_store_id c # ids) (cp_canonical_location c # locs) vs = Inr cs'"
    by (auto simp: rbind_Inr_iff)
  show ?case using Cons.IH[OF rest] validate_copy_Inr[OF c(1)] c(2,3) by auto
qed simp

definition copies_bound :: "artifact_record \<Rightarrow> string \<Rightarrow> bool" where
  "copies_bound a portable \<longleftrightarrow> ar_portable a = Some portable \<and> 2 \<le> length (ar_copies a) \<and> distinct (map cp_store_id (ar_copies a))
     \<and> 2 \<le> card (cp_failure_domain ` set (ar_copies a))
     \<and> (\<forall>c \<in> set (ar_copies a). cp_manifest_sha256 c = portable \<and> canonical_location (cp_store_id c) portable = Inr (cp_canonical_location c))"

lemma record_bound:
  assumes "validate_artifact_record_bytes data expected = Inr a" "ar_availability a = ''VERIFIED_AVAILABLE''"
  shows "\<exists>portable. copies_bound a portable"
proof -
  obtain v where a: "copies_of v (ar_portable a) = Inr (ar_copies a)" "availability_ok (ar_availability a) (ar_portable a) (ar_copies a)"
    using assms(1) by (auto simp: validate_artifact_record_bytes_def rbind_Inr_iff split: prod.splits)
  then obtain portable where p: "ar_portable a = Some portable" "2 \<le> length (ar_copies a)" "2 \<le> length (remdups (map cp_failure_domain (ar_copies a)))"
    using assms(2) by (auto simp: availability_ok_def)
  then have "\<exists>vs. validate_copies portable [] [] vs = Inr (ar_copies a)" using a(1) by (auto simp: copies_of_def split: json.splits)
  then show ?thesis using validate_copies_Inr[of portable "[]" "[]" _ "ar_copies a"] p
    by (auto simp: copies_bound_def length_remdups_card_conv)
qed

lemma stores_by_id_Some: "stores_by_id stores sid = Some s \<Longrightarrow> s \<in> set stores \<and> se_store_id s = sid"
  by (auto simp: stores_by_id_def dest!: map_of_SomeD)

lemma cross_check_Inr: "cross_check_copies_against_stores stores cs = Inr () \<Longrightarrow> c \<in> set cs
    \<Longrightarrow> \<exists>s. stores_by_id stores (cp_store_id c) = Some s \<and> se_failure_domain s = cp_failure_domain c"
  by (induction cs) (auto simp: rbind_Inr_iff split: option.splits)

lemma tree_records_Inr: "tree_records stores files = Inr es \<Longrightarrow> e \<in> set es
    \<Longrightarrow> \<exists>stem data. (stem, data) \<in> set files \<and> validate_artifact_record_bytes data (Some stem) = Inr (tr_record e) \<and> tr_sha256 e = sha256_hex data
      \<and> cross_check_copies_against_stores stores (ar_copies (tr_record e)) = Inr ()"
proof (induction files arbitrary: es)
  case (Cons f files)
  obtain stem data where f: "f = (stem, data)" by fastforce
  show ?case
  proof (cases "stem = ''stores''")
    case True
    then show ?thesis using Cons by (auto simp: f)
  next
    case False
    then obtain a rest where first: "validate_artifact_record_bytes data (Some stem) = Inr a" "cross_check_copies_against_stores stores (ar_copies a) = Inr ()"
      "tree_records stores files = Inr rest" "es = \<lparr>tr_record = a, tr_relpath = ''docs/artifacts/'' @ stem @ ''.json'', tr_sha256 = sha256_hex data\<rparr> # rest"
      using Cons.prems(1) by (auto simp: f rbind_Inr_iff)
    show ?thesis
    proof (cases "e \<in> set rest")
      case True
      then show ?thesis using Cons.IH[OF first(3)] by (auto simp: f)
    next
      case False
      then have "e = \<lparr>tr_record = a, tr_relpath = ''docs/artifacts/'' @ stem @ ''.json'', tr_sha256 = sha256_hex data\<rparr>" using Cons.prems(2) first(4) by simp
      then show ?thesis using first(1,2) by (intro exI[of _ stem] exI[of _ data]) (simp add: f)
    qed
  qed
qed simp

definition root_opened :: "(string \<Rightarrow> string option) \<Rightarrow> (string \<Rightarrow> opened_root option) \<Rightarrow> store_entry list \<Rightarrow> string \<Rightarrow> store_entry \<times> opened_root \<Rightarrow> bool" where
  "root_opened env open_root stores sid sr \<longleftrightarrow> stores_by_id stores sid = Some (fst sr)
     \<and> (\<exists>configured. env (se_root_variable (fst sr)) = Some configured \<and> open_root configured = Some (snd sr))
     \<and> se_read_enabled (fst sr) \<and> se_backend_kind (fst sr) = ''filesystem'' \<and> (\<forall>p \<in> set PROHIBITED_PREFIXES. \<not> is_under (op_resolved (snd sr)) p)"

definition all_opened :: "(string \<Rightarrow> string option) \<Rightarrow> (string \<Rightarrow> opened_root option) \<Rightarrow> store_entry list \<Rightarrow> used_roots \<Rightarrow> bool" where
  "all_opened env open_root stores used \<longleftrightarrow> dict_ok used \<and> (\<forall>sid sr. dict_get used sid = Some sr \<longrightarrow> root_opened env open_root stores sid sr)"

lemma open_copy_opened:
  assumes "open_copy env open_root stores c used = Inr used'" "all_opened env open_root stores used"
  shows "all_opened env open_root stores used'"
proof -
  obtain s configured where s: "stores_by_id stores (cp_store_id c) = Some s" "se_read_enabled s" "se_backend_kind s = ''filesystem''"
    "env (se_root_variable s) = Some configured"
    and cont: "(if dict_get used (se_store_id s) \<noteq> None then Inr used
           else rbind (open_store_root open_root configured) (\<lambda>r. Inr (dict_set (se_store_id s) (s, r) used))) = Inr used'"
    using assms(1) by (auto simp: open_copy_def rbind_Inr_iff split: option.splits)
  show ?thesis
  proof (cases "dict_get used (se_store_id s)")
    case None
    then obtain r where r: "open_root configured = Some r" "\<forall>p \<in> set PROHIBITED_PREFIXES. \<not> is_under (op_resolved r) p" "used' = dict_set (se_store_id s) (s, r) used"
      using cont by (auto simp: open_store_root_def require_allowed_canonical_root_def rbind_Inr_iff split: option.splits if_splits)
    have "root_opened env open_root stores (se_store_id s) (s, r)"
      using s r stores_by_id_Some[OF s(1)] by (auto simp: root_opened_def)
    then show ?thesis using assms(2) unfolding all_opened_def r(3) by (auto simp: update_conv distinct_update)
  qed (use cont assms(2) in auto)
qed

lemma independent_devices:
  assumes "independent_roots (map snd used)" "dict_get used i = Some (s, r)" "dict_get used j = Some (s', r')" "i \<noteq> j"
  shows "op_device r \<noteq> op_device r'"
  using assms(1) map_of_SomeD[OF assms(2)] map_of_SomeD[OF assms(3)] assms(4)
proof (induction used)
  case (Cons u used)
  then show ?case by (auto dest: sym)
qed simp

lemma verify_all: "rmap (verify_live_copy used) acs = Inr us \<Longrightarrow> (a, c) \<in> set acs \<Longrightarrow> \<exists>s r report. dict_get used (cp_store_id c) = Some (s, r)
    \<and> verify_copy (op_store r) (cp_manifest_sha256 c) = Inr report \<and> cr_artifact_id report = ar_artifact_id a \<and> cr_verified_objects report = cp_object_count c"
  by (induction acs arbitrary: us) (auto simp: rbind_Inr_iff verify_live_copy_def split: option.splits sum.splits)

lemma verify_copy_sha: "verify_copy st sha = Inr report \<Longrightarrow> cr_manifest_sha256 report = sha"
  by (auto simp: verify_copy_iff)

text \<open>
  C25. When the live verification of the registry succeeds, an artifact recorded VERIFIED_AVAILABLE is available: it has at least two copies, in stores with
  pairwise different ids and in at least two failure domains; each copy is bound by its canonical location to the record's manifest and its store is registered
  with that failure domain, enabled for reading, outside the prohibited locations, and now holds a manifest of this artifact id and file
  count with the bytes of every object; and no two of these stores lie on one device.
\<close>

theorem available_artifacts_verify:
  assumes "validate_operational_registry env open_root registry files = Inr tree" "e \<in> set (rt_records tree)"
    "ar_availability (tr_record e) = ''VERIFIED_AVAILABLE''"
  shows "\<exists>portable root_of. copies_bound (tr_record e) portable
    \<and> (\<forall>c \<in> set (ar_copies (tr_record e)). \<exists>s. s \<in> set (rt_stores tree) \<and> se_store_id s = cp_store_id c \<and> se_failure_domain s = cp_failure_domain c
        \<and> root_opened env open_root (rt_stores tree) (cp_store_id c) (s, root_of c)
        \<and> verify_copy (op_store (root_of c)) portable
            = Inr \<lparr>cr_artifact_id = ar_artifact_id (tr_record e), cr_manifest_sha256 = portable, cr_verified_objects = cp_object_count c\<rparr>)
    \<and> inj_on (\<lambda>c. op_device (root_of c)) (set (ar_copies (tr_record e)))"
proof -
  let ?acs = "live_copies (rt_records tree)"
  let ?cs = "ar_copies (tr_record e)"
  obtain used us where tree: "validate_registry_tree registry files = Inr tree"
    and used: "rfold (\<lambda>ac. open_copy env open_root (rt_stores tree) (snd ac)) ?acs [] = Inr used"
    and apart: "independent_roots (map snd used)" and live: "rmap (verify_live_copy used) ?acs = Inr us"
    using assms(1) by (auto simp: validate_operational_registry_def verify_registry_tree_def rbind_Inr_iff)
  obtain fs where "tree_records (rt_stores tree) fs = Inr (rt_records tree)"
    using tree by (auto simp: validate_registry_tree_def rbind_Inr_iff split: option.splits)
  then obtain stem data where rcd: "validate_artifact_record_bytes data (Some stem) = Inr (tr_record e)"
    "cross_check_copies_against_stores (rt_stores tree) ?cs = Inr ()"
    using tree_records_Inr assms(2) by blast
  obtain portable where bound: "copies_bound (tr_record e) portable" using record_bound[OF rcd(1) assms(3)] by blast
  have opened: "all_opened env open_root (rt_stores tree) used"
  proof (rule rfold_invariant[OF used])
    show "all_opened env open_root (rt_stores tree) []" by (simp add: all_opened_def)
  qed (rule open_copy_opened)
  define root_of where "root_of = (\<lambda>c :: copy_record. snd (the (dict_get used (cp_store_id c))))"
  have each: "\<exists>s. dict_get used (cp_store_id c) = Some (s, root_of c) \<and> stores_by_id (rt_stores tree) (cp_store_id c) = Some s \<and> se_failure_domain s = cp_failure_domain c
      \<and> root_opened env open_root (rt_stores tree) (cp_store_id c) (s, root_of c) \<and> verify_copy (op_store (root_of c)) portable
          = Inr \<lparr>cr_artifact_id = ar_artifact_id (tr_record e), cr_manifest_sha256 = portable, cr_verified_objects = cp_object_count c\<rparr>"
    if c: "c \<in> set ?cs" for c
  proof -
    have mem: "(tr_record e, c) \<in> set ?acs" using assms(2,3) c by auto
    have sha: "cp_manifest_sha256 c = portable" using bound c unfolding copies_bound_def by blast
    obtain s r report where v: "dict_get used (cp_store_id c) = Some (s, r)"
      "verify_copy (op_store r) portable = Inr report" "cr_artifact_id report = ar_artifact_id (tr_record e)" "cr_verified_objects report = cp_object_count c"
      using verify_all[OF live mem] unfolding sha by blast
    have r: "root_of c = r" using v(1) by (simp add: root_of_def)
    have o: "root_opened env open_root (rt_stores tree) (cp_store_id c) (s, r)" using opened v(1) by (auto simp: all_opened_def)
    then have s: "stores_by_id (rt_stores tree) (cp_store_id c) = Some s" by (simp add: root_opened_def)
    have "report = \<lparr>cr_artifact_id = ar_artifact_id (tr_record e), cr_manifest_sha256 = portable, cr_verified_objects = cp_object_count c\<rparr>"
      using v(3,4) verify_copy_sha[OF v(2)] by (cases report) simp
    then show ?thesis using v(1,2) o s cross_check_Inr[OF rcd(2) c] unfolding r by (intro exI[of _ s]) simp
  qed
  have "inj_on (\<lambda>c. op_device (root_of c)) (set ?cs)"
  proof (rule inj_onI)
    fix c c'
    assume c: "c \<in> set ?cs" "c' \<in> set ?cs" "op_device (root_of c) = op_device (root_of c')"
    have "cp_store_id c = cp_store_id c'" using each[OF c(1)] each[OF c(2)] c(3) independent_devices[OF apart] by metis
    then show "c = c'" using bound c(1,2) by (auto simp: copies_bound_def distinct_map inj_on_def)
  qed
  then show ?thesis using bound each stores_by_id_Some by (intro exI[of _ portable] exI[of _ root_of]) blast
qed

section \<open>A registry\<close>

lemma load_canonical_doc:
  assumes "storable (JObj d)" "key_sorted (JObj d) = JObj d"
  shows "load_canonical_document (canonical_json_dumps (JObj d)) = Inr d"
proof -
  let ?data = "canonical_json_dumps (JObj d)"
  have "utf8_decode ?data = Text ?data" by (rule utf8_decode_ascii[OF canonical_ascii])
  moreover have "json_loads ?data = Inr (JObj d)"
    using loads_canonical[OF plain_hook_honest assms(1)] unfolding json_loads_def assms(2) .
  moreover have "\<not> ends_with CHR 0x0A ?data" by (simp add: ends_with_def)
  ultimately show ?thesis by (simp add: load_canonical_document_def fail_unless_def del: canonical_json_dumps.simps)
qed

definition fx_store_doc :: "string \<Rightarrow> string \<Rightarrow> string \<Rightarrow> json" where
  "fx_store_doc sid domain var = JObj [(''backend_kind'', JStr ''filesystem''), (''failure_domain'', JStr domain), (''read_enabled'', JBool True),
     (''root_environment_variable'', JStr var), (''store_id'', JStr sid), (''write_enabled'', JBool False)]"

definition fx_registry_doc :: row where
  "fx_registry_doc = [(''schema_version'', JStr REGISTRY_SCHEMA_VERSION), (''store_registry_kind'', JStr STORE_REGISTRY_KIND),
     (''stores'', JList [fx_store_doc ''a'' ''home'' ''QA'', fx_store_doc ''b'' ''cloud'' ''QB''])]"

definition fx_copy_doc :: "string \<Rightarrow> string \<Rightarrow> string \<Rightarrow> json" where
  "fx_copy_doc sid domain sha = JObj [(''canonical_location'', JStr (location_prefix @ sid @ ''/sha256/'' @ sha)), (''failure_domain'', JStr domain),
     (''manifest_sha256'', JStr sha), (''object_verification'', JObj [(''passed'', JBool True), (''verified_object_count'', JInt 2)]),
     (''restore_verification'', JObj [(''passed'', JBool True), (''restored_manifest_sha256'', JStr sha)]), (''store_id'', JStr sid)]"

definition fx_record_doc :: "string \<Rightarrow> row" where
  "fx_record_doc sha = [(''artifact_id'', JStr ''h001''), (''artifact_record_kind'', JStr ARTIFACT_RECORD_KIND), (''availability'', JStr ''VERIFIED_AVAILABLE''),
     (''copies'', JList [fx_copy_doc ''a'' ''home'' sha, fx_copy_doc ''b'' ''cloud'' sha]), (''expected_roles'', JList [JStr ''raw'']),
     (''legacy_bindings'', JObj [(''legacy_input_manifest_fingerprint'', JStr sha), (''nested_first_statistic_data_binding'', JStr sha),
       (''outer_data_cut_fingerprint'', JStr sha), (''protocol_id'', JStr ''P1'')]),
     (''portable_manifest_sha256'', JStr sha), (''schema_version'', JStr REGISTRY_SCHEMA_VERSION)]"

definition fx_stores :: "store_entry list" where
  "fx_stores = [\<lparr>se_backend_kind = ''filesystem'', se_failure_domain = ''home'', se_read_enabled = True, se_root_variable = ''QA'', se_store_id = ''a'', se_write_enabled = False\<rparr>,
     \<lparr>se_backend_kind = ''filesystem'', se_failure_domain = ''cloud'', se_read_enabled = True, se_root_variable = ''QB'', se_store_id = ''b'', se_write_enabled = False\<rparr>]"

definition fx_copy :: "string \<Rightarrow> string \<Rightarrow> string \<Rightarrow> copy_record" where
  "fx_copy sid domain sha = \<lparr>cp_canonical_location = location_prefix @ sid @ ''/sha256/'' @ sha, cp_failure_domain = domain, cp_manifest_sha256 = sha,
     cp_object_count = 2, cp_store_id = sid\<rparr>"

definition fx_record :: "string \<Rightarrow> artifact_record" where
  "fx_record sha = \<lparr>ar_artifact_id = ''h001'', ar_availability = ''VERIFIED_AVAILABLE'', ar_copies = [fx_copy ''a'' ''home'' sha, fx_copy ''b'' ''cloud'' sha],
     ar_roles = [''raw''], ar_legacy_fingerprint = sha, ar_protocol_id = ''P1'', ar_portable = Some sha\<rparr>"

lemma fx_names: "STORE_ID_RE ''a''" "STORE_ID_RE ''b''" "BACKEND_KIND_RE ''filesystem''" "FAILURE_DOMAIN_RE ''home''" "FAILURE_DOMAIN_RE ''cloud''"
  "ENV_VAR_RE ''QA''" "ENV_VAR_RE ''QB''" "ROLE_RE ''raw''" "ARTIFACT_ID_RE ''h001''"
  by (code_simp)+

lemma fx_registry_loads: "validate_store_registry_bytes (canonical_json_dumps (JObj fx_registry_doc)) = Inr fx_stores"
proof -
  have "load_canonical_document (canonical_json_dumps (JObj fx_registry_doc)) = Inr fx_registry_doc"
    by (rule load_canonical_doc) (simp_all add: fx_registry_doc_def fx_store_doc_def REGISTRY_SCHEMA_VERSION_def STORE_REGISTRY_KIND_def)
  then show ?thesis using fx_names
    by (simp add: validate_store_registry_bytes_def fx_registry_doc_def fx_store_doc_def store_entry_of_def require_exact_keys_def fail_unless_def
        STORE_REGISTRY_KEYS_def STORE_KEYS_def get_def obj_get_def require_str_def require_bool_def fx_stores_def del: canonical_json_dumps.simps)
qed

lemma fx_location: "lower_hex 64 sha \<Longrightarrow> STORE_ID_RE [c] \<Longrightarrow> c \<noteq> CHR ''/''
    \<Longrightarrow> require_canonical_location (JStr (location_prefix @ [c] @ ''/sha256/'' @ sha)) = Inr (location_prefix @ [c] @ ''/sha256/'' @ sha, [c], sha)"
  by (simp add: require_canonical_location_def require_str_def fail_unless_def PROHIBITED_PREFIXES_def is_under_def str_prefix_def location_prefix_def
      CANONICAL_LOCATION_RE_def Let_def)

lemma fx_copy_loads:
  assumes "lower_hex 64 sha" "STORE_ID_RE [c]" "c \<noteq> CHR ''/''" "domain \<noteq> []" "FAILURE_DOMAIN_RE domain"
  shows "validate_copy (fx_copy_doc [c] domain sha) sha = Inr (fx_copy [c] domain sha)"
  using assms(1,2,4,5) fx_location[OF assms(1-3)]
  by (simp add: validate_copy_def fx_copy_doc_def fx_copy_def require_exact_keys_def COPY_KEYS_def OBJECT_VERIFICATION_KEYS_def RESTORE_VERIFICATION_KEYS_def
      fail_unless_def get_def obj_get_def require_str_def require_sha256_def require_bool_def require_int_def)

lemma fx_record_loads:
  assumes "lower_hex 64 sha" "ascii sha"
  shows "validate_artifact_record_bytes (canonical_json_dumps (JObj (fx_record_doc sha))) (Some ''h001'') = Inr (fx_record sha)"
proof -
  have "length (show_nat 2) \<le> 4300" by (subst show_nat.simps, simp)
  then have "load_canonical_document (canonical_json_dumps (JObj (fx_record_doc sha))) = Inr (fx_record_doc sha)"
    using assms(2) by (intro load_canonical_doc)
      (simp_all add: fx_record_doc_def fx_copy_doc_def REGISTRY_SCHEMA_VERSION_def ARTIFACT_RECORD_KIND_def location_prefix_def)
  moreover have "copies_of (JList [fx_copy_doc ''a'' ''home'' sha, fx_copy_doc ''b'' ''cloud'' sha]) (Some sha)
      = Inr [fx_copy ''a'' ''home'' sha, fx_copy ''b'' ''cloud'' sha]"
    using fx_names assms(1) by (simp add: copies_of_def fx_copy_loads) (simp add: fx_copy_def fail_unless_def location_prefix_def)
  moreover have "availability_ok ''VERIFIED_AVAILABLE'' (Some sha) [fx_copy ''a'' ''home'' sha, fx_copy ''b'' ''cloud'' sha]"
    by (simp add: availability_ok_def fx_copy_def)
  moreover have "portable_of (JStr sha) = Inr (Some sha)" using assms(1) by (simp add: portable_of_def require_sha256_def fail_unless_def)
  ultimately show ?thesis using fx_names assms(1)
    by (simp add: validate_artifact_record_bytes_def fx_record_doc_def require_exact_keys_def fail_unless_def RECORD_KEYS_def LEGACY_BINDING_KEYS_def
        get_def obj_get_def require_str_def require_sha256_def legacy_bindings_of_def expected_roles_of_def fx_record_def del: canonical_json_dumps.simps)
qed

definition fx_root :: "int \<Rightarrow> opened_root" where
  "fx_root device = \<lparr>op_resolved = ''/mnt'', op_device = device, op_inode = 2, op_store = fx_store\<rparr>"

definition fx_tree :: registry_tree where
  "fx_tree = \<lparr>rt_records = [\<lparr>tr_record = fx_record (sha256_hex fx_data), tr_relpath = ''docs/artifacts/h001.json'',
     tr_sha256 = sha256_hex (canonical_json_dumps (JObj (fx_record_doc (sha256_hex fx_data))))\<rparr>], rt_stores = fx_stores\<rparr>"

lemma fx_copy_verifies: "verify_copy fx_store (sha256_hex fx_data) = Inr \<lparr>cr_artifact_id = ''h001'', cr_manifest_sha256 = sha256_hex fx_data, cr_verified_objects = 2\<rparr>"
proof -
  have "\<forall>e \<in> set fx_copies. object_stored fx_store e" by (simp add: fx_copies_def object_stored_def fx_store_def entry_for_def)
  then show ?thesis unfolding verify_copy_iff using fx_manifest by (intro exI[of _ fx_data] exI[of _ fx_portable]) (simp add: fx_store_def fx_portable_def)
qed

lemma fx_operational: "validate_operational_registry Some (\<lambda>p. Some (fx_root (if p = ''QA'' then 1 else 2)))
    (Some (canonical_json_dumps (JObj fx_registry_doc))) [(''h001'', canonical_json_dumps (JObj (fx_record_doc (sha256_hex fx_data))))] = Inr fx_tree"
proof -
  let ?sha = "sha256_hex fx_data"
  let ?used = "[(''a'', (fx_stores ! 0, fx_root 1)), (''b'', (fx_stores ! 1, fx_root 2))]"
  have by_id: "stores_by_id fx_stores ''a'' = Some (fx_stores ! 0)" "stores_by_id fx_stores ''b'' = Some (fx_stores ! 1)"
    by (simp_all add: stores_by_id_def fx_stores_def)
  have "cross_check_copies_against_stores fx_stores (ar_copies (fx_record ?sha)) = Inr ()"
    by (simp add: fx_record_def fx_copy_def by_id fail_unless_def) (simp add: fx_stores_def)
  then have tree: "validate_registry_tree (Some (canonical_json_dumps (JObj fx_registry_doc)))
      [(''h001'', canonical_json_dumps (JObj (fx_record_doc ?sha)))] = Inr fx_tree"
    using fx_record_loads[of ?sha]
    by (simp add: validate_registry_tree_def fx_registry_loads fail_unless_def fx_tree_def del: canonical_json_dumps.simps)
  have acs: "live_copies (rt_records fx_tree) = [(fx_record ?sha, fx_copy ''a'' ''home'' ?sha), (fx_record ?sha, fx_copy ''b'' ''cloud'' ?sha)]"
    by (simp add: fx_tree_def fx_record_def)
  have allowed: "open_store_root (\<lambda>p. Some (fx_root (if p = ''QA'' then 1 else 2))) path = Inr (fx_root (if path = ''QA'' then 1 else 2))" for path
    by (simp add: open_store_root_def fx_root_def require_allowed_canonical_root_def PROHIBITED_PREFIXES_def is_under_def str_prefix_def)
  have opened: "rfold (\<lambda>ac. open_copy Some (\<lambda>p. Some (fx_root (if p = ''QA'' then 1 else 2))) (rt_stores fx_tree) (snd ac)) (live_copies (rt_records fx_tree)) [] = Inr ?used"
    unfolding acs by (simp add: fx_tree_def open_copy_def fx_copy_def by_id allowed fail_unless_def) (simp add: fx_stores_def)
  have live: "rmap (verify_live_copy ?used) (live_copies (rt_records fx_tree)) = Inr [(), ()]"
    unfolding acs by (simp add: verify_live_copy_def fx_copy_def fx_root_def fx_copy_verifies fail_unless_def fx_record_def)
  have "independent_roots (map snd ?used)" by (simp add: fx_stores_def fx_root_def)
  then show ?thesis unfolding validate_operational_registry_def tree rbind_simps verify_registry_tree_def opened live by (simp add: fail_unless_def)
qed

theorem available_artifacts_verify_witness:
  "\<exists>portable. copies_bound (fx_record (sha256_hex fx_data)) portable"
  using available_artifacts_verify[OF fx_operational, of "hd (rt_records fx_tree)"] by (auto simp: fx_tree_def fx_record_def)

end
