(* ===== verification/Spec2Isabelle.thy ===== *)
theory Spec2Isabelle
  imports CrossCheck EngineLedger EngineResume FundingIndex FundingCoverage LaneIdentity NullComparator
    Snapshots Freshness IntegrityGate EngineRestart RunnerProtocol ExperimentAccounting ControlState ArtifactRegistry
begin

text \<open>
  A verification library for the paper accounting layer of the repository (\<open>quantbot/paper\<close> and
  \<open>quantbot/lab\<close>), the control state of the project (\<open>quantbot/control\<close>), the store of its frozen research inputs
  (\<open>quantbot/artifacts\<close>) and the experiment
  layer on top of the strategies (\<open>quantbot/strategy\<close>, \<open>quantbot/experiment\<close>).

  \<^bold>\<open>How the program works.\<close> A shadow observer writes a log of bars, each with its active symbols. A
  runner reads the log, refuses it unless the freshness gate accepts it, freezes the consumed rows as
  snapshots, and lets the engine replay every bar past the watermark of its state: fills at the open
  of the next bar, fees, funding, trades, equity. Rows go to JSONL ledgers and a SQLite store. A second
  engine recomputes the run independently and a cross-check compares the two. A coverage gate decides
  whether the funding history backs the windows of a run.

  \<^bold>\<open>Python.\<close> \<open>Prelude\<close> holds results (\<open>py_error + 'a\<close>), dictionaries as association lists in insertion
  order, sorted sets; \<open>PyFloat\<close> IEEE binary64 with exact rational values, correct rounding, \<open>round(x, 8)\<close>
  and the shortest representation; \<open>PyTime\<close> and \<open>PyCalendar\<close> instants in microseconds, the calendar,
  \<open>strptime\<close>, \<open>fromisoformat\<close>; \<open>PyStr\<close> and \<open>PyConv\<close> strings, conversions, equality and hashing of JSON values;
  \<open>PyJson\<close>, \<open>JsonLoads\<close> JSON values, their canonical text and the scanner of \<open>json.loads\<close>; \<open>PySha256\<close> the digest.

  \<^bold>\<open>Components.\<close>
  \<^item> \<open>PaperEngine\<close> (\<open>paper/engine.py\<close>, \<open>core/determinism.py\<close>): prices, funding index, state, the steps of
    \<open>run_engine\<close> in the order of the code. \<open>EngineLedger\<close> proves the ledger invariants, \<open>EngineResume\<close> idempotence
    and resumption, \<open>FundingIndex\<close> the exactness of the bisected accrual and that the events charged are those the
    coverage gate accepts, \<open>EngineRestart\<close> that the next run reads what a run leaves.
  \<^item> \<open>ReplayEngine\<close> (\<open>lab/replay_engine.py\<close>) and \<open>CrossCheck\<close> (\<open>lab/cross_check.py\<close>): the second engine and the
    comparison. \<open>EngineReplay\<close> relates the two engines bar by bar; \<open>Fixture\<close> is a concrete run. The two agree on
    zero-padded timestamps, naive or with a trailing \<open>Z\<close>; on an unpadded one, which the freshness gate takes too,
    the engine runs and the replay raises.
  \<^item> \<open>FundingTime\<close> (\<open>paper/funding_time.py\<close>) and \<open>FundingCoverage\<close> (\<open>paper/funding_coverage.py\<close>,
    \<open>paper/funding_status.py\<close>): windows, coverage decisions, the gate before a batch.
  \<^item> \<open>Freshness\<close> (\<open>paper/freshness.py\<close>): the gate on the observer's log and heartbeat.
  \<^item> \<open>Snapshots\<close> (\<open>paper/snapshots.py\<close>): freezing of consumed rows and the divergence check.
  \<^item> \<open>LedgerIO\<close> and \<open>LedgerAppend\<close> (\<open>paper/ledger.py\<close>): readers and validators of ledgers, summary and
    state; appending by id. \<open>JsonDump\<close>, \<open>FloatRepr\<close>, \<open>JsonRoundtrip\<close>, \<open>JsonText\<close>: what is written is read back.
  \<^item> \<open>PaperConfig\<close> (\<open>paper/config.py\<close>): the configuration contract, its hash and its file.
  \<^item> \<open>Reconcile\<close> and \<open>ReconcileState\<close> (\<open>paper/reconcile.py\<close>, over the mixed integer and float arithmetic of
    \<open>PyNum\<close>): the checks over the persisted ledgers and the state, the health gate before a run, the integrity gate
    before an OK commit. \<open>ReconcileSound\<close> and \<open>IntegrityGate\<close> show what a pass means.
  \<^item> \<open>PaperRows\<close> and \<open>Provenance\<close> (\<open>paper/engine.py\<close>, \<open>paper/provenance.py\<close>): the rows and the state as they are written,
    summaries, manifest and receipts of a run by its outcome. The decoders of a stored state (\<open>state_of_json\<close>,
    \<open>position_of_json\<close>) stand for the reads the engine makes in place.
  \<^item> \<open>Effects\<close> and \<open>Runner\<close> (\<open>paper/runner.py\<close>): a run as a program over the output directory. An act maps
    the directory to the writes it makes and a value or an exception; \<open>crash_point\<close> gives the directories a crash can
    leave, a torn append included. \<open>RunnerSafe\<close> shows that no crash point shows an OK without its evidence,
    \<open>RunnerProtocol\<close> that every run refines an abstract protocol on phases.
  \<^item> \<open>LaneIdentity\<close> (\<open>paper/lane_identity.py\<close>, \<open>paper/lane_config_hash.py\<close>), \<open>NullComparator\<close>
    (\<open>paper/null_comparator.py\<close>): identifiers and hashes of a lane, the random control group.
  \<^item> \<open>WalkForward\<close> (\<open>experiment/walkforward.py\<close>, \<open>experiment/gates.py\<close>, \<open>experiment/walkforward_runner.py\<close>): the windows of a
    walk-forward run, the collection of its splits and the gates on its result. \<open>split_loop\<close> is the \<open>while\<close> loop as a partial
    function: \<open>None\<close> is a loop without end.
  \<^item> \<open>Strategy\<close> (\<open>quantbot/strategy\<close>, \<open>data/types.py\<close>): bars, signals, five strategies as state transitions, and the locale
    \<open>bar_strategy\<close> of what the runner relies on, interpreted on each. \<open>StrategyHold\<close> proves the minimum hold of the breakout.
  \<^item> \<open>Experiment\<close> (\<open>replay/runner.py\<close>, \<open>experiment/runner.py\<close>): the replay receipt, position events, costs and returns of an
    experiment. \<open>ExperimentAccounting\<close> relates the two passes over the positions.
  \<^item> \<open>CanonicalDoc\<close> and \<open>ControlState\<close> (\<open>control/state.py\<close>): canonical documents, the control state, its authority and its transitions.
  \<^item> \<open>ArtifactManifest\<close>, \<open>ArtifactStore\<close>, \<open>ArtifactRegistry\<close> (\<open>artifacts/manifest.py\<close>, \<open>artifacts/store.py\<close>,
    \<open>artifacts/registry.py\<close>): the portable manifest of directory trees, the content-addressed store, the records of durable copies.
    \<open>ArtifactIdentity\<close> shows what a manifest identifies. \<open>ArtifactStore\<close> gives \<open>ingest\<close> twice: whole, and as \<open>writer_step\<close>, one
    access to the store at a time, so that any number of writers interleave in \<open>store_step\<close>; \<open>ingest_execution\<close> shows that the first is a run of
    the second. \<open>ArtifactRegistry\<close> ends in the live verification of every recorded copy. A store root is assumed to stay
    bound to its directory, and to hold no symlinks in place of directories or manifests.

  \<^bold>\<open>Bounds and fuel.\<close> The JSON scanner recurses on fuel \<open>2 * length + 2\<close>; \<open>scan_fuel_enough\<close> shows that more
  fuel gives the same result. No other definition has fuel; the directory scan ends by a measure on the trees still to visit.

  \<^bold>\<open>Simplifications.\<close> The sign of zero and the payload of NaN are not represented. A string is
  its UTF-8 form (\<open>Utf8\<close>); JSON text with a lone surrogate, which has none, is the error \<open>OutOfModel\<close>. Decimal digits
  outside ASCII are not read as digits. Years before 1000 are printed with four digits, where the C library drops the
  leading zeros. Active symbols other than strings, and timestamps other than strings, raise a \<open>TypeError\<close> in the
  engine's model; the freshness gate refuses both before a run. Texts of messages and of exceptions
  are left out. An exception loses the partially mutated state, as no caller reads it. Conversions
  follow CPython 3.12.

  \<^bold>\<open>Not modelled.\<close> Process I/O (locks, command lines, the temporary file behind an atomic replacement), SQL executed by
  SQLite, the restoration of an artifact, the frozen legacy packet behind the control state, the strategies over regime
  labels, which rest on logarithms, pandas loaders (their outputs are inputs of the model), the numerical research code, the
  offline validation reports and the tooling around git; see the manifest for each.
\<close>

end
